(* ===== verification/Remi_Prelude.thy ===== *)
theory Remi_Prelude
  imports Complex_Main "HOL-Library.Char_ord"
begin

text \<open>
  Shared vocabulary of the development: the collections of rewrite rules the component
  theories fill, the error type that stands for Python exceptions, the result type
  \<open>'a res\<close> of code that may raise, and the generic lemmas on lists, options and decimal
  numerals that several components use.
\<close>

named_theorems res_simps "rewriting of results and their composition"
named_theorems doc_simps "reading and updating documents"
named_theorems txn_defs "definitions of transaction bodies"

subsection \<open>Exceptions and results\<close>

text \<open>
  One constructor per exception class the modelled code raises or catches. The message of a
  Python exception never influences a caller, so it is not kept.
\<close>

datatype pyerr =
    TypeError
  | ValueError
  | KeyError
  | NotFound
  | AlreadyExists
  | Aborted
  | FirestoreContentionExhausted
  | InvalidArgument bool
  | LifecycleTransitionError
  | FinalizationDispatchUnavailable
  | RuntimeError
  | RedisError
  | SyncJobRunLeaseLost
  | OtherError string

type_synonym 'a res = "pyerr + 'a"

definition res_bind :: "'a res \<Rightarrow> ('a \<Rightarrow> 'b res) \<Rightarrow> 'b res" where
  "res_bind r f = (case r of Inl e \<Rightarrow> Inl e | Inr x \<Rightarrow> f x)"

lemma res_bind_simps [simp, res_simps]:
  "res_bind (Inl e) f = Inl e"
  "res_bind (Inr x) f = f x"
  by (simp_all add: res_bind_def)

lemma res_bind_InrE [elim!]:
  assumes "res_bind r f = Inr y"
  obtains x where "r = Inr x" and "f x = Inr y"
  using assms by (cases r) auto

lemma res_bind_eq_Inl [res_simps]:
  "res_bind r f = Inl e \<longleftrightarrow> r = Inl e \<or> (\<exists>x. r = Inr x \<and> f x = Inl e)"
  by (cases r) auto

subsection \<open>Decimal numerals\<close>

text \<open>The text Python prints for a non-negative integer, least significant digit last.\<close>

fun dec_nat :: "nat \<Rightarrow> string" where
  "dec_nat n = (if n < 10 then [char_of (48 + n)] else dec_nat (n div 10) @ [char_of (48 + n mod 10)])"

declare dec_nat.simps [simp del]

definition dec_int :: "int \<Rightarrow> string" where
  "dec_int i = (if i < 0 then CHR ''-'' # dec_nat (nat (- i)) else dec_nat (nat i))"

definition digit_of :: "char \<Rightarrow> int option" where
  "digit_of c = (let k = of_char c :: nat in if 48 \<le> k \<and> k \<le> 57 then Some (int k - 48) else None)"

lemma digit_of_char_of [simp]: "d < 10 \<Longrightarrow> digit_of (char_of (48 + d)) = Some (int d)"
  by (simp add: digit_of_def)

text \<open>
  The digit loop of Python's \<open>int(text)\<close>: digits with single underscores between them;
  \<open>prev\<close> says whether the previous character was a digit.
\<close>

fun digits_val :: "int \<Rightarrow> bool \<Rightarrow> string \<Rightarrow> int option" where
  "digits_val acc prev [] = (if prev then Some acc else None)"
| "digits_val acc prev (c # cs) =
     (case digit_of c of
        Some d \<Rightarrow> digits_val (acc * 10 + d) True cs
      | None \<Rightarrow> if c = CHR ''_'' \<and> prev then digits_val acc False cs else None)"

definition py_space :: "char \<Rightarrow> bool" where
  "py_space c = (let k = of_char c :: nat in (9 \<le> k \<and> k \<le> 13) \<or> (28 \<le> k \<and> k \<le> 32) \<or> k = 133 \<or> k = 160)"

definition py_strip :: "string \<Rightarrow> string" where
  "py_strip s = rev (dropWhile py_space (rev (dropWhile py_space s)))"

text \<open>Rounding to the nearest integer, halves to even, and truncation towards zero.\<close>

definition round_half_even :: "real \<Rightarrow> int" where
  "round_half_even x = (let n = \<lfloor>x\<rfloor>; r = x - of_int n in if r < 1 / 2 \<or> (r = 1 / 2 \<and> even n) then n else n + 1)"

definition py_trunc :: "real \<Rightarrow> int" where
  "py_trunc x = (if 0 \<le> x then \<lfloor>x\<rfloor> else \<lceil>x\<rceil>)"

text \<open>\<open>str.lower\<close> on ASCII text.\<close>

definition ascii_lower :: "string \<Rightarrow> string" where
  "ascii_lower s = map (\<lambda>c. let k = of_char c :: nat in if 65 \<le> k \<and> k \<le> 90 then char_of (k + 32) else c) s"

definition py_int_of_str :: "string \<Rightarrow> int option" where
  "py_int_of_str s =
     (case py_strip s of
        [] \<Rightarrow> None
      | c # cs \<Rightarrow>
          if c = CHR ''-'' then map_option uminus (digits_val 0 False cs)
          else if c = CHR ''+'' then digits_val 0 False cs
          else digits_val 0 False (c # cs))"

lemma digits_val_snoc:
  "digits_val acc p xs = Some v \<Longrightarrow> d < 10 \<Longrightarrow>
   digits_val acc p (xs @ [char_of (48 + d)]) = Some (v * 10 + int d)"
  by (induction acc p xs rule: digits_val.induct) (auto split: option.splits if_splits)

lemma digits_val_dec_nat: "digits_val 0 False (dec_nat n) = Some (int n)"
proof (induction n rule: dec_nat.induct)
  case (1 n)
  show ?case
  proof (cases "n < 10")
    case True
    then show ?thesis by (simp add: dec_nat.simps [of n])
  next
    case False
    have "digits_val 0 False (dec_nat (n div 10) @ [char_of (48 + n mod 10)]) =
        Some (int (n div 10) * 10 + int (n mod 10))"
      using "1.IH" False by (intro digits_val_snoc) simp_all
    also have "int (n div 10) * 10 + int (n mod 10) = int n"
      by (metis div_mult_mod_eq of_nat_add of_nat_mult of_nat_numeral)
    finally show ?thesis
      using False by (simp add: dec_nat.simps [of n])
  qed
qed

lemma dec_nat_digits: "c \<in> set (dec_nat n) \<Longrightarrow> digit_of c \<noteq> None"
proof (induction n rule: dec_nat.induct)
  case (1 n)
  then show ?case by (cases "n < 10") (auto simp: dec_nat.simps [of n])
qed

lemma dec_nat_not_Nil [simp]: "dec_nat n \<noteq> []"
  by (subst dec_nat.simps) simp

lemma digit_not_space: "digit_of c \<noteq> None \<Longrightarrow> \<not> py_space c"
  by (auto simp: digit_of_def py_space_def Let_def split: if_splits)

lemma py_strip_id: "\<forall>c\<in>set xs. \<not> py_space c \<Longrightarrow> py_strip xs = xs"
proof -
  assume ns: "\<forall>c\<in>set xs. \<not> py_space c"
  have dw: "dropWhile py_space ys = ys" if "\<forall>c\<in>set ys. \<not> py_space c" for ys
    using that by (cases ys) auto
  from ns show "py_strip xs = xs" by (simp add: py_strip_def dw)
qed

text \<open>Printing an integer and reading it back with \<open>int()\<close> gives the integer.\<close>

lemma py_int_of_str_dec_int [simp]: "py_int_of_str (dec_int i) = Some i"
proof (cases "i < 0")
  case True
  have "\<forall>c\<in>set (CHR ''-'' # dec_nat (nat (- i))). \<not> py_space c"
    using dec_nat_digits digit_not_space by (auto simp: py_space_def)
  then have "py_strip (CHR ''-'' # dec_nat (nat (- i))) = CHR ''-'' # dec_nat (nat (- i))"
    by (rule py_strip_id)
  with True show ?thesis
    by (simp add: py_int_of_str_def dec_int_def digits_val_dec_nat)
next
  case False
  obtain c cs where c: "dec_nat (nat i) = c # cs" by (cases "dec_nat (nat i)") auto
  then have d: "digit_of c \<noteq> None" using dec_nat_digits [of c "nat i"] by simp
  then have "c \<noteq> CHR ''-''" "c \<noteq> CHR ''+''" by (auto simp: digit_of_def)
  moreover have "py_strip (c # cs) = c # cs"
    using dec_nat_digits [of _ "nat i"] digit_not_space c by (intro py_strip_id) auto
  ultimately show ?thesis
    using False digits_val_dec_nat [of "nat i"] c by (simp add: py_int_of_str_def dec_int_def)
qed

lemma dec_int_inj [simp]: "dec_int m = dec_int n \<longleftrightarrow> m = n"
  by (metis option.inject py_int_of_str_dec_int)

lemma dec_nat_inj: "dec_nat m = dec_nat n \<longleftrightarrow> m = n"
  by (metis digits_val_dec_nat of_nat_eq_iff option.inject)

end
