(* ===== verification/Py_Value.thy ===== *)
theory Py_Value
  imports Remi_Prelude
begin

text \<open>
  The dynamically typed values the Python backend keeps in its documents, with the parts of
  the language's own semantics the modelled code relies on: truth value, the \<open>or\<close>
  operator, \<open>int()\<close>, \<open>str()\<close>, equality across numeric types, and dictionary access.
  A timestamp is a count of microseconds since the epoch (the resolution of
  \<open>datetime\<close>), a time span a count of microseconds. Strings are lists of characters with
  code points below 256.
\<close>

datatype pyval =
    PNone
  | PBool bool
  | PInt int
  | PFloat real
  | PStr string
  | PTime int
  | PList "pyval list"
  | PDict "(string \<times> pyval) list"

type_synonym doc = "string \<Rightarrow> pyval option"

subsection \<open>Truth value and the or operator\<close>

fun truthy :: "pyval \<Rightarrow> bool" where
  "truthy PNone = False"
| "truthy (PBool b) = b"
| "truthy (PInt n) = (n \<noteq> 0)"
| "truthy (PFloat r) = (r \<noteq> 0)"
| "truthy (PStr s) = (s \<noteq> [])"
| "truthy (PTime t) = True"
| "truthy (PList xs) = (xs \<noteq> [])"
| "truthy (PDict kvs) = (kvs \<noteq> [])"

definition py_or :: "pyval \<Rightarrow> pyval \<Rightarrow> pyval" where
  "py_or v w = (if truthy v then v else w)"

subsection \<open>Conversions\<close>

text \<open>\<open>int(v)\<close>: floats truncate towards zero, text is parsed, everything else raises.\<close>

fun py_int :: "pyval \<Rightarrow> int res" where
  "py_int (PInt n) = Inr n"
| "py_int (PBool b) = Inr (if b then 1 else 0)"
| "py_int (PFloat r) = Inr (if 0 \<le> r then \<lfloor>r\<rfloor> else \<lceil>r\<rceil>)"
| "py_int (PStr s) = (case py_int_of_str s of Some n \<Rightarrow> Inr n | None \<Rightarrow> Inl ValueError)"
| "py_int _ = Inl TypeError"

text \<open>
  \<open>str(v)\<close> on the values that occur where the code calls it. The text of floats,
  timestamps and containers is only ever compared with the literals of a status or a phase,
  to none of which it is equal; a tag stands for it.
\<close>

fun py_str :: "pyval \<Rightarrow> string" where
  "py_str (PStr s) = s"
| "py_str PNone = ''None''"
| "py_str (PBool b) = (if b then ''True'' else ''False'')"
| "py_str (PInt n) = dec_int n"
| "py_str (PFloat r) = ''<float>''"
| "py_str (PTime t) = ''<datetime>''"
| "py_str (PList xs) = ''<list>''"
| "py_str (PDict kvs) = ''<dict>''"

text \<open>
  \<open>isinstance\<close> tests: \<open>bool\<close> is a subclass of \<open>int\<close>. The numeric view decides
  equality across \<open>bool\<close>, \<open>int\<close> and \<open>float\<close>.
\<close>

fun as_int :: "pyval \<Rightarrow> int option" where
  "as_int (PInt n) = Some n"
| "as_int (PBool b) = Some (if b then 1 else 0)"
| "as_int _ = None"

fun as_str :: "pyval \<Rightarrow> string option" where
  "as_str (PStr s) = Some s"
| "as_str _ = None"

fun as_time :: "pyval \<Rightarrow> int option" where
  "as_time (PTime t) = Some t"
| "as_time _ = None"

fun num_of :: "pyval \<Rightarrow> real option" where
  "num_of (PInt n) = Some (of_int n)"
| "num_of (PBool b) = Some (if b then 1 else 0)"
| "num_of (PFloat r) = Some r"
| "num_of _ = None"

definition py_eq :: "pyval \<Rightarrow> pyval \<Rightarrow> bool" where
  "py_eq v w = (case (num_of v, num_of w) of (Some a, Some b) \<Rightarrow> a = b | _ \<Rightarrow> v = w)"

lemma py_eq_refl [simp]: "py_eq v v"
  by (simp add: py_eq_def split: option.split)

lemma py_eq_PInt [simp]: "py_eq (PInt m) (PInt n) \<longleftrightarrow> m = n"
  by (simp add: py_eq_def)

lemma py_eq_PStr [simp]: "py_eq v (PStr s) \<longleftrightarrow> v = PStr s"
  by (simp add: py_eq_def split: option.split)

lemma as_time_Some [simp]: "as_time v = Some t \<longleftrightarrow> v = PTime t"
  by (cases v) auto

lemma as_str_Some [simp]: "as_str v = Some s \<longleftrightarrow> v = PStr s"
  by (cases v) auto

subsection \<open>Dictionaries\<close>

text \<open>\<open>d.get(k)\<close> is \<open>None\<close> for an absent key.\<close>

definition dget :: "doc \<Rightarrow> string \<Rightarrow> pyval" where
  "dget d k = (case d k of None \<Rightarrow> PNone | Some v \<Rightarrow> v)"

lemma dget_simps [doc_simps]:
  "d k = None \<Longrightarrow> dget d k = PNone"
  "d k = Some v \<Longrightarrow> dget d k = v"
  by (simp_all add: dget_def)

text \<open>\<open>int(d.get(k) or n)\<close>, the reading of a counter with a default.\<close>

definition int_or :: "doc \<Rightarrow> string \<Rightarrow> int \<Rightarrow> int res" where
  "int_or d k n = py_int (py_or (dget d k) (PInt n))"

text \<open>\<open>str(d.get(k) or s)\<close>, the reading of a label with a default.\<close>

definition str_or :: "doc \<Rightarrow> string \<Rightarrow> string \<Rightarrow> string" where
  "str_or d k s = py_str (py_or (dget d k) (PStr s))"

text \<open>
  A counter field is well typed when it is absent or an integer. \<open>fint\<close> is then the value
  the code works with, and reading it cannot raise.
\<close>

definition int_field :: "doc \<Rightarrow> string \<Rightarrow> bool" where
  "int_field d k = (case d k of None \<Rightarrow> True | Some (PInt n) \<Rightarrow> True | _ \<Rightarrow> False)"

definition fint :: "doc \<Rightarrow> string \<Rightarrow> int \<Rightarrow> int" where
  "fint d k n = (case d k of Some (PInt m) \<Rightarrow> if m = 0 then n else m | _ \<Rightarrow> n)"

lemma int_or_field [simp, doc_simps]: "int_field d k \<Longrightarrow> int_or d k n = Inr (fint d k n)"
  by (auto simp: int_or_def fint_def int_field_def py_or_def dget_def
      split: option.splits pyval.splits)

lemma str_or_PStr [doc_simps]: "d k = Some (PStr s) \<Longrightarrow> s \<noteq> [] \<Longrightarrow> str_or d k t = s"
  by (simp add: str_or_def py_or_def dget_def)

lemma str_or_absent [doc_simps]: "d k = None \<Longrightarrow> str_or d k t = t"
  by (simp add: str_or_def py_or_def dget_def)

subsection \<open>Environment variables\<close>

type_synonym env = "string \<Rightarrow> string option"

definition getenv :: "env \<Rightarrow> string \<Rightarrow> string \<Rightarrow> string" where
  "getenv env k d = (case env k of None \<Rightarrow> d | Some s \<Rightarrow> s)"

text \<open>\<open>int(os.getenv(k, str(default)))\<close> with the \<open>except ValueError\<close> fallback.\<close>

definition env_int :: "env \<Rightarrow> string \<Rightarrow> int \<Rightarrow> int" where
  "env_int env k d = (case py_int_of_str (getenv env k (dec_int d)) of Some n \<Rightarrow> n | None \<Rightarrow> d)"

lemma env_int_unset [simp]: "env k = None \<Longrightarrow> env_int env k d = d"
  by (simp add: env_int_def getenv_def)

text \<open>Time spans: \<open>timedelta(seconds=n)\<close> in microseconds.\<close>

definition td_seconds :: "int \<Rightarrow> int" where
  "td_seconds n = n * 1000000"

lemma td_seconds_mono [simp]: "td_seconds m \<le> td_seconds n \<longleftrightarrow> m \<le> n"
  by (simp add: td_seconds_def)

end
