(* ===== verification/Firestore.thy ===== *)
theory Firestore
  imports Py_Value "HOL-Library.AList"
begin

text \<open>
  The document database the backend talks to is not part of the repository. A transaction
  body of the source is therefore modelled as a function of what it reads, returning its
  result and the list of writes it issues; this theory gives the vocabulary of those writes
  and states, as the locale \<open>firestore\<close>, what the code relies on the service to do with
  them. \<open>fetch\<close> and \<open>commit\<close> are parameters wherever a store is threaded.
\<close>

subsection \<open>Paths and writes\<close>

text \<open>A document path is its list of segments, collection names and document ids alternating.\<close>

type_synonym path = "string list"

datatype fval = Put pyval | DeleteField | Increment int | MergeMap "(string \<times> pyval) list" | ArrayUnion "pyval list"

type_synonym fields = "(string \<times> fval) list"

datatype "write" =
    Update path fields
  | SetDoc path fields
  | SetMerge path fields
  | Create path fields
  | Delete path

fun wpath :: "write \<Rightarrow> path" where
  "wpath (Update p fs) = p"
| "wpath (SetDoc p fs) = p"
| "wpath (SetMerge p fs) = p"
| "wpath (Create p fs) = p"
| "wpath (Delete p) = p"

text \<open>
  The documented effect of a field mapping on a document: a named field is stored, removed,
  incremented (an absent or non-numeric field counts as zero), merged entry by entry with a
  map (what a merging set does with a nested map; an empty map replaces), or extended by the
  elements it does not contain yet; every other field stays.
\<close>

fun merge_value :: "pyval option \<Rightarrow> pyval \<Rightarrow> pyval"
  and merge_entries :: "(string \<times> pyval) list \<Rightarrow> (string \<times> pyval) list \<Rightarrow> (string \<times> pyval) list" where
  "merge_value old (PDict kvs) =
     (if kvs = [] then PDict [] else PDict (merge_entries (case old of Some (PDict m) \<Rightarrow> m | _ \<Rightarrow> []) kvs))"
| "merge_value old v = v"
| "merge_entries m [] = m"
| "merge_entries m ((k, v) # kvs) = merge_entries (AList.update k (merge_value (map_of m k) v) m) kvs"

definition array_union :: "pyval option \<Rightarrow> pyval list \<Rightarrow> pyval" where
  "array_union old vs =
     PList (foldl (\<lambda>xs v. if v \<in> set xs then xs else xs @ [v]) (case old of Some (PList xs) \<Rightarrow> xs | _ \<Rightarrow> []) vs)"

definition incr_value :: "pyval option \<Rightarrow> int \<Rightarrow> pyval" where
  "incr_value v n = (case v of Some (PInt m) \<Rightarrow> PInt (m + n) | Some (PFloat r) \<Rightarrow> PFloat (r + of_int n) | _ \<Rightarrow> PInt n)"

definition upd_fields :: "doc \<Rightarrow> fields \<Rightarrow> doc" where
  "upd_fields d fs k =
     (case map_of fs k of
        None \<Rightarrow> d k
      | Some (Put v) \<Rightarrow> Some v
      | Some DeleteField \<Rightarrow> None
      | Some (Increment n) \<Rightarrow> Some (incr_value (d k) n)
      | Some (MergeMap kvs) \<Rightarrow> Some (merge_value (d k) (PDict kvs))
      | Some (ArrayUnion vs) \<Rightarrow> Some (array_union (d k) vs))"

lemma upd_fields_simps [simp, doc_simps]:
  "upd_fields d [] k = d k"
  "upd_fields d ((k', Put v) # fs) k = (if k = k' then Some v else upd_fields d fs k)"
  "upd_fields d ((k', DeleteField) # fs) k = (if k = k' then None else upd_fields d fs k)"
  "upd_fields d ((k', Increment n) # fs) k = (if k = k' then Some (incr_value (d k) n) else upd_fields d fs k)"
  "upd_fields d ((k', MergeMap kvs) # fs) k = (if k = k' then Some (merge_value (d k) (PDict kvs)) else upd_fields d fs k)"
  "upd_fields d ((k', ArrayUnion vs) # fs) k = (if k = k' then Some (array_union (d k) vs) else upd_fields d fs k)"
  by (simp_all add: upd_fields_def)

lemma upd_fields_other: "k \<notin> fst ` set fs \<Longrightarrow> upd_fields d fs k = d k"
  by (simp add: upd_fields_def map_of_eq_None_iff [THEN iffD2])

definition wdoc :: "write \<Rightarrow> doc option \<Rightarrow> doc option" where
  "wdoc w old = (case w of
       Update p fs \<Rightarrow> map_option (\<lambda>d. upd_fields d fs) old
     | SetDoc p fs \<Rightarrow> Some (upd_fields Map.empty fs)
     | SetMerge p fs \<Rightarrow> Some (upd_fields (case old of None \<Rightarrow> Map.empty | Some d \<Rightarrow> d) fs)
     | Create p fs \<Rightarrow> Some (upd_fields Map.empty fs)
     | Delete p \<Rightarrow> None)"

lemma wdoc_simps [simp, doc_simps]:
  "wdoc (Update p fs) (Some d) = Some (upd_fields d fs)"
  "wdoc (SetDoc p fs) old = Some (upd_fields Map.empty fs)"
  "wdoc (SetMerge p fs) None = Some (upd_fields Map.empty fs)"
  "wdoc (SetMerge p fs) (Some d) = Some (upd_fields d fs)"
  "wdoc (Create p fs) old = Some (upd_fields Map.empty fs)"
  "wdoc (Delete p) old = None"
  by (simp_all add: wdoc_def)

subsection \<open>Well-formed write sets\<close>

text \<open>
  The service rejects an update of a missing document and the creation of an existing one,
  reads a dotted key of an update as a nested field path, and merges a nested map of a merging
  set entry by entry. A write set the code issues is well formed when none of this happens and
  it names each document once; only for those is the effect of a commit assumed.
\<close>

fun write_ok :: "(path \<Rightarrow> doc option) \<Rightarrow> write \<Rightarrow> bool" where
  "write_ok rd (Update p fs) = (rd p \<noteq> None \<and> (\<forall>k \<in> fst ` set fs. CHR ''.'' \<notin> set k))"
| "write_ok rd (SetDoc p fs) = True"
| "write_ok rd (SetMerge p fs) = (\<forall>(k, v) \<in> set fs. CHR ''.'' \<notin> set k \<and> (\<forall>kvs. v \<noteq> Put (PDict kvs)))"
| "write_ok rd (Create p fs) = (rd p = None)"
| "write_ok rd (Delete p) = True"

definition writes_ok :: "(path \<Rightarrow> doc option) \<Rightarrow> write list \<Rightarrow> bool" where
  "writes_ok rd ws = (distinct (map wpath ws) \<and> (\<forall>w \<in> set ws. write_ok rd w))"

lemma writes_ok_simps [simp]:
  "writes_ok rd []"
  "writes_ok rd (w # ws) \<longleftrightarrow> write_ok rd w \<and> wpath w \<notin> wpath ` set ws \<and> writes_ok rd ws"
  by (auto simp: writes_ok_def)

text \<open>The document at \<open>p\<close> after the writes \<open>ws\<close>, given what was there before.\<close>

definition after :: "write list \<Rightarrow> path \<Rightarrow> doc option \<Rightarrow> doc option" where
  "after ws p old = (case List.find (\<lambda>w. wpath w = p) ws of None \<Rightarrow> old | Some w \<Rightarrow> wdoc w old)"

lemma after_simps [simp, doc_simps]:
  "after [] p old = old"
  "after (w # ws) p old = (if wpath w = p then wdoc w old else after ws p old)"
  by (simp_all add: after_def)

lemma after_untouched: "p \<notin> wpath ` set ws \<Longrightarrow> after ws p old = old"
  by (induction ws) auto

lemma after_append_other: "p \<notin> wpath ` set ws \<Longrightarrow> after (ws @ vs) p old = after vs p old"
  by (induction ws) auto

lemma after_append: "after (ws @ vs) p old = (if p \<in> wpath ` set ws then after ws p old else after vs p old)"
  by (induction ws) auto

text \<open>What is stored after a write set, seen as a function of paths.\<close>

definition after_view :: "write list \<Rightarrow> (path \<Rightarrow> doc option) \<Rightarrow> path \<Rightarrow> doc option" where
  "after_view ws rd = (\<lambda>p. after ws p (rd p))"

lemma after_view_Nil [simp]: "after_view [] rd = rd"
  by (simp add: after_view_def)

subsection \<open>What the code relies on\<close>

locale firestore =
  fixes fetch :: "'s \<Rightarrow> path \<Rightarrow> doc option"
    and commit :: "'s \<Rightarrow> write list \<Rightarrow> 's"
  assumes fetch_commit: "writes_ok (fetch st) ws \<Longrightarrow> fetch (commit st ws) p = after ws p (fetch st p)"
begin

lemma fetch_commit_other:
  "writes_ok (fetch st) ws \<Longrightarrow> p \<notin> wpath ` set ws \<Longrightarrow> fetch (commit st ws) p = fetch st p"
  by (simp add: fetch_commit after_untouched)

lemma fetch_commit_update:
  "fetch st p = Some d \<Longrightarrow> writes_ok (fetch st) (Update p fs # ws) \<Longrightarrow>
   fetch (commit st (Update p fs # ws)) p = Some (upd_fields d fs)"
  by (simp add: fetch_commit)

end

text \<open>
  Running a transaction body: the body sees the store through \<open>fetch\<close>; if it raises nothing
  is written, otherwise its writes are committed together.
\<close>

definition run_txn ::
  "('s \<Rightarrow> path \<Rightarrow> doc option) \<Rightarrow> ('s \<Rightarrow> write list \<Rightarrow> 's) \<Rightarrow>
   ((path \<Rightarrow> doc option) \<Rightarrow> ('r \<times> write list) res) \<Rightarrow> 's \<Rightarrow> 'r res \<times> 's" where
  "run_txn fetch commit body st =
     (case body (fetch st) of Inl e \<Rightarrow> (Inl e, st) | Inr (r, ws) \<Rightarrow> (Inr r, commit st ws))"

lemma run_txn_Inr [simp]: "body (fetch st) = Inr (r, ws) \<Longrightarrow> run_txn fetch commit body st = (Inr r, commit st ws)"
  by (simp add: run_txn_def)

lemma run_txn_Inl [simp]: "body (fetch st) = Inl e \<Longrightarrow> run_txn fetch commit body st = (Inl e, st)"
  by (simp add: run_txn_def)

subsection \<open>An in-memory store\<close>

text \<open>
  A map from paths to documents that applies a write set document by document satisfies the
  contract, so the contract is consistent; concrete runs are evaluated on it.
\<close>

type_synonym mem_store = "path \<Rightarrow> doc option"

definition mem_commit :: "mem_store \<Rightarrow> write list \<Rightarrow> mem_store" where
  "mem_commit st ws p = after ws p (st p)"

definition mem_fetch :: "mem_store \<Rightarrow> path \<Rightarrow> doc option" where
  "mem_fetch st = st"

interpretation mem: firestore mem_fetch mem_commit
  by unfold_locales (simp add: mem_fetch_def mem_commit_def)

end
