(* ===== verification/Finalization_Job.thy ===== *)
theory Finalization_Job
  imports Firestore
begin

text \<open>
  The transactions of \<^verbatim>\<open>database/conversation_finalization_jobs.py\<close> on one durable
  finalization job: resuming a job blocked on user keys, claiming its lease, completing,
  fencing, retrying, dead-lettering, replaying and abandoning it, and the claim and
  completion of its external fanout. Each body is a function of the store it reads and
  returns its result with the writes it issues. The counters of the terminal-outcome
  projection are written by the same bodies.
\<close>

subsection \<open>Constants and configuration\<close>

definition FINALIZATION_JOBS_COLLECTION :: string where
  "FINALIZATION_JOBS_COLLECTION = ''conversation_finalization_jobs''"

definition FINALIZATION_PROJECTION_COLLECTION :: string where
  "FINALIZATION_PROJECTION_COLLECTION = ''conversation_finalization_projection_shards''"

definition CONVERSATIONS_COLLECTION :: string where
  "CONVERSATIONS_COLLECTION = ''conversations''"

definition FINALIZATION_PROJECTION_GENERATION :: string where
  "FINALIZATION_PROJECTION_GENERATION = ''terminal-outcomes-v1''"

definition FINALIZATION_PROJECTION_SHARD_COUNT :: int where
  "FINALIZATION_PROJECTION_SHARD_COUNT = 16"

definition TERMINAL_JOB_STATUSES :: "string list" where
  "TERMINAL_JOB_STATUSES = [''completed'', ''dead_letter'']"

definition NONTERMINAL_JOB_STATUSES :: "string list" where
  "NONTERMINAL_JOB_STATUSES = [''queued'', ''leased'', ''blocked_byok'']"

definition BYOK_ABANDONED_FAILURE_CODE :: string where
  "BYOK_ABANDONED_FAILURE_CODE = ''byok_session_abandoned''"

definition DEFAULT_LEASE_SECONDS :: int where
  "DEFAULT_LEASE_SECONDS = 1500"

definition get_finalization_reconcile_stale_after :: "env \<Rightarrow> int" where
  "get_finalization_reconcile_stale_after env =
     td_seconds (max 30 (env_int env ''LISTEN_FINALIZATION_RECONCILE_STALE_SECONDS'' 300))"

definition get_stale_processing_orphan_after :: "env \<Rightarrow> int" where
  "get_stale_processing_orphan_after env =
     td_seconds (min 86400 (max 300 (env_int env ''LISTEN_FINALIZATION_ORPHAN_STALE_SECONDS'' 900)))"

definition get_byok_abandoned_after :: "env \<Rightarrow> int" where
  "get_byok_abandoned_after env =
     td_seconds (min (90 * 86400) (max 86400 (env_int env ''LISTEN_FINALIZATION_BYOK_ABANDONED_SECONDS'' (14 * 86400))))"

subsection \<open>Results\<close>

record finalization_intent =
  intent_job_id :: "string option"
  intent_status :: string
  intent_generation :: "int option"
  intent_requires_byok :: bool
  intent_fanout_key :: "string option"
  intent_created :: bool

record finalization_claim =
  claim_status :: string
  claim_lease_epoch :: "int option"
  claim_attempt_count :: int
  claim_created_at :: "int option"

record fanout_claim =
  fanout_claim_status :: string
  fanout_claim_key :: "string option"

record byok_abandonment =
  abandonment_status :: string
  conversation_outcome :: string

definition claim_result :: "string \<Rightarrow> int option \<Rightarrow> int \<Rightarrow> int option \<Rightarrow> finalization_claim" where
  "claim_result status epoch attempts created =
     \<lparr>claim_status = status, claim_lease_epoch = epoch, claim_attempt_count = attempts, claim_created_at = created\<rparr>"

definition intent_from_job :: "string \<Rightarrow> doc \<Rightarrow> bool \<Rightarrow> finalization_intent res" where
  "intent_from_job job_id data created =
     res_bind (int_or data ''dispatch_generation'' 1) (\<lambda>gen.
       Inr \<lparr>intent_job_id = Some job_id,
            intent_status = str_or data ''status'' ''queued'',
            intent_generation = Some gen,
            intent_requires_byok = truthy (dget data ''requires_byok''),
            intent_fanout_key = as_str (dget data ''fanout_key''),
            intent_created = created\<rparr>)"

definition no_finalization_intent :: "string \<Rightarrow> finalization_intent" where
  "no_finalization_intent status =
     \<lparr>intent_job_id = None, intent_status = status, intent_generation = None,
      intent_requires_byok = False, intent_fanout_key = None, intent_created = False\<rparr>"

subsection \<open>References\<close>

definition conversation_ref :: "string \<Rightarrow> string \<Rightarrow> path" where
  "conversation_ref uid conversation_id = [''users'', uid, CONVERSATIONS_COLLECTION, conversation_id]"

definition job_ref :: "string \<Rightarrow> path" where
  "job_ref job_id = [FINALIZATION_JOBS_COLLECTION, job_id]"

text \<open>\<open>path.split('/')\<close> and the user id of a four-segment conversation path.\<close>

fun py_split :: "char \<Rightarrow> string \<Rightarrow> string list" where
  "py_split c [] = [[]]"
| "py_split c (x # xs) =
     (if x = c then [] # py_split c xs
      else (case py_split c xs of [] \<Rightarrow> [[x]] | w # ws \<Rightarrow> (x # w) # ws))"

definition uid_from_conversation_path :: "string \<Rightarrow> string option" where
  "uid_from_conversation_path p =
     (case py_split (CHR ''/'') p of
        [a, b, c, d] \<Rightarrow> if a = ''users'' \<and> c = CONVERSATIONS_COLLECTION then Some b else None
      | _ \<Rightarrow> None)"

text \<open>
  The shard of a job is the first four bytes of its SHA-256 digest, big-endian, modulo the
  shard count; \<open>sha256\<close> is a parameter giving the digest bytes.
\<close>

definition projection_shard :: "(string \<Rightarrow> nat list) \<Rightarrow> string \<Rightarrow> int" where
  "projection_shard sha256 job_id =
     int (foldl (\<lambda>acc b. acc * 256 + b) 0 (take 4 (sha256 job_id))) mod FINALIZATION_PROJECTION_SHARD_COUNT"

definition projection_shard_id :: "string \<Rightarrow> int \<Rightarrow> string" where
  "projection_shard_id generation shard =
     generation @ ''-'' @ (if 0 \<le> shard \<and> shard < 10 then ''0'' else []) @ dec_int shard"

definition projection_ref_for_job :: "doc \<Rightarrow> path option" where
  "projection_ref_for_job job =
     (case (as_str (dget job ''projection_generation''), as_int (dget job ''projection_shard'')) of
        (Some generation, Some shard) \<Rightarrow>
          if generation \<noteq> FINALIZATION_PROJECTION_GENERATION
             \<or> \<not> (0 \<le> shard \<and> shard < FINALIZATION_PROJECTION_SHARD_COUNT) then None
          else Some [FINALIZATION_PROJECTION_COLLECTION, projection_shard_id generation shard]
      | _ \<Rightarrow> None)"

definition record_projection_delta :: "bool \<Rightarrow> doc \<Rightarrow> (string \<times> int) list \<Rightarrow> write list" where
  "record_projection_delta projection job deltas =
     (if \<not> projection then []
      else case projection_ref_for_job job of
        None \<Rightarrow> []
      | Some shard_ref \<Rightarrow>
          let incs = filter (\<lambda>(name, delta). delta \<noteq> 0) deltas in
          if incs = [] then []
          else [SetMerge shard_ref
                 ([(''generation'', Put (PStr FINALIZATION_PROJECTION_GENERATION)),
                   (''shard'', Put (PInt (the (as_int (dget job ''projection_shard'')))))]
                  @ map (\<lambda>(name, delta). (name, Increment delta)) incs)])"

definition is_current_lease :: "doc \<Rightarrow> int \<Rightarrow> int \<Rightarrow> bool res" where
  "is_current_lease job dispatch_generation lease_epoch =
     (if dget job ''status'' \<noteq> PStr ''leased'' then Inr False
      else res_bind (int_or job ''dispatch_generation'' 1) (\<lambda>g.
        if g \<noteq> dispatch_generation then Inr False
        else res_bind (int_or job ''lease_epoch'' 0) (\<lambda>e. Inr (e = lease_epoch))))"

subsection \<open>Resuming and claiming\<close>

definition resumed_update :: "int \<Rightarrow> fields" where
  "resumed_update now =
     [(''status'', Put (PStr ''queued'')),
      (''updated_at'', Put (PTime now)),
      (''last_byok_resume_at'', Put (PTime now)),
      (''reconcile_after_at'', DeleteField)]"

definition resume_blocked_byok_job_txn ::
  "bool \<Rightarrow> string \<Rightarrow> int \<Rightarrow> (path \<Rightarrow> doc option) \<Rightarrow> (finalization_intent \<times> write list) res" where
  "resume_blocked_byok_job_txn projection job_id now rd =
     (case rd (job_ref job_id) of
        None \<Rightarrow> Inr (no_finalization_intent ''missing'', [])
      | Some job \<Rightarrow>
          if dget job ''status'' = PStr ''blocked_byok'' \<and> truthy (dget job ''requires_byok'') then
            res_bind (intent_from_job job_id (job(''status'' \<mapsto> PStr ''queued'')) False) (\<lambda>intent.
              Inr (intent,
                Update (job_ref job_id) (resumed_update now)
                # record_projection_delta projection job [(''blocked_byok'', -1), (''queued'', 1)]))
          else
            res_bind (intent_from_job job_id job False) (\<lambda>intent. Inr (intent, [])))"

definition claimed_update :: "int \<Rightarrow> int \<Rightarrow> int \<Rightarrow> bool \<Rightarrow> fields" where
  "claimed_update now lease_expires_at lease_epoch requires_byok =
     [(''status'', Put (PStr ''leased'')),
      (''leased_at'', Put (PTime now)),
      (''lease_expires_at'', Put (PTime lease_expires_at)),
      (''lease_epoch'', Put (PInt lease_epoch)),
      (''reconcile_after_at'', if requires_byok then DeleteField else Put (PTime lease_expires_at)),
      (''updated_at'', Put (PTime now))]"

definition claim_finalization_job_txn ::
  "bool \<Rightarrow> string \<Rightarrow> int \<Rightarrow> bool \<Rightarrow> int \<Rightarrow> int \<Rightarrow> string option \<Rightarrow> string option \<Rightarrow>
   (path \<Rightarrow> doc option) \<Rightarrow> (finalization_claim \<times> write list) res" where
  "claim_finalization_job_txn projection job_id dispatch_generation allow_byok lease_seconds now
     expected_uid expected_conversation_id rd =
     (case rd (job_ref job_id) of
        None \<Rightarrow> Inr (claim_result ''missing'' None 0 None, [])
      | Some job \<Rightarrow>
          let status = str_or job ''status'' [];
              requires_byok = truthy (dget job ''requires_byok'');
              done = (\<lambda>s. Inr (claim_result s None 0 None, []))
          in
          if (case expected_uid of None \<Rightarrow> False | Some u \<Rightarrow> dget job ''uid'' \<noteq> PStr u) then done ''identity_mismatch''
          else if (case expected_conversation_id of None \<Rightarrow> False | Some c \<Rightarrow> dget job ''conversation_id'' \<noteq> PStr c)
          then done ''identity_mismatch''
          else if status = ''completed'' \<and> dget job ''finalization_outcome'' = PStr ''fenced'' then done ''fenced''
          else if status \<in> set TERMINAL_JOB_STATUSES then done status
          else if requires_byok \<and> \<not> allow_byok then done ''blocked_byok''
          else if status = ''blocked_byok'' then done ''blocked_byok''
          else res_bind (int_or job ''dispatch_generation'' 1) (\<lambda>generation.
            if generation \<noteq> dispatch_generation then done ''stale_generation''
            else if status = ''leased'' \<and>
                (case as_time (dget job ''lease_expires_at'') of None \<Rightarrow> False | Some t \<Rightarrow> t > now)
            then done ''leased''
            else if status \<notin> {''queued'', ''leased''} then done ''not_actionable''
            else res_bind (int_or job ''lease_epoch'' 0) (\<lambda>epoch.
              res_bind (int_or job ''attempt_count'' 0) (\<lambda>attempt_count.
                let lease_epoch = epoch + 1;
                    lease_expires_at = now + td_seconds lease_seconds
                in Inr (claim_result ''claimed'' (Some lease_epoch) attempt_count
                          (as_time (dget job ''created_at'')),
                     Update (job_ref job_id) (claimed_update now lease_expires_at lease_epoch requires_byok)
                     # (if status = ''queued''
                        then record_projection_delta projection job [(''queued'', -1), (''leased'', 1)] else []))))))"

subsection \<open>Terminal outcomes of a lease\<close>

definition completed_update :: "int \<Rightarrow> fields" where
  "completed_update now =
     [(''status'', Put (PStr ''completed'')),
      (''completed_at'', Put (PTime now)),
      (''terminal_outcome'', Put (PStr ''success'')),
      (''updated_at'', Put (PTime now)),
      (''lease_expires_at'', Put (PTime now)),
      (''reconcile_after_at'', DeleteField),
      (''last_failure_code'', Put PNone)]"

definition mark_finalization_completed_txn ::
  "bool \<Rightarrow> string \<Rightarrow> int \<Rightarrow> int \<Rightarrow> int \<Rightarrow> (path \<Rightarrow> doc option) \<Rightarrow> (bool \<times> write list) res" where
  "mark_finalization_completed_txn projection job_id dispatch_generation lease_epoch now rd =
     (case rd (job_ref job_id) of
        None \<Rightarrow> Inr (False, [])
      | Some job \<Rightarrow>
          if dget job ''status'' = PStr ''completed''
          then res_bind (int_or job ''lease_epoch'' 0) (\<lambda>e. Inr (e = lease_epoch, []))
          else res_bind (is_current_lease job dispatch_generation lease_epoch) (\<lambda>current.
            if \<not> current then Inr (False, [])
            else if dget job ''fanout_status'' \<noteq> PStr ''completed'' then Inr (False, [])
            else Inr (True,
              Update (job_ref job_id) (completed_update now)
              # record_projection_delta projection job [(''leased'', -1), (''completed'', 1), (''success'', 1)])))"

definition fenced_finalization_update :: "int \<Rightarrow> fields" where
  "fenced_finalization_update now =
     [(''status'', Put (PStr ''completed'')),
      (''completed_at'', Put (PTime now)),
      (''updated_at'', Put (PTime now)),
      (''lease_expires_at'', Put (PTime now)),
      (''reconcile_after_at'', DeleteField),
      (''last_failure_code'', Put PNone),
      (''finalization_outcome'', Put (PStr ''fenced'')),
      (''terminal_outcome'', Put (PStr ''stale'')),
      (''fanout_status'', Put (PStr ''fenced'')),
      (''fanout_fenced_at'', Put (PTime now))]"

definition mark_finalization_fenced_txn ::
  "bool \<Rightarrow> string \<Rightarrow> int \<Rightarrow> int \<Rightarrow> int \<Rightarrow> (path \<Rightarrow> doc option) \<Rightarrow> (bool \<times> write list) res" where
  "mark_finalization_fenced_txn projection job_id dispatch_generation lease_epoch now rd =
     (case rd (job_ref job_id) of
        None \<Rightarrow> Inr (False, [])
      | Some job \<Rightarrow>
          if dget job ''status'' = PStr ''completed'' then
            (if dget job ''finalization_outcome'' \<noteq> PStr ''fenced'' then Inr (False, [])
             else res_bind (int_or job ''lease_epoch'' 0) (\<lambda>e. Inr (e = lease_epoch, [])))
          else res_bind (is_current_lease job dispatch_generation lease_epoch) (\<lambda>current.
            if \<not> current then Inr (False, [])
            else if dget job ''fanout_status'' \<notin> {PNone, PStr ''pending''} then Inr (False, [])
            else Inr (True,
              Update (job_ref job_id) (fenced_finalization_update now)
              # record_projection_delta projection job [(''leased'', -1), (''completed'', 1), (''stale'', 1)])))"

definition retry_update :: "env \<Rightarrow> int \<Rightarrow> int \<Rightarrow> bool \<Rightarrow> string \<Rightarrow> fields" where
  "retry_update env now attempt_count requires_byok failure_code =
     [(''status'', Put (PStr ''queued'')),
      (''updated_at'', Put (PTime now)),
      (''lease_expires_at'', Put (PTime now)),
      (''attempt_count'', Put (PInt attempt_count)),
      (''reconcile_after_at'',
         if requires_byok then DeleteField
         else Put (PTime (now + get_finalization_reconcile_stale_after env))),
      (''last_failure_code'', Put (PStr failure_code))]"

definition mark_finalization_retryable_txn ::
  "env \<Rightarrow> bool \<Rightarrow> string \<Rightarrow> int \<Rightarrow> int \<Rightarrow> string \<Rightarrow> int \<Rightarrow> (path \<Rightarrow> doc option) \<Rightarrow> (bool \<times> write list) res" where
  "mark_finalization_retryable_txn env projection job_id dispatch_generation lease_epoch failure_code now rd =
     (case rd (job_ref job_id) of
        None \<Rightarrow> Inr (False, [])
      | Some job \<Rightarrow>
          res_bind (is_current_lease job dispatch_generation lease_epoch) (\<lambda>current.
            if \<not> current then Inr (False, [])
            else res_bind (int_or job ''attempt_count'' 0) (\<lambda>attempts. Inr (True,
              Update (job_ref job_id)
                (retry_update env now (attempts + 1) (truthy (dget job ''requires_byok'')) failure_code)
              # record_projection_delta projection job [(''leased'', -1), (''queued'', 1)]))))"

text \<open>
  The identity of the bound conversation: both fields must be non-empty strings, otherwise no
  conversation is read.
\<close>

definition bound_conversation :: "doc \<Rightarrow> (string \<times> string) option" where
  "bound_conversation job =
     (case (as_str (dget job ''uid''), as_str (dget job ''conversation_id'')) of
        (Some uid, Some conversation_id) \<Rightarrow>
          if uid \<noteq> [] \<and> conversation_id \<noteq> [] then Some (uid, conversation_id) else None
      | _ \<Rightarrow> None)"

definition dead_letter_update :: "int \<Rightarrow> int \<Rightarrow> fields" where
  "dead_letter_update now retry_count =
     [(''status'', Put (PStr ''dead_letter'')),
      (''updated_at'', Put (PTime now)),
      (''terminal_at'', Put (PTime now)),
      (''terminal_outcome'', Put (PStr ''failure'')),
      (''lease_expires_at'', Put (PTime now)),
      (''reconcile_after_at'', DeleteField),
      (''task_retry_count'', Put (PInt retry_count)),
      (''last_failure_code'', Put (PStr ''final_attempt_failed''))]"

text \<open>
  The conversation a job is still the owner of: it exists, is still processing, was not
  discarded, and names this job and its revision.
\<close>

definition dead_letter_conversation_writes :: "string \<Rightarrow> doc \<Rightarrow> (path \<Rightarrow> doc option) \<Rightarrow> write list" where
  "dead_letter_conversation_writes job_id job rd =
     (case bound_conversation job of
        None \<Rightarrow> []
      | Some (uid, conversation_id) \<Rightarrow>
          (case rd (conversation_ref uid conversation_id) of
             None \<Rightarrow> []
           | Some conversation \<Rightarrow>
               if dget conversation ''status'' = PStr ''processing''
                  \<and> \<not> truthy (dget conversation ''discarded'')
                  \<and> dget conversation ''finalization_job_id'' = PStr job_id
                  \<and> py_eq (dget conversation ''finalization_revision'') (dget job ''finalization_revision'')
               then [Update (conversation_ref uid conversation_id)
                       [(''status'', Put (PStr ''failed'')),
                        (''discarded'', Put (PBool True)),
                        (''finalization_status'', Put (PStr ''dead_letter''))]]
               else []))"

definition mark_finalization_dead_letter_txn ::
  "bool \<Rightarrow> string \<Rightarrow> int \<Rightarrow> int \<Rightarrow> int \<Rightarrow> int \<Rightarrow> (path \<Rightarrow> doc option) \<Rightarrow> (bool \<times> write list) res" where
  "mark_finalization_dead_letter_txn projection job_id dispatch_generation lease_epoch retry_count now rd =
     (case rd (job_ref job_id) of
        None \<Rightarrow> Inr (False, [])
      | Some job \<Rightarrow>
          res_bind (is_current_lease job dispatch_generation lease_epoch) (\<lambda>current.
            if \<not> current then Inr (False, [])
            else Inr (True,
              Update (job_ref job_id) (dead_letter_update now retry_count)
              # record_projection_delta projection job [(''leased'', -1), (''dead_letter'', 1), (''failure'', 1)]
              @ dead_letter_conversation_writes job_id job rd)))"

subsection \<open>The external fanout\<close>

definition fanout_key :: "doc \<Rightarrow> string res" where
  "fanout_key job =
     (case as_str (dget job ''fanout_key'') of
        Some (c # cs) \<Rightarrow> Inr (c # cs)
      | _ \<Rightarrow> res_bind (int_or job ''finalization_revision'' 1) (\<lambda>revision.
          Inr (''conversation:''
               @ (case job ''conversation_id'' of None \<Rightarrow> [] | Some v \<Rightarrow> py_str v)
               @ '':finalization:'' @ dec_int revision)))"

definition conversation_admits_fanout :: "doc \<Rightarrow> doc \<Rightarrow> string \<Rightarrow> bool" where
  "conversation_admits_fanout conversation job job_id =
     (if truthy (dget conversation ''discarded'') \<or> dget conversation ''status'' \<noteq> PStr ''completed'' then False
      else if dget conversation ''finalization_job_id'' \<noteq> PStr job_id then False
      else (case (int_or conversation ''finalization_revision'' 0, int_or job ''finalization_revision'' 0) of
              (Inr a, Inr b) \<Rightarrow> a = b
            | _ \<Rightarrow> False))"

definition fanout_claimed_update :: "int \<Rightarrow> string \<Rightarrow> int \<Rightarrow> fields" where
  "fanout_claimed_update now key lease_epoch =
     [(''fanout_key'', Put (PStr key)),
      (''fanout_status'', Put (PStr ''leased'')),
      (''fanout_lease_epoch'', Put (PInt lease_epoch)),
      (''fanout_started_at'', Put (PTime now)),
      (''updated_at'', Put (PTime now))]"

definition claim_finalization_fanout_txn ::
  "bool \<Rightarrow> string \<Rightarrow> int \<Rightarrow> int \<Rightarrow> int \<Rightarrow> (path \<Rightarrow> doc option) \<Rightarrow> (fanout_claim \<times> write list) res" where
  "claim_finalization_fanout_txn projection job_id dispatch_generation lease_epoch now rd =
     (case rd (job_ref job_id) of
        None \<Rightarrow> Inr (\<lparr>fanout_claim_status = ''missing'', fanout_claim_key = None\<rparr>, [])
      | Some job \<Rightarrow>
          res_bind (fanout_key job) (\<lambda>key.
            let result = (\<lambda>s. \<lparr>fanout_claim_status = s, fanout_claim_key = Some key\<rparr>);
                fenced = Inr (result ''fenced'',
                  Update (job_ref job_id) (fenced_finalization_update now)
                  # record_projection_delta projection job [(''leased'', -1), (''completed'', 1), (''stale'', 1)])
            in
            if dget job ''fanout_status'' = PStr ''completed'' then Inr (result ''completed'', [])
            else res_bind (is_current_lease job dispatch_generation lease_epoch) (\<lambda>current.
              if \<not> current then Inr (result ''lease_conflict'', [])
              else (case bound_conversation job of
                  None \<Rightarrow> fenced
                | Some (uid, conversation_id) \<Rightarrow>
                    (case rd (conversation_ref uid conversation_id) of
                       None \<Rightarrow> fenced
                     | Some conversation \<Rightarrow>
                         if \<not> conversation_admits_fanout conversation job job_id then fenced
                         else Inr (result ''claimed'',
                           [Update (job_ref job_id) (fanout_claimed_update now key lease_epoch)]))))))"

definition fanout_done_update :: "int \<Rightarrow> fields" where
  "fanout_done_update now =
     [(''fanout_status'', Put (PStr ''completed'')),
      (''fanout_completed_at'', Put (PTime now)),
      (''updated_at'', Put (PTime now))]"

definition mark_finalization_fanout_completed_txn ::
  "string \<Rightarrow> int \<Rightarrow> int \<Rightarrow> int \<Rightarrow> (path \<Rightarrow> doc option) \<Rightarrow> (bool \<times> write list) res" where
  "mark_finalization_fanout_completed_txn job_id dispatch_generation lease_epoch now rd =
     (case rd (job_ref job_id) of
        None \<Rightarrow> Inr (False, [])
      | Some job \<Rightarrow>
          if dget job ''fanout_status'' = PStr ''completed''
          then res_bind (int_or job ''fanout_lease_epoch'' 0) (\<lambda>e. Inr (e = lease_epoch, []))
          else res_bind (is_current_lease job dispatch_generation lease_epoch) (\<lambda>current.
            if \<not> current then Inr (False, [])
            else Inr (True, [Update (job_ref job_id) (fanout_done_update now)])))"

subsection \<open>Replay and abandonment\<close>

definition replayed_update :: "int \<Rightarrow> int \<Rightarrow> int \<Rightarrow> fields" where
  "replayed_update now generation stale_after =
     [(''status'', Put (PStr ''queued'')),
      (''dispatch_generation'', Put (PInt generation)),
      (''dispatch_requested_at'', Put (PTime now)),
      (''updated_at'', Put (PTime now)),
      (''lease_expires_at'', Put (PTime now)),
      (''reconcile_after_at'', Put (PTime (now + stale_after)))]"

definition claim_finalization_replay_txn ::
  "bool \<Rightarrow> string \<Rightarrow> int \<Rightarrow> int \<Rightarrow> (path \<Rightarrow> doc option) \<Rightarrow> (finalization_intent \<times> write list) res" where
  "claim_finalization_replay_txn projection job_id stale_after now rd =
     (case rd (job_ref job_id) of
        None \<Rightarrow> Inr (no_finalization_intent ''missing'', [])
      | Some job \<Rightarrow>
          let status = str_or job ''status'' [];
              keep = res_bind (intent_from_job job_id job False) (\<lambda>intent. Inr (intent, []))
          in
          if status = ''blocked_byok'' \<or> status \<in> set TERMINAL_JOB_STATUSES then keep
          else if status = ''leased'' \<and>
              (case as_time (dget job ''lease_expires_at'') of None \<Rightarrow> False | Some t \<Rightarrow> t > now) then keep
          else if status = ''queued'' \<and>
              (case as_time (dget job ''dispatch_requested_at'') of None \<Rightarrow> False | Some t \<Rightarrow> t > now - stale_after) then keep
          else if status \<notin> {''queued'', ''leased''} then keep
          else res_bind (int_or job ''dispatch_generation'' 1) (\<lambda>gen.
            let generation = gen + 1 in
            res_bind (intent_from_job job_id
                (job(''status'' \<mapsto> PStr ''queued'', ''dispatch_generation'' \<mapsto> PInt generation)) False) (\<lambda>intent.
              Inr (intent,
                Update (job_ref job_id) (replayed_update now generation stale_after)
                # (if status = ''leased''
                   then record_projection_delta projection job [(''leased'', -1), (''queued'', 1)] else [])))))"

definition job_last_activity_at :: "doc \<Rightarrow> int option" where
  "job_last_activity_at job =
     (case as_time (dget job ''updated_at'') of
        Some t \<Rightarrow> Some t
      | None \<Rightarrow> as_time (dget job ''created_at''))"

definition byok_abandonment :: "string \<Rightarrow> string \<Rightarrow> byok_abandonment" where
  "byok_abandonment status outcome = \<lparr>abandonment_status = status, conversation_outcome = outcome\<rparr>"

definition abandoned_update :: "int \<Rightarrow> fields" where
  "abandoned_update now =
     [(''status'', Put (PStr ''dead_letter'')),
      (''updated_at'', Put (PTime now)),
      (''terminal_at'', Put (PTime now)),
      (''terminal_outcome'', Put (PStr ''failure'')),
      (''finalization_outcome'', Put (PStr BYOK_ABANDONED_FAILURE_CODE)),
      (''lease_expires_at'', Put (PTime now)),
      (''reconcile_after_at'', DeleteField),
      (''fanout_status'', Put (PStr ''fenced'')),
      (''fanout_fenced_at'', Put (PTime now)),
      (''last_failure_code'', Put (PStr BYOK_ABANDONED_FAILURE_CODE))]"

text \<open>What becomes of the bound conversation when its job is abandoned.\<close>

definition abandoned_conversation ::
  "string \<Rightarrow> doc \<Rightarrow> (path \<Rightarrow> doc option) \<Rightarrow> string \<times> write list" where
  "abandoned_conversation job_id job rd =
     (case bound_conversation job of
        None \<Rightarrow> (''missing'', [])
      | Some (uid, conversation_id) \<Rightarrow>
          (case rd (conversation_ref uid conversation_id) of
             None \<Rightarrow> (''missing'', [])
           | Some conversation \<Rightarrow>
               if dget conversation ''finalization_job_id'' \<noteq> PStr job_id
                  \<or> \<not> py_eq (dget conversation ''finalization_revision'') (dget job ''finalization_revision'')
               then (''unbound'', [])
               else if dget conversation ''status'' \<noteq> PStr ''processing''
                  \<or> truthy (dget conversation ''discarded'')
               then (''already_terminal'', [])
               else if truthy (dget conversation ''deferred'') then (''deferred'', [])
               else (''closed'',
                      [Update (conversation_ref uid conversation_id)
                         [(''status'', Put (PStr ''completed'')),
                          (''finalization_status'', Put (PStr ''dead_letter''))]])))"

definition abandon_byok_finalization_job_txn ::
  "bool \<Rightarrow> string \<Rightarrow> string \<Rightarrow> int \<Rightarrow> int \<Rightarrow> int \<Rightarrow> int \<Rightarrow>
   (path \<Rightarrow> doc option) \<Rightarrow> (byok_abandonment \<times> write list) res" where
  "abandon_byok_finalization_job_txn projection job_id expected_status expected_dispatch_generation
     expected_lease_epoch cutoff now rd =
     (case rd (job_ref job_id) of
        None \<Rightarrow> Inr (byok_abandonment ''missing'' ''none'', [])
      | Some job \<Rightarrow>
          let status = str_or job ''status'' [];
              fenced = Inr (byok_abandonment ''fenced'' ''none'', [])
          in
          if \<not> truthy (dget job ''requires_byok'') then fenced
          else if status \<notin> {''queued'', ''leased''} \<or> status \<noteq> expected_status then fenced
          else res_bind (int_or job ''dispatch_generation'' 1) (\<lambda>generation.
            if generation \<noteq> expected_dispatch_generation then fenced
            else res_bind (int_or job ''lease_epoch'' 0) (\<lambda>epoch.
              if epoch \<noteq> expected_lease_epoch then fenced
              else if status = ''leased'' \<and>
                  (case as_time (dget job ''lease_expires_at'') of None \<Rightarrow> False | Some t \<Rightarrow> t > now) then fenced
              else if (case job_last_activity_at job of None \<Rightarrow> True | Some t \<Rightarrow> t > cutoff) then fenced
              else
                let (outcome, conversation_writes) = abandoned_conversation job_id job rd in
                Inr (byok_abandonment ''abandoned'' outcome,
                  Update (job_ref job_id) (abandoned_update now)
                  # record_projection_delta projection job
                      [(''queued'', if status = ''queued'' then -1 else 0),
                       (''leased'', if status = ''leased'' then -1 else 0),
                       (''dead_letter'', 1), (''failure'', 1)]
                  @ conversation_writes))))"

subsection \<open>Public entry points\<close>

text \<open>
  Each public function runs its transaction body against the store, with the projection
  collection present and the current time read once.
\<close>

definition resume_blocked_byok_job_for_live_session where
  "resume_blocked_byok_job_for_live_session fetch commit st job_id now =
     run_txn fetch commit (resume_blocked_byok_job_txn True job_id now) st"

definition claim_finalization_job where
  "claim_finalization_job fetch commit st job_id dispatch_generation allow_byok lease_seconds
     expected_uid expected_conversation_id now =
     run_txn fetch commit (claim_finalization_job_txn True job_id dispatch_generation allow_byok
       lease_seconds now expected_uid expected_conversation_id) st"

definition mark_finalization_completed where
  "mark_finalization_completed fetch commit st job_id dispatch_generation lease_epoch now =
     run_txn fetch commit (mark_finalization_completed_txn True job_id dispatch_generation lease_epoch now) st"

definition mark_finalization_fenced where
  "mark_finalization_fenced fetch commit st job_id dispatch_generation lease_epoch now =
     run_txn fetch commit (mark_finalization_fenced_txn True job_id dispatch_generation lease_epoch now) st"

definition claim_finalization_fanout where
  "claim_finalization_fanout fetch commit st job_id dispatch_generation lease_epoch now =
     run_txn fetch commit (claim_finalization_fanout_txn True job_id dispatch_generation lease_epoch now) st"

definition mark_finalization_fanout_completed where
  "mark_finalization_fanout_completed fetch commit st job_id dispatch_generation lease_epoch now =
     run_txn fetch commit (mark_finalization_fanout_completed_txn job_id dispatch_generation lease_epoch now) st"

definition mark_finalization_retryable where
  "mark_finalization_retryable env fetch commit st job_id dispatch_generation lease_epoch failure_code now =
     run_txn fetch commit
       (mark_finalization_retryable_txn env True job_id dispatch_generation lease_epoch failure_code now) st"

definition mark_finalization_dead_letter where
  "mark_finalization_dead_letter fetch commit st job_id dispatch_generation lease_epoch retry_count now =
     run_txn fetch commit
       (mark_finalization_dead_letter_txn True job_id dispatch_generation lease_epoch retry_count now) st"

definition claim_finalization_replay where
  "claim_finalization_replay fetch commit st job_id stale_after now =
     run_txn fetch commit (claim_finalization_replay_txn True job_id stale_after now) st"

definition abandon_byok_finalization_job where
  "abandon_byok_finalization_job fetch commit st job_id expected_status expected_dispatch_generation
     expected_lease_epoch abandoned_after now =
     run_txn fetch commit (abandon_byok_finalization_job_txn True job_id expected_status
       expected_dispatch_generation expected_lease_epoch (now - abandoned_after) now) st"

lemmas job_update_defs =
  resumed_update_def claimed_update_def completed_update_def fenced_finalization_update_def retry_update_def
  dead_letter_update_def fanout_claimed_update_def fanout_done_update_def replayed_update_def abandoned_update_def

subsection \<open>Bounds of the configuration\<close>

text \<open>
  Whatever the environment holds, malformed text included, the recovery delays stay in
  their bounds: at least half a minute before a replay, between five minutes and a day before
  a conversation counts as orphaned, between one and ninety days before a user-key job is
  abandoned. Unset variables give five minutes, a quarter of an hour and fourteen days.
\<close>

lemma recovery_delays_bounded:
  "td_seconds 30 \<le> get_finalization_reconcile_stale_after env
   \<and> td_seconds 300 \<le> get_stale_processing_orphan_after env \<and> get_stale_processing_orphan_after env \<le> td_seconds 86400
   \<and> td_seconds 86400 \<le> get_byok_abandoned_after env \<and> get_byok_abandoned_after env \<le> td_seconds (90 * 86400)
   \<and> get_finalization_reconcile_stale_after (\<lambda>k. None) = td_seconds 300
   \<and> get_stale_processing_orphan_after (\<lambda>k. None) = td_seconds 900
   \<and> get_byok_abandoned_after (\<lambda>k. None) = td_seconds (14 * 86400)"
  by (simp add: get_finalization_reconcile_stale_after_def get_stale_processing_orphan_after_def get_byok_abandoned_after_def)

end
