(* ===== verification/Finalization_Machine.thy ===== *)
theory Finalization_Machine
  imports Finalization_Job
begin

text \<open>
  The abstract life cycle of a finalization job and its refinement by the transactions of
  \<open>Finalization_Job\<close>. A job document is well typed (\<open>wf_job\<close>) when its status is one of
  the five of the source and its counters are integers; \<open>abs_job\<close> then reads off the
  abstract state, and every transaction either leaves it unchanged or performs the one
  abstract step its label names.
\<close>

subsection \<open>Abstract states and steps\<close>

datatype jstatus = Queued | Leased | Completed | Dead_Letter | Blocked_Byok

datatype fstatus = F_Pending | F_Leased | F_Completed | F_Fenced

datatype outcome = Success | Failure | Stale

record ajob =
  a_status :: jstatus
  a_generation :: int
  a_epoch :: int
  a_attempts :: int
  a_byok :: bool
  a_fanout :: fstatus
  a_outcome :: "outcome option"
  a_reconcile :: bool

datatype jlabel =
    L_Resume | L_Claim | L_Complete | L_Fence | L_Fanout_Claim | L_Fanout_Done
  | L_Retry | L_Dead | L_Replay | L_Abandon

inductive ajob_step :: "jlabel \<Rightarrow> ajob \<Rightarrow> ajob \<Rightarrow> bool" where
  resume: "a_status a = Blocked_Byok \<Longrightarrow> a_byok a \<Longrightarrow>
    ajob_step L_Resume a (a\<lparr>a_status := Queued, a_reconcile := False\<rparr>)"
| claim: "a_status a \<in> {Queued, Leased} \<Longrightarrow>
    ajob_step L_Claim a (a\<lparr>a_status := Leased, a_epoch := a_epoch a + 1, a_reconcile := \<not> a_byok a\<rparr>)"
| complete: "a_status a = Leased \<Longrightarrow> a_fanout a = F_Completed \<Longrightarrow>
    ajob_step L_Complete a (a\<lparr>a_status := Completed, a_outcome := Some Success, a_reconcile := False\<rparr>)"
| fence: "a_status a = Leased \<Longrightarrow> a_fanout a \<noteq> F_Completed \<Longrightarrow>
    ajob_step L_Fence a
      (a\<lparr>a_status := Completed, a_fanout := F_Fenced, a_outcome := Some Stale, a_reconcile := False\<rparr>)"
| fanout_claim: "a_status a = Leased \<Longrightarrow> a_fanout a \<noteq> F_Completed \<Longrightarrow>
    ajob_step L_Fanout_Claim a (a\<lparr>a_fanout := F_Leased\<rparr>)"
| fanout_done: "a_status a = Leased \<Longrightarrow> a_fanout a \<noteq> F_Completed \<Longrightarrow>
    ajob_step L_Fanout_Done a (a\<lparr>a_fanout := F_Completed\<rparr>)"
| retry: "a_status a = Leased \<Longrightarrow>
    ajob_step L_Retry a (a\<lparr>a_status := Queued, a_attempts := a_attempts a + 1, a_reconcile := \<not> a_byok a\<rparr>)"
| dead: "a_status a = Leased \<Longrightarrow>
    ajob_step L_Dead a (a\<lparr>a_status := Dead_Letter, a_outcome := Some Failure, a_reconcile := False\<rparr>)"
| replay: "a_status a \<in> {Queued, Leased} \<Longrightarrow> \<not> a_byok a \<Longrightarrow>
    ajob_step L_Replay a (a\<lparr>a_status := Queued, a_generation := a_generation a + 1, a_reconcile := True\<rparr>)"
| abandon: "a_status a \<in> {Queued, Leased} \<Longrightarrow> a_byok a \<Longrightarrow>
    ajob_step L_Abandon a
      (a\<lparr>a_status := Dead_Letter, a_fanout := F_Fenced, a_outcome := Some Failure, a_reconcile := False\<rparr>)"

inductive_cases ajob_stepE: "ajob_step l a b"

subsection \<open>Reading the abstract state off a document\<close>

definition status_of :: "string \<Rightarrow> jstatus option" where
  "status_of s =
     (if s = ''queued'' then Some Queued else if s = ''leased'' then Some Leased
      else if s = ''completed'' then Some Completed else if s = ''dead_letter'' then Some Dead_Letter
      else if s = ''blocked_byok'' then Some Blocked_Byok else None)"

definition fanout_of :: "pyval \<Rightarrow> fstatus option" where
  "fanout_of v =
     (if v = PNone \<or> v = PStr ''pending'' then Some F_Pending else if v = PStr ''leased'' then Some F_Leased
      else if v = PStr ''completed'' then Some F_Completed else if v = PStr ''fenced'' then Some F_Fenced else None)"

definition outcome_of :: "pyval \<Rightarrow> outcome option" where
  "outcome_of v =
     (if v = PStr ''success'' then Some Success else if v = PStr ''failure'' then Some Failure
      else if v = PStr ''stale'' then Some Stale else None)"

definition wf_job :: "doc \<Rightarrow> bool" where
  "wf_job d \<longleftrightarrow>
     (\<exists>s. d ''status'' = Some (PStr s) \<and> status_of s \<noteq> None)
     \<and> fanout_of (dget d ''fanout_status'') \<noteq> None
     \<and> int_field d ''dispatch_generation'' \<and> int_field d ''lease_epoch'' \<and> int_field d ''attempt_count''
     \<and> int_field d ''finalization_revision'' \<and> int_field d ''fanout_lease_epoch''
     \<and> 1 \<le> fint d ''dispatch_generation'' 1 \<and> 0 \<le> fint d ''lease_epoch'' 0 \<and> 0 \<le> fint d ''attempt_count'' 0"

definition abs_job :: "doc \<Rightarrow> ajob" where
  "abs_job d =
     \<lparr>a_status = the (status_of (py_str (dget d ''status''))),
      a_generation = fint d ''dispatch_generation'' 1,
      a_epoch = fint d ''lease_epoch'' 0,
      a_attempts = fint d ''attempt_count'' 0,
      a_byok = truthy (dget d ''requires_byok''),
      a_fanout = the (fanout_of (dget d ''fanout_status'')),
      a_outcome = outcome_of (dget d ''terminal_outcome''),
      a_reconcile = (d ''reconcile_after_at'' \<noteq> None)\<rparr>"

lemma wf_jobD:
  assumes "wf_job d"
  shows "int_or d ''dispatch_generation'' 1 = Inr (a_generation (abs_job d))"
    "int_or d ''lease_epoch'' 0 = Inr (a_epoch (abs_job d))"
    "int_or d ''attempt_count'' 0 = Inr (a_attempts (abs_job d))"
    "int_field d ''finalization_revision''"
    "int_field d ''fanout_lease_epoch''"
    "truthy (dget d ''requires_byok'') = a_byok (abs_job d)"
    "fanout_of (dget d ''fanout_status'') = Some (a_fanout (abs_job d))"
    "1 \<le> a_generation (abs_job d)" "0 \<le> a_epoch (abs_job d)" "0 \<le> a_attempts (abs_job d)"
  using assms by (auto simp: wf_job_def abs_job_def)

fun status_name :: "jstatus \<Rightarrow> string" where
  "status_name Queued = ''queued''"
| "status_name Leased = ''leased''"
| "status_name Completed = ''completed''"
| "status_name Dead_Letter = ''dead_letter''"
| "status_name Blocked_Byok = ''blocked_byok''"

lemma status_of_iff: "status_of s = Some x \<longleftrightarrow> s = status_name x"
  by (cases x) (auto simp: status_of_def)

lemma status_of_name [simp]: "status_of (status_name x) = Some x"
  by (simp add: status_of_iff)

lemma status_name_ne [simp]: "status_name x \<noteq> []"
  by (cases x) auto

lemma wf_job_status:
  assumes "wf_job d"
  shows "d ''status'' = Some (PStr (status_name (a_status (abs_job d))))"
  using assms by (auto simp: wf_job_def abs_job_def status_of_iff dget_def)

lemma status_name_eq:
  "status_name x = ''queued'' \<longleftrightarrow> x = Queued"
  "status_name x = ''leased'' \<longleftrightarrow> x = Leased"
  "status_name x = ''completed'' \<longleftrightarrow> x = Completed"
  "status_name x = ''dead_letter'' \<longleftrightarrow> x = Dead_Letter"
  "status_name x = ''blocked_byok'' \<longleftrightarrow> x = Blocked_Byok"
  by (cases x; simp)+

text \<open>On a well-typed job every test of the code on the stored text is a test of the abstract state.\<close>

lemma job_reads:
  assumes "wf_job d"
  shows "dget d ''status'' = PStr (status_name (a_status (abs_job d)))"
    "str_or d ''status'' t = status_name (a_status (abs_job d))"
  using wf_job_status [OF assms] by (simp_all add: str_or_PStr dget_def)

lemma fanout_reads:
  assumes "wf_job d"
  shows "dget d ''fanout_status'' = PStr ''completed'' \<longleftrightarrow> a_fanout (abs_job d) = F_Completed"
    "dget d ''fanout_status'' = PNone \<or> dget d ''fanout_status'' = PStr ''pending'' \<longleftrightarrow>
     a_fanout (abs_job d) = F_Pending"
  using wf_jobD(7) [OF assms] by (auto simp: fanout_of_def split: if_splits)

lemmas wf_job_reads = wf_jobD job_reads fanout_reads status_name_eq

lemma is_current_lease_wf:
  "wf_job d \<Longrightarrow> is_current_lease d g e =
     Inr (a_status (abs_job d) = Leased \<and> a_generation (abs_job d) = g \<and> a_epoch (abs_job d) = e)"
  by (simp add: is_current_lease_def wf_job_reads)

subsection \<open>How a field update moves the abstract state\<close>

lemma status_of_simps [simp]:
  "status_of ''queued'' = Some Queued" "status_of ''leased'' = Some Leased"
  "status_of ''completed'' = Some Completed" "status_of ''dead_letter'' = Some Dead_Letter"
  "status_of ''blocked_byok'' = Some Blocked_Byok"
  by (simp_all add: status_of_def)

lemma fanout_of_simps [simp]:
  "fanout_of PNone = Some F_Pending" "fanout_of (PStr ''pending'') = Some F_Pending"
  "fanout_of (PStr ''leased'') = Some F_Leased" "fanout_of (PStr ''completed'') = Some F_Completed"
  "fanout_of (PStr ''fenced'') = Some F_Fenced"
  by (simp_all add: fanout_of_def)

lemma outcome_of_simps [simp]:
  "outcome_of (PStr ''success'') = Some Success" "outcome_of (PStr ''failure'') = Some Failure"
  "outcome_of (PStr ''stale'') = Some Stale" "outcome_of PNone = None"
  by (simp_all add: outcome_of_def)

lemmas upd_reads = int_field_def fint_def dget_def

text \<open>
  The effect of the ten field mappings of the source: each keeps the document well typed, and
  moves the abstract state by a record update.
\<close>

lemma resumed_wf: "wf_job d \<Longrightarrow> wf_job (upd_fields d (resumed_update now))"
  unfolding wf_job_def by (simp add: resumed_update_def upd_reads)

lemma resumed_abs:
  "abs_job (upd_fields d (resumed_update now)) =
     (abs_job d)\<lparr>a_status := Queued, a_reconcile := False\<rparr>"
  unfolding abs_job_def by (simp add: resumed_update_def upd_reads)

lemma claimed_wf: "wf_job d \<Longrightarrow> 0 \<le> e \<Longrightarrow> wf_job (upd_fields d (claimed_update now expires e b))"
  unfolding wf_job_def by (simp add: claimed_update_def upd_reads)

lemma claimed_abs:
  "0 \<le> e \<Longrightarrow> abs_job (upd_fields d (claimed_update now expires e b)) =
     (abs_job d)\<lparr>a_status := Leased, a_epoch := e, a_reconcile := \<not> b\<rparr>"
  unfolding abs_job_def by (simp add: claimed_update_def upd_reads)

lemma completed_wf: "wf_job d \<Longrightarrow> wf_job (upd_fields d (completed_update now))"
  unfolding wf_job_def by (simp add: completed_update_def upd_reads)

lemma completed_abs:
  "abs_job (upd_fields d (completed_update now)) =
     (abs_job d)\<lparr>a_status := Completed, a_outcome := Some Success, a_reconcile := False\<rparr>"
  unfolding abs_job_def by (simp add: completed_update_def upd_reads)

lemma fenced_wf: "wf_job d \<Longrightarrow> wf_job (upd_fields d (fenced_finalization_update now))"
  unfolding wf_job_def by (simp add: fenced_finalization_update_def upd_reads)

lemma fenced_abs:
  "abs_job (upd_fields d (fenced_finalization_update now)) =
     (abs_job d)\<lparr>a_status := Completed, a_fanout := F_Fenced, a_outcome := Some Stale, a_reconcile := False\<rparr>"
  unfolding abs_job_def by (simp add: fenced_finalization_update_def upd_reads)

lemma retry_wf: "wf_job d \<Longrightarrow> 0 \<le> n \<Longrightarrow> wf_job (upd_fields d (retry_update env now n b code))"
  unfolding wf_job_def by (simp add: retry_update_def upd_reads)

lemma retry_abs:
  "0 \<le> n \<Longrightarrow> abs_job (upd_fields d (retry_update env now n b code)) =
     (abs_job d)\<lparr>a_status := Queued, a_attempts := n, a_reconcile := \<not> b\<rparr>"
  unfolding abs_job_def by (simp add: retry_update_def upd_reads)

lemma dead_letter_wf: "wf_job d \<Longrightarrow> wf_job (upd_fields d (dead_letter_update now n))"
  unfolding wf_job_def by (simp add: dead_letter_update_def upd_reads)

lemma dead_letter_abs:
  "abs_job (upd_fields d (dead_letter_update now n)) =
     (abs_job d)\<lparr>a_status := Dead_Letter, a_outcome := Some Failure, a_reconcile := False\<rparr>"
  unfolding abs_job_def by (simp add: dead_letter_update_def upd_reads)

lemma fanout_claimed_wf: "wf_job d \<Longrightarrow> wf_job (upd_fields d (fanout_claimed_update now key e))"
  unfolding wf_job_def by (simp add: fanout_claimed_update_def upd_reads)

lemma fanout_claimed_abs:
  "abs_job (upd_fields d (fanout_claimed_update now key e)) =
     (abs_job d)\<lparr>a_fanout := F_Leased\<rparr>"
  unfolding abs_job_def by (simp add: fanout_claimed_update_def upd_reads)

lemma fanout_done_wf: "wf_job d \<Longrightarrow> wf_job (upd_fields d (fanout_done_update now))"
  unfolding wf_job_def by (simp add: fanout_done_update_def upd_reads)

lemma fanout_done_abs:
  "abs_job (upd_fields d (fanout_done_update now)) =
     (abs_job d)\<lparr>a_fanout := F_Completed\<rparr>"
  unfolding abs_job_def by (simp add: fanout_done_update_def upd_reads)

lemma replayed_wf: "wf_job d \<Longrightarrow> 1 \<le> g \<Longrightarrow> wf_job (upd_fields d (replayed_update now g stale))"
  unfolding wf_job_def by (simp add: replayed_update_def upd_reads)

lemma replayed_abs:
  "1 \<le> g \<Longrightarrow> abs_job (upd_fields d (replayed_update now g stale)) =
     (abs_job d)\<lparr>a_status := Queued, a_generation := g, a_reconcile := True\<rparr>"
  unfolding abs_job_def by (simp add: replayed_update_def upd_reads)

lemma abandoned_wf: "wf_job d \<Longrightarrow> wf_job (upd_fields d (abandoned_update now))"
  unfolding wf_job_def by (simp add: abandoned_update_def upd_reads)

lemma abandoned_abs:
  "abs_job (upd_fields d (abandoned_update now)) =
     (abs_job d)\<lparr>a_status := Dead_Letter, a_fanout := F_Fenced, a_outcome := Some Failure, a_reconcile := False\<rparr>"
  unfolding abs_job_def by (simp add: abandoned_update_def upd_reads)

lemmas update_wf =
  resumed_wf claimed_wf completed_wf fenced_wf retry_wf dead_letter_wf
  fanout_claimed_wf fanout_done_wf replayed_wf abandoned_wf

lemmas update_abs =
  resumed_abs claimed_abs completed_abs fenced_abs retry_abs dead_letter_abs
  fanout_claimed_abs fanout_done_abs replayed_abs abandoned_abs

subsection \<open>What a transaction that writes has checked, and what it writes\<close>

lemma claim_txn_writes:
  assumes wf: "wf_job d" and rd: "rd (job_ref j) = Some d"
    and txn: "claim_finalization_job_txn projection j g allow ls now eu ec rd = Inr (r, ws)"
    and ne: "ws \<noteq> []"
  shows "a_status (abs_job d) \<in> {Queued, Leased} \<and> a_generation (abs_job d) = g
    \<and> (a_byok (abs_job d) \<longrightarrow> allow)
    \<and> r = claim_result ''claimed'' (Some (a_epoch (abs_job d) + 1)) (a_attempts (abs_job d))
         (as_time (dget d ''created_at''))
    \<and> ws = Update (job_ref j)
           (claimed_update now (now + td_seconds ls) (a_epoch (abs_job d) + 1) (a_byok (abs_job d)))
         # (if a_status (abs_job d) = Queued
            then record_projection_delta projection d [(''queued'', -1), (''leased'', 1)] else [])"
  using txn ne wf unfolding claim_finalization_job_txn_def Let_def rd
  by (auto simp: wf_job_reads TERMINAL_JOB_STATUSES_def split: if_split_asm)

lemma resume_txn_writes:
  assumes wf: "wf_job d" and rd: "rd (job_ref j) = Some d"
    and txn: "resume_blocked_byok_job_txn projection j now rd = Inr (r, ws)"
    and ne: "ws \<noteq> []"
  shows "a_status (abs_job d) = Blocked_Byok \<and> a_byok (abs_job d)
    \<and> ws = Update (job_ref j) (resumed_update now)
         # record_projection_delta projection d [(''blocked_byok'', -1), (''queued'', 1)]"
  using txn ne wf unfolding resume_blocked_byok_job_txn_def rd
  by (auto simp: wf_job_reads split: if_split_asm)

lemma completed_txn_writes:
  assumes wf: "wf_job d" and rd: "rd (job_ref j) = Some d"
    and txn: "mark_finalization_completed_txn projection j g e now rd = Inr (r, ws)"
    and ne: "ws \<noteq> []"
  shows "r \<and> a_status (abs_job d) = Leased \<and> a_generation (abs_job d) = g \<and> a_epoch (abs_job d) = e
    \<and> a_fanout (abs_job d) = F_Completed
    \<and> ws = Update (job_ref j) (completed_update now)
         # record_projection_delta projection d [(''leased'', -1), (''completed'', 1), (''success'', 1)]"
  using txn ne wf unfolding mark_finalization_completed_txn_def rd
  by (auto simp: wf_job_reads is_current_lease_wf split: if_split_asm)

lemma fenced_txn_writes:
  assumes wf: "wf_job d" and rd: "rd (job_ref j) = Some d"
    and txn: "mark_finalization_fenced_txn projection j g e now rd = Inr (r, ws)"
    and ne: "ws \<noteq> []"
  shows "r \<and> a_status (abs_job d) = Leased \<and> a_generation (abs_job d) = g \<and> a_epoch (abs_job d) = e
    \<and> a_fanout (abs_job d) = F_Pending
    \<and> ws = Update (job_ref j) (fenced_finalization_update now)
         # record_projection_delta projection d [(''leased'', -1), (''completed'', 1), (''stale'', 1)]"
  using txn ne wf unfolding mark_finalization_fenced_txn_def rd
  by (auto simp: wf_job_reads is_current_lease_wf split: if_split_asm)

lemma retry_txn_writes:
  assumes wf: "wf_job d" and rd: "rd (job_ref j) = Some d"
    and txn: "mark_finalization_retryable_txn env projection j g e code now rd = Inr (r, ws)"
    and ne: "ws \<noteq> []"
  shows "r \<and> a_status (abs_job d) = Leased \<and> a_generation (abs_job d) = g \<and> a_epoch (abs_job d) = e
    \<and> ws = Update (job_ref j) (retry_update env now (a_attempts (abs_job d) + 1) (a_byok (abs_job d)) code)
         # record_projection_delta projection d [(''leased'', -1), (''queued'', 1)]"
  using txn ne wf unfolding mark_finalization_retryable_txn_def rd
  by (auto simp: wf_job_reads is_current_lease_wf split: if_split_asm)

lemma dead_letter_txn_writes:
  assumes wf: "wf_job d" and rd: "rd (job_ref j) = Some d"
    and txn: "mark_finalization_dead_letter_txn projection j g e n now rd = Inr (r, ws)"
    and ne: "ws \<noteq> []"
  shows "r \<and> a_status (abs_job d) = Leased \<and> a_generation (abs_job d) = g \<and> a_epoch (abs_job d) = e
    \<and> ws = Update (job_ref j) (dead_letter_update now n)
         # record_projection_delta projection d [(''leased'', -1), (''dead_letter'', 1), (''failure'', 1)]
         @ dead_letter_conversation_writes j d rd"
  using txn ne wf unfolding mark_finalization_dead_letter_txn_def rd
  by (auto simp: wf_job_reads is_current_lease_wf split: if_split_asm)

lemma fanout_done_txn_writes:
  assumes wf: "wf_job d" and rd: "rd (job_ref j) = Some d"
    and txn: "mark_finalization_fanout_completed_txn j g e now rd = Inr (r, ws)"
    and ne: "ws \<noteq> []"
  shows "r \<and> a_status (abs_job d) = Leased \<and> a_generation (abs_job d) = g \<and> a_epoch (abs_job d) = e
    \<and> a_fanout (abs_job d) \<noteq> F_Completed
    \<and> ws = [Update (job_ref j) (fanout_done_update now)]"
  using txn ne wf unfolding mark_finalization_fanout_completed_txn_def rd
  by (auto simp: wf_job_reads is_current_lease_wf split: if_split_asm)

lemma fanout_claim_txn_writes:
  assumes wf: "wf_job d" and rd: "rd (job_ref j) = Some d"
    and txn: "claim_finalization_fanout_txn projection j g e now rd = Inr (r, ws)"
    and ne: "ws \<noteq> []"
  shows "a_status (abs_job d) = Leased \<and> a_generation (abs_job d) = g \<and> a_epoch (abs_job d) = e
    \<and> a_fanout (abs_job d) \<noteq> F_Completed
    \<and> (\<exists>key. fanout_key d = Inr key \<and> fanout_claim_key r = Some key \<and>
         (fanout_claim_status r = ''fenced'' \<and>
          ws = Update (job_ref j) (fenced_finalization_update now)
             # record_projection_delta projection d [(''leased'', -1), (''completed'', 1), (''stale'', 1)]
        \<or> fanout_claim_status r = ''claimed'' \<and>
          (\<exists>uid cid conversation. bound_conversation d = Some (uid, cid)
             \<and> rd (conversation_ref uid cid) = Some conversation \<and> conversation_admits_fanout conversation d j) \<and>
          ws = [Update (job_ref j) (fanout_claimed_update now key e)]))"
  using txn ne wf unfolding claim_finalization_fanout_txn_def rd Let_def
  by (auto simp: wf_job_reads is_current_lease_wf split: if_split_asm option.splits prod.splits)

lemma replay_txn_writes:
  assumes wf: "wf_job d" and rd: "rd (job_ref j) = Some d"
    and txn: "claim_finalization_replay_txn projection j stale now rd = Inr (r, ws)"
    and ne: "ws \<noteq> []"
  shows "a_status (abs_job d) \<in> {Queued, Leased}
    \<and> ws = Update (job_ref j) (replayed_update now (a_generation (abs_job d) + 1) stale)
         # (if a_status (abs_job d) = Leased
            then record_projection_delta projection d [(''leased'', -1), (''queued'', 1)] else [])"
  using txn ne wf unfolding claim_finalization_replay_txn_def rd Let_def
  by (auto simp: wf_job_reads TERMINAL_JOB_STATUSES_def split: if_split_asm)

lemma abandon_txn_writes:
  assumes wf: "wf_job d" and rd: "rd (job_ref j) = Some d"
    and txn: "abandon_byok_finalization_job_txn projection j es eg ee cutoff now rd = Inr (r, ws)"
    and ne: "ws \<noteq> []"
  shows "a_status (abs_job d) \<in> {Queued, Leased} \<and> a_byok (abs_job d)
    \<and> es = status_name (a_status (abs_job d)) \<and> a_generation (abs_job d) = eg \<and> a_epoch (abs_job d) = ee
    \<and> (\<exists>t. job_last_activity_at d = Some t \<and> t \<le> cutoff)
    \<and> r = byok_abandonment ''abandoned'' (fst (abandoned_conversation j d rd))
    \<and> ws = Update (job_ref j) (abandoned_update now)
         # record_projection_delta projection d
             [(''queued'', if a_status (abs_job d) = Queued then -1 else 0),
              (''leased'', if a_status (abs_job d) = Leased then -1 else 0),
              (''dead_letter'', 1), (''failure'', 1)]
         @ snd (abandoned_conversation j d rd)"
  using txn ne wf unfolding abandon_byok_finalization_job_txn_def rd Let_def
  by (auto simp: wf_job_reads split: if_split_asm option.splits prod.splits)

lemmas txn_writes =
  claim_txn_writes resume_txn_writes completed_txn_writes fenced_txn_writes retry_txn_writes
  dead_letter_txn_writes fanout_done_txn_writes fanout_claim_txn_writes replay_txn_writes abandon_txn_writes

end
