(* ===== verification/Projection_Binding.thy ===== *)
theory Projection_Binding
  imports Firestore
begin

text \<open>
  The part of \<^verbatim>\<open>database/conversations.py\<close> that decides whether a stored conversation has
  content and whether a client-authored projection may be written onto it: the projection's
  digest must equal the digest of the transcript stored in the same snapshot. Decoding
  (decryption, decompression, JSON), the transcript digest and the parser of field paths are
  parameters.
\<close>

type_synonym dict = "(string \<times> pyval) list"

text \<open>\<open>d.update(e)\<close>: the entries of \<open>e\<close> replace those of \<open>d\<close>.\<close>

definition dict_update :: "dict \<Rightarrow> dict \<Rightarrow> dict" where
  "dict_update d e = filter (\<lambda>(k, v). k \<notin> fst ` set e) d @ e"

definition dict_get :: "dict \<Rightarrow> string \<Rightarrow> pyval" where
  "dict_get d k = (case map_of d k of None \<Rightarrow> PNone | Some v \<Rightarrow> v)"

lemma map_of_filter_key: "map_of (filter (\<lambda>(k, v). P k) d) k = (if P k then map_of d k else None)"
  by (induction d) auto

lemma map_of_dict_update [simp]:
  "map_of (dict_update d e) k = (case map_of e k of None \<Rightarrow> map_of d k | Some v \<Rightarrow> Some v)"
  using map_of_eq_None_iff [of e k]
  by (auto simp: dict_update_def map_add_def map_of_filter_key [of "\<lambda>k. k \<notin> fst ` set e"] split: option.split)

text \<open>\<open>d.setdefault(k, v)\<close>, as the dictionary afterwards.\<close>

definition dict_setdefault :: "dict \<Rightarrow> string \<Rightarrow> pyval \<Rightarrow> dict" where
  "dict_setdefault d k v = (case map_of d k of None \<Rightarrow> d @ [(k, v)] | Some _ \<Rightarrow> d)"

text \<open>A dictionary as the field mapping of a write.\<close>

definition put_all :: "dict \<Rightarrow> fields" where
  "put_all kvs = map (\<lambda>(k, v). (k, Put v)) kvs"

lemma upd_put_all: "upd_fields d (put_all kvs) k = (case map_of kvs k of None \<Rightarrow> d k | Some v \<Rightarrow> Some v)"
proof -
  have "map_of (put_all kvs) k = map_option Put (map_of kvs k)" unfolding put_all_def by (induction kvs) auto
  then show ?thesis by (simp add: upd_fields_def split: option.split)
qed

record transcript_env =
  decode_segments :: "string \<Rightarrow> pyval \<Rightarrow> bool \<Rightarrow> pyval list res"
  binding_sha256 :: "pyval list \<Rightarrow> string option"
  field_path_parts :: "string \<Rightarrow> string list option"

definition PROJECTION_FAMILY_FIELDS :: "string list" where
  "PROJECTION_FAMILY_FIELDS = [''client_processing'']"

definition CLIENT_PROCESSING_BIND_REPORT_KEY :: string where
  "CLIENT_PROCESSING_BIND_REPORT_KEY = ''_client_processing_bind_report''"

text \<open>The exception classes both callers treat as an undecodable transcript.\<close>

fun undecodable :: "pyerr \<Rightarrow> bool" where
  "undecodable TypeError = True"
| "undecodable ValueError = True"
| "undecodable (OtherError s) = (s = ''zlib.error'')"
| "undecodable _ = False"

definition raw_conversation_has_content :: "transcript_env \<Rightarrow> string \<Rightarrow> doc \<Rightarrow> bool res" where
  "raw_conversation_has_content te uid conversation =
     (if truthy (dget conversation ''has_content'') \<or> truthy (dget conversation ''photos'') then Inr True
      else let raw_segments = dget conversation ''transcript_segments'' in
        if \<not> truthy raw_segments then Inr False
        else (case decode_segments te uid raw_segments
                     (truthy (dget conversation ''transcript_segments_compressed'')) of
                Inl e \<Rightarrow> if undecodable e then Inr True else Inl e
              | Inr segments \<Rightarrow> Inr (segments \<noteq> [])))"

definition projection_digest :: "pyval \<Rightarrow> pyval" where
  "projection_digest candidate =
     (case candidate of
        PDict kvs \<Rightarrow> (case map_of kvs ''transcript_sha256'' of None \<Rightarrow> PNone | Some v \<Rightarrow> v)
      | _ \<Rightarrow> PNone)"

definition is_unbound_projection_field_path :: "transcript_env \<Rightarrow> string \<Rightarrow> bool" where
  "is_unbound_projection_field_path te key =
     (case field_path_parts te key of
        None \<Rightarrow> False
      | Some [] \<Rightarrow> False
      | Some (p # ps) \<Rightarrow> p \<in> set PROJECTION_FAMILY_FIELDS \<and> (ps \<noteq> [] \<or> key \<noteq> p))"

definition drop_projection :: "dict \<Rightarrow> dict" where
  "drop_projection updates = filter (\<lambda>(k, v). k \<notin> set PROJECTION_FAMILY_FIELDS) updates"

text \<open>The write payload; the bind report is an out-parameter of the caller and is not modelled.\<close>

definition extra_updates_with_bound_client_processing ::
  "transcript_env \<Rightarrow> string \<Rightarrow> doc \<Rightarrow> dict option \<Rightarrow> dict res" where
  "extra_updates_with_bound_client_processing te uid current extra_updates =
     (let updates = filter (\<lambda>(k, v). k \<noteq> CLIENT_PROCESSING_BIND_REPORT_KEY
                               \<and> \<not> is_unbound_projection_field_path te k)
                      (case extra_updates of None \<Rightarrow> [] | Some kvs \<Rightarrow> kvs)
      in
      if \<not> (\<exists>k \<in> fst ` set updates. k \<in> set PROJECTION_FAMILY_FIELDS) then Inr updates
      else (case decode_segments te uid (dget current ''transcript_segments'')
                   (truthy (dget current ''transcript_segments_compressed'')) of
              Inl e \<Rightarrow> if undecodable e \<or> e = OtherError ''RecursionError'' then Inr (drop_projection updates) else Inl e
            | Inr segments \<Rightarrow>
                (case binding_sha256 te segments of
                   None \<Rightarrow> Inr (drop_projection updates)
                 | Some expected \<Rightarrow>
                     Inr (filter (\<lambda>(k, v). k \<notin> set PROJECTION_FAMILY_FIELDS
                                         \<or> projection_digest v = PStr expected) updates))))"

text \<open>
  A projection that survives was submitted under its plain name and carries the digest of the
  transcript stored in the snapshot it is written onto.
\<close>

lemma bound_projection:
  assumes "extra_updates_with_bound_client_processing te uid current extra = Inr updates"
    and "(k, v) \<in> set updates" and "k \<in> set PROJECTION_FAMILY_FIELDS"
  obtains segments expected where
    "decode_segments te uid (dget current ''transcript_segments'')
       (truthy (dget current ''transcript_segments_compressed'')) = Inr segments"
    "binding_sha256 te segments = Some expected" "projection_digest v = PStr expected"
  using assms
  by (fastforce simp: extra_updates_with_bound_client_processing_def drop_projection_def Let_def
      split: if_split_asm sum.splits option.splits)

lemma bound_subset:
  "extra_updates_with_bound_client_processing te uid current (Some extra) = Inr updates \<Longrightarrow>
   set updates \<subseteq> set extra"
  by (auto simp: extra_updates_with_bound_client_processing_def drop_projection_def Let_def
      split: if_split_asm sum.splits option.splits)

text \<open>An environment in which every stored transcript is empty, for concrete runs.\<close>

definition plain_transcripts :: transcript_env where
  "plain_transcripts =
     \<lparr>decode_segments = (\<lambda>uid v compressed. Inr []), binding_sha256 = (\<lambda>segments. None), field_path_parts = (\<lambda>key. Some [key])\<rparr>"

end
