(* ===== verification/Processing_Trigger.thy ===== *)
theory Processing_Trigger
  imports Py_Value
begin

text \<open>
  \<^verbatim>\<open>utils/conversations/processing_trigger.py\<close>: why a conversation is processed, the mode
  each reason fixes, and how a stored job is read back, jobs from before the trigger field
  included.
\<close>

datatype processing_trigger =
  CAPTURE_END | CLIENT_FINALIZE | SYNC_UPDATE | FIRST_OPEN | USER_REPROCESS | MERGE

datatype relevance_policy = ASSESS | KEEP

record processing_mode =
  run_now :: bool
  reprocess :: bool
  bypass_jit_first_open :: bool
  relevance :: relevance_policy

fun trigger_value :: "processing_trigger \<Rightarrow> string" where
  "trigger_value CAPTURE_END = ''capture_end''"
| "trigger_value CLIENT_FINALIZE = ''client_finalize''"
| "trigger_value SYNC_UPDATE = ''sync_update''"
| "trigger_value FIRST_OPEN = ''first_open''"
| "trigger_value USER_REPROCESS = ''user_reprocess''"
| "trigger_value MERGE = ''merge''"

fun PROCESSING_MODES :: "processing_trigger \<Rightarrow> processing_mode" where
  "PROCESSING_MODES CAPTURE_END =
     \<lparr>run_now = False, reprocess = False, bypass_jit_first_open = False, relevance = ASSESS\<rparr>"
| "PROCESSING_MODES CLIENT_FINALIZE =
     \<lparr>run_now = True, reprocess = False, bypass_jit_first_open = False, relevance = ASSESS\<rparr>"
| "PROCESSING_MODES SYNC_UPDATE =
     \<lparr>run_now = True, reprocess = True, bypass_jit_first_open = True, relevance = ASSESS\<rparr>"
| "PROCESSING_MODES FIRST_OPEN =
     \<lparr>run_now = True, reprocess = False, bypass_jit_first_open = False, relevance = KEEP\<rparr>"
| "PROCESSING_MODES USER_REPROCESS =
     \<lparr>run_now = True, reprocess = True, bypass_jit_first_open = True, relevance = KEEP\<rparr>"
| "PROCESSING_MODES MERGE =
     \<lparr>run_now = True, reprocess = False, bypass_jit_first_open = False, relevance = KEEP\<rparr>"

text \<open>The enumeration's constructor from its value: \<open>ProcessingTrigger(stored)\<close> or \<open>ValueError\<close>.\<close>

definition trigger_of_value :: "string \<Rightarrow> processing_trigger option" where
  "trigger_of_value s =
     List.find (\<lambda>t. trigger_value t = s)
       [CAPTURE_END, CLIENT_FINALIZE, SYNC_UPDATE, FIRST_OPEN, USER_REPROCESS, MERGE]"

definition trigger_for_finalization_job :: "doc \<Rightarrow> processing_trigger" where
  "trigger_for_finalization_job job =
     (let legacy = (if truthy (dget job ''force_process'') then CLIENT_FINALIZE else CAPTURE_END) in
      case as_str (dget job ''processing_trigger'') of
        Some stored \<Rightarrow> (case trigger_of_value stored of Some t \<Rightarrow> t | None \<Rightarrow> legacy)
      | None \<Rightarrow> legacy)"

lemma trigger_of_value_value [simp]: "trigger_of_value (trigger_value t) = Some t"
  by (cases t) (simp_all add: trigger_of_value_def)

text \<open>A job that stores a trigger is read back with that trigger, whatever else it holds.\<close>

lemma trigger_for_finalization_job_stored:
  "job ''processing_trigger'' = Some (PStr (trigger_value t)) \<Longrightarrow> trigger_for_finalization_job job = t"
  by (simp add: trigger_for_finalization_job_def dget_def)

text \<open>
  Every job the current code writes also carries \<open>force_process\<close>, so a worker that only
  knows the old field runs the same \<open>run_now\<close> mode for the two triggers the finalizer uses.
\<close>

lemma trigger_for_finalization_job_legacy:
  "job ''processing_trigger'' = None \<Longrightarrow>
   job ''force_process'' = Some (PBool (run_now (PROCESSING_MODES t))) \<Longrightarrow>
   run_now (PROCESSING_MODES (trigger_for_finalization_job job)) = run_now (PROCESSING_MODES t)"
  by (simp add: trigger_for_finalization_job_def dget_def)

end
