(* ===== verification/Txn_Retry.thy ===== *)
theory Txn_Retry
  imports Remi_Prelude
begin

text \<open>
  \<^verbatim>\<open>database/firestore_transaction_retry.py\<close>: the bounded outer retry of a transaction
  whose attempt was aborted by contention. An exception is an object of a finite heap that
  gives each object its class and its \<open>__cause__\<close>; a chain of causes may be cyclic. One
  attempt is a function of its number and of the world it runs in, which it returns changed.
  Sleeping is recorded as the list of delays, in seconds.
\<close>

type_synonym exn_heap = "(nat \<times> pyerr \<times> nat option) list"

type_synonym exn = "exn_heap \<times> nat"

subsection \<open>Recognising contention\<close>

function contention_walk :: "exn_heap \<Rightarrow> nat list \<Rightarrow> nat option \<Rightarrow> bool" where
  "contention_walk objs seen None = False"
| "contention_walk objs seen (Some i) =
     (if i \<in> set seen then False
      else case map_of objs i of
        None \<Rightarrow> False
      | Some (cls, cause) \<Rightarrow> cls = Aborted \<or> contention_walk objs (i # seen) cause)"
  by pat_completeness auto
termination
proof (relation "measure (\<lambda>(objs, seen, c). card (fst ` set objs - set seen))", goal_cases)
  case 1
  show ?case by simp
next
  case (2 objs seen i p cls cause)
  then have "(i, cls, cause) \<in> set objs" by (intro map_of_SomeD) simp
  then have "i \<in> fst ` set objs" by (rule image_eqI [rotated]) simp
  with 2 have "i \<in> fst ` set objs - set seen" by simp
  then have "card (fst ` set objs - set seen - {i}) < card (fst ` set objs - set seen)"
    by (intro card_Diff1_less) auto
  moreover have "fst ` set objs - set (i # seen) = fst ` set objs - set seen - {i}" by auto
  ultimately show ?case by (simp only: in_measure prod.case)
qed

definition is_transaction_contention :: "exn \<Rightarrow> bool" where
  "is_transaction_contention e = contention_walk (fst e) [] (Some (snd e))"

text \<open>The objects reachable over \<open>__cause__\<close>, the specification of the walk.\<close>

inductive cause_reach :: "exn_heap \<Rightarrow> nat \<Rightarrow> nat \<Rightarrow> bool" for objs where
  here: "cause_reach objs i i"
| there: "map_of objs i = Some (cls, Some j) \<Longrightarrow> cause_reach objs j k \<Longrightarrow> cause_reach objs i k"

inductive_cases cause_reachE: "cause_reach objs i k"

lemma contention_walk_sound:
  "contention_walk objs seen (Some i) \<Longrightarrow> \<exists>k c. cause_reach objs i k \<and> map_of objs k = Some (Aborted, c)"
proof (induction objs seen "Some i" arbitrary: i rule: contention_walk.induct)
  case (2 objs seen i)
  then obtain cls cause where m: "map_of objs i = Some (cls, cause)" and ns: "i \<notin> set seen"
    and c: "cls = Aborted \<or> contention_walk objs (i # seen) cause"
    by (auto split: if_split_asm option.splits)
  show ?case
  proof (cases "cls = Aborted")
    case True
    with m show ?thesis by (blast intro: here)
  next
    case False
    with c obtain j where "cause = Some j" by (cases cause) auto
    with "2.hyps" [OF ns m] m c False show ?thesis by (blast intro: there)
  qed
qed

text \<open>
  The walk is complete too: a path to an aborted object can be cut so that it meets no object
  twice, and then no object of \<open>seen\<close>. The set of objects from which such an object is reached
  without entering \<open>seen\<close> drives the induction.
\<close>

inductive avoid_reach :: "exn_heap \<Rightarrow> nat set \<Rightarrow> nat \<Rightarrow> bool" for objs where
  stop: "i \<notin> S \<Longrightarrow> map_of objs i = Some (Aborted, c) \<Longrightarrow> avoid_reach objs S i"
| go: "i \<notin> S \<Longrightarrow> map_of objs i = Some (cls, Some j) \<Longrightarrow> avoid_reach objs S j \<Longrightarrow> avoid_reach objs S i"

inductive_cases avoid_reachE: "avoid_reach objs S i"

lemma avoid_reach_shrink:
  "avoid_reach objs S i \<Longrightarrow> (\<exists>c. map_of objs k = Some (Aborted, c)) \<or> avoid_reach objs (insert k S) i
     \<or> (\<exists>cls j. map_of objs k = Some (cls, Some j) \<and> avoid_reach objs (insert k S) j)"
proof (induction rule: avoid_reach.induct)
  case (stop i S c)
  then show ?case by (cases "i = k") (auto intro: avoid_reach.stop)
next
  case (go i S cls j)
  then show ?case by (cases "i = k") (auto intro: avoid_reach.go)
qed

lemma contention_walk_complete: "avoid_reach objs (set seen) i \<Longrightarrow> contention_walk objs seen (Some i)"
proof (induction objs seen "Some i" arbitrary: i rule: contention_walk.induct)
  case (2 objs seen i)
  then obtain cls cause where m: "map_of objs i = Some (cls, cause)" and ns: "i \<notin> set seen"
    by (auto elim: avoid_reachE)
  show ?case
  proof (cases "cls = Aborted")
    case True
    with m ns show ?thesis by simp
  next
    case False
    have "\<not> avoid_reach objs (set (i # seen)) i" by (auto elim: avoid_reachE)
    with avoid_reach_shrink [OF "2.prems", of i] m False
    obtain j where j: "cause = Some j" "avoid_reach objs (set (i # seen)) j" by auto
    with "2.hyps" [OF ns m _ j(2)] have "contention_walk objs (i # seen) cause" by simp
    with m ns show ?thesis by (subst contention_walk.simps) simp
  qed
qed

lemma cause_reach_avoid:
  "cause_reach objs i k \<Longrightarrow> map_of objs k = Some (Aborted, c) \<Longrightarrow> avoid_reach objs {} i"
  by (induction rule: cause_reach.induct) (auto intro: avoid_reach.intros)

lemma is_transaction_contention_iff:
  "is_transaction_contention (objs, i) \<longleftrightarrow> (\<exists>k c. cause_reach objs i k \<and> map_of objs k = Some (Aborted, c))"
  using contention_walk_sound [of objs "[]" i] contention_walk_complete [of objs "[]" i] cause_reach_avoid
  by (auto simp: is_transaction_contention_def)

subsection \<open>The retry loop\<close>

definition DEFAULT_MAX_ATTEMPTS :: nat where
  "DEFAULT_MAX_ATTEMPTS = 5"

definition INITIAL_MAX_DELAY_SECONDS :: real where
  "INITIAL_MAX_DELAY_SECONDS = 1 / 5"

definition MAX_DELAY_SECONDS :: real where
  "MAX_DELAY_SECONDS = 1"

text \<open>Equal jitter, in exact arithmetic: \<open>random_value\<close> is clamped to the unit interval.\<close>

definition retry_delay :: "nat \<Rightarrow> real \<Rightarrow> real" where
  "retry_delay attempt random_value =
     (let high_delay = min (INITIAL_MAX_DELAY_SECONDS * 2 ^ (attempt - 1)) MAX_DELAY_SECONDS;
          low_delay = high_delay / 2;
          jitter = min (max random_value 0) 1
      in low_delay + (high_delay - low_delay) * jitter)"

datatype 'a retry_result =
    Returned 'a
  | Raised exn
  | Contention_Exhausted
  | Bad_Max_Attempts

function retry_loop ::
  "nat \<Rightarrow> (nat \<Rightarrow> 's \<Rightarrow> (exn + 'a) \<times> 's) \<Rightarrow> (nat \<Rightarrow> real) \<Rightarrow> nat \<Rightarrow> 's \<Rightarrow> 'a retry_result \<times> 's \<times> real list" where
  "retry_loop max_attempts operation random_value attempt st =
     (case operation attempt st of
        (Inr result, st') \<Rightarrow> (Returned result, st', [])
      | (Inl error, st') \<Rightarrow>
          if \<not> is_transaction_contention error then (Raised error, st', [])
          else if attempt \<ge> max_attempts then (Contention_Exhausted, st', [])
          else (let (r, st'', delays) = retry_loop max_attempts operation random_value (attempt + 1) st'
                in (r, st'', retry_delay attempt (random_value attempt) # delays)))"
  by pat_completeness auto
termination
  by (relation "measure (\<lambda>(m, _, _, a, _). m - a)") auto

declare retry_loop.simps [simp del]

definition run_with_transaction_contention_retry ::
  "nat \<Rightarrow> (nat \<Rightarrow> 's \<Rightarrow> (exn + 'a) \<times> 's) \<Rightarrow> (nat \<Rightarrow> real) \<Rightarrow> 's \<Rightarrow> 'a retry_result \<times> 's \<times> real list" where
  "run_with_transaction_contention_retry max_attempts operation random_value st =
     (if max_attempts < 1 then (Bad_Max_Attempts, st, [])
      else retry_loop max_attempts operation random_value 1 st)"

lemma retry_delay_bounds:
  "1 \<le> attempt \<Longrightarrow> 1 / 10 \<le> retry_delay attempt v \<and> retry_delay attempt v \<le> 1"
proof -
  assume "1 \<le> attempt"
  define h where "h = min (INITIAL_MAX_DELAY_SECONDS * 2 ^ (attempt - 1)) MAX_DELAY_SECONDS"
  define j where "j = min (max v 0) (1::real)"
  have "(1::real) \<le> 2 ^ (attempt - 1)" by simp
  then have h: "1 / 5 \<le> h" "h \<le> 1"
    by (simp_all add: h_def INITIAL_MAX_DELAY_SECONDS_def MAX_DELAY_SECONDS_def)
  have j: "0 \<le> j" "j \<le> 1" by (simp_all add: j_def)
  have r: "retry_delay attempt v = h / 2 + (h - h / 2) * j"
    by (simp add: retry_delay_def Let_def h_def j_def)
  have "0 \<le> (h - h / 2) * j" using h j by simp
  moreover have "(h - h / 2) * j \<le> h - h / 2" using h j by (simp add: mult_left_le)
  ultimately show ?thesis using h r by linarith
qed

text \<open>
  One run makes between one and \<open>max_attempts\<close> attempts and sleeps once between any two of
  them. When an aborted attempt leaves the world unchanged, which is what the service
  promises of an aborted transaction, all of the run's effect is that of its last attempt.
\<close>

definition contended :: "(nat \<Rightarrow> 's \<Rightarrow> (exn + 'a) \<times> 's) \<Rightarrow> 's \<Rightarrow> nat \<Rightarrow> bool" where
  "contended operation st n =
     (case operation n st of (Inl e, s) \<Rightarrow> is_transaction_contention e | _ \<Rightarrow> False)"

fun attempt_result :: "(exn + 'a) \<times> 's \<Rightarrow> 'a retry_result \<times> 's" where
  "attempt_result (Inr x, s) = (Returned x, s)"
| "attempt_result (Inl e, s) = (if is_transaction_contention e then Contention_Exhausted else Raised e, s)"

lemma retry_loop_unfold:
  assumes "\<And>n s e s'. operation n s = (Inl e, s') \<Longrightarrow> is_transaction_contention e \<Longrightarrow> s' = s"
  shows "retry_loop m operation rnd n st =
    (if contended operation st n \<and> n < m
     then (let (r, st', ds) = retry_loop m operation rnd (n + 1) st in (r, st', retry_delay n (rnd n) # ds))
     else (let (r, st') = attempt_result (operation n st) in (r, st', [])))"
  using assms [of n st]
  by (subst retry_loop.simps) (auto simp: contended_def split: prod.split sum.split)

lemma retry_loop_shape:
  assumes atomic: "\<And>n s e s'. operation n s = (Inl e, s') \<Longrightarrow> is_transaction_contention e \<Longrightarrow> s' = s"
    and "1 \<le> n" "n \<le> m" "retry_loop m operation rnd n st = (r, st', ds)"
  shows "n + length ds \<le> m
    \<and> (\<forall>k. n \<le> k \<and> k < n + length ds \<longrightarrow> contended operation st k)
    \<and> (r, st') = attempt_result (operation (n + length ds) st)
    \<and> (contended operation st (n + length ds) \<longrightarrow> n + length ds = m)
    \<and> (\<forall>d \<in> set ds. 1 / 10 \<le> d \<and> d \<le> 1)"
  using assms(2-)
proof (induction "m - n" arbitrary: n r st' ds)
  case 0
  then show ?case
    by (auto simp: retry_loop_unfold [of operation n rnd n st, OF atomic] split: prod.splits)
next
  case (Suc k)
  show ?case
  proof (cases "contended operation st n")
    case False
    with Suc.prems show ?thesis
      by (auto simp: retry_loop_unfold [of operation m rnd n st, OF atomic] split: prod.splits)
  next
    case True
    obtain r2 st2 ds2 where rec: "retry_loop m operation rnd (n + 1) st = (r2, st2, ds2)"
      by (metis prod_cases3)
    have "n < m" using Suc.hyps(2) by simp
    with True Suc.prems(3) rec have d: "ds = retry_delay n (rnd n) # ds2" "r = r2" "st' = st2"
      by (auto simp: retry_loop_unfold [of operation m rnd n st, OF atomic])
    have IH: "n + 1 + length ds2 \<le> m
      \<and> (\<forall>k. n + 1 \<le> k \<and> k < n + 1 + length ds2 \<longrightarrow> contended operation st k)
      \<and> (r2, st2) = attempt_result (operation (n + 1 + length ds2) st)
      \<and> (contended operation st (n + 1 + length ds2) \<longrightarrow> n + 1 + length ds2 = m)
      \<and> (\<forall>d \<in> set ds2. 1 / 10 \<le> d \<and> d \<le> 1)"
      using Suc.hyps(2) rec by (intro Suc.hyps(1)) auto
    have "contended operation st k" if "n \<le> k" "k < n + length ds" for k
      using that True IH d(1) by (cases "k = n") auto
    with IH d retry_delay_bounds [OF Suc.prems(1), of "rnd n"] show ?thesis by simp
  qed
qed

subsection \<open>Properties\<close>

text \<open>
  C37. The contention retry ends, and does so within its budget: it makes between one and
  \<open>max_attempts\<close> attempts, all but the last met contention, it gives up only after the last
  allowed attempt, its outcome and its effect are those of the last attempt, and it sleeps once
  before each further attempt, between a tenth of a second and a second.
\<close>

theorem retry_within_budget:
  assumes "\<And>n s e s'. operation n s = (Inl e, s') \<Longrightarrow> is_transaction_contention e \<Longrightarrow> s' = s" and "1 \<le> max_attempts"
  shows "\<exists>r st' ds. run_with_transaction_contention_retry max_attempts operation rnd st = (r, st', ds)
    \<and> length ds < max_attempts
    \<and> (\<forall>k. 1 \<le> k \<and> k \<le> length ds \<longrightarrow> contended operation st k)
    \<and> (r, st') = attempt_result (operation (1 + length ds) st)
    \<and> (r = Contention_Exhausted \<longrightarrow> 1 + length ds = max_attempts)
    \<and> (\<forall>d \<in> set ds. 1 / 10 \<le> d \<and> d \<le> 1)"
proof -
  obtain r st' ds where loop: "retry_loop max_attempts operation rnd 1 st = (r, st', ds)" by (metis prod_cases3)
  have shape: "1 + length ds \<le> max_attempts
    \<and> (\<forall>k. 1 \<le> k \<and> k < 1 + length ds \<longrightarrow> contended operation st k)
    \<and> (r, st') = attempt_result (operation (1 + length ds) st)
    \<and> (contended operation st (1 + length ds) \<longrightarrow> 1 + length ds = max_attempts)
    \<and> (\<forall>d \<in> set ds. 1 / 10 \<le> d \<and> d \<le> 1)"
    by (rule retry_loop_shape [OF _ le_refl assms(2) loop]) (fact assms(1))
  then have last: "(r, st') = attempt_result (operation (1 + length ds) st)" by blast
  have "contended operation st (1 + length ds)" if "r = Contention_Exhausted"
    using last that
    by (cases "operation (1 + length ds) st" rule: attempt_result.cases) (auto simp: contended_def split: if_split_asm)
  moreover have "run_with_transaction_contention_retry max_attempts operation rnd st = (r, st', ds)"
    using assms(2) loop by (simp add: run_with_transaction_contention_retry_def)
  ultimately show ?thesis
    using shape by (intro exI [of _ r] exI [of _ st'] exI [of _ ds]) auto
qed

theorem retry_within_budget_witness:
  "\<exists>r st' ds. run_with_transaction_contention_retry 2
      (\<lambda>n s. if n = 1 then (Inl ([(0, Aborted, None)], 0), s) else (Inr n, Suc s)) (\<lambda>n. 0) (7 :: nat) = (r, st', ds)
    \<and> length ds < 2"
proof -
  let ?op = "\<lambda>n s. if n = 1 then (Inl ([(0, Aborted, None)], 0), s) else (Inr n, Suc s)"
  have "s' = s" if "?op n s = (Inl e, s')" for n :: nat and s e s' using that by (auto split: if_split_asm)
  from retry_within_budget [of ?op 2 "\<lambda>n. 0" 7, OF this] show ?thesis by fastforce
qed

text \<open>
  The test for contention walks the chain of causes of an error to its end, cyclic chains
  included, and answers yes exactly when some error on it is the service's abort.
\<close>

lemma contention_recognised:
  "is_transaction_contention (objs, i) \<longleftrightarrow> (\<exists>k c. cause_reach objs i k \<and> map_of objs k = Some (Aborted, c))"
  by (rule is_transaction_contention_iff)

end
