(* ===== verification/Finalization_Intent.thy ===== *)
theory Finalization_Intent
  imports Finalization_Machine Projection_Binding Processing_Trigger Txn_Retry
begin

text \<open>
  Admission of a conversation to durable finalization
  (\<^verbatim>\<open>_create_or_get_finalization_intent_txn\<close>): the transaction that creates the job of a
  new finalization generation, or returns the one the conversation already owns, and writes
  the life-cycle fields and the snapshot-bound projection of the conversation with it.
\<close>

record finalization_admission =
  admission_accepted :: bool
  admission_terminal :: bool
  admission_reason :: string
  admission_fanout_key :: "string option"

text \<open>What the transaction takes from outside: the environment, transcript decoding, the
  seed hash behind document ids, SHA-256 digests and the photo subcollection.\<close>

record intent_env =
  ie_env :: env
  ie_transcripts :: transcript_env
  document_id_from_seed :: "string \<Rightarrow> string"
  ie_sha256 :: "string \<Rightarrow> nat list"
  photos_exist :: "path \<Rightarrow> bool"

definition job_id_of :: "intent_env \<Rightarrow> string \<Rightarrow> string \<Rightarrow> int \<Rightarrow> string" where
  "job_id_of ie uid conversation_id revision =
     document_id_from_seed ie (''listen-finalization:'' @ uid @ '':'' @ conversation_id @ '':'' @ dec_int revision)"

definition conversation_has_finalization_content :: "intent_env \<Rightarrow> string \<Rightarrow> doc \<Rightarrow> path \<Rightarrow> bool res" where
  "conversation_has_finalization_content ie uid conversation ref =
     res_bind (raw_conversation_has_content (ie_transcripts ie) uid conversation) (\<lambda>has.
       Inr (has \<or> photos_exist ie ref))"

definition snapshot_bound_projection_updates ::
  "intent_env \<Rightarrow> string \<Rightarrow> doc \<Rightarrow> dict option \<Rightarrow> dict res" where
  "snapshot_bound_projection_updates ie uid conversation extra_updates =
     res_bind (extra_updates_with_bound_client_processing (ie_transcripts ie) uid conversation extra_updates)
       (\<lambda>bound. Inr (filter (\<lambda>(k, v). k \<in> set PROJECTION_FAMILY_FIELDS) bound))"

definition CALLER_LIFECYCLE_METADATA :: "string list" where
  "CALLER_LIFECYCLE_METADATA = [''external_data'']"

definition non_projection_extra_updates :: "dict option \<Rightarrow> dict" where
  "non_projection_extra_updates extra_updates =
     filter (\<lambda>(k, v). k \<in> set CALLER_LIFECYCLE_METADATA)
       (case extra_updates of None \<Rightarrow> [] | Some kvs \<Rightarrow> kvs)"

definition apply_snapshot_bound_projection ::
  "intent_env \<Rightarrow> path \<Rightarrow> string \<Rightarrow> doc option \<Rightarrow> dict option \<Rightarrow> dict \<Rightarrow> write list res" where
  "apply_snapshot_bound_projection ie ref uid conversation extra_updates lifecycle_updates =
     (case conversation of
        None \<Rightarrow> Inr []
      | Some c \<Rightarrow>
          res_bind (snapshot_bound_projection_updates ie uid c extra_updates) (\<lambda>bound.
            let updates = dict_update bound
                  (filter (\<lambda>(k, v). takeWhile (\<lambda>ch. ch \<noteq> CHR ''.'') k \<notin> set PROJECTION_FAMILY_FIELDS)
                     lifecycle_updates)
            in Inr (if updates = [] then [] else [Update ref (map (\<lambda>(k, v). (k, Put v)) updates)])))"

definition new_job :: "intent_env \<Rightarrow> string \<Rightarrow> string \<Rightarrow> int \<Rightarrow> bool \<Rightarrow> doc \<Rightarrow> processing_trigger \<Rightarrow>
    string \<Rightarrow> string \<Rightarrow> int \<Rightarrow> fields" where
  "new_job ie uid conversation_id revision requires_byok conversation trigger fkey job_id now =
     [(''schema_version'', Put (PInt 1)),
      (''uid'', Put (PStr uid)),
      (''conversation_id'', Put (PStr conversation_id)),
      (''finalization_revision'', Put (PInt revision)),
      (''status'', Put (PStr (if requires_byok then ''blocked_byok'' else ''queued''))),
      (''requires_byok'', Put (PBool requires_byok)),
      (''client_platform'', Put (dget conversation ''client_platform'')),
      (''processing_trigger'', Put (PStr (trigger_value trigger))),
      (''force_process'', Put (PBool (run_now (PROCESSING_MODES trigger)))),
      (''fanout_key'', Put (PStr fkey)),
      (''fanout_status'', Put (PStr ''pending'')),
      (''dispatch_generation'', Put (PInt 1)),
      (''attempt_count'', Put (PInt 0)),
      (''task_retry_count'', Put (PInt 0)),
      (''projection_generation'', Put (PStr FINALIZATION_PROJECTION_GENERATION)),
      (''projection_shard'', Put (PInt (projection_shard (ie_sha256 ie) job_id))),
      (''created_at'', Put (PTime now)),
      (''updated_at'', Put (PTime now)),
      (''dispatch_requested_at'', Put (PTime now))]
     @ (if requires_byok then []
        else [(''reconcile_after_at'', Put (PTime (now + get_finalization_reconcile_stale_after (ie_env ie))))])"

definition attached_lifecycle :: "string \<Rightarrow> int \<Rightarrow> pyval \<Rightarrow> dict" where
  "attached_lifecycle job_id revision status =
     [(''status'', PStr ''processing''),
      (''finalization_job_id'', PStr job_id),
      (''finalization_revision'', PInt revision),
      (''finalization_status'', status)]"

text \<open>
  The body up to its \<open>finally\<close>: the intent, the life-cycle fields to write and the writes
  issued on the job and the projection. Raising aborts the transaction.
\<close>

definition intent_body ::
  "intent_env \<Rightarrow> string \<Rightarrow> string \<Rightarrow> bool \<Rightarrow> (doc \<Rightarrow> finalization_admission res) \<Rightarrow> int \<Rightarrow> processing_trigger \<Rightarrow>
   dict option \<Rightarrow> (path \<Rightarrow> doc option) \<Rightarrow> doc \<Rightarrow> (finalization_intent \<times> dict \<times> write list) res" where
  "intent_body ie uid conversation_id requires_byok admit now trigger extra_updates rd loaded =
     (let no_intent = (\<lambda>s. Inr (no_finalization_intent s, [], [])) in
      if truthy (dget loaded ''deferred'') then no_intent ''deferred''
      else res_bind (conversation_has_finalization_content ie uid loaded (conversation_ref uid conversation_id)) (\<lambda>content.
        if \<not> content then no_intent ''no_content''
        else res_bind (admit loaded) (\<lambda>admission.
          if admission_terminal admission then no_intent (admission_reason admission)
          else
            (case (case as_str (dget loaded ''finalization_job_id'') of
                     Some (c # cs) \<Rightarrow> map_option (\<lambda>job. (c # cs, job)) (rd (job_ref (c # cs)))
                   | _ \<Rightarrow> None) of
               Some (existing_job_id, job) \<Rightarrow>
                 res_bind (intent_from_job existing_job_id job False) (\<lambda>intent. Inr (intent, [], []))
             | None \<Rightarrow>
                 (case (admission_accepted admission, admission_fanout_key admission) of
                    (True, Some (f # fs)) \<Rightarrow>
                      res_bind (int_or loaded ''finalization_revision'' 0) (\<lambda>rev.
                        let revision = rev + 1;
                            job_id = job_id_of ie uid conversation_id revision
                        in (case rd (job_ref job_id) of
                              Some job \<Rightarrow>
                                res_bind (intent_from_job job_id job False) (\<lambda>intent.
                                  Inr (intent,
                                       attached_lifecycle job_id revision
                                         (case job ''status'' of None \<Rightarrow> PStr ''queued'' | Some v \<Rightarrow> v), []))
                            | None \<Rightarrow>
                                let fields = new_job ie uid conversation_id revision requires_byok loaded trigger
                                               (f # fs) job_id now;
                                    job = upd_fields Map.empty fields
                                in res_bind (intent_from_job job_id job True) (\<lambda>intent.
                                  Inr (intent,
                                       dict_update (non_projection_extra_updates extra_updates)
                                         (attached_lifecycle job_id revision
                                            (PStr (if requires_byok then ''blocked_byok'' else ''queued''))),
                                       SetDoc (job_ref job_id) fields
                                       # record_projection_delta True job
                                           [(''accepted'', 1),
                                            (''blocked_byok'', if requires_byok then 1 else 0),
                                            (''queued'', if requires_byok then 0 else 1)]))))
                  | _ \<Rightarrow> no_intent (admission_reason admission))))))"

definition create_or_get_finalization_intent_txn ::
  "intent_env \<Rightarrow> string \<Rightarrow> string \<Rightarrow> bool \<Rightarrow> (doc \<Rightarrow> finalization_admission res) \<Rightarrow> int \<Rightarrow> processing_trigger \<Rightarrow>
   dict option \<Rightarrow> (path \<Rightarrow> doc option) \<Rightarrow> (finalization_intent \<times> write list) res" where
  "create_or_get_finalization_intent_txn ie uid conversation_id requires_byok admit now trigger extra_updates rd =
     (let ref = conversation_ref uid conversation_id in
      case rd ref of
        None \<Rightarrow> Inr (no_finalization_intent ''missing'', [])
      | Some loaded \<Rightarrow>
          res_bind (intent_body ie uid conversation_id requires_byok admit now trigger extra_updates rd loaded)
            (\<lambda>(intent, lifecycle_updates, job_writes).
              res_bind (apply_snapshot_bound_projection ie ref uid (Some loaded) extra_updates lifecycle_updates)
                (\<lambda>conversation_writes. Inr (intent, job_writes @ conversation_writes))))"

text \<open>
  The public function: the transaction under the bounded contention retry. \<open>aborts\<close> says
  which attempts the service aborts, \<open>now\<close> what the clock reads in each.
\<close>

definition create_intent_in_transaction ::
  "('s \<Rightarrow> path \<Rightarrow> doc option) \<Rightarrow> ('s \<Rightarrow> write list \<Rightarrow> 's) \<Rightarrow> intent_env \<Rightarrow> (nat \<Rightarrow> bool) \<Rightarrow> string \<Rightarrow> string \<Rightarrow> bool \<Rightarrow>
   (doc \<Rightarrow> finalization_admission res) \<Rightarrow> (nat \<Rightarrow> int) \<Rightarrow> processing_trigger \<Rightarrow> dict option \<Rightarrow>
   nat \<Rightarrow> 's \<Rightarrow> (exn + finalization_intent) \<times> 's" where
  "create_intent_in_transaction fetch commit ie aborts uid conversation_id requires_byok admit now trigger
     extra_updates attempt st =
     (if aborts attempt then (Inl ([(0, Aborted, None)], 0), st)
      else (case run_txn fetch commit
                   (create_or_get_finalization_intent_txn ie uid conversation_id requires_byok admit
                      (now attempt) trigger extra_updates) st of
              (Inl e, st') \<Rightarrow> (Inl ([(0, e, None)], 0), st')
            | (Inr intent, st') \<Rightarrow> (Inr intent, st')))"

definition create_or_get_finalization_intent where
  "create_or_get_finalization_intent fetch commit ie aborts rnd st uid conversation_id requires_byok admit now
     trigger extra_updates =
     run_with_transaction_contention_retry DEFAULT_MAX_ATTEMPTS
       (create_intent_in_transaction fetch commit ie aborts uid conversation_id requires_byok admit now trigger
          extra_updates)
       rnd st"

end
