(* ===== verification/Meeting_Receipt.thy ===== *)
theory Meeting_Receipt
  imports Finalization_Intent
begin

text \<open>
  Meeting receipts (\<^verbatim>\<open>record_meeting_receipt\<close> and its two follow-up markers in
  \<^verbatim>\<open>database/conversation_finalization_jobs.py\<close>): the verdict on a finalized meeting is
  stored once on its finalization job, projected onto the conversation, and later marked with
  the intent that delivered it.
\<close>

definition MEETING_RECEIPT_SCHEMA_VERSION :: int where
  "MEETING_RECEIPT_SCHEMA_VERSION = 1"

definition MEETING_RECEIPT_RECONCILE_AFTER :: int where
  "MEETING_RECEIPT_RECONCILE_AFTER = td_seconds (10 * 60)"

definition receipt_keys :: "string list" where
  "receipt_keys =
     [''meeting_receipt_schema_version'', ''meeting_treatment_eligible'', ''meeting_treatment_reason'',
      ''meeting_duration_s'', ''meeting_dedup_speech_s'', ''meeting_receipt_created_at'',
      ''meeting_receipt_updated_at'', ''meeting_receipt_reconcile_after_at'', ''meeting_receipt_intent_id'',
      ''meeting_receipt_intent_persisted_at'', ''meeting_receipt_materialized_at'']"

definition new_receipt :: "bool \<Rightarrow> string \<Rightarrow> real \<Rightarrow> real \<Rightarrow> int \<Rightarrow> dict" where
  "new_receipt eligible reason duration_s dedup_speech_s now =
     [(''meeting_receipt_schema_version'', PInt MEETING_RECEIPT_SCHEMA_VERSION),
      (''meeting_treatment_eligible'', PBool eligible),
      (''meeting_treatment_reason'', PStr reason),
      (''meeting_duration_s'', PFloat duration_s),
      (''meeting_dedup_speech_s'', PFloat dedup_speech_s),
      (''meeting_receipt_created_at'', PTime now),
      (''meeting_receipt_updated_at'', PTime now),
      (''meeting_receipt_reconcile_after_at'', PTime (now + MEETING_RECEIPT_RECONCILE_AFTER)),
      (''meeting_receipt_intent_id'', PNone),
      (''meeting_receipt_intent_persisted_at'', PNone),
      (''meeting_receipt_materialized_at'', PNone)]"

text \<open>The receipt a job already carries: the fields of it that are present.\<close>

definition stored_receipt :: "doc \<Rightarrow> dict" where
  "stored_receipt job = map (\<lambda>k. (k, the (job k))) (filter (\<lambda>k. job k \<noteq> None) receipt_keys)"

definition receipt_job :: "string \<Rightarrow> string \<Rightarrow> int \<Rightarrow> int \<Rightarrow> dict \<Rightarrow> fields" where
  "receipt_job uid conversation_id revision now receipt =
     [(''schema_version'', Put (PInt 1)),
      (''uid'', Put (PStr uid)),
      (''conversation_id'', Put (PStr conversation_id)),
      (''finalization_revision'', Put (PInt revision)),
      (''status'', Put (PStr ''completed'')),
      (''requires_byok'', Put (PBool False)),
      (''processing_trigger'', Put (PStr (trigger_value CAPTURE_END))),
      (''force_process'', Put (PBool False)),
      (''fanout_key'', Put (PStr (''conversation:'' @ conversation_id @ '':finalization''))),
      (''fanout_status'', Put (PStr ''completed'')),
      (''fanout_completed_at'', Put (PTime now)),
      (''finalization_outcome'', Put (PStr ''success'')),
      (''terminal_outcome'', Put (PStr ''success'')),
      (''terminal_at'', Put (PTime now)),
      (''dispatch_generation'', Put (PInt 1)),
      (''attempt_count'', Put (PInt 1)),
      (''task_retry_count'', Put (PInt 0)),
      (''created_at'', Put (PTime now)),
      (''updated_at'', Put (PTime now))]
     @ map (\<lambda>(k, v). (k, Put v)) receipt"

text \<open>\<open>receipt[k]\<close>, which raises when the stored receipt lacks the key.\<close>

definition receipt_get :: "dict \<Rightarrow> string \<Rightarrow> pyval res" where
  "receipt_get receipt k = (case map_of receipt k of None \<Rightarrow> Inl KeyError | Some v \<Rightarrow> Inr v)"

record receipt_result =
  receipt_status :: string
  receipt_job_id :: "string option"
  receipt_fields :: dict

definition receipt_job_id_for :: "intent_env \<Rightarrow> string \<Rightarrow> string \<Rightarrow> string option \<Rightarrow> doc \<Rightarrow> string res" where
  "receipt_job_id_for ie uid conversation_id finalization_job_id conversation =
     (case finalization_job_id of
        Some (c # cs) \<Rightarrow> Inr (c # cs)
      | _ \<Rightarrow> (case as_str (dget conversation ''finalization_job_id'') of
                Some (c # cs) \<Rightarrow> Inr (c # cs)
              | _ \<Rightarrow> res_bind (int_or conversation ''finalization_revision'' 0) (\<lambda>rev.
                  Inr (job_id_of ie uid conversation_id (rev + 1)))))"

definition receipt_conversation_updates :: "doc \<Rightarrow> string \<Rightarrow> dict \<Rightarrow> fields res" where
  "receipt_conversation_updates conversation job_id receipt =
     res_bind (receipt_get receipt ''meeting_treatment_eligible'') (\<lambda>eligible.
     res_bind (receipt_get receipt ''meeting_treatment_reason'') (\<lambda>reason.
     res_bind (receipt_get receipt ''meeting_duration_s'') (\<lambda>duration.
     res_bind (receipt_get receipt ''meeting_dedup_speech_s'') (\<lambda>speech.
     let base =
       [(''finalization_job_id'', Put (PStr job_id)),
        (''meeting_treatment_eligible'', Put (PBool (truthy eligible))),
        (''meeting_treatment_reason'', Put reason),
        (''meeting_duration_s'', Put duration),
        (''meeting_dedup_speech_s'', Put speech)]
     in if truthy (dget conversation ''finalization_job_id'') then Inr base
        else res_bind (int_or conversation ''finalization_revision'' 0) (\<lambda>rev.
          Inr (base @ [(''finalization_revision'', Put (PInt (rev + 1))),
                       (''finalization_status'', Put (PStr ''completed''))]))))))"

definition record_meeting_receipt_txn ::
  "intent_env \<Rightarrow> string \<Rightarrow> string \<Rightarrow> string option \<Rightarrow> bool \<Rightarrow> string \<Rightarrow> real \<Rightarrow> real \<Rightarrow> int \<Rightarrow>
   (path \<Rightarrow> doc option) \<Rightarrow> (receipt_result \<times> write list) res" where
  "record_meeting_receipt_txn ie uid conversation_id finalization_job_id eligible reason duration_s
     dedup_speech_s now rd =
     (let ref = conversation_ref uid conversation_id;
          failed = (\<lambda>s. Inr (\<lparr>receipt_status = s, receipt_job_id = None, receipt_fields = []\<rparr>, []))
      in case rd ref of
        None \<Rightarrow> failed ''missing''
      | Some conversation \<Rightarrow>
          res_bind (receipt_job_id_for ie uid conversation_id finalization_job_id conversation) (\<lambda>job_id.
            let job = (case rd (job_ref job_id) of None \<Rightarrow> Map.empty | Some d \<Rightarrow> d);
                present = (rd (job_ref job_id) \<noteq> None \<and> job \<noteq> Map.empty)
            in if present \<and> (dget job ''uid'' \<noteq> PStr uid \<or> dget job ''conversation_id'' \<noteq> PStr conversation_id)
               then failed ''identity_mismatch''
               else
                 let fresh = new_receipt eligible reason duration_s dedup_speech_s now;
                     recorded = py_eq (dget job ''meeting_receipt_schema_version'') (PInt MEETING_RECEIPT_SCHEMA_VERSION);
                     receipt = (if recorded then stored_receipt job else fresh)
                 in res_bind
                      (if recorded then Inr []
                       else if present then Inr [Update (job_ref job_id) (map (\<lambda>(k, v). (k, Put v)) fresh)]
                       else res_bind (int_or conversation ''finalization_revision'' 0) (\<lambda>rev.
                         Inr [SetDoc (job_ref job_id) (receipt_job uid conversation_id (rev + 1) now fresh)]))
                      (\<lambda>job_writes.
                        res_bind (receipt_conversation_updates conversation job_id receipt) (\<lambda>updates.
                          Inr (\<lparr>receipt_status = ''recorded'', receipt_job_id = Some job_id, receipt_fields = receipt\<rparr>,
                               job_writes @ [Update ref updates])))))"

definition mark_meeting_receipt_intent_persisted_txn ::
  "string \<Rightarrow> string \<Rightarrow> int \<Rightarrow> (path \<Rightarrow> doc option) \<Rightarrow> (bool \<times> write list) res" where
  "mark_meeting_receipt_intent_persisted_txn job_id intent_id now rd =
     (case rd (job_ref job_id) of
        None \<Rightarrow> Inr (False, [])
      | Some job \<Rightarrow>
          (case as_str (dget job ''meeting_receipt_intent_id'') of
             Some existing \<Rightarrow> Inr (existing = intent_id, [])
           | None \<Rightarrow> Inr (True,
               [Update (job_ref job_id)
                  [(''meeting_receipt_intent_id'', Put (PStr intent_id)),
                   (''meeting_receipt_intent_persisted_at'', Put (PTime now)),
                   (''meeting_receipt_updated_at'', Put (PTime now))]])))"

definition mark_meeting_receipt_materialized_txn ::
  "string \<Rightarrow> string \<Rightarrow> string \<Rightarrow> int \<Rightarrow> (path \<Rightarrow> doc option) \<Rightarrow> (bool \<times> write list) res" where
  "mark_meeting_receipt_materialized_txn uid conversation_id intent_id materialized_at rd =
     (case rd (conversation_ref uid conversation_id) of
        None \<Rightarrow> Inr (False, [])
      | Some conversation \<Rightarrow>
          (case as_str (dget conversation ''finalization_job_id'') of
             Some (c # cs) \<Rightarrow>
               (case rd (job_ref (c # cs)) of
                  None \<Rightarrow> Inr (False, [])
                | Some job \<Rightarrow>
                    if dget job ''meeting_receipt_intent_id'' \<noteq> PStr intent_id then Inr (False, [])
                    else if dget job ''meeting_receipt_materialized_at'' = PNone
                    then Inr (True,
                      [Update (job_ref (c # cs))
                         [(''meeting_receipt_materialized_at'', Put (PTime materialized_at)),
                          (''meeting_receipt_updated_at'', Put (PTime materialized_at))]])
                    else Inr (True, []))
           | _ \<Rightarrow> Inr (False, [])))"

subsection \<open>Public entry points\<close>

definition record_meeting_receipt where
  "record_meeting_receipt fetch commit ie st uid conversation_id finalization_job_id eligible reason duration_s
     dedup_speech_s now =
     run_txn fetch commit (record_meeting_receipt_txn ie uid conversation_id finalization_job_id eligible reason
       duration_s dedup_speech_s now) st"

definition mark_meeting_receipt_intent_persisted where
  "mark_meeting_receipt_intent_persisted fetch commit st job_id intent_id now =
     run_txn fetch commit (mark_meeting_receipt_intent_persisted_txn job_id intent_id now) st"

definition mark_meeting_receipt_materialized where
  "mark_meeting_receipt_materialized fetch commit st uid conversation_id intent_id materialized_at =
     run_txn fetch commit (mark_meeting_receipt_materialized_txn uid conversation_id intent_id materialized_at) st"

subsection \<open>The verdict is recorded once\<close>

lemma upd_fields_receipt:
  assumes "distinct (map fst r)" "(k, v) \<in> set r" "k \<notin> fst ` set fs"
  shows "upd_fields d (fs @ map (\<lambda>(k, v). (k, Put v)) r) k = Some v"
proof -
  have "map_of fs k = None" using assms(3) by (simp add: map_of_eq_None_iff)
  moreover have "map_of (map (\<lambda>(k, v). (k, Put v)) r) k = Some (Put v)"
    using assms(1,2) by (intro map_of_is_SomeI) (force simp: comp_def split_beta)+
  ultimately show ?thesis by (simp add: upd_fields_def map_add_def)
qed

lemma put_keys: "fst ` set (map (\<lambda>(k, v). (k, Put v)) r) = set (map fst r)"
  by (induction r) auto

lemma receipt_keys_distinct: "distinct receipt_keys"
  by (simp add: receipt_keys_def)

lemma not_receipt_keys: "''uid'' \<notin> set receipt_keys" "''conversation_id'' \<notin> set receipt_keys"
  by (simp_all add: receipt_keys_def)

lemma new_receipt_keys: "map fst (new_receipt eligible reason duration speech now) = receipt_keys"
  by (simp add: new_receipt_def receipt_keys_def)

lemma receipt_job_prefix:
  "\<exists>fs. receipt_job uid cid revision now receipt = fs @ map (\<lambda>(k, v). (k, Put v)) receipt \<and> fst ` set fs \<inter> set receipt_keys = {}
    \<and> map_of fs ''uid'' = Some (Put (PStr uid)) \<and> map_of fs ''conversation_id'' = Some (Put (PStr cid))"
  unfolding receipt_job_def by (intro exI conjI, rule refl) (simp_all add: receipt_keys_def)

lemma stored_receipt_eq:
  assumes "map fst r = receipt_keys" "\<And>k v. (k, v) \<in> set r \<Longrightarrow> job k = Some v"
  shows "stored_receipt job = r"
proof -
  have "filter (\<lambda>k. job k \<noteq> None) (map fst r) = map fst r" using assms(2) by (auto simp: filter_id_conv)
  moreover have "map (\<lambda>x. (fst x, the (job (fst x)))) r = r" using assms(2) by (intro map_idI) auto
  ultimately show ?thesis by (simp add: stored_receipt_def assms(1) [symmetric] comp_def)
qed

lemma stored_receipt_new:
  assumes "fst ` set fs \<inter> set receipt_keys = {}" "r = new_receipt eligible reason duration speech now"
  shows "stored_receipt (upd_fields d (fs @ map (\<lambda>(k, v). (k, Put v)) r)) = r"
    and "dget (upd_fields d (fs @ map (\<lambda>(k, v). (k, Put v)) r)) ''meeting_receipt_schema_version'' = PInt MEETING_RECEIPT_SCHEMA_VERSION"
proof -
  have "upd_fields d (fs @ map (\<lambda>(k, v). (k, Put v)) r) k = Some v" if "(k, v) \<in> set r" for k v
  proof (rule upd_fields_receipt [OF _ that])
    show "distinct (map fst r)" by (simp add: assms(2) new_receipt_keys receipt_keys_distinct)
    have "k \<in> set receipt_keys" using that by (metis assms(2) fst_conv image_eqI list.set_map new_receipt_keys)
    then show "k \<notin> fst ` set fs" using assms(1) by blast
  qed
  note reads = this
  show "stored_receipt (upd_fields d (fs @ map (\<lambda>(k, v). (k, Put v)) r)) = r"
    by (rule stored_receipt_eq) (simp_all add: assms(2) new_receipt_keys reads [unfolded assms(2)])
  have "(''meeting_receipt_schema_version'', PInt MEETING_RECEIPT_SCHEMA_VERSION) \<in> set r" by (simp add: assms(2) new_receipt_def)
  from reads [OF this]
  show "dget (upd_fields d (fs @ map (\<lambda>(k, v). (k, Put v)) r)) ''meeting_receipt_schema_version'' = PInt MEETING_RECEIPT_SCHEMA_VERSION"
    by (simp add: dget_def)
qed

text \<open>What a successful call leaves behind: a job that carries the receipt and a conversation bound to it.\<close>

definition receipt_settled :: "string \<Rightarrow> string \<Rightarrow> string \<Rightarrow> dict \<Rightarrow> (path \<Rightarrow> doc option) \<Rightarrow> bool" where
  "receipt_settled uid cid j receipt rd \<longleftrightarrow>
     (\<exists>c job. rd (conversation_ref uid cid) = Some c \<and> c ''finalization_job_id'' = Some (PStr j)
        \<and> rd (job_ref j) = Some job \<and> dget job ''uid'' = PStr uid \<and> dget job ''conversation_id'' = PStr cid
        \<and> py_eq (dget job ''meeting_receipt_schema_version'') (PInt MEETING_RECEIPT_SCHEMA_VERSION)
        \<and> stored_receipt job = receipt \<and> (\<exists>us. receipt_conversation_updates c j receipt = Inr us))"

lemma settled_again:
  assumes "receipt_settled uid cid j receipt rd" "j \<noteq> []" "jid \<in> {None, Some j}"
  shows "\<exists>us. record_meeting_receipt_txn ie uid cid jid eligible reason duration speech now rd =
    Inr (\<lparr>receipt_status = ''recorded'', receipt_job_id = Some j, receipt_fields = receipt\<rparr>,
         [Update (conversation_ref uid cid) us])"
proof -
  obtain c job us where h: "rd (conversation_ref uid cid) = Some c" "c ''finalization_job_id'' = Some (PStr j)" "rd (job_ref j) = Some job"
    "dget job ''uid'' = PStr uid" "dget job ''conversation_id'' = PStr cid"
    "py_eq (dget job ''meeting_receipt_schema_version'') (PInt MEETING_RECEIPT_SCHEMA_VERSION)"
    "stored_receipt job = receipt" "receipt_conversation_updates c j receipt = Inr us"
    using assms(1) unfolding receipt_settled_def by blast
  have "receipt_job_id_for ie uid cid jid c = Inr j"
    using assms(2,3) h(2) by (auto simp: receipt_job_id_for_def dget_def neq_Nil_conv)
  with h show ?thesis by (simp add: record_meeting_receipt_txn_def Let_def)
qed

lemma receipt_updates_settle:
  assumes "receipt_conversation_updates c j receipt = Inr us" "j \<noteq> []"
  shows "upd_fields c us ''finalization_job_id'' = Some (PStr j) \<and> (\<exists>us'. receipt_conversation_updates (upd_fields c us) j receipt = Inr us')"
proof -
  have f: "upd_fields c us ''finalization_job_id'' = Some (PStr j)"
    using assms(1) by (auto simp: receipt_conversation_updates_def Let_def split: if_split_asm)
  moreover have "\<exists>us'. receipt_conversation_updates (upd_fields c us) j receipt = Inr us'"
    using assms by (auto simp: receipt_conversation_updates_def Let_def dget_def f split: if_split_asm)
  ultimately show ?thesis by blast
qed

lemma record_receipt_cases:
  assumes "record_meeting_receipt_txn ie uid cid jid eligible reason duration speech now rd = Inr (r, ws)"
    and "receipt_status r = ''recorded''"
  obtains (stored) c j job us where "rd (conversation_ref uid cid) = Some c" "rd (job_ref j) = Some job"
      "dget job ''uid'' = PStr uid" "dget job ''conversation_id'' = PStr cid"
      "py_eq (dget job ''meeting_receipt_schema_version'') (PInt MEETING_RECEIPT_SCHEMA_VERSION)"
      "receipt_conversation_updates c j (receipt_fields r) = Inr us" "receipt_fields r = stored_receipt job"
      "r = \<lparr>receipt_status = ''recorded'', receipt_job_id = Some j, receipt_fields = receipt_fields r\<rparr>"
      "ws = [Update (conversation_ref uid cid) us]"
    | (updated) c j job us where "rd (conversation_ref uid cid) = Some c" "rd (job_ref j) = Some job"
      "dget job ''uid'' = PStr uid" "dget job ''conversation_id'' = PStr cid"
      "receipt_conversation_updates c j (receipt_fields r) = Inr us"
      "receipt_fields r = new_receipt eligible reason duration speech now"
      "r = \<lparr>receipt_status = ''recorded'', receipt_job_id = Some j, receipt_fields = receipt_fields r\<rparr>"
      "ws = [Update (job_ref j) (map (\<lambda>(k, v). (k, Put v)) (receipt_fields r)), Update (conversation_ref uid cid) us]"
    | (created) c j revision us where "rd (conversation_ref uid cid) = Some c"
      "receipt_conversation_updates c j (receipt_fields r) = Inr us"
      "receipt_fields r = new_receipt eligible reason duration speech now"
      "r = \<lparr>receipt_status = ''recorded'', receipt_job_id = Some j, receipt_fields = receipt_fields r\<rparr>"
      "ws = [SetDoc (job_ref j) (receipt_job uid cid revision now (receipt_fields r)), Update (conversation_ref uid cid) us]"
      "rd (job_ref j) = None \<or> rd (job_ref j) = Some Map.empty"
proof -
  obtain c j where c: "rd (conversation_ref uid cid) = Some c" and j: "receipt_job_id_for ie uid cid jid c = Inr j"
    using assms by (fastforce simp: record_meeting_receipt_txn_def Let_def split: option.split_asm)
  have none: "\<not> py_eq (dget Map.empty ''meeting_receipt_schema_version'') (PInt MEETING_RECEIPT_SCHEMA_VERSION)"
    by (simp add: dget_def py_eq_def)
  consider (absent) "rd (job_ref j) = None \<or> rd (job_ref j) = Some Map.empty"
    | (there) job where "rd (job_ref j) = Some job" "job \<noteq> Map.empty" by (cases "rd (job_ref j)") auto
  then show thesis
  proof cases
    case absent
    then show thesis
      using assms c j none created [OF c] by (auto simp: record_meeting_receipt_txn_def Let_def)
  next
    case there
    show thesis
    proof (cases "py_eq (dget job ''meeting_receipt_schema_version'') (PInt MEETING_RECEIPT_SCHEMA_VERSION)")
      case True
      then show thesis
        using assms c j there stored [OF c there(1)] by (auto simp: record_meeting_receipt_txn_def Let_def split: if_split_asm)
    next
      case False
      then show thesis
        using assms c j there updated [OF c there(1)] by (auto simp: record_meeting_receipt_txn_def Let_def split: if_split_asm)
    qed
  qed
qed

lemma recorded_settles:
  assumes "record_meeting_receipt_txn ie uid cid jid eligible reason duration speech now rd = Inr (r, ws)"
    and "receipt_status r = ''recorded''" "receipt_job_id r = Some j" "j \<noteq> []"
  shows "r = \<lparr>receipt_status = ''recorded'', receipt_job_id = Some j, receipt_fields = receipt_fields r\<rparr>
    \<and> receipt_settled uid cid j (receipt_fields r) (after_view ws rd)"
proof -
  have ne [simp]: "job_ref i \<noteq> conversation_ref uid cid" "conversation_ref uid cid \<noteq> job_ref i" for i
    by (simp_all add: job_ref_def conversation_ref_def)
  from assms(1,2) show ?thesis
  proof (cases rule: record_receipt_cases)
    case (stored c j' job us)
    have "j' = j" using stored(8) assms(3) by (metis option.inject receipt_result.select_convs(2))
    with stored receipt_updates_settle [OF stored(6)] assms(4) show ?thesis
      unfolding receipt_settled_def by (simp add: after_view_def)
  next
    case (updated c j' job us)
    have "j' = j" using updated(7) assms(3) by (metis option.inject receipt_result.select_convs(2))
    moreover have "upd_fields job (map (\<lambda>(k, v). (k, Put v)) (receipt_fields r)) k = job k" if "k \<notin> set receipt_keys" for k
      using that by (intro upd_fields_other) (simp only: put_keys updated(6) new_receipt_keys not_False_eq_True)
    then have "dget (upd_fields job (map (\<lambda>(k, v). (k, Put v)) (receipt_fields r))) k = dget job k" if "k \<in> {''uid'', ''conversation_id''}" for k
      using that by (elim insertE) (simp_all add: dget_def not_receipt_keys)
    ultimately have "receipt_settled uid cid j (receipt_fields r) (after_view ws rd)"
      using updated(1-5) receipt_updates_settle [OF updated(5) assms(4) [folded \<open>j' = j\<close>]]
        stored_receipt_new [of "[]", unfolded append_Nil, OF _ updated(6), of job]
      unfolding receipt_settled_def updated(8) after_view_def by simp
    with updated(7) \<open>j' = j\<close> show ?thesis by blast
  next
    case (created c j' revision us)
    have "j' = j" using created(4) assms(3) by (metis option.inject receipt_result.select_convs(2))
    moreover obtain fs where fs: "receipt_job uid cid revision now (receipt_fields r) = fs @ map (\<lambda>(k, v). (k, Put v)) (receipt_fields r)"
      "fst ` set fs \<inter> set receipt_keys = {}" "map_of fs ''uid'' = Some (Put (PStr uid))" "map_of fs ''conversation_id'' = Some (Put (PStr cid))"
      using receipt_job_prefix by blast
    moreover have "dget (upd_fields Map.empty (receipt_job uid cid revision now (receipt_fields r))) ''uid'' = PStr uid"
      "dget (upd_fields Map.empty (receipt_job uid cid revision now (receipt_fields r))) ''conversation_id'' = PStr cid"
      unfolding fs(1) using fs(3,4) by (simp_all add: dget_def upd_fields_def map_add_def)
    ultimately have "receipt_settled uid cid j (receipt_fields r) (after_view ws rd)"
      using created(1,2) receipt_updates_settle [OF created(2) assms(4) [folded \<open>j' = j\<close>]]
        stored_receipt_new [OF fs(2) created(3), of Map.empty]
      unfolding receipt_settled_def created(5) after_view_def by simp
    with created(4) \<open>j' = j\<close> show ?thesis by blast
  qed
qed

end
