(* ===== verification/Job_Moves.thy ===== *)
theory Job_Moves
  imports Meeting_Receipt
begin

text \<open>
  What one transaction may do to the collection of finalization jobs. \<open>job_move\<close> relates the
  job document before and after a write and the projection counters written with it;
  \<open>job_effect\<close> says that a write set changes at most one job, by such a move, the counters of
  that job's projection shard by the move's deltas, and otherwise only conversations. Every
  transaction of the component is shown to have such an effect.
\<close>

subsection \<open>The invariant of one job\<close>

definition ajob_inv :: "ajob \<Rightarrow> bool" where
  "ajob_inv a \<longleftrightarrow>
     (a_outcome a = None \<longleftrightarrow> a_status a \<in> {Queued, Leased, Blocked_Byok})
     \<and> (a_outcome a = Some Success \<longrightarrow> a_status a = Completed \<and> a_fanout a = F_Completed)
     \<and> (a_outcome a = Some Stale \<longrightarrow> a_status a = Completed \<and> a_fanout a = F_Fenced)
     \<and> (a_outcome a = Some Failure \<longrightarrow> a_status a = Dead_Letter)
     \<and> (a_status a = Blocked_Byok \<longrightarrow> a_byok a)
     \<and> (a_reconcile a \<longleftrightarrow> \<not> a_byok a \<and> a_status a \<in> {Queued, Leased})"

lemma ajob_step_inv: "ajob_step l a b \<Longrightarrow> ajob_inv a \<Longrightarrow> ajob_inv b"
  by (erule ajob_stepE) (auto simp: ajob_inv_def)

text \<open>The state of a job on creation: waiting for a task, or for the user's keys.\<close>

definition ajob_init :: "bool \<Rightarrow> ajob" where
  "ajob_init byok =
     \<lparr>a_status = (if byok then Blocked_Byok else Queued), a_generation = 1, a_epoch = 0, a_attempts = 0,
      a_byok = byok, a_fanout = F_Pending, a_outcome = None, a_reconcile = (\<not> byok)\<rparr>"

lemma ajob_init_inv: "ajob_inv (ajob_init byok)"
  by (simp add: ajob_init_def ajob_inv_def)

text \<open>A receipt for a conversation without a job stores a job that is completed from the start.\<close>

definition ajob_receipt :: ajob where
  "ajob_receipt =
     \<lparr>a_status = Completed, a_generation = 1, a_epoch = 0, a_attempts = 1, a_byok = False,
      a_fanout = F_Completed, a_outcome = Some Success, a_reconcile = False\<rparr>"

lemma ajob_receipt_inv: "ajob_inv ajob_receipt"
  by (simp add: ajob_receipt_def ajob_inv_def)

subsection \<open>Counters of the projection\<close>

datatype counter =
    C_Accepted | C_Queued | C_Leased | C_Blocked | C_Completed | C_Dead | C_Success | C_Failure | C_Stale

fun counter_name :: "counter \<Rightarrow> string" where
  "counter_name C_Accepted = ''accepted''"
| "counter_name C_Queued = ''queued''"
| "counter_name C_Leased = ''leased''"
| "counter_name C_Blocked = ''blocked_byok''"
| "counter_name C_Completed = ''completed''"
| "counter_name C_Dead = ''dead_letter''"
| "counter_name C_Success = ''success''"
| "counter_name C_Failure = ''failure''"
| "counter_name C_Stale = ''stale''"

text \<open>Which jobs a counter is meant to count.\<close>

fun counted :: "counter \<Rightarrow> ajob \<Rightarrow> bool" where
  "counted C_Accepted a = True"
| "counted C_Queued a = (a_status a = Queued)"
| "counted C_Leased a = (a_status a = Leased)"
| "counted C_Blocked a = (a_status a = Blocked_Byok)"
| "counted C_Completed a = (a_status a = Completed)"
| "counted C_Dead a = (a_status a = Dead_Letter)"
| "counted C_Success a = (a_outcome a = Some Success)"
| "counted C_Failure a = (a_outcome a = Some Failure)"
| "counted C_Stale a = (a_outcome a = Some Stale)"

definition delta_of :: "(string \<times> int) list \<Rightarrow> counter \<Rightarrow> int" where
  "delta_of deltas c = (case map_of deltas (counter_name c) of None \<Rightarrow> 0 | Some n \<Rightarrow> n)"

fun step_deltas :: "jlabel \<Rightarrow> jstatus \<Rightarrow> (string \<times> int) list" where
  "step_deltas L_Resume s = [(''blocked_byok'', -1), (''queued'', 1)]"
| "step_deltas L_Claim s = (if s = Queued then [(''queued'', -1), (''leased'', 1)] else [])"
| "step_deltas L_Complete s = [(''leased'', -1), (''completed'', 1), (''success'', 1)]"
| "step_deltas L_Fence s = [(''leased'', -1), (''completed'', 1), (''stale'', 1)]"
| "step_deltas L_Fanout_Claim s = []"
| "step_deltas L_Fanout_Done s = []"
| "step_deltas L_Retry s = [(''leased'', -1), (''queued'', 1)]"
| "step_deltas L_Dead s = [(''leased'', -1), (''dead_letter'', 1), (''failure'', 1)]"
| "step_deltas L_Replay s = (if s = Leased then [(''leased'', -1), (''queued'', 1)] else [])"
| "step_deltas L_Abandon s =
     [(''queued'', if s = Queued then -1 else 0), (''leased'', if s = Leased then -1 else 0),
      (''dead_letter'', 1), (''failure'', 1)]"

definition create_deltas :: "bool \<Rightarrow> (string \<times> int) list" where
  "create_deltas byok =
     [(''accepted'', 1), (''blocked_byok'', if byok then 1 else 0), (''queued'', if byok then 0 else 1)]"

text \<open>The deltas of a step are exactly the change of what each counter is meant to count.\<close>

lemma step_deltas_counted:
  "ajob_step l a b \<Longrightarrow> ajob_inv a \<Longrightarrow>
   delta_of (step_deltas l (a_status a)) c = of_bool (counted c b) - of_bool (counted c a)"
  by (erule ajob_stepE; cases c) (auto simp: delta_of_def ajob_inv_def)

lemma create_deltas_counted: "delta_of (create_deltas byok) c = of_bool (counted c (ajob_init byok))"
  by (cases c) (simp_all add: delta_of_def create_deltas_def ajob_init_def)

subsection \<open>Moves of one job document\<close>

definition identity_keys :: "string list" where
  "identity_keys =
     [''uid'', ''conversation_id'', ''finalization_revision'', ''requires_byok'', ''processing_trigger'',
      ''created_at'', ''projection_generation'', ''projection_shard'']"

text \<open>
  Two versions of one job: the identifying fields are the same, and so is the key under which
  its external fanout is delivered.
\<close>

definition same_identity :: "doc \<Rightarrow> doc \<Rightarrow> bool" where
  "same_identity d d' \<longleftrightarrow> (\<forall>k \<in> set identity_keys. d' k = d k) \<and> fanout_key d' = fanout_key d"

lemma same_identity_refl [simp]: "same_identity d d"
  by (simp add: same_identity_def)

lemma same_identity_trans: "same_identity a b \<Longrightarrow> same_identity b c \<Longrightarrow> same_identity a c"
  by (simp add: same_identity_def)

inductive job_move :: "doc option \<Rightarrow> doc \<Rightarrow> (string \<times> int) list \<Rightarrow> bool" where
  move_step: "wf_job d \<Longrightarrow> wf_job d' \<Longrightarrow> ajob_step l (abs_job d) (abs_job d') \<Longrightarrow> same_identity d d' \<Longrightarrow>
    job_move (Some d) d' (step_deltas l (a_status (abs_job d)))"
| move_touch: "wf_job d \<Longrightarrow> wf_job d' \<Longrightarrow> abs_job d' = abs_job d \<Longrightarrow> same_identity d d' \<Longrightarrow>
    job_move (Some d) d' []"
| move_create: "wf_job d' \<Longrightarrow> abs_job d' = ajob_init byok \<Longrightarrow> projection_ref_for_job d' \<noteq> None \<Longrightarrow>
    job_move None d' (create_deltas byok)"
| move_receipt: "wf_job d' \<Longrightarrow> abs_job d' = ajob_receipt \<Longrightarrow> projection_ref_for_job d' = None \<Longrightarrow>
    job_move None d' []"

inductive_cases job_moveE: "job_move old d' deltas"

definition conv_writes :: "(path \<Rightarrow> doc option) \<Rightarrow> write list \<Rightarrow> bool" where
  "conv_writes rd cw \<longleftrightarrow> writes_ok rd cw \<and> (\<forall>w \<in> set cw. \<exists>u c. wpath w = conversation_ref u c)"

inductive job_effect :: "(path \<Rightarrow> doc option) \<Rightarrow> write list \<Rightarrow> bool" for rd where
  quiet: "conv_writes rd cw \<Longrightarrow> job_effect rd cw"
| moved: "wpath w = job_ref j \<Longrightarrow> write_ok rd w \<Longrightarrow> wdoc w (rd (job_ref j)) = Some d' \<Longrightarrow>
    job_move (rd (job_ref j)) d' deltas \<Longrightarrow> conv_writes rd cw \<Longrightarrow>
    ws = w # record_projection_delta True d' deltas @ cw \<Longrightarrow> job_effect rd ws"

inductive_cases job_effectE: "job_effect rd ws"

lemma conv_writes_Nil [simp]: "conv_writes rd []"
  by (simp add: conv_writes_def)

lemma conversation_ref_ne [simp]:
  "conversation_ref u c \<noteq> job_ref j" "job_ref j \<noteq> conversation_ref u c"
  "conversation_ref u c \<noteq> [FINALIZATION_PROJECTION_COLLECTION, k]"
  "[FINALIZATION_PROJECTION_COLLECTION, k] \<noteq> conversation_ref u c"
  "job_ref j \<noteq> [FINALIZATION_PROJECTION_COLLECTION, k]" "[FINALIZATION_PROJECTION_COLLECTION, k] \<noteq> job_ref j"
  by (simp_all add: conversation_ref_def job_ref_def FINALIZATION_JOBS_COLLECTION_def
      FINALIZATION_PROJECTION_COLLECTION_def)

lemma job_ref_inj [simp]: "job_ref i = job_ref j \<longleftrightarrow> i = j"
  by (simp add: job_ref_def)

lemma projection_same_identity:
  assumes "same_identity d d'"
  shows "projection_ref_for_job d' = projection_ref_for_job d"
    and "record_projection_delta pr d' deltas = record_projection_delta pr d deltas"
proof -
  have "d' k = d k" if "k = ''projection_generation'' \<or> k = ''projection_shard''" for k
    using assms that by (auto simp: same_identity_def identity_keys_def)
  then have g: "dget d' ''projection_generation'' = dget d ''projection_generation''"
    "dget d' ''projection_shard'' = dget d ''projection_shard''" by (simp_all add: dget_def)
  show "projection_ref_for_job d' = projection_ref_for_job d"
    and "record_projection_delta pr d' deltas = record_projection_delta pr d deltas"
    unfolding record_projection_delta_def projection_ref_for_job_def g by (rule refl)+
qed

lemma record_projection_delta_Nil [simp]: "record_projection_delta pr d [] = []"
  by (simp add: record_projection_delta_def split: option.split)

lemma projection_ref_form: "projection_ref_for_job d = Some p \<Longrightarrow> \<exists>k. p = [FINALIZATION_PROJECTION_COLLECTION, k]"
  by (auto simp: projection_ref_for_job_def split: option.splits if_split_asm)

lemma record_projection_delta_paths:
  "w \<in> set (record_projection_delta pr d deltas) \<Longrightarrow>
   projection_ref_for_job d = Some (wpath w) \<and> (\<exists>fs. w = SetMerge (wpath w) fs)"
  by (auto simp: record_projection_delta_def Let_def split: option.splits if_split_asm)

text \<open>The counter names of the source are plain field names.\<close>

definition plain_deltas :: "(string \<times> int) list \<Rightarrow> bool" where
  "plain_deltas deltas \<longleftrightarrow> (\<forall>k \<in> fst ` set deltas. CHR ''.'' \<notin> set k)"

lemma job_move_plain: "job_move old d' deltas \<Longrightarrow> plain_deltas deltas"
proof (erule job_moveE)
  fix d l
  assume "deltas = step_deltas l (a_status (abs_job d))"
  then show "plain_deltas deltas" by (cases l) (auto simp: plain_deltas_def)
qed (simp_all add: plain_deltas_def create_deltas_def)

lemma record_projection_delta_ok: "plain_deltas deltas \<Longrightarrow> writes_ok rd (record_projection_delta pr d deltas)"
  by (auto simp: record_projection_delta_def Let_def plain_deltas_def split: option.split)

text \<open>A write set with such an effect names each document once and is accepted by the service.\<close>

lemma job_effect_ok: "job_effect rd ws \<Longrightarrow> writes_ok rd ws"
proof (erule job_effectE)
  assume "conv_writes rd ws"
  then show ?thesis by (simp add: conv_writes_def)
next
  fix w j d' deltas cw
  assume *: "ws = w # record_projection_delta True d' deltas @ cw" "wpath w = job_ref j" "write_ok rd w"
    "conv_writes rd cw" and mv: "job_move (rd (job_ref j)) d' deltas"
  have p: "\<exists>k. wpath v = [FINALIZATION_PROJECTION_COLLECTION, k]" if "v \<in> set (record_projection_delta True d' deltas)" for v
    using record_projection_delta_paths [OF that] projection_ref_form by blast
  have c: "\<exists>u k. wpath v = conversation_ref u k" if "v \<in> set cw" for v
    using *(4) that by (auto simp: conv_writes_def)
  have "wpath ` set (record_projection_delta True d' deltas) \<inter> wpath ` set cw = {}"
    using p c by fastforce
  moreover have "job_ref j \<notin> wpath ` set (record_projection_delta True d' deltas)" "job_ref j \<notin> wpath ` set cw"
    using p c by fastforce+
  moreover have "writes_ok rd cw" using *(4) by (simp add: conv_writes_def)
  ultimately show ?thesis
    using * record_projection_delta_ok [OF job_move_plain [OF mv], of rd True d'] by (auto simp: writes_ok_def)
qed

end
