(* ===== verification/Job_Effects.thy ===== *)
theory Job_Effects
  imports Job_Moves
begin

text \<open>
  Every transaction on finalization jobs has the effect \<open>job_effect\<close> allows: the ten
  transactions of \<open>Finalization_Job\<close>, the admission transaction of \<open>Finalization_Intent\<close> and
  the receipt transactions of \<open>Meeting_Receipt\<close>.
\<close>

definition keeps_identity :: "fields \<Rightarrow> bool" where
  "keeps_identity fs \<longleftrightarrow> list_all (\<lambda>(k, v). k \<notin> set (''fanout_key'' # identity_keys) \<and> CHR ''.'' \<notin> set k) fs"

lemma fanout_key_cong:
  assumes "d' ''fanout_key'' = d ''fanout_key''" "d' ''conversation_id'' = d ''conversation_id''"
    "d' ''finalization_revision'' = d ''finalization_revision''"
  shows "fanout_key d' = fanout_key d"
  unfolding fanout_key_def int_or_def dget_def assms by (rule refl)

lemma keeps_identityD:
  assumes "keeps_identity fs"
  shows "same_identity d (upd_fields d fs)" and "\<forall>k \<in> fst ` set fs. CHR ''.'' \<notin> set k"
proof -
  have "upd_fields d fs k = d k" if "k \<in> set (''fanout_key'' # identity_keys)" for k
    using assms that by (intro upd_fields_other) (fastforce simp: keeps_identity_def list_all_iff)
  then show "same_identity d (upd_fields d fs)"
    unfolding same_identity_def by (intro conjI fanout_key_cong) (simp_all add: identity_keys_def)
  show "\<forall>k \<in> fst ` set fs. CHR ''.'' \<notin> set k" using assms by (auto simp: keeps_identity_def list_all_iff)
qed

lemma update_keeps_identity:
  "keeps_identity (resumed_update now)" "keeps_identity (claimed_update now expires e b)"
  "keeps_identity (completed_update now)" "keeps_identity (fenced_finalization_update now)"
  "keeps_identity (retry_update env now n b code)" "keeps_identity (dead_letter_update now n)"
  "keeps_identity (fanout_done_update now)"
  "keeps_identity (replayed_update now n stale)" "keeps_identity (abandoned_update now)"
  by (simp_all add: keeps_identity_def identity_keys_def job_update_defs)

text \<open>
  Claiming the fanout stores the key the job is delivered under, which is the key every later
  claim reads back.
\<close>

lemma fanout_key_nonempty: "fanout_key d = Inr key \<Longrightarrow> key \<noteq> []"
  by (auto simp: fanout_key_def split: option.splits list.splits)

lemma fanout_claimed_identity:
  assumes "fanout_key d = Inr key"
  shows "same_identity d (upd_fields d (fanout_claimed_update now key e))"
proof -
  have "key \<noteq> []" using assms by (rule fanout_key_nonempty)
  then have "fanout_key (upd_fields d (fanout_claimed_update now key e)) = Inr key"
    by (cases key) (simp_all add: fanout_key_def fanout_claimed_update_def dget_def)
  with assms show ?thesis by (simp add: same_identity_def identity_keys_def fanout_claimed_update_def)
qed

lemma step_effect_gen:
  assumes rd: "rd (job_ref j) = Some d" and wf: "wf_job d" "wf_job (upd_fields d fs)"
    and st: "ajob_step l (abs_job d) (abs_job (upd_fields d fs))"
    and same: "same_identity d (upd_fields d fs)" and dots: "\<forall>k \<in> fst ` set fs. CHR ''.'' \<notin> set k"
    and cw: "conv_writes rd cw" and deltas: "deltas = step_deltas l (a_status (abs_job d))"
    and ws: "ws = Update (job_ref j) fs # record_projection_delta True d deltas @ cw"
  shows "job_effect rd ws"
proof (rule moved)
  show "wpath (Update (job_ref j) fs) = job_ref j" by simp
  show "write_ok rd (Update (job_ref j) fs)" using rd dots by simp
  show "wdoc (Update (job_ref j) fs) (rd (job_ref j)) = Some (upd_fields d fs)" using rd by simp
  show "job_move (rd (job_ref j)) (upd_fields d fs) deltas"
    unfolding rd deltas using wf st same by (rule move_step)
  show "ws = Update (job_ref j) fs # record_projection_delta True (upd_fields d fs) deltas @ cw"
    using ws projection_same_identity(2) [OF same] by simp
qed fact

lemma step_effect:
  assumes "rd (job_ref j) = Some d" and "wf_job d" "wf_job (upd_fields d fs)"
    and "ajob_step l (abs_job d) (abs_job (upd_fields d fs))" and "keeps_identity fs"
    and "conv_writes rd cw" and "deltas = step_deltas l (a_status (abs_job d))"
    and "ws = Update (job_ref j) fs # record_projection_delta True d deltas @ cw"
  shows "job_effect rd ws"
  using assms keeps_identityD [OF assms(5)] by (intro step_effect_gen)

lemma step_effect_simple:
  assumes "rd (job_ref j) = Some d" and "wf_job d" "wf_job (upd_fields d fs)"
    and "ajob_step l (abs_job d) (abs_job (upd_fields d fs))" and "keeps_identity fs"
    and "deltas = step_deltas l (a_status (abs_job d))"
    and "ws = Update (job_ref j) fs # record_projection_delta True d deltas"
  shows "job_effect rd ws"
  using assms by (intro step_effect [where cw = "[]"]) simp_all

text \<open>The conversation writes of the two transactions that close a conversation.\<close>

lemma dead_letter_conv_writes: "conv_writes rd (dead_letter_conversation_writes j d rd)"
  by (auto simp: dead_letter_conversation_writes_def conv_writes_def split: option.splits prod.splits)

lemma abandoned_conv_writes: "conv_writes rd (snd (abandoned_conversation j d rd))"
  by (auto simp: abandoned_conversation_def conv_writes_def split: option.splits prod.splits)

subsection \<open>The ten transactions on an existing job\<close>

lemma resume_effect:
  assumes "resume_blocked_byok_job_txn True j now rd = Inr (r, ws)"
    and wf: "\<And>d. rd (job_ref j) = Some d \<Longrightarrow> wf_job d"
  shows "job_effect rd ws"
proof (cases "ws = []")
  case False
  then obtain d where d: "rd (job_ref j) = Some d"
    using assms by (auto simp: resume_blocked_byok_job_txn_def split: option.splits)
  note w = resume_txn_writes [OF wf [OF d] d assms(1) False]
  show ?thesis
    using w d wf [OF d] by (intro step_effect_simple [where l = L_Resume])
      (auto simp: update_wf update_abs update_keeps_identity intro: ajob_step.intros)
qed (simp add: quiet)

lemma claim_effect:
  assumes "claim_finalization_job_txn True j g allow ls now eu ec rd = Inr (r, ws)"
    and wf: "\<And>d. rd (job_ref j) = Some d \<Longrightarrow> wf_job d"
  shows "job_effect rd ws"
proof (cases "ws = []")
  case False
  then obtain d where d: "rd (job_ref j) = Some d"
    using assms by (auto simp: claim_finalization_job_txn_def split: option.splits)
  note w = claim_txn_writes [OF wf [OF d] d assms(1) False]
  have "0 \<le> a_epoch (abs_job d) + 1" using wf_jobD(9) [OF wf [OF d]] by simp
  then show ?thesis
    using w d wf [OF d] ajob_step.claim [of "abs_job d"] by (intro step_effect_simple [where l = L_Claim])
      (auto simp: update_wf update_abs update_keeps_identity)
qed (simp add: quiet)

lemma completed_effect:
  assumes "mark_finalization_completed_txn True j g e now rd = Inr (r, ws)"
    and wf: "\<And>d. rd (job_ref j) = Some d \<Longrightarrow> wf_job d"
  shows "job_effect rd ws"
proof (cases "ws = []")
  case False
  then obtain d where d: "rd (job_ref j) = Some d"
    using assms by (auto simp: mark_finalization_completed_txn_def split: option.splits)
  note w = completed_txn_writes [OF wf [OF d] d assms(1) False]
  show ?thesis
    using w d wf [OF d] by (intro step_effect_simple [where l = L_Complete])
      (auto simp: update_wf update_abs update_keeps_identity intro: ajob_step.intros)
qed (simp add: quiet)

lemma fenced_effect:
  assumes "mark_finalization_fenced_txn True j g e now rd = Inr (r, ws)"
    and wf: "\<And>d. rd (job_ref j) = Some d \<Longrightarrow> wf_job d"
  shows "job_effect rd ws"
proof (cases "ws = []")
  case False
  then obtain d where d: "rd (job_ref j) = Some d"
    using assms by (auto simp: mark_finalization_fenced_txn_def split: option.splits)
  note w = fenced_txn_writes [OF wf [OF d] d assms(1) False]
  show ?thesis
    using w d wf [OF d] by (intro step_effect_simple [where l = L_Fence])
      (auto simp: update_wf update_abs update_keeps_identity intro: ajob_step.intros)
qed (simp add: quiet)

lemma fanout_claim_effect:
  assumes "claim_finalization_fanout_txn True j g e now rd = Inr (r, ws)"
    and wf: "\<And>d. rd (job_ref j) = Some d \<Longrightarrow> wf_job d"
  shows "job_effect rd ws"
proof (cases "ws = []")
  case False
  then obtain d where d: "rd (job_ref j) = Some d"
    using assms by (auto simp: claim_finalization_fanout_txn_def split: option.splits)
  note w = fanout_claim_txn_writes [OF wf [OF d] d assms(1) False]
  then have guard: "a_status (abs_job d) = Leased" "a_fanout (abs_job d) \<noteq> F_Completed" by simp_all
  from w obtain key where key: "fanout_key d = Inr key" and
    "ws = Update (job_ref j) (fenced_finalization_update now)
       # record_projection_delta True d [(''leased'', -1), (''completed'', 1), (''stale'', 1)]
     \<or> ws = [Update (job_ref j) (fanout_claimed_update now key e)]" by blast
  from this(2) show ?thesis
  proof
    assume ws: "ws = Update (job_ref j) (fenced_finalization_update now)
       # record_projection_delta True d [(''leased'', -1), (''completed'', 1), (''stale'', 1)]"
    show ?thesis
      using guard d wf [OF d]
      by (intro step_effect_simple [where l = L_Fence, OF _ _ _ _ _ _ ws])
        (simp_all add: update_wf update_abs update_keeps_identity ajob_step.intros)
  next
    assume ws: "ws = [Update (job_ref j) (fanout_claimed_update now key e)]"
    have dots: "\<forall>k \<in> fst ` set (fanout_claimed_update now key e). CHR ''.'' \<notin> set k"
      by (simp add: fanout_claimed_update_def)
    show ?thesis
      using guard d wf [OF d] ws dots fanout_claimed_identity [OF key]
      by (intro step_effect_gen [where l = L_Fanout_Claim and fs = "fanout_claimed_update now key e" and cw = "[]"])
        (auto simp: update_wf update_abs intro: ajob_step.intros)
  qed
qed (simp add: quiet)

lemma fanout_done_effect:
  assumes "mark_finalization_fanout_completed_txn j g e now rd = Inr (r, ws)"
    and wf: "\<And>d. rd (job_ref j) = Some d \<Longrightarrow> wf_job d"
  shows "job_effect rd ws"
proof (cases "ws = []")
  case False
  then obtain d where d: "rd (job_ref j) = Some d"
    using assms by (auto simp: mark_finalization_fanout_completed_txn_def split: option.splits)
  note w = fanout_done_txn_writes [OF wf [OF d] d assms(1) False]
  show ?thesis
    using w d wf [OF d] by (intro step_effect_simple [where l = L_Fanout_Done])
      (auto simp: update_wf update_abs update_keeps_identity intro: ajob_step.intros)
qed (simp add: quiet)

lemma retry_effect:
  assumes "mark_finalization_retryable_txn env True j g e code now rd = Inr (r, ws)"
    and wf: "\<And>d. rd (job_ref j) = Some d \<Longrightarrow> wf_job d"
  shows "job_effect rd ws"
proof (cases "ws = []")
  case False
  then obtain d where d: "rd (job_ref j) = Some d"
    using assms by (auto simp: mark_finalization_retryable_txn_def split: option.splits)
  note w = retry_txn_writes [OF wf [OF d] d assms(1) False]
  have "0 \<le> a_attempts (abs_job d) + 1" using wf_jobD(10) [OF wf [OF d]] by simp
  then show ?thesis
    using w d wf [OF d] ajob_step.retry [of "abs_job d"] by (intro step_effect_simple [where l = L_Retry])
      (auto simp: update_wf update_abs update_keeps_identity)
qed (simp add: quiet)

lemma dead_letter_effect:
  assumes "mark_finalization_dead_letter_txn True j g e n now rd = Inr (r, ws)"
    and wf: "\<And>d. rd (job_ref j) = Some d \<Longrightarrow> wf_job d"
  shows "job_effect rd ws"
proof (cases "ws = []")
  case False
  then obtain d where d: "rd (job_ref j) = Some d"
    using assms by (auto simp: mark_finalization_dead_letter_txn_def split: option.splits)
  note w = dead_letter_txn_writes [OF wf [OF d] d assms(1) False]
  show ?thesis
    using w d wf [OF d] dead_letter_conv_writes [of rd j d] by (intro step_effect [where l = L_Dead])
      (auto simp: update_wf update_abs update_keeps_identity intro: ajob_step.intros)
qed (simp add: quiet)

text \<open>Only a job without user keys is ever offered for replay.\<close>

lemma replay_effect:
  assumes "claim_finalization_replay_txn True j stale now rd = Inr (r, ws)"
    and wf: "\<And>d. rd (job_ref j) = Some d \<Longrightarrow> wf_job d"
    and plain: "\<And>d. rd (job_ref j) = Some d \<Longrightarrow> \<not> truthy (dget d ''requires_byok'')"
  shows "job_effect rd ws"
proof (cases "ws = []")
  case False
  then obtain d where d: "rd (job_ref j) = Some d"
    using assms by (auto simp: claim_finalization_replay_txn_def split: option.splits)
  note w = replay_txn_writes [OF wf [OF d] d assms(1) False]
  have "1 \<le> a_generation (abs_job d) + 1" using wf_jobD(8) [OF wf [OF d]] by simp
  moreover have "\<not> a_byok (abs_job d)" using plain [OF d] wf_jobD(6) [OF wf [OF d]] by simp
  ultimately show ?thesis
    using w d wf [OF d] by (intro step_effect_simple [where l = L_Replay])
      (auto simp: update_wf update_abs update_keeps_identity intro: ajob_step.intros)
qed (simp add: quiet)

lemma abandon_effect:
  assumes "abandon_byok_finalization_job_txn True j es eg ee cutoff now rd = Inr (r, ws)"
    and wf: "\<And>d. rd (job_ref j) = Some d \<Longrightarrow> wf_job d"
  shows "job_effect rd ws"
proof (cases "ws = []")
  case False
  then obtain d where d: "rd (job_ref j) = Some d"
    using assms by (auto simp: abandon_byok_finalization_job_txn_def split: option.splits)
  note w = abandon_txn_writes [OF wf [OF d] d assms(1) False]
  show ?thesis
    using w d wf [OF d] abandoned_conv_writes [of rd j d] by (intro step_effect [where l = L_Abandon])
      (auto simp: update_wf update_abs update_keeps_identity intro: ajob_step.intros)
qed (simp add: quiet)

subsection \<open>Admission\<close>

lemma projection_shard_range: "0 \<le> projection_shard sha j" "projection_shard sha j < FINALIZATION_PROJECTION_SHARD_COUNT"
  by (simp_all add: projection_shard_def FINALIZATION_PROJECTION_SHARD_COUNT_def)

lemma new_job_wf: "wf_job (upd_fields Map.empty (new_job ie uid cid rv byok conv trigger key j now))"
  unfolding wf_job_def by (simp add: new_job_def upd_reads)

lemma new_job_abs: "abs_job (upd_fields Map.empty (new_job ie uid cid rv byok conv trigger key j now)) = ajob_init byok"
  unfolding abs_job_def by (simp add: new_job_def upd_reads ajob_init_def)

lemma new_job_projection:
  "projection_ref_for_job (upd_fields Map.empty (new_job ie uid cid rv byok conv trigger key j now)) \<noteq> None"
  using projection_shard_range [of "ie_sha256 ie" j]
  by (simp add: projection_ref_for_job_def new_job_def dget_def)

lemma apply_projection_conv_writes:
  assumes "apply_snapshot_bound_projection ie (conversation_ref u c) uid (Some loaded) extra lu = Inr cw"
    and "rd (conversation_ref u c) \<noteq> None" and "\<forall>k \<in> fst ` set lu. CHR ''.'' \<notin> set k"
  shows "conv_writes rd cw"
proof -
  define us where "us bound = dict_update bound
    (filter (\<lambda>(k, v). takeWhile (\<lambda>ch. ch \<noteq> CHR ''.'') k \<notin> set PROJECTION_FAMILY_FIELDS) lu)" for bound
  from assms(1) obtain bound where b: "snapshot_bound_projection_updates ie uid loaded extra = Inr bound"
    and cw: "cw = (if us bound = [] then [] else [Update (conversation_ref u c) (map (\<lambda>(k, v). (k, Put v)) (us bound))])"
    unfolding apply_snapshot_bound_projection_def us_def Let_def
    by (simp only: option.case) (erule res_bind_InrE, simp only: sum.inject)
  have "\<forall>k \<in> fst ` set bound. CHR ''.'' \<notin> set k"
    using b by (auto simp: snapshot_bound_projection_updates_def PROJECTION_FAMILY_FIELDS_def)
  moreover have "set (us bound) \<subseteq> set bound \<union> set lu" by (auto simp: us_def dict_update_def)
  ultimately have "\<forall>k \<in> fst ` set (us bound). CHR ''.'' \<notin> set k" using assms(3) by blast
  with cw assms(2) show ?thesis by (auto simp: conv_writes_def)
qed

lemma attached_keys: "(k, v) \<in> set (attached_lifecycle j rv st) \<Longrightarrow> CHR ''.'' \<notin> set k"
  by (auto simp: attached_lifecycle_def)

lemma caller_keys: "(k, v) \<in> set (dict_update (non_projection_extra_updates extra) (attached_lifecycle j rv st)) \<Longrightarrow>
    CHR ''.'' \<notin> set k"
  by (auto simp: dict_update_def non_projection_extra_updates_def CALLER_LIFECYCLE_METADATA_def dest: attached_keys)

lemma intent_body_keys:
  assumes "intent_body ie uid cid byok admit now trigger extra rd loaded = Inr (intent, lu, jw)"
  shows "\<forall>k \<in> fst ` set lu. CHR ''.'' \<notin> set k"
  using assms unfolding intent_body_def Let_def
  by (auto split: if_split_asm option.split_asm list.split_asm bool.split_asm prod.split_asm)
    (meson attached_keys caller_keys)+

lemma intent_body_shape:
  assumes "intent_body ie uid cid byok admit now trigger extra rd loaded = Inr (intent, lu, jw)" "jw \<noteq> []"
  shows "\<exists>j rv key. rd (job_ref j) = None \<and>
    jw = SetDoc (job_ref j) (new_job ie uid cid rv byok loaded trigger key j now)
      # record_projection_delta True (upd_fields Map.empty (new_job ie uid cid rv byok loaded trigger key j now))
          (create_deltas byok)"
  using assms unfolding intent_body_def Let_def create_deltas_def [symmetric]
  by (auto split: if_split_asm option.split_asm list.split_asm bool.split_asm prod.split_asm) blast+

lemma create_effect:
  assumes "create_or_get_finalization_intent_txn ie uid cid byok admit now trigger extra rd = Inr (r, ws)"
  shows "job_effect rd ws"
proof (cases "rd (conversation_ref uid cid)")
  case None
  with assms show ?thesis by (simp add: create_or_get_finalization_intent_txn_def Let_def quiet)
next
  case (Some loaded)
  with assms obtain intent lu jw cw where
    body: "intent_body ie uid cid byok admit now trigger extra rd loaded = Inr (intent, lu, jw)"
    and cw: "apply_snapshot_bound_projection ie (conversation_ref uid cid) uid (Some loaded) extra lu = Inr cw"
    and ws: "ws = jw @ cw"
    by (fastforce simp: create_or_get_finalization_intent_txn_def Let_def)
  have c: "conv_writes rd cw" using apply_projection_conv_writes [OF cw] Some intent_body_keys [OF body] by blast
  show ?thesis
  proof (cases "jw = []")
    case True
    with c ws show ?thesis by (simp add: quiet)
  next
    case False
    with intent_body_shape [OF body] obtain j rv key where j: "rd (job_ref j) = None"
      and jw: "jw = SetDoc (job_ref j) (new_job ie uid cid rv byok loaded trigger key j now)
        # record_projection_delta True
            (upd_fields Map.empty (new_job ie uid cid rv byok loaded trigger key j now)) (create_deltas byok)"
      by auto
    show ?thesis
      using c ws jw j
      by (intro moved [where w = "SetDoc (job_ref j) (new_job ie uid cid rv byok loaded trigger key j now)" and j = j])
        (simp_all add: move_create new_job_wf new_job_abs new_job_projection)
  qed
qed

subsection \<open>Receipts\<close>

definition receipt_only :: "fields \<Rightarrow> bool" where
  "receipt_only fs \<longleftrightarrow> list_all (\<lambda>(k, v). k \<in> set receipt_keys) fs"

text \<open>No field a receipt writes is read by the life cycle of the job.\<close>

lemma receipt_reads:
  assumes "receipt_only fs"
  shows "k \<notin> set receipt_keys \<Longrightarrow> upd_fields d fs k = d k" and "keeps_identity fs"
  using assms by (auto simp: receipt_only_def keeps_identity_def list_all_iff receipt_keys_def identity_keys_def
      intro!: upd_fields_other)

lemma receipt_upd:
  assumes "receipt_only fs"
  shows "wf_job (upd_fields d fs) = wf_job d" and "abs_job (upd_fields d fs) = abs_job d"
proof -
  have k: "''status'' \<notin> set receipt_keys" "''dispatch_generation'' \<notin> set receipt_keys"
    "''lease_epoch'' \<notin> set receipt_keys" "''attempt_count'' \<notin> set receipt_keys"
    "''requires_byok'' \<notin> set receipt_keys" "''fanout_status'' \<notin> set receipt_keys"
    "''terminal_outcome'' \<notin> set receipt_keys" "''reconcile_after_at'' \<notin> set receipt_keys"
    "''finalization_revision'' \<notin> set receipt_keys" "''fanout_lease_epoch'' \<notin> set receipt_keys"
    by (simp_all add: receipt_keys_def)
  note r = k [THEN receipt_reads(1) [OF assms]]
  show "wf_job (upd_fields d fs) = wf_job d" "abs_job (upd_fields d fs) = abs_job d"
    unfolding wf_job_def abs_job_def upd_reads r by (rule refl)+
qed

lemma touch_effect:
  assumes rd: "rd (job_ref j) = Some d" and wf: "wf_job d" and fs: "receipt_only fs" and cw: "conv_writes rd cw"
  shows "job_effect rd (Update (job_ref j) fs # cw)"
  using assms keeps_identityD [OF receipt_reads(2) [OF fs]] receipt_upd [OF fs]
  by (intro moved [where w = "Update (job_ref j) fs" and j = j and d' = "upd_fields d fs" and deltas = "[]"])
    (simp_all add: move_touch)

lemma new_receipt_only: "receipt_only (map (\<lambda>(k, v). (k, Put v)) (new_receipt el rs du sp now))"
  by (simp add: receipt_only_def new_receipt_def receipt_keys_def)

lemma receipt_job_wf: "wf_job (upd_fields Map.empty (receipt_job uid cid rv now (new_receipt el rs du sp now')))"
  unfolding wf_job_def by (simp add: receipt_job_def new_receipt_def upd_reads)

lemma receipt_job_abs:
  "abs_job (upd_fields Map.empty (receipt_job uid cid rv now (new_receipt el rs du sp now'))) = ajob_receipt"
  unfolding abs_job_def ajob_receipt_def by (simp add: receipt_job_def new_receipt_def upd_reads)

lemma receipt_job_projection:
  "projection_ref_for_job (upd_fields Map.empty (receipt_job uid cid rv now (new_receipt el rs du sp now'))) = None"
  unfolding projection_ref_for_job_def by (simp add: receipt_job_def new_receipt_def dget_def)

lemma receipt_conv_writes:
  assumes "receipt_conversation_updates conv j receipt = Inr updates" "rd (conversation_ref u c) \<noteq> None"
  shows "conv_writes rd [Update (conversation_ref u c) updates]"
  using assms by (auto simp: receipt_conversation_updates_def conv_writes_def Let_def split: if_split_asm)

lemma receipt_txn_writes:
  assumes "record_meeting_receipt_txn ie uid cid jid el rs du sp now rd = Inr (r, ws)" "ws \<noteq> []"
  defines "fresh \<equiv> new_receipt el rs du sp now" and "ref \<equiv> conversation_ref uid cid"
  shows "\<exists>j updates conv receipt.
    rd ref = Some conv \<and> receipt_conversation_updates conv j receipt = Inr updates
    \<and> (ws = [Update ref updates]
      \<or> ws = [Update (job_ref j) (map (\<lambda>(k, v). (k, Put v)) fresh), Update ref updates] \<and> (\<exists>d. rd (job_ref j) = Some d)
      \<or> (\<exists>rv. ws = [SetDoc (job_ref j) (receipt_job uid cid rv now fresh), Update ref updates])
        \<and> (\<forall>d. rd (job_ref j) = Some d \<longrightarrow> d = Map.empty))"
  using assms(1,2) unfolding record_meeting_receipt_txn_def Let_def fresh_def ref_def
  by (auto split: option.split_asm if_split_asm) (blast | fastforce)+

lemma receipt_effect:
  assumes txn: "record_meeting_receipt_txn ie uid cid jid el rs du sp now rd = Inr (r, ws)"
    and wf: "\<And>j d. rd (job_ref j) = Some d \<Longrightarrow> wf_job d"
  shows "job_effect rd ws"
proof (cases "ws = []")
  case False
  let ?fresh = "new_receipt el rs du sp now" and ?ref = "conversation_ref uid cid"
  from receipt_txn_writes [OF txn False] obtain j updates conv receipt where
    conv: "rd ?ref = Some conv" and up: "receipt_conversation_updates conv j receipt = Inr updates"
    and ws: "ws = [Update ?ref updates]
      \<or> ws = [Update (job_ref j) (map (\<lambda>(k, v). (k, Put v)) ?fresh), Update ?ref updates] \<and> (\<exists>d. rd (job_ref j) = Some d)
      \<or> (\<exists>rv. ws = [SetDoc (job_ref j) (receipt_job uid cid rv now ?fresh), Update ?ref updates])
        \<and> (\<forall>d. rd (job_ref j) = Some d \<longrightarrow> d = Map.empty)"
    by blast
  have cw: "conv_writes rd [Update ?ref updates]" using receipt_conv_writes [OF up] conv by simp
  have "\<not> wf_job Map.empty" by (simp add: wf_job_def)
  with wf have "(\<forall>d. rd (job_ref j) = Some d \<longrightarrow> d = Map.empty) \<longleftrightarrow> rd (job_ref j) = None" by (cases "rd (job_ref j)") auto
  with ws consider "ws = [Update ?ref updates]"
    | d where "ws = [Update (job_ref j) (map (\<lambda>(k, v). (k, Put v)) ?fresh), Update ?ref updates]" "rd (job_ref j) = Some d"
    | rv where "ws = [SetDoc (job_ref j) (receipt_job uid cid rv now ?fresh), Update ?ref updates]" "rd (job_ref j) = None"
    by blast
  then show ?thesis
  proof cases
    case 1
    with cw show ?thesis by (simp add: quiet)
  next
    case 2
    with touch_effect [OF 2(2) wf [OF 2(2)] new_receipt_only cw] show ?thesis by simp
  next
    case 3
    have "job_move None (upd_fields Map.empty (receipt_job uid cid rv now ?fresh)) []"
      by (intro move_receipt receipt_job_wf receipt_job_abs receipt_job_projection)
    then show ?thesis
      using cw 3
      by (intro moved [where w = "SetDoc (job_ref j) (receipt_job uid cid rv now ?fresh)" and j = j and deltas = "[]"])
        simp_all
  qed
qed (simp add: quiet)

lemma receipt_intent_effect:
  assumes "mark_meeting_receipt_intent_persisted_txn j i now rd = Inr (r, ws)"
    and wf: "\<And>j d. rd (job_ref j) = Some d \<Longrightarrow> wf_job d"
  shows "job_effect rd ws"
  using assms touch_effect [of rd j _ _ "[]"]
  by (auto simp: mark_meeting_receipt_intent_persisted_txn_def receipt_only_def receipt_keys_def quiet
      split: option.split_asm)

lemma receipt_materialized_effect:
  assumes "mark_meeting_receipt_materialized_txn uid cid i now rd = Inr (r, ws)"
    and wf: "\<And>j d. rd (job_ref j) = Some d \<Longrightarrow> wf_job d"
  shows "job_effect rd ws"
  using assms touch_effect [of rd _ _ _ "[]"]
  by (auto simp: mark_meeting_receipt_materialized_txn_def receipt_only_def receipt_keys_def quiet
      split: option.split_asm list.split_asm if_split_asm)

end
