(* ===== verification/Job_Census.thy ===== *)
theory Job_Census
  imports Job_Effects
begin

text \<open>
  The projection of the job collection: sharded counters written by the same transactions
  that move the jobs. The counters of a shard are exact when each equals the number of jobs
  of the shard it is meant to count. This theory shows that a write set with the effect
  \<open>job_effect\<close> keeps the jobs well formed and the counters exact.
\<close>

definition jobs_ok :: "(path \<Rightarrow> doc option) \<Rightarrow> bool" where
  "jobs_ok rd \<longleftrightarrow> (\<forall>j d. rd (job_ref j) = Some d \<longrightarrow> wf_job d \<and> ajob_inv (abs_job d))"

definition job_ids :: "(path \<Rightarrow> doc option) \<Rightarrow> string set" where
  "job_ids rd = {j. rd (job_ref j) \<noteq> None}"

definition shard_path :: "string \<Rightarrow> path" where
  "shard_path k = [FINALIZATION_PROJECTION_COLLECTION, k]"

definition counts_job :: "(path \<Rightarrow> doc option) \<Rightarrow> path \<Rightarrow> counter \<Rightarrow> string \<Rightarrow> bool" where
  "counts_job rd p c j = (case rd (job_ref j) of None \<Rightarrow> False
     | Some d \<Rightarrow> projection_ref_for_job d = Some p \<and> counted c (abs_job d))"

definition job_census :: "(path \<Rightarrow> doc option) \<Rightarrow> path \<Rightarrow> counter \<Rightarrow> nat" where
  "job_census rd p c = card {j. counts_job rd p c j}"

definition shard_count :: "doc option \<Rightarrow> counter \<Rightarrow> int" where
  "shard_count s c = (case s of None \<Rightarrow> 0 | Some d \<Rightarrow> fint d (counter_name c) 0)"

definition shard_typed :: "doc option \<Rightarrow> bool" where
  "shard_typed s = (case s of None \<Rightarrow> True | Some d \<Rightarrow> (\<forall>c. int_field d (counter_name c)))"

definition projection_exact :: "(path \<Rightarrow> doc option) \<Rightarrow> bool" where
  "projection_exact rd \<longleftrightarrow>
     (\<forall>k. shard_typed (rd (shard_path k)) \<and>
        (\<forall>c. shard_count (rd (shard_path k)) c = int (job_census rd (shard_path k) c)))"

text \<open>A shard document names the generation and the number of the shard its path stands for.\<close>

definition shard_no :: "int \<Rightarrow> path" where
  "shard_no n = shard_path (projection_shard_id FINALIZATION_PROJECTION_GENERATION n)"

definition shards_labelled :: "(path \<Rightarrow> doc option) \<Rightarrow> bool" where
  "shards_labelled rd \<longleftrightarrow> (\<forall>n s. 0 \<le> n \<and> n < FINALIZATION_PROJECTION_SHARD_COUNT \<longrightarrow> rd (shard_no n) = Some s \<longrightarrow>
     s ''generation'' = Some (PStr FINALIZATION_PROJECTION_GENERATION) \<and> s ''shard'' = Some (PInt n))"

subsection \<open>The effect of one delta\<close>

lemma counter_name_neq [simp]: "counter_name c \<noteq> ''generation''" "counter_name c \<noteq> ''shard''"
  by (cases c; simp)+

lemma map_of_increments:
  "distinct (map fst deltas) \<Longrightarrow>
   map_of (map (\<lambda>(name, delta). (name, Increment delta)) (filter (\<lambda>(name, delta). delta \<noteq> 0) deltas)) k =
     (case map_of deltas k of None \<Rightarrow> None | Some n \<Rightarrow> if n = 0 then None else Some (Increment n))"
  by (induction deltas) (auto simp: map_of_eq_None_iff [symmetric] split: option.splits)

lemma fint_incr:
  "int_field d k \<Longrightarrow> upd_fields d fs k = Some (incr_value (d k) n) \<Longrightarrow>
   int_field (upd_fields d fs) k \<and> fint (upd_fields d fs) k 0 = fint d k 0 + n"
  by (auto simp: int_field_def fint_def incr_value_def split: option.splits pyval.splits)

definition delta_fields :: "doc \<Rightarrow> (string \<times> int) list \<Rightarrow> fields" where
  "delta_fields job deltas =
     [(''generation'', Put (PStr FINALIZATION_PROJECTION_GENERATION)),
      (''shard'', Put (PInt (the (as_int (dget job ''projection_shard'')))))]
     @ map (\<lambda>(name, delta). (name, Increment delta)) (filter (\<lambda>(name, delta). delta \<noteq> 0) deltas)"

lemma delta_fields_counter:
  assumes "distinct (map fst deltas)" and "int_field d (counter_name c)"
  shows "int_field (upd_fields d (delta_fields job deltas)) (counter_name c)
    \<and> fint (upd_fields d (delta_fields job deltas)) (counter_name c) 0 = fint d (counter_name c) 0 + delta_of deltas c"
proof (cases "delta_of deltas c = 0")
  case True
  then have "upd_fields d (delta_fields job deltas) (counter_name c) = d (counter_name c)"
    by (auto simp: upd_fields_def delta_fields_def map_of_increments [OF assms(1)] delta_of_def split: option.splits)
  with assms(2) True show ?thesis by (simp add: int_field_def fint_def)
next
  case False
  then have "upd_fields d (delta_fields job deltas) (counter_name c) =
      Some (incr_value (d (counter_name c)) (delta_of deltas c))"
    by (auto simp: upd_fields_def delta_fields_def map_of_increments [OF assms(1)] delta_of_def split: option.splits)
  then show ?thesis by (rule fint_incr [OF assms(2)])
qed

lemma delta_shard:
  fixes job :: doc and p :: path
  assumes "distinct (map fst deltas)" and "shard_typed old"
  defines "s \<equiv> after (record_projection_delta True job deltas) p old"
  shows "shard_typed s \<and> shard_count s c =
    shard_count old c + (if projection_ref_for_job job = Some p then delta_of deltas c else 0)"
proof (cases "projection_ref_for_job job = Some p")
  case False
  then have "p \<notin> wpath ` set (record_projection_delta True job deltas)"
    using record_projection_delta_paths by fastforce
  with False assms(2) show ?thesis by (simp add: s_def after_untouched)
next
  case True
  show ?thesis
  proof (cases "filter (\<lambda>(name, delta). delta \<noteq> 0) deltas = []")
    case nil: True
    then have "delta_of deltas c = 0"
      by (auto simp: delta_of_def filter_empty_conv dest: map_of_SomeD split: option.splits)
    with nil True assms(2) show ?thesis by (simp add: s_def record_projection_delta_def)
  next
    case cons: False
    let ?d = "case old of None \<Rightarrow> Map.empty | Some d \<Rightarrow> d"
    have s: "s = Some (upd_fields ?d (delta_fields job deltas))"
      using True cons by (simp add: s_def record_projection_delta_def Let_def delta_fields_def wdoc_def)
    have "int_field ?d (counter_name c)" for c
      using assms(2) by (auto simp: shard_typed_def int_field_def split: option.splits)
    then have "int_field (upd_fields ?d (delta_fields job deltas)) (counter_name c)
        \<and> fint (upd_fields ?d (delta_fields job deltas)) (counter_name c) 0 = fint ?d (counter_name c) 0 + delta_of deltas c" for c
      by (rule delta_fields_counter [OF assms(1)])
    moreover have "fint ?d (counter_name c) 0 = shard_count old c"
      by (simp add: shard_count_def fint_def split: option.splits)
    ultimately show ?thesis using s True by (simp add: shard_typed_def shard_count_def)
  qed
qed

subsection \<open>The effect of one move\<close>

lemma step_deltas_distinct: "distinct (map fst (step_deltas l s))"
  by (cases l) simp_all

lemma job_move_deltas_distinct: "job_move old d' deltas \<Longrightarrow> distinct (map fst deltas)"
  by (erule job_moveE) (simp_all add: step_deltas_distinct create_deltas_def)

lemma job_move_ok:
  "job_move old d' deltas \<Longrightarrow> (\<And>d. old = Some d \<Longrightarrow> ajob_inv (abs_job d)) \<Longrightarrow> wf_job d' \<and> ajob_inv (abs_job d')"
  by (erule job_moveE) (auto intro: ajob_step_inv simp: ajob_init_inv ajob_receipt_inv)

lemma job_move_counts:
  assumes "job_move old d' deltas" and "\<And>d. old = Some d \<Longrightarrow> ajob_inv (abs_job d)"
  shows "of_bool (projection_ref_for_job d' = Some p \<and> counted c (abs_job d')) -
      of_bool (case old of None \<Rightarrow> False | Some d \<Rightarrow> projection_ref_for_job d = Some p \<and> counted c (abs_job d)) =
    (if projection_ref_for_job d' = Some p then delta_of deltas c else 0)"
  using assms(1)
proof (cases rule: job_move.cases)
  case (move_step d l)
  with assms(2) step_deltas_counted [OF move_step(5), of c] projection_same_identity(1) [OF move_step(6)]
  show ?thesis by simp
next
  case (move_touch d)
  with projection_same_identity(1) [OF move_touch(6)] show ?thesis by (simp add: delta_of_def)
next
  case (move_create byok)
  with create_deltas_counted [of byok c] show ?thesis by simp
next
  case move_receipt
  then show ?thesis by simp
qed

lemma card_change_at:
  assumes "finite {x. P x}" and "\<And>x. x \<noteq> j \<Longrightarrow> P' x = P x"
  shows "int (card {x. P' x}) = int (card {x. P x}) + (of_bool (P' j) - of_bool (P j))"
proof -
  define R where "R = {x. P x} - {j}"
  have new: "{x. P' x} = (if P' j then insert j R else R)"
  proof (rule set_eqI)
    fix x
    show "x \<in> {x. P' x} \<longleftrightarrow> x \<in> (if P' j then insert j R else R)"
      using assms(2) [of x] by (cases "x = j") (simp_all add: R_def)
  qed
  have old: "{x. P x} = (if P j then insert j R else R)" by (auto simp: R_def)
  have "finite R" "j \<notin> R" using assms(1) by (simp_all add: R_def)
  then show ?thesis unfolding new old by simp
qed

subsection \<open>Write sets keep the jobs and the counters in step\<close>

lemma shard_path_ne [simp]:
  "conversation_ref u c \<noteq> shard_path k" "shard_path k \<noteq> conversation_ref u c"
  "job_ref j \<noteq> shard_path k" "shard_path k \<noteq> job_ref j"
  by (simp_all add: shard_path_def)

lemma conv_writes_untouched:
  assumes "conv_writes rd cw"
  shows "after cw (job_ref j) old = old" "after cw (shard_path k) old = old"
proof -
  have "job_ref j \<notin> wpath ` set cw" "shard_path k \<notin> wpath ` set cw"
    using assms by (force simp: conv_writes_def)+
  then show "after cw (job_ref j) old = old" "after cw (shard_path k) old = old" by (simp_all add: after_untouched)
qed

lemma delta_paths: "job_ref i \<notin> wpath ` set (record_projection_delta pr d deltas)"
proof
  assume "job_ref i \<in> wpath ` set (record_projection_delta pr d deltas)"
  then show False using record_projection_delta_paths projection_ref_form by fastforce
qed

text \<open>What a moving write set leaves at each job and at each shard.\<close>

lemma moved_view:
  assumes "wpath w = job_ref j" "wdoc w (rd (job_ref j)) = Some d'" "conv_writes rd cw"
    and "ws = w # record_projection_delta True d' deltas @ cw"
  shows "after_view ws rd (job_ref i) = (if i = j then Some d' else rd (job_ref i))"
    and "after_view ws rd (shard_path k) = after (record_projection_delta True d' deltas) (shard_path k) (rd (shard_path k))"
  using assms delta_paths [of i True d' deltas] conv_writes_untouched [OF assms(3)]
  by (auto simp: after_view_def after_append after_untouched)

lemma quiet_view:
  "conv_writes rd ws \<Longrightarrow> after_view ws rd (job_ref i) = rd (job_ref i)"
  "conv_writes rd ws \<Longrightarrow> after_view ws rd (shard_path k) = rd (shard_path k)"
  by (simp_all add: after_view_def conv_writes_untouched)

lemma job_effect_jobs_ok: "job_effect rd ws \<Longrightarrow> jobs_ok rd \<Longrightarrow> jobs_ok (after_view ws rd)"
proof (erule job_effectE)
  assume "conv_writes rd ws" "jobs_ok rd"
  then show ?thesis by (simp add: jobs_ok_def quiet_view)
next
  fix w j d' deltas cw
  assume m: "ws = w # record_projection_delta True d' deltas @ cw" "wpath w = job_ref j"
    "wdoc w (rd (job_ref j)) = Some d'" "job_move (rd (job_ref j)) d' deltas" "conv_writes rd cw"
    and ok: "jobs_ok rd"
  have "wf_job d' \<and> ajob_inv (abs_job d')" using job_move_ok [OF m(4)] ok by (auto simp: jobs_ok_def)
  with ok show ?thesis by (auto simp: jobs_ok_def moved_view(1) [OF m(2,3,5,1)] split: if_splits)
qed

lemma job_effect_finite: "job_effect rd ws \<Longrightarrow> finite (job_ids rd) \<Longrightarrow> finite (job_ids (after_view ws rd))"
proof (erule job_effectE)
  assume "conv_writes rd ws" "finite (job_ids rd)"
  then show ?thesis by (simp add: job_ids_def quiet_view)
next
  fix w j d' deltas cw
  assume m: "ws = w # record_projection_delta True d' deltas @ cw" "wpath w = job_ref j"
    "wdoc w (rd (job_ref j)) = Some d'" "conv_writes rd cw" and fin: "finite (job_ids rd)"
  have "job_ids (after_view ws rd) \<subseteq> insert j (job_ids rd)"
    by (auto simp: job_ids_def moved_view(1) [OF m(2,3,4,1)] split: if_splits)
  with fin show ?thesis by (meson finite_insert finite_subset)
qed

lemma counts_job_finite: "finite (job_ids rd) \<Longrightarrow> finite {j. counts_job rd p c j}"
  by (rule finite_subset [of _ "job_ids rd"]) (auto simp: counts_job_def job_ids_def split: option.splits)

lemma job_effect_exact:
  assumes "job_effect rd ws" and ok: "jobs_ok rd" and fin: "finite (job_ids rd)" and ex: "projection_exact rd"
  shows "projection_exact (after_view ws rd)"
  using assms(1)
proof (cases rule: job_effect.cases)
  case quiet
  then show ?thesis
    using ex by (simp add: projection_exact_def quiet_view job_census_def counts_job_def)
next
  case (moved w j d' deltas cw)
  note v = moved_view [OF moved(1,3,5,6)]
  show ?thesis
    unfolding projection_exact_def
  proof (intro allI conjI)
    fix k c
    let ?p = "shard_path k"
    have inv: "ajob_inv (abs_job d)" if "rd (job_ref j) = Some d" for d using ok that by (simp add: jobs_ok_def)
    have typed: "shard_typed (rd ?p)" and cnt: "shard_count (rd ?p) c = int (job_census rd ?p c)"
      using ex by (simp_all add: projection_exact_def)
    note ds = delta_shard [OF job_move_deltas_distinct [OF moved(4)] typed, of d' ?p c]
    then show "shard_typed (after_view ws rd ?p)" by (simp add: v)
    have "counts_job (after_view ws rd) ?p c i = counts_job rd ?p c i" if "i \<noteq> j" for i
      using that by (simp add: counts_job_def v)
    then have "int (job_census (after_view ws rd) ?p c) = int (job_census rd ?p c)
        + (of_bool (counts_job (after_view ws rd) ?p c j) - of_bool (counts_job rd ?p c j))"
      unfolding job_census_def by (rule card_change_at [OF counts_job_finite [OF fin]])
    also have "of_bool (counts_job (after_view ws rd) ?p c j) - of_bool (counts_job rd ?p c j) =
        (if projection_ref_for_job d' = Some ?p then delta_of deltas c else 0)"
      using job_move_counts [OF moved(4) inv, of ?p c] by (simp add: counts_job_def v)
    finally show "shard_count (after_view ws rd ?p) c = int (job_census (after_view ws rd) ?p c)"
      using ds cnt by (simp add: v)
  qed
qed

subsection \<open>Labels of the shards\<close>

lemma py_int_of_str_pad:
  assumes "0 \<le> k"
  shows "py_int_of_str (CHR ''0'' # dec_int k) = Some k"
proof -
  obtain c cs where c: "dec_nat (nat k) = c # cs" by (cases "dec_nat (nat k)") auto
  have "digit_of x \<noteq> None" if "x \<in> set (c # cs)" for x
    using that dec_nat_digits [of x "nat k"] c by simp
  then have ns: "\<forall>x \<in> set (CHR ''0'' # c # cs). \<not> py_space x" and d: "digit_of c \<noteq> None"
    using digit_not_space by (auto simp: py_space_def)
  have "digits_val 0 True (c # cs) = digits_val 0 False (c # cs)" using d by auto
  also have "\<dots> = Some k" using digits_val_dec_nat [of "nat k"] c assms by simp
  finally have "digits_val 0 True (c # cs) = Some k" .
  moreover have "digits_val 0 False (CHR ''0'' # c # cs) = digits_val 0 True (c # cs)"
    by (simp add: digit_of_def del: digits_val.simps(2) add: digits_val.simps(2) [of _ _ "CHR ''0''"])
  ultimately show ?thesis
    using assms c by (simp add: py_int_of_str_def py_strip_id [OF ns] dec_int_def del: digits_val.simps)
qed

lemma shard_no_inj:
  assumes "0 \<le> m" "m < FINALIZATION_PROJECTION_SHARD_COUNT" "0 \<le> n" "n < FINALIZATION_PROJECTION_SHARD_COUNT"
  shows "shard_no m = shard_no n \<longleftrightarrow> m = n"
proof -
  define pad where "pad k = (if 0 \<le> k \<and> k < 10 then ''0'' else []) @ dec_int k" for k :: int
  have "py_int_of_str (pad k) = Some k" if "0 \<le> k" for k
    using that by (simp add: pad_def py_int_of_str_pad)
  then have "pad m = pad n \<longleftrightarrow> m = n"
    using assms(1,3) by (metis option.inject)
  then show ?thesis by (simp add: shard_no_def shard_path_def projection_shard_id_def pad_def)
qed

lemma projection_ref_shard_no:
  assumes "projection_ref_for_job d = Some p"
  obtains n where "0 \<le> n" "n < FINALIZATION_PROJECTION_SHARD_COUNT" "p = shard_no n"
    "as_int (dget d ''projection_shard'') = Some n"
  using assms
  by (auto simp: projection_ref_for_job_def shard_no_def shard_path_def split: option.splits if_split_asm)

lemma delta_labelled:
  assumes n: "0 \<le> n" "n < FINALIZATION_PROJECTION_SHARD_COUNT"
    and old: "\<And>s. old = Some s \<Longrightarrow> s ''generation'' = Some (PStr FINALIZATION_PROJECTION_GENERATION) \<and> s ''shard'' = Some (PInt n)"
    and new: "after (record_projection_delta True job deltas) (shard_no n) old = Some s"
  shows "s ''generation'' = Some (PStr FINALIZATION_PROJECTION_GENERATION) \<and> s ''shard'' = Some (PInt n)"
proof (cases "record_projection_delta True job deltas = []")
  case True
  with new old show ?thesis by simp
next
  case False
  then obtain p where p: "projection_ref_for_job job = Some p"
    and w: "record_projection_delta True job deltas = [SetMerge p (delta_fields job deltas)]"
    by (auto simp: record_projection_delta_def delta_fields_def Let_def split: option.splits if_split_asm)
  obtain m where m: "0 \<le> m" "m < FINALIZATION_PROJECTION_SHARD_COUNT" "p = shard_no m"
    "as_int (dget job ''projection_shard'') = Some m" using projection_ref_shard_no [OF p] by blast
  show ?thesis
  proof (cases "m = n")
    case True
    then have "s = upd_fields (case old of None \<Rightarrow> Map.empty | Some d \<Rightarrow> d) (delta_fields job deltas)"
      using new by (simp add: w m(3) wdoc_def)
    then show ?thesis using m(4) True by (simp add: delta_fields_def)
  next
    case False
    then show ?thesis using new old w m shard_no_inj [OF m(1,2) n] by simp
  qed
qed

lemma job_effect_labelled:
  assumes "job_effect rd ws" and lab: "shards_labelled rd"
  shows "shards_labelled (after_view ws rd)"
  using assms(1)
proof (cases rule: job_effect.cases)
  case quiet
  then show ?thesis using lab by (simp add: shards_labelled_def shard_no_def quiet_view)
next
  case (moved w j d' deltas cw)
  note v = moved_view(2) [OF moved(1,3,5,6)]
  show ?thesis
    unfolding shards_labelled_def
  proof (intro allI impI)
    fix n s
    assume n: "0 \<le> n \<and> n < FINALIZATION_PROJECTION_SHARD_COUNT" and s: "after_view ws rd (shard_no n) = Some s"
    have new: "after (record_projection_delta True d' deltas) (shard_no n) (rd (shard_no n)) = Some s"
      using s by (simp add: shard_no_def v)
    have old: "t ''generation'' = Some (PStr FINALIZATION_PROJECTION_GENERATION) \<and> t ''shard'' = Some (PInt n)"
      if "rd (shard_no n) = Some t" for t
      using lab n that unfolding shards_labelled_def by blast
    show "s ''generation'' = Some (PStr FINALIZATION_PROJECTION_GENERATION) \<and> s ''shard'' = Some (PInt n)"
      by (rule delta_labelled [OF conjunct1 [OF n] conjunct2 [OF n] old new])
  qed
qed

end
