(* ===== verification/Finalization_System.thy ===== *)
theory Finalization_System
  imports Job_Census
begin

text \<open>
  The finalization component as a whole: every call that changes the job collection, in any
  order and interleaving, by any number of workers, beside whatever the rest of the backend
  writes to other documents. The store is a parameter with the contract \<open>firestore\<close>; the
  calls are the public functions of \<^verbatim>\<open>database/conversation_finalization_jobs.py\<close>.
\<close>

subsection \<open>Calls\<close>

datatype fin_op =
    Op_Create "nat \<Rightarrow> bool" "nat \<Rightarrow> real" string string bool "doc \<Rightarrow> finalization_admission res" "nat \<Rightarrow> int"
      processing_trigger "dict option"
  | Op_Resume string int
  | Op_Claim string int bool int "string option" "string option" int
  | Op_Complete string int int int
  | Op_Fence string int int int
  | Op_Fanout_Claim string int int int
  | Op_Fanout_Done string int int int
  | Op_Retry string int int string int
  | Op_Dead string int int int int
  | Op_Replay string int int
  | Op_Abandon string string int int int int
  | Op_Receipt string string "string option" bool string real real int
  | Op_Receipt_Intent string string int
  | Op_Receipt_Materialized string string string int

text \<open>The store after a call; its result goes to the caller and does not matter here.\<close>

fun fin_exec ::
  "('s \<Rightarrow> path \<Rightarrow> doc option) \<Rightarrow> ('s \<Rightarrow> write list \<Rightarrow> 's) \<Rightarrow> intent_env \<Rightarrow> fin_op \<Rightarrow> 's \<Rightarrow> 's" where
  "fin_exec fetch commit ie (Op_Create aborts rnd uid cid byok admit now trigger extra) st =
     fst (snd (create_or_get_finalization_intent fetch commit ie aborts rnd st uid cid byok admit now trigger extra))"
| "fin_exec fetch commit ie (Op_Resume j now) st =
     snd (resume_blocked_byok_job_for_live_session fetch commit st j now)"
| "fin_exec fetch commit ie (Op_Claim j g allow ls eu ec now) st =
     snd (claim_finalization_job fetch commit st j g allow ls eu ec now)"
| "fin_exec fetch commit ie (Op_Complete j g e now) st = snd (mark_finalization_completed fetch commit st j g e now)"
| "fin_exec fetch commit ie (Op_Fence j g e now) st = snd (mark_finalization_fenced fetch commit st j g e now)"
| "fin_exec fetch commit ie (Op_Fanout_Claim j g e now) st = snd (claim_finalization_fanout fetch commit st j g e now)"
| "fin_exec fetch commit ie (Op_Fanout_Done j g e now) st =
     snd (mark_finalization_fanout_completed fetch commit st j g e now)"
| "fin_exec fetch commit ie (Op_Retry j g e code now) st =
     snd (mark_finalization_retryable (ie_env ie) fetch commit st j g e code now)"
| "fin_exec fetch commit ie (Op_Dead j g e n now) st = snd (mark_finalization_dead_letter fetch commit st j g e n now)"
| "fin_exec fetch commit ie (Op_Replay j stale now) st = snd (claim_finalization_replay fetch commit st j stale now)"
| "fin_exec fetch commit ie (Op_Abandon j es eg ee age now) st =
     snd (abandon_byok_finalization_job fetch commit st j es eg ee age now)"
| "fin_exec fetch commit ie (Op_Receipt uid cid jid el rs du sp now) st =
     snd (record_meeting_receipt fetch commit ie st uid cid jid el rs du sp now)"
| "fin_exec fetch commit ie (Op_Receipt_Intent j i now) st =
     snd (mark_meeting_receipt_intent_persisted fetch commit st j i now)"
| "fin_exec fetch commit ie (Op_Receipt_Materialized uid cid i t) st =
     snd (mark_meeting_receipt_materialized fetch commit st uid cid i t)"

subsection \<open>Replay candidates\<close>

text \<open>
  The query of \<^verbatim>\<open>get_finalization_replay_candidates\<close>: \<open>rows\<close> is the collection in the order
  the service returns it.
\<close>

definition replay_due :: "int \<Rightarrow> doc \<Rightarrow> bool" where
  "replay_due now d = (case d ''reconcile_after_at'' of Some (PTime t) \<Rightarrow> t \<le> now | _ \<Rightarrow> False)"

definition get_finalization_replay_candidates :: "(string \<times> doc) list \<Rightarrow> int \<Rightarrow> int \<Rightarrow> (string \<times> doc) list" where
  "get_finalization_replay_candidates rows now limit =
     filter (\<lambda>(j, d). dget d ''status'' \<in> {PStr ''queued'', PStr ''leased''})
       (take (nat (max 1 (min limit 100))) (filter (\<lambda>(j, d). replay_due now d) rows))"

subsection \<open>Steps of the system\<close>

text \<open>
  The state is the set of job ids reconcilers have read off the replay query, at any time in
  the past, and the store. Only such a job is replayed. \<open>other\<close> is any accepted write of the
  rest of the backend that leaves the job and projection collections alone.
\<close>

inductive sys_step ::
  "('s \<Rightarrow> path \<Rightarrow> doc option) \<Rightarrow> ('s \<Rightarrow> write list \<Rightarrow> 's) \<Rightarrow> intent_env \<Rightarrow>
   string set \<times> 's \<Rightarrow> string set \<times> 's \<Rightarrow> bool" for fetch commit ie where
  call: "(\<forall>j stale now. op = Op_Replay j stale now \<longrightarrow> j \<in> C) \<Longrightarrow>
    sys_step fetch commit ie (C, st) (C, fin_exec fetch commit ie op st)"
| query: "(\<forall>(j, d) \<in> set rows. fetch st (job_ref j) = Some d) \<Longrightarrow>
    sys_step fetch commit ie (C, st) (C \<union> fst ` set (get_finalization_replay_candidates rows now limit), st)"
| other: "writes_ok (fetch st) ws \<Longrightarrow>
    (\<forall>w \<in> set ws. \<forall>j k. wpath w \<noteq> job_ref j \<and> wpath w \<noteq> shard_path k) \<Longrightarrow>
    sys_step fetch commit ie (C, st) (C, commit st ws)"

inductive_cases sys_stepE: "sys_step fetch commit ie x y"

definition sys_start :: "('s \<Rightarrow> path \<Rightarrow> doc option) \<Rightarrow> 's \<Rightarrow> bool" where
  "sys_start fetch st \<longleftrightarrow> (\<forall>j. fetch st (job_ref j) = None) \<and> (\<forall>k. fetch st (shard_path k) = None)"

inductive sys_reach ::
  "('s \<Rightarrow> path \<Rightarrow> doc option) \<Rightarrow> ('s \<Rightarrow> write list \<Rightarrow> 's) \<Rightarrow> intent_env \<Rightarrow> string set \<times> 's \<Rightarrow> bool"
  for fetch commit ie where
  start: "sys_start fetch st \<Longrightarrow> sys_reach fetch commit ie ({}, st)"
| step: "sys_reach fetch commit ie x \<Longrightarrow> sys_step fetch commit ie x y \<Longrightarrow> sys_reach fetch commit ie y"

definition plain_jobs :: "string set \<Rightarrow> (path \<Rightarrow> doc option) \<Rightarrow> bool" where
  "plain_jobs C rd \<longleftrightarrow> (\<forall>j \<in> C. \<exists>d. rd (job_ref j) = Some d \<and> \<not> truthy (dget d ''requires_byok''))"

text \<open>
  \<open>sys_ok\<close>: the stored jobs are well formed and no job that needs user keys is a replay
  candidate. \<open>sys_counts\<close>: there are finitely many jobs, and the counters of every shard are
  exact and carry the shard's label.
\<close>

definition sys_ok :: "('s \<Rightarrow> path \<Rightarrow> doc option) \<Rightarrow> string set \<times> 's \<Rightarrow> bool" where
  "sys_ok fetch x \<longleftrightarrow> jobs_ok (fetch (snd x)) \<and> plain_jobs (fst x) (fetch (snd x))"

definition sys_counts :: "('s \<Rightarrow> path \<Rightarrow> doc option) \<Rightarrow> string set \<times> 's \<Rightarrow> bool" where
  "sys_counts fetch x \<longleftrightarrow>
     finite (job_ids (fetch (snd x))) \<and> projection_exact (fetch (snd x)) \<and> shards_labelled (fetch (snd x))"

subsection \<open>Every call has a job effect\<close>

lemma run_txn_effect:
  assumes "\<And>r ws. body (fetch st) = Inr (r, ws) \<Longrightarrow> job_effect (fetch st) ws"
  shows "snd (run_txn fetch commit body st) = st
    \<or> (\<exists>ws. job_effect (fetch st) ws \<and> snd (run_txn fetch commit body st) = commit st ws)"
  using assms by (cases "body (fetch st)") (fastforce simp: run_txn_def)+

text \<open>The admission call makes several attempts; at most the last of them writes.\<close>

lemma single_exn_contention [simp]: "is_transaction_contention ([(0, e, None)], 0) \<longleftrightarrow> e = Aborted"
  by (simp add: is_transaction_contention_def)

lemma create_call_shape:
  assumes "create_or_get_finalization_intent fetch commit ie aborts rnd st uid cid byok admit now trigger extra = (r, st', ds)"
  shows "(st' = st \<and> (\<forall>intent. r \<noteq> Returned intent))
    \<or> (\<exists>n intent ws. create_or_get_finalization_intent_txn ie uid cid byok admit (now n) trigger extra (fetch st)
          = Inr (intent, ws) \<and> r = Returned intent \<and> st' = commit st ws)"
proof -
  define opn where "opn = create_intent_in_transaction fetch commit ie aborts uid cid byok admit now trigger extra"
  have loop: "retry_loop DEFAULT_MAX_ATTEMPTS opn rnd 1 st = (r, st', ds)"
    using assms by (simp add: create_or_get_finalization_intent_def run_with_transaction_contention_retry_def
        DEFAULT_MAX_ATTEMPTS_def opn_def)
  have atomic: "s' = s" if "opn n s = (Inl e, s')" for n s e s'
    using that
    by (auto simp: opn_def create_intent_in_transaction_def run_txn_def split: if_split_asm sum.splits)
  have last: "(r, st') = attempt_result (opn (1 + length ds) st)"
    using retry_loop_shape [of opn 1 DEFAULT_MAX_ATTEMPTS rnd st, OF _ _ _ loop] atomic
    by (simp add: DEFAULT_MAX_ATTEMPTS_def)
  show ?thesis
  proof (cases "opn (1 + length ds) st" rule: attempt_result.cases)
    case (1 intent s)
    then have "\<exists>ws. create_or_get_finalization_intent_txn ie uid cid byok admit (now (1 + length ds)) trigger extra (fetch st)
        = Inr (intent, ws) \<and> s = commit st ws"
      by (auto simp: opn_def create_intent_in_transaction_def run_txn_def split: if_split_asm sum.splits)
    with 1 last show ?thesis by auto
  next
    case (2 e s)
    with last atomic show ?thesis by (auto split: if_split_asm)
  qed
qed

lemma create_call_effect:
  "fst (snd (create_or_get_finalization_intent fetch commit ie aborts rnd st uid cid byok admit now trigger extra)) = st
   \<or> (\<exists>ws. job_effect (fetch st) ws \<and>
        fst (snd (create_or_get_finalization_intent fetch commit ie aborts rnd st uid cid byok admit now trigger extra))
          = commit st ws)"
proof -
  obtain r st' ds where call: "create_or_get_finalization_intent fetch commit ie aborts rnd st uid cid byok admit now
    trigger extra = (r, st', ds)" by (metis prod_cases3)
  from create_call_shape [OF call] create_effect show ?thesis unfolding call by fastforce
qed

lemma fin_exec_effect:
  assumes wf: "\<And>j d. fetch st (job_ref j) = Some d \<Longrightarrow> wf_job d"
    and plain: "\<And>j s n d. op = Op_Replay j s n \<Longrightarrow> fetch st (job_ref j) = Some d \<Longrightarrow> \<not> truthy (dget d ''requires_byok'')"
  shows "fin_exec fetch commit ie op st = st
    \<or> (\<exists>ws. job_effect (fetch st) ws \<and> fin_exec fetch commit ie op st = commit st ws)"
proof (cases op)
  case (Op_Create aborts rnd uid cid byok admit now trigger extra)
  then show ?thesis using create_call_effect by simp
next
  case (Op_Replay j s n)
  show ?thesis unfolding Op_Replay fin_exec.simps claim_finalization_replay_def
    by (rule run_txn_effect) (rule replay_effect, assumption, rule wf, assumption, rule plain [OF Op_Replay])
next
  case (Op_Resume j now)
  show ?thesis unfolding Op_Resume fin_exec.simps resume_blocked_byok_job_for_live_session_def
    by (rule run_txn_effect) (erule resume_effect, rule wf)
next
  case (Op_Claim j g allow ls eu ec now)
  show ?thesis unfolding Op_Claim fin_exec.simps claim_finalization_job_def
    by (rule run_txn_effect) (erule claim_effect, rule wf)
next
  case (Op_Complete j g e now)
  show ?thesis unfolding Op_Complete fin_exec.simps mark_finalization_completed_def
    by (rule run_txn_effect) (erule completed_effect, rule wf)
next
  case (Op_Fence j g e now)
  show ?thesis unfolding Op_Fence fin_exec.simps mark_finalization_fenced_def
    by (rule run_txn_effect) (erule fenced_effect, rule wf)
next
  case (Op_Fanout_Claim j g e now)
  show ?thesis unfolding Op_Fanout_Claim fin_exec.simps claim_finalization_fanout_def
    by (rule run_txn_effect) (erule fanout_claim_effect, rule wf)
next
  case (Op_Fanout_Done j g e now)
  show ?thesis unfolding Op_Fanout_Done fin_exec.simps mark_finalization_fanout_completed_def
    by (rule run_txn_effect) (erule fanout_done_effect, rule wf)
next
  case (Op_Retry j g e code now)
  show ?thesis unfolding Op_Retry fin_exec.simps mark_finalization_retryable_def
    by (rule run_txn_effect) (erule retry_effect, rule wf)
next
  case (Op_Dead j g e n now)
  show ?thesis unfolding Op_Dead fin_exec.simps mark_finalization_dead_letter_def
    by (rule run_txn_effect) (erule dead_letter_effect, rule wf)
next
  case (Op_Abandon j es eg ee age now)
  show ?thesis unfolding Op_Abandon fin_exec.simps abandon_byok_finalization_job_def
    by (rule run_txn_effect) (erule abandon_effect, rule wf)
next
  case (Op_Receipt uid cid jid el rs du sp now)
  show ?thesis unfolding Op_Receipt fin_exec.simps record_meeting_receipt_def
    by (rule run_txn_effect) (erule receipt_effect, rule wf)
next
  case (Op_Receipt_Intent j i now)
  show ?thesis unfolding Op_Receipt_Intent fin_exec.simps mark_meeting_receipt_intent_persisted_def
    by (rule run_txn_effect) (erule receipt_intent_effect, rule wf)
next
  case (Op_Receipt_Materialized uid cid i t)
  show ?thesis unfolding Op_Receipt_Materialized fin_exec.simps mark_meeting_receipt_materialized_def
    by (rule run_txn_effect) (erule receipt_materialized_effect, rule wf)
qed

subsection \<open>What a step may do to one job\<close>

definition ajob_next :: "ajob \<Rightarrow> ajob \<Rightarrow> bool" where
  "ajob_next a b \<longleftrightarrow> b = a \<or> (\<exists>l. ajob_step l a b)"

definition ajob_born :: "ajob \<Rightarrow> bool" where
  "ajob_born a \<longleftrightarrow> (\<exists>byok. a = ajob_init byok) \<or> a = ajob_receipt"

text \<open>A job document before and after: it may be created, and it may move, but it is never lost.\<close>

definition job_evolves :: "doc option \<Rightarrow> doc option \<Rightarrow> bool" where
  "job_evolves old new =
     (case old of
        None \<Rightarrow> (case new of None \<Rightarrow> True | Some d' \<Rightarrow> wf_job d' \<and> ajob_born (abs_job d'))
      | Some d \<Rightarrow> (case new of None \<Rightarrow> False
          | Some d' \<Rightarrow> wf_job d' \<and> same_identity d d' \<and> ajob_next (abs_job d) (abs_job d')))"

lemma job_evolves_refl: "(\<And>d. old = Some d \<Longrightarrow> wf_job d) \<Longrightarrow> job_evolves old old"
  by (simp add: job_evolves_def ajob_next_def split: option.split)

lemma job_move_evolves: "job_move old d' deltas \<Longrightarrow> job_evolves old (Some d')"
  by (erule job_moveE) (auto simp: job_evolves_def ajob_next_def ajob_born_def)

lemma job_effect_evolves:
  assumes "job_effect rd ws" "jobs_ok rd"
  shows "job_evolves (rd (job_ref i)) (after_view ws rd (job_ref i))"
  using assms(1)
proof (cases rule: job_effect.cases)
  case quiet
  then show ?thesis using assms(2) by (simp add: quiet_view job_evolves_refl jobs_ok_def)
next
  case (moved w j d' deltas cw)
  show ?thesis
    using job_move_evolves [OF moved(4)] assms(2) moved_view(1) [OF moved(1,3,5,6), of i]
    by (auto intro: job_evolves_refl simp: jobs_ok_def)
qed

lemma candidate_plain:
  assumes "jobs_ok rd" "\<forall>(j, d) \<in> set rows. rd (job_ref j) = Some d"
    and "j \<in> fst ` set (get_finalization_replay_candidates rows now limit)"
  shows "\<exists>d. rd (job_ref j) = Some d \<and> \<not> truthy (dget d ''requires_byok'')"
proof -
  from assms(3) obtain d where "(j, d) \<in> set rows" and due: "replay_due now d"
    by (auto simp: get_finalization_replay_candidates_def dest!: in_set_takeD)
  with assms(2) have d: "rd (job_ref j) = Some d" by auto
  with assms(1) have "wf_job d" and inv: "ajob_inv (abs_job d)" by (simp_all add: jobs_ok_def)
  moreover from due have "a_reconcile (abs_job d)"
    by (auto simp: replay_due_def abs_job_def split: option.splits)
  ultimately have "\<not> truthy (dget d ''requires_byok'')" by (auto simp: ajob_inv_def wf_jobD(6))
  with d show ?thesis by blast
qed

lemma evolves_plain:
  "job_evolves old new \<Longrightarrow> \<exists>d. old = Some d \<and> \<not> truthy (dget d ''requires_byok'') \<Longrightarrow>
   \<exists>d. new = Some d \<and> \<not> truthy (dget d ''requires_byok'')"
  by (auto simp: job_evolves_def same_identity_def identity_keys_def dget_def split: option.splits)

lemma unchanged_view:
  assumes "\<And>j. rd' (job_ref j) = rd (job_ref j)" "\<And>k. rd' (shard_path k) = rd (shard_path k)"
  shows "jobs_ok rd' = jobs_ok rd" "job_ids rd' = job_ids rd" "projection_exact rd' = projection_exact rd"
    "plain_jobs C rd' = plain_jobs C rd" "shards_labelled rd' = shards_labelled rd"
  unfolding jobs_ok_def job_ids_def projection_exact_def plain_jobs_def job_census_def counts_job_def
    shards_labelled_def shard_no_def
  by (simp_all add: assms)

subsection \<open>Runs of the system on any store\<close>

context firestore
begin

lemma effect_fetch: "job_effect (fetch st) ws \<Longrightarrow> fetch (commit st ws) = after_view ws (fetch st)"
  by (rule ext) (simp add: after_view_def fetch_commit job_effect_ok)

lemma effect_sound:
  assumes e: "job_effect (fetch st) ws" and inv: "sys_ok fetch (C, st)"
  shows "sys_ok fetch (C, commit st ws)"
    and "job_evolves (fetch st (job_ref i)) (fetch (commit st ws) (job_ref i))"
    and "sys_counts fetch (C, st) \<Longrightarrow> sys_counts fetch (C, commit st ws)"
proof -
  from inv have ok: "jobs_ok (fetch st)" and pl: "plain_jobs C (fetch st)" by (simp_all add: sys_ok_def)
  have ev: "job_evolves (fetch st (job_ref i)) (fetch (commit st ws) (job_ref i))" for i
    using job_effect_evolves [OF e ok] by (simp add: effect_fetch [OF e])
  then show "job_evolves (fetch st (job_ref i)) (fetch (commit st ws) (job_ref i))" .
  have "plain_jobs C (fetch (commit st ws))"
    using pl evolves_plain [OF ev] unfolding plain_jobs_def by blast
  then show "sys_ok fetch (C, commit st ws)"
    using job_effect_jobs_ok [OF e ok] by (simp add: sys_ok_def effect_fetch [OF e])
  show "sys_counts fetch (C, commit st ws)" if "sys_counts fetch (C, st)"
    using that job_effect_finite [OF e] job_effect_exact [OF e ok] job_effect_labelled [OF e]
    by (simp add: sys_counts_def effect_fetch [OF e])
qed

text \<open>Every step of the system: each job evolves, and both parts of the invariant stay.\<close>

lemma sys_step_cases:
  assumes inv: "sys_ok fetch x" and st: "sys_step fetch commit ie x y"
  obtains (effect) C st ws where "x = (C, st)" "y = (C, commit st ws)" "job_effect (fetch st) ws"
  | (cands) C where "snd y = snd x" "fst y = fst x \<union> C" "plain_jobs C (fetch (snd x))"
  | (outside) "fst y = fst x" "\<And>j. fetch (snd y) (job_ref j) = fetch (snd x) (job_ref j)"
    "\<And>k. fetch (snd y) (shard_path k) = fetch (snd x) (shard_path k)"
  using st
proof (cases rule: sys_step.cases)
  case (call op C st)
  have wf: "wf_job d" if "fetch st (job_ref j) = Some d" for j d
    using inv that call(1) by (simp add: sys_ok_def jobs_ok_def)
  have plain: "\<not> truthy (dget d ''requires_byok'')" if "op = Op_Replay j s n" "fetch st (job_ref j) = Some d" for j s n d
    using inv that call by (fastforce simp: sys_ok_def plain_jobs_def)
  have "fin_exec fetch commit ie op st = st
    \<or> (\<exists>ws. job_effect (fetch st) ws \<and> fin_exec fetch commit ie op st = commit st ws)"
    by (rule fin_exec_effect) (fact wf, fact plain)
  then show thesis
    using call that(1) [of C st] that(2) [of "{}"] by (auto simp: plain_jobs_def)
next
  case (query rows st C now limit)
  have "plain_jobs (fst ` set (get_finalization_replay_candidates rows now limit)) (fetch st)"
    using inv query candidate_plain [of "fetch st" rows _ now limit] by (simp add: sys_ok_def plain_jobs_def)
  then show thesis using query that(2) by simp
next
  case (other st ws C)
  have "fetch (commit st ws) p = fetch st p" if "(\<exists>j. p = job_ref j) \<or> (\<exists>k. p = shard_path k)" for p
    using other that by (intro fetch_commit_other) auto
  then show thesis using other(1,2) that(3) by auto
qed

lemma sys_step_ok:
  assumes "sys_ok fetch x" "sys_step fetch commit ie x y"
  shows "sys_ok fetch y"
  using assms
proof (cases rule: sys_step_cases)
  case (effect C st ws)
  then show ?thesis using assms(1) effect_sound(1) [of st ws C] by simp
next
  case (cands C)
  then show ?thesis using assms(1) by (auto simp: sys_ok_def plain_jobs_def)
next
  case outside
  then show ?thesis
    using assms(1) unchanged_view(1,4) [of "fetch (snd y)" "fetch (snd x)"] by (simp add: sys_ok_def)
qed

lemma sys_step_counts:
  assumes "sys_ok fetch x" "sys_step fetch commit ie x y" "sys_counts fetch x"
  shows "sys_counts fetch y"
  using assms(1,2)
proof (cases rule: sys_step_cases)
  case (effect C st ws)
  then show ?thesis using assms effect_sound(3) [of st ws C] by simp
next
  case (cands C)
  then show ?thesis using assms(3) by (simp add: sys_counts_def)
next
  case outside
  then show ?thesis
    using assms(3) unchanged_view(2,3,5) [of "fetch (snd y)" "fetch (snd x)"] by (simp add: sys_counts_def)
qed

lemma sys_step_evolves:
  assumes "sys_ok fetch x" "sys_step fetch commit ie x y"
  shows "job_evolves (fetch (snd x) (job_ref i)) (fetch (snd y) (job_ref i))"
  using assms
proof (cases rule: sys_step_cases)
  case (effect C st ws)
  then show ?thesis using assms(1) effect_sound(2) [of st ws C] by simp
qed (use assms(1) in \<open>auto simp: sys_ok_def jobs_ok_def intro!: job_evolves_refl\<close>)

lemma sys_start_inv: "sys_start fetch st \<Longrightarrow> sys_ok fetch ({}, st) \<and> sys_counts fetch ({}, st)"
  by (simp add: sys_ok_def sys_counts_def sys_start_def jobs_ok_def job_ids_def projection_exact_def plain_jobs_def
      shard_typed_def shard_count_def job_census_def counts_job_def shards_labelled_def shard_no_def)

lemma sys_reach_inv: "sys_reach fetch commit ie x \<Longrightarrow> sys_ok fetch x \<and> sys_counts fetch x"
  by (induction rule: sys_reach.induct) (auto simp: sys_start_inv dest: sys_step_ok sys_step_counts)

lemma sys_steps_ok: "(sys_step fetch commit ie)\<^sup>*\<^sup>* x y \<Longrightarrow> sys_ok fetch x \<Longrightarrow> sys_ok fetch y"
  by (induction rule: rtranclp_induct) (auto dest: sys_step_ok)

text \<open>A job that exists keeps its identity and follows the abstract machine for the rest of the run.\<close>

lemma sys_steps_job:
  "(sys_step fetch commit ie)\<^sup>*\<^sup>* x y \<Longrightarrow> sys_ok fetch x \<Longrightarrow> fetch (snd x) (job_ref j) = Some d \<Longrightarrow>
   \<exists>d'. fetch (snd y) (job_ref j) = Some d' \<and> wf_job d' \<and> same_identity d d' \<and> ajob_next\<^sup>*\<^sup>* (abs_job d) (abs_job d')"
proof (induction rule: rtranclp_induct)
  case base
  then show ?case by (auto simp: sys_ok_def jobs_ok_def)
next
  case (step y z)
  then obtain d1 where d1: "fetch (snd y) (job_ref j) = Some d1" "same_identity d d1"
    "ajob_next\<^sup>*\<^sup>* (abs_job d) (abs_job d1)" by blast
  have "job_evolves (fetch (snd y) (job_ref j)) (fetch (snd z) (job_ref j))"
    using sys_step_evolves [OF sys_steps_ok [OF step.hyps(1) step.prems(1)] step.hyps(2)] .
  with d1 show ?case
    by (auto simp: job_evolves_def split: option.splits
        intro: rtranclp.rtrancl_into_rtrancl same_identity_trans)
qed

end

subsection \<open>Runs of the abstract machine\<close>

lemma ajob_next_mono:
  "ajob_next a b \<Longrightarrow> a_epoch a \<le> a_epoch b \<and> a_generation a \<le> a_generation b \<and> a_attempts a \<le> a_attempts b
     \<and> a_byok b = a_byok a"
  by (auto simp: ajob_next_def elim!: ajob_stepE)

lemma ajob_next_terminal: "ajob_next a b \<Longrightarrow> a_status a \<in> {Completed, Dead_Letter} \<Longrightarrow> b = a"
  by (auto simp: ajob_next_def elim!: ajob_stepE)

lemma ajob_run_mono:
  "ajob_next\<^sup>*\<^sup>* a b \<Longrightarrow> a_epoch a \<le> a_epoch b \<and> a_generation a \<le> a_generation b \<and> a_attempts a \<le> a_attempts b
     \<and> a_byok b = a_byok a"
  by (induction rule: rtranclp_induct) (auto dest: ajob_next_mono)

lemma ajob_run_terminal: "ajob_next\<^sup>*\<^sup>* a b \<Longrightarrow> a_status a \<in> {Completed, Dead_Letter} \<Longrightarrow> b = a"
  by (induction rule: rtranclp_induct) (auto dest: ajob_next_terminal)

end
