(* ===== verification/Lease_Fencing.thy ===== *)
theory Lease_Fencing
  imports Finalization_System
begin

text \<open>
  The contract of an operation a worker performs under its lease: called with a dispatch
  generation and lease epoch that are not the current ones of a leased job, it writes
  nothing. The six operations of \<^verbatim>\<open>database/conversation_finalization_jobs.py\<close> that take a
  generation and an epoch all meet it, so a worker that lost its lease can do no harm.
\<close>

definition holds_lease :: "doc \<Rightarrow> int \<Rightarrow> int \<Rightarrow> bool" where
  "holds_lease d g e \<longleftrightarrow>
     a_status (abs_job d) = Leased \<and> a_generation (abs_job d) = g \<and> a_epoch (abs_job d) = e"

definition superseded :: "doc \<Rightarrow> int \<Rightarrow> int \<Rightarrow> bool" where
  "superseded d g e \<longleftrightarrow> g < a_generation (abs_job d) \<or> e < a_epoch (abs_job d)
     \<or> a_status (abs_job d) \<in> {Completed, Dead_Letter}"

locale lease_op =
  fixes txn :: "string \<Rightarrow> int \<Rightarrow> int \<Rightarrow> (path \<Rightarrow> doc option) \<Rightarrow> ('r \<times> write list) res"
  assumes silent: "txn j g e rd = Inr (r, ws) \<Longrightarrow> (\<And>d. rd (job_ref j) = Some d \<Longrightarrow> wf_job d) \<Longrightarrow>
    (\<And>d. rd (job_ref j) = Some d \<Longrightarrow> \<not> holds_lease d g e) \<Longrightarrow> ws = []"
begin

lemma run_silent:
  assumes "firestore fetch commit" "\<And>d. fetch st (job_ref j) = Some d \<Longrightarrow> wf_job d"
    and "\<And>d. fetch st (job_ref j) = Some d \<Longrightarrow> \<not> holds_lease d g e"
  shows "fetch (snd (run_txn fetch commit (txn j g e) st)) = fetch st"
proof (cases "txn j g e (fetch st)")
  case (Inr p)
  then have "snd p = []" using silent [of j g e "fetch st" "fst p" "snd p"] assms(2,3) by simp
  with Inr show ?thesis
    by (cases p) (simp add: ext firestore.fetch_commit [OF assms(1)])
qed (simp add: run_txn_def)

text \<open>Once superseded, a lease stays superseded in every continuation of the run.\<close>

lemma superseded_silent:
  assumes fs: "firestore fetch commit" and ok: "sys_ok fetch x"
    and d: "fetch (snd x) (job_ref j) = Some d" and sup: "superseded d g e"
    and run: "(sys_step fetch commit ie)\<^sup>*\<^sup>* x y"
  shows "fetch (snd (run_txn fetch commit (txn j g e) (snd y))) = fetch (snd y)"
proof (rule run_silent [OF fs])
  fix d' assume d': "fetch (snd y) (job_ref j) = Some d'"
  from firestore.sys_steps_job [OF fs run ok d] d'
  have wf: "wf_job d'" and r: "ajob_next\<^sup>*\<^sup>* (abs_job d) (abs_job d')" by auto
  show "wf_job d'" by (rule wf)
  from ajob_run_mono [OF r] ajob_run_terminal [OF r] sup show "\<not> holds_lease d' g e"
    by (auto simp: superseded_def holds_lease_def)
qed

end

text \<open>Each body, on a missing job or a lease that is not held, issues no write.\<close>

lemma lease_opI:
  assumes "\<And>j g e rd r ws. rd (job_ref j) = None \<Longrightarrow> txn j g e rd = Inr (r, ws) \<Longrightarrow> ws = []"
    and "\<And>j g e rd r ws d. wf_job d \<Longrightarrow> rd (job_ref j) = Some d \<Longrightarrow> txn j g e rd = Inr (r, ws) \<Longrightarrow> ws \<noteq> [] \<Longrightarrow>
      holds_lease d g e"
  shows "lease_op txn"
proof
  fix j g e rd r ws
  assume "txn j g e rd = Inr (r, ws)" "\<And>d. rd (job_ref j) = Some d \<Longrightarrow> wf_job d"
    "\<And>d. rd (job_ref j) = Some d \<Longrightarrow> \<not> holds_lease d g e"
  then show "ws = []" using assms by (cases "rd (job_ref j)") blast+
qed

interpretation completed_lease: lease_op "\<lambda>j g e. mark_finalization_completed_txn True j g e now" for now
  by (rule lease_opI, simp add: mark_finalization_completed_txn_def, unfold holds_lease_def,
      drule (3) completed_txn_writes, blast)

interpretation fenced_lease: lease_op "\<lambda>j g e. mark_finalization_fenced_txn True j g e now" for now
  by (rule lease_opI, simp add: mark_finalization_fenced_txn_def, unfold holds_lease_def,
      drule (3) fenced_txn_writes, blast)

interpretation retry_lease: lease_op "\<lambda>j g e. mark_finalization_retryable_txn env True j g e code now" for env code now
  by (rule lease_opI, simp add: mark_finalization_retryable_txn_def, unfold holds_lease_def,
      drule (3) retry_txn_writes, blast)

interpretation dead_lease: lease_op "\<lambda>j g e. mark_finalization_dead_letter_txn True j g e n now" for n now
  by (rule lease_opI, simp add: mark_finalization_dead_letter_txn_def, unfold holds_lease_def,
      drule (3) dead_letter_txn_writes, blast)

interpretation fanout_claim_lease: lease_op "\<lambda>j g e. claim_finalization_fanout_txn True j g e now" for now
  by (rule lease_opI, simp add: claim_finalization_fanout_txn_def, unfold holds_lease_def,
      drule (3) fanout_claim_txn_writes, blast)

interpretation fanout_done_lease: lease_op "\<lambda>j g e. mark_finalization_fanout_completed_txn j g e now" for now
  by (rule lease_opI, simp add: mark_finalization_fanout_completed_txn_def, unfold holds_lease_def,
      drule (3) fanout_done_txn_writes, blast)

text \<open>The calls a worker makes under a lease.\<close>

fun lease_call :: "string \<Rightarrow> int \<Rightarrow> int \<Rightarrow> fin_op \<Rightarrow> bool" where
  "lease_call j g e (Op_Complete j' g' e' now) = (j' = j \<and> g' = g \<and> e' = e)"
| "lease_call j g e (Op_Fence j' g' e' now) = (j' = j \<and> g' = g \<and> e' = e)"
| "lease_call j g e (Op_Fanout_Claim j' g' e' now) = (j' = j \<and> g' = g \<and> e' = e)"
| "lease_call j g e (Op_Fanout_Done j' g' e' now) = (j' = j \<and> g' = g \<and> e' = e)"
| "lease_call j g e (Op_Retry j' g' e' code now) = (j' = j \<and> g' = g \<and> e' = e)"
| "lease_call j g e (Op_Dead j' g' e' n now) = (j' = j \<and> g' = g \<and> e' = e)"
| "lease_call j g e _ = False"

lemmas entry_defs =
  mark_finalization_completed_def mark_finalization_fenced_def mark_finalization_retryable_def
  mark_finalization_dead_letter_def claim_finalization_fanout_def mark_finalization_fanout_completed_def

lemma lease_call_superseded:
  assumes "firestore fetch commit" "sys_ok fetch x" "fetch (snd x) (job_ref j) = Some d" "superseded d g e"
    and "(sys_step fetch commit ie)\<^sup>*\<^sup>* x y" "lease_call j g e op"
  shows "fetch (fin_exec fetch commit ie op (snd y)) = fetch (snd y)"
  using assms(6)
    completed_lease.superseded_silent [OF assms(1-5)] fenced_lease.superseded_silent [OF assms(1-5)]
    retry_lease.superseded_silent [OF assms(1-5)] dead_lease.superseded_silent [OF assms(1-5)]
    fanout_claim_lease.superseded_silent [OF assms(1-5)] fanout_done_lease.superseded_silent [OF assms(1-5)]
  by (cases op) (simp_all add: entry_defs)

end
