(* ===== verification/Example_Store.thy ===== *)
theory Example_Store
  imports Lease_Fencing
begin

text \<open>
  Concrete documents and a concrete environment on the in-memory store. They show that the
  hypotheses of the properties can hold together, and are evaluated by the witnesses.
\<close>

definition ex_transcripts :: transcript_env where
  "ex_transcripts =
     \<lparr>decode_segments = (\<lambda>uid v compressed. Inr []), binding_sha256 = (\<lambda>segments. Some ''digest''),
      field_path_parts = (\<lambda>key. Some [key])\<rparr>"

definition ex_env :: intent_env where
  "ex_env =
     \<lparr>ie_env = (\<lambda>k. None), ie_transcripts = ex_transcripts, document_id_from_seed = (\<lambda>seed. ''J''),
      ie_sha256 = (\<lambda>s. [0, 0, 0, 3]), photos_exist = (\<lambda>p. False)\<rparr>"

text \<open>A platform-key job of conversation \<open>C\<close> of user \<open>U\<close>, in the given state.\<close>

definition ex_job :: "string \<Rightarrow> bool \<Rightarrow> int \<Rightarrow> string \<Rightarrow> fields" where
  "ex_job status byok epoch fanout =
     [(''status'', Put (PStr status)), (''requires_byok'', Put (PBool byok)),
      (''dispatch_generation'', Put (PInt 1)), (''lease_epoch'', Put (PInt epoch)),
      (''attempt_count'', Put (PInt 0)), (''fanout_status'', Put (PStr fanout)),
      (''fanout_key'', Put (PStr ''K'')), (''finalization_revision'', Put (PInt 1)),
      (''uid'', Put (PStr ''U'')), (''conversation_id'', Put (PStr ''C'')),
      (''created_at'', Put (PTime 0)), (''updated_at'', Put (PTime 0)),
      (''dispatch_requested_at'', Put (PTime 0)), (''lease_expires_at'', Put (PTime 10))]
     @ (if byok then [] else [(''reconcile_after_at'', Put (PTime 10))])"

definition ex_job_doc :: "string \<Rightarrow> bool \<Rightarrow> int \<Rightarrow> string \<Rightarrow> doc" where
  "ex_job_doc status byok epoch fanout = upd_fields Map.empty (ex_job status byok epoch fanout)"

definition ex_conversation :: "string \<Rightarrow> doc" where
  "ex_conversation status =
     [''status'' \<mapsto> PStr status, ''has_content'' \<mapsto> PBool True, ''finalization_job_id'' \<mapsto> PStr ''J'',
      ''finalization_revision'' \<mapsto> PInt 1]"

definition ex_store :: "doc \<Rightarrow> string \<Rightarrow> mem_store" where
  "ex_store job conversation_status =
     (\<lambda>p. if p = job_ref ''J'' then Some job
          else if p = conversation_ref ''U'' ''C'' then Some (ex_conversation conversation_status) else None)"

lemma ex_job_wf:
  assumes "status_of status \<noteq> None" "fanout_of (PStr fanout) \<noteq> None" "0 \<le> epoch"
  shows "wf_job (ex_job_doc status byok epoch fanout)"
  unfolding wf_job_def ex_job_doc_def using assms by (simp add: ex_job_def upd_reads)

lemma ex_job_abs:
  assumes "0 \<le> epoch"
  shows "abs_job (ex_job_doc status byok epoch fanout) =
    \<lparr>a_status = the (status_of status), a_generation = 1, a_epoch = epoch, a_attempts = 0, a_byok = byok,
     a_fanout = the (fanout_of (PStr fanout)), a_outcome = None, a_reconcile = (\<not> byok)\<rparr>"
  unfolding abs_job_def ex_job_doc_def using assms by (simp add: ex_job_def upd_reads)

lemma ex_store_job [simp]: "mem_fetch (ex_store job cs) (job_ref j) = (if j = ''J'' then Some job else None)"
  by (simp add: ex_store_def mem_fetch_def)

lemma ex_store_conversation [simp]:
  "mem_fetch (ex_store job cs) (conversation_ref u c) =
     (if u = ''U'' \<and> c = ''C'' then Some (ex_conversation cs) else None)"
  by (simp add: ex_store_def mem_fetch_def conversation_ref_def job_ref_def FINALIZATION_JOBS_COLLECTION_def)

text \<open>The example store is a legitimate state of the system for the unfinished jobs used below.\<close>

lemma ex_sys_ok:
  assumes "(status, byok) \<in> {(''queued'', False), (''leased'', False), (''queued'', True), (''leased'', True)}"
    and "fanout_of (PStr fanout) \<noteq> None" "0 \<le> epoch"
  shows "sys_ok mem_fetch ({}, ex_store (ex_job_doc status byok epoch fanout) cs)"
  using assms ex_job_wf [of status fanout epoch byok] ex_job_abs [of epoch status byok fanout]
  by (auto simp: sys_ok_def jobs_ok_def plain_jobs_def ajob_inv_def)

end
