(* ===== verification/Admission.thy ===== *)
theory Admission
  imports Example_Store
begin

text \<open>
  What the admission call promises: a job is created together with the life-cycle fields of
  its conversation, a repeated call returns the job that exists and writes no other, and the
  projection fields a client submits are only stored when they are bound to the transcript of
  the snapshot they are written onto.
\<close>

subsection \<open>Runs of the call\<close>

text \<open>A call whose first attempt is not aborted is the transaction itself.\<close>

lemma create_granted:
  assumes "\<not> aborts 1"
    and "create_or_get_finalization_intent_txn ie uid cid byok admit (now 1) trigger extra (fetch st) = Inr (r, ws)"
  shows "create_or_get_finalization_intent fetch commit ie aborts rnd st uid cid byok admit now trigger extra =
    (Returned r, commit st ws, [])"
  using assms
  by (simp add: create_or_get_finalization_intent_def run_with_transaction_contention_retry_def
      DEFAULT_MAX_ATTEMPTS_def retry_loop.simps create_intent_in_transaction_def)

text \<open>The conversation may be admitted to its next finalization generation.\<close>

definition admissible :: "intent_env \<Rightarrow> string \<Rightarrow> string \<Rightarrow> (doc \<Rightarrow> finalization_admission res) \<Rightarrow> doc \<Rightarrow> string \<Rightarrow> bool" where
  "admissible ie uid cid admit c key \<longleftrightarrow>
     \<not> truthy (dget c ''deferred'') \<and> key \<noteq> []
     \<and> conversation_has_finalization_content ie uid c (conversation_ref uid cid) = Inr True
     \<and> (\<exists>reason. admit c = Inr \<lparr>admission_accepted = True, admission_terminal = False, admission_reason = reason,
          admission_fanout_key = Some key\<rparr>)"

lemma intent_body_new:
  assumes "admissible ie uid cid admit c key" "as_str (dget c ''finalization_job_id'') = None"
    and "int_or c ''finalization_revision'' 0 = Inr rv" "job_id_of ie uid cid (rv + 1) = j"
    and "rd (job_ref j) = None"
    and "jf = new_job ie uid cid (rv + 1) byok c trigger key j now"
  shows "\<exists>intent. intent_body ie uid cid byok admit now trigger extra rd c =
      Inr (intent,
           dict_update (non_projection_extra_updates extra)
             (attached_lifecycle j (rv + 1) (PStr (if byok then ''blocked_byok'' else ''queued''))),
           SetDoc (job_ref j) jf # record_projection_delta True (upd_fields Map.empty jf) (create_deltas byok))
    \<and> intent_created intent \<and> intent_job_id intent = Some j"
proof -
  obtain reason f fs where a: "admit c = Inr \<lparr>admission_accepted = True, admission_terminal = False,
      admission_reason = reason, admission_fanout_key = Some (f # fs)\<rparr>" and key: "key = f # fs"
    using assms(1) by (cases key) (auto simp: admissible_def)
  have "int_or (upd_fields Map.empty jf) ''dispatch_generation'' 1 = Inr 1"
    using assms(6) by (simp add: new_job_def int_or_def dget_def py_or_def)
  then show ?thesis
    using assms a key
    by (simp add: admissible_def intent_body_def Let_def intent_from_job_def create_deltas_def)
qed

lemma attached_lookup:
  assumes "(k, v) \<in> set (attached_lifecycle j n s)"
  shows "map_of (attached_lifecycle j n s) k = Some v"
    and "takeWhile (\<lambda>ch. ch \<noteq> CHR ''.'') k \<notin> set PROJECTION_FAMILY_FIELDS"
  using assms by (auto simp: attached_lifecycle_def PROJECTION_FAMILY_FIELDS_def)

lemma create_txn_new:
  assumes "rd (conversation_ref uid cid) = Some c" "admissible ie uid cid admit c key"
    and "as_str (dget c ''finalization_job_id'') = None" "int_or c ''finalization_revision'' 0 = Inr rv"
    and "job_id_of ie uid cid (rv + 1) = j" "rd (job_ref j) = None"
    and "extra_updates_with_bound_client_processing (ie_transcripts ie) uid c extra = Inr bound"
    and "jf = new_job ie uid cid (rv + 1) byok c trigger key j now"
  shows "\<exists>intent updates. create_or_get_finalization_intent_txn ie uid cid byok admit now trigger extra rd =
      Inr (intent,
           SetDoc (job_ref j) jf # record_projection_delta True (upd_fields Map.empty jf) (create_deltas byok)
           @ [Update (conversation_ref uid cid) (map (\<lambda>(k, v). (k, Put v)) updates)])
    \<and> intent_created intent \<and> intent_job_id intent = Some j
    \<and> (\<forall>(k, v) \<in> set (attached_lifecycle j (rv + 1) (PStr (if byok then ''blocked_byok'' else ''queued''))).
         map_of updates k = Some v)"
proof -
  let ?att = "attached_lifecycle j (rv + 1) (PStr (if byok then ''blocked_byok'' else ''queued''))"
  let ?lu = "dict_update (non_projection_extra_updates extra) ?att"
  let ?keep = "\<lambda>(k :: string, v :: pyval). takeWhile (\<lambda>ch. ch \<noteq> CHR ''.'') k \<notin> set PROJECTION_FAMILY_FIELDS"
  define updates where "updates = dict_update (filter (\<lambda>(k, v). k \<in> set PROJECTION_FAMILY_FIELDS) bound) (filter ?keep ?lu)"
  have m: "map_of updates k = Some v" if "(k, v) \<in> set ?att" for k v
    unfolding updates_def map_of_dict_update map_of_filter_key
    by (simp add: attached_lookup [OF that])
  have "(''status'', PStr ''processing'') \<in> set ?att" by (simp add: attached_lifecycle_def)
  from m [OF this] have ne: "updates \<noteq> []" by auto
  obtain intent where i: "intent_body ie uid cid byok admit now trigger extra rd c = Inr (intent, ?lu,
      SetDoc (job_ref j) jf # record_projection_delta True (upd_fields Map.empty jf) (create_deltas byok))"
    "intent_created intent" "intent_job_id intent = Some j"
    using intent_body_new [where rd = rd, OF assms(2-6,8)] by blast
  have "apply_snapshot_bound_projection ie (conversation_ref uid cid) uid (Some c) extra ?lu =
      Inr [Update (conversation_ref uid cid) (map (\<lambda>(k, v). (k, Put v)) updates)]"
    using ne unfolding updates_def
    by (simp add: apply_snapshot_bound_projection_def snapshot_bound_projection_updates_def assms(7) Let_def)
  then show ?thesis
    using assms(1) i m by (auto simp: create_or_get_finalization_intent_txn_def Let_def)
qed

subsection \<open>A conversation that owns a job\<close>

text \<open>While a conversation names a job that exists, the body returns that job or no intent, and writes no job.\<close>

lemma intent_body_owned:
  assumes "as_str (dget c ''finalization_job_id'') = Some j" "j \<noteq> []" "rd (job_ref j) = Some d"
    and "intent_body ie uid cid byok admit now trigger extra rd c = Inr (intent, lu, jw)"
  shows "jw = [] \<and> \<not> intent_created intent \<and> (\<forall>i. intent_job_id intent = Some i \<longrightarrow> i = j)"
proof -
  obtain ch cs where j: "j = ch # cs" using assms(2) by (cases j) auto
  from assms(1,3,4) show ?thesis unfolding j
    by (auto simp: intent_body_def Let_def no_finalization_intent_def intent_from_job_def
        split: if_split_asm)
qed

lemma create_txn_owned:
  assumes "rd (conversation_ref uid cid) = Some c"
    and "as_str (dget c ''finalization_job_id'') = Some j" "j \<noteq> []" "rd (job_ref j) = Some d"
    and "create_or_get_finalization_intent_txn ie uid cid byok admit now trigger extra rd = Inr (intent, ws)"
  shows "(\<forall>w \<in> set ws. wpath w = conversation_ref uid cid)
    \<and> \<not> intent_created intent \<and> (\<forall>i. intent_job_id intent = Some i \<longrightarrow> i = j)"
proof -
  from assms(1,5) obtain lu jw cw where
    body: "intent_body ie uid cid byok admit now trigger extra rd c = Inr (intent, lu, jw)"
    and cw: "apply_snapshot_bound_projection ie (conversation_ref uid cid) uid (Some c) extra lu = Inr cw"
    and ws: "ws = jw @ cw"
    by (fastforce simp: create_or_get_finalization_intent_txn_def Let_def)
  from cw have "\<forall>w \<in> set cw. wpath w = conversation_ref uid cid"
    by (auto simp: apply_snapshot_bound_projection_def Let_def split: if_split_asm)
  with intent_body_owned [OF assms(2-4) body] ws show ?thesis by simp
qed

lemma create_txn_existing:
  assumes "rd (conversation_ref uid cid) = Some c"
    and "as_str (dget c ''finalization_job_id'') = Some j" "j \<noteq> []" "rd (job_ref j) = Some d" "wf_job d"
    and "\<not> truthy (dget c ''deferred'')"
    and "conversation_has_finalization_content ie uid c (conversation_ref uid cid) = Inr True"
    and "admit c = Inr adm" "\<not> admission_terminal adm"
    and "extra_updates_with_bound_client_processing (ie_transcripts ie) uid c extra = Inr bound"
  shows "\<exists>intent ws. create_or_get_finalization_intent_txn ie uid cid byok admit now trigger extra rd = Inr (intent, ws)
    \<and> intent_job_id intent = Some j"
proof -
  obtain ch cs where j: "j = ch # cs" using assms(3) by (cases j) auto
  show ?thesis
    using assms unfolding j
    by (simp add: create_or_get_finalization_intent_txn_def intent_body_def Let_def intent_from_job_def wf_jobD(1)
        apply_snapshot_bound_projection_def snapshot_bound_projection_updates_def)
qed

subsection \<open>Admissions on the example store\<close>

definition ex_admit :: "doc \<Rightarrow> finalization_admission res" where
  "ex_admit d = Inr \<lparr>admission_accepted = True, admission_terminal = False, admission_reason = ''accepted'',
     admission_fanout_key = Some ''K''\<rparr>"

definition ex_fresh_conversation :: doc where
  "ex_fresh_conversation = [''status'' \<mapsto> PStr ''in_progress'', ''has_content'' \<mapsto> PBool True]"

definition ex_fresh :: mem_store where
  "ex_fresh = (\<lambda>p. if p = conversation_ref ''U'' ''C'' then Some ex_fresh_conversation else None)"

definition ex_projection :: dict where
  "ex_projection = [(''client_processing'', PDict [(''transcript_sha256'', PStr ''digest'')])]"

lemma mem_fetch_commit: "mem_fetch (mem_commit st ws) p = after ws p (mem_fetch st p)"
  by (simp add: mem_fetch_def mem_commit_def)

lemma ex_fresh_reads [simp]:
  "mem_fetch ex_fresh (conversation_ref ''U'' ''C'') = Some ex_fresh_conversation" "mem_fetch ex_fresh (job_ref j) = None"
  by (simp_all add: mem_fetch_def ex_fresh_def)

lemma ex_admissible:
  "admissible ex_env ''U'' ''C'' ex_admit ex_fresh_conversation ''K''"
  by (simp add: admissible_def ex_admit_def ex_fresh_conversation_def conversation_has_finalization_content_def
      raw_conversation_has_content_def dget_def)

lemma ex_projection_bound:
  "extra_updates_with_bound_client_processing ex_transcripts ''U'' c (Some ex_projection) = Inr ex_projection"
  by (simp add: extra_updates_with_bound_client_processing_def ex_projection_def ex_transcripts_def Let_def
      PROJECTION_FAMILY_FIELDS_def CLIENT_PROCESSING_BIND_REPORT_KEY_def is_unbound_projection_field_path_def
      projection_digest_def)

lemma ex_existing_txn:
  "\<exists>intent. create_or_get_finalization_intent_txn ex_env ''U'' ''C'' False ex_admit 0 CAPTURE_END (Some ex_projection)
     (mem_fetch (ex_store (ex_job_doc ''queued'' False 0 ''pending'') ''processing'')) =
     Inr (intent, [Update (conversation_ref ''U'' ''C'') (map (\<lambda>(k, v). (k, Put v)) ex_projection)])"
  by (simp add: create_or_get_finalization_intent_txn_def Let_def intent_body_def ex_conversation_def
      conversation_has_finalization_content_def raw_conversation_has_content_def dget_def ex_admit_def intent_from_job_def
      apply_snapshot_bound_projection_def snapshot_bound_projection_updates_def ex_env_def ex_projection_bound
      wf_jobD(1) [OF ex_job_wf])
    (simp add: dict_update_def ex_projection_def PROJECTION_FAMILY_FIELDS_def)

subsection \<open>Properties\<close>

lemma create_call_fetch:
  assumes "firestore fetch commit"
    and "create_or_get_finalization_intent_txn ie uid cid byok admit now trigger extra (fetch st) = Inr (r, ws)"
  shows "fetch (commit st ws) p = after ws p (fetch st p)"
  using firestore.fetch_commit [OF assms(1)] job_effect_ok [OF create_effect [OF assms(2)]] by blast

lemma upd_fields_put:
  "upd_fields d (map (\<lambda>(k, v). (k, Put v)) kvs) k = (case map_of kvs k of None \<Rightarrow> d k | Some v \<Rightarrow> Some v)"
proof -
  have "map_of (map (\<lambda>(k, v). (k, Put v)) kvs) k = map_option Put (map_of kvs k)" by (induction kvs) auto
  then show ?thesis by (simp add: upd_fields_def split: option.split)
qed

lemma delta_not_conversation: "conversation_ref u c \<notin> wpath ` set (record_projection_delta b d deltas)"
  by (auto simp: record_projection_delta_def projection_ref_for_job_def conversation_ref_def Let_def
      split: option.splits if_split_asm)

lemma job_ref_not_conversation [simp]: "job_ref j \<noteq> conversation_ref u c" "conversation_ref u c \<noteq> job_ref j"
  by (simp_all add: job_ref_def conversation_ref_def)

text \<open>
  C33. Admission is idempotent. While a conversation names a job that exists, a further
  admission call, with any arguments, under any pattern of aborted attempts, leaves every job
  and every counter as it is and never reports a new job or a different one; when the
  conversation is not deferred and has content, its admission is not terminal, the projection
  binding succeeds and the first attempt is not aborted, it returns the existing job.
\<close>

theorem admission_idempotent:
  assumes "firestore fetch commit" "fetch st (conversation_ref uid cid) = Some c"
    and "as_str (dget c ''finalization_job_id'') = Some j" "j \<noteq> []" "fetch st (job_ref j) = Some d" "wf_job d"
    and "create_or_get_finalization_intent fetch commit ie aborts rnd st uid cid byok admit now trigger extra = (r, st', ds)"
  shows "(\<forall>i. fetch st' (job_ref i) = fetch st (job_ref i))
    \<and> (\<forall>k. fetch st' (shard_path k) = fetch st (shard_path k))
    \<and> (\<forall>intent. r = Returned intent \<longrightarrow>
         \<not> intent_created intent \<and> (\<forall>i. intent_job_id intent = Some i \<longrightarrow> i = j))
    \<and> (\<not> aborts 1 \<and> \<not> truthy (dget c ''deferred'')
         \<and> conversation_has_finalization_content ie uid c (conversation_ref uid cid) = Inr True
         \<and> (\<exists>adm. admit c = Inr adm \<and> \<not> admission_terminal adm)
         \<and> (\<exists>bound. extra_updates_with_bound_client_processing (ie_transcripts ie) uid c extra = Inr bound)
       \<longrightarrow> (\<exists>intent. r = Returned intent \<and> intent_job_id intent = Some j))"
  (is "?jobs \<and> ?shards \<and> ?ret \<and> ?found")
proof -
  have "?jobs \<and> ?shards \<and> ?ret"
    using create_call_shape [OF assms(7)]
  proof (elim disjE exE conjE)
    fix n intent ws
    assume t: "create_or_get_finalization_intent_txn ie uid cid byok admit (now n) trigger extra (fetch st) = Inr (intent, ws)"
      and r: "r = Returned intent" "st' = commit st ws"
    note o = create_txn_owned [OF assms(2-5) t]
    have "fetch st' p = fetch st p" if "p \<noteq> conversation_ref uid cid" for p
      unfolding r(2) create_call_fetch [OF assms(1) t] using o that by (intro after_untouched) auto
    with o r show ?thesis
      by (simp add: job_ref_def shard_path_def conversation_ref_def)
  qed simp
  moreover have ?found
  proof (intro impI, elim conjE exE)
    fix adm bound
    assume "\<not> aborts 1" "\<not> truthy (dget c ''deferred'')"
      "conversation_has_finalization_content ie uid c (conversation_ref uid cid) = Inr True"
      "admit c = Inr adm" "\<not> admission_terminal adm"
      "extra_updates_with_bound_client_processing (ie_transcripts ie) uid c extra = Inr bound"
    with create_txn_existing [OF assms(2-6)] create_granted [where st = st] assms(7)
    show "\<exists>intent. r = Returned intent \<and> intent_job_id intent = Some j" by (metis prod.inject)
  qed
  ultimately show ?thesis by blast
qed

theorem admission_idempotent_witness:
  "\<exists>intent st' ds. create_or_get_finalization_intent mem_fetch mem_commit ex_env (\<lambda>n. False) (\<lambda>n. 0)
      (ex_store (ex_job_doc ''queued'' False 0 ''pending'') ''processing'') ''U'' ''C'' False ex_admit (\<lambda>n. 0) CAPTURE_END
      (Some ex_projection) = (Returned intent, st', ds)
    \<and> intent_job_id intent = Some ''J'' \<and> \<not> intent_created intent
    \<and> mem_fetch st' (job_ref ''J'') = Some (ex_job_doc ''queued'' False 0 ''pending'')"
proof -
  let ?st = "ex_store (ex_job_doc ''queued'' False 0 ''pending'') ''processing''"
  obtain r st' ds where call: "create_or_get_finalization_intent mem_fetch mem_commit ex_env (\<lambda>n. False) (\<lambda>n. 0) ?st ''U'' ''C''
      False ex_admit (\<lambda>n. 0) CAPTURE_END (Some ex_projection) = (r, st', ds)" by (metis prod_cases3)
  have "as_str (dget (ex_conversation ''processing'') ''finalization_job_id'') = Some ''J''"
    by (simp add: ex_conversation_def dget_def)
  note p = admission_idempotent [OF mem.firestore_axioms, where st = ?st, OF _ this _ _ _ call,
      of "ex_job_doc ''queued'' False 0 ''pending''", simplified, OF ex_job_wf]
  have "\<not> truthy (dget (ex_conversation ''processing'') ''deferred'')"
    "conversation_has_finalization_content ex_env ''U'' (ex_conversation ''processing'') (conversation_ref ''U'' ''C'') = Inr True"
    "ie_transcripts ex_env = ex_transcripts"
    by (simp_all add: ex_conversation_def dget_def conversation_has_finalization_content_def raw_conversation_has_content_def
        ex_env_def)
  with p have "\<exists>intent. r = Returned intent \<and> intent_job_id intent = Some ''J''"
    by (simp add: ex_projection_bound ex_admit_def)
  with p call show ?thesis by auto
qed

text \<open>
  Admission is atomic: for an admissible conversation without a job, one commit stores
  the job of the next generation, in its initial state, and moves the conversation to
  \<open>processing\<close> with the job's id and generation, so neither is ever visible without the other.
\<close>

lemma admission_creates_job:
  assumes "firestore fetch commit" "fetch st (conversation_ref uid cid) = Some c" "admissible ie uid cid admit c key"
    and "as_str (dget c ''finalization_job_id'') = None" "int_or c ''finalization_revision'' 0 = Inr rv"
    and "fetch st (job_ref (job_id_of ie uid cid (rv + 1))) = None"
    and "extra_updates_with_bound_client_processing (ie_transcripts ie) uid c extra = Inr bound"
    and "\<not> aborts 1"
  shows "\<exists>intent ws c'. create_or_get_finalization_intent fetch commit ie aborts rnd st uid cid byok admit now trigger extra =
      (Returned intent, commit st ws, [])
    \<and> intent_created intent \<and> intent_job_id intent = Some (job_id_of ie uid cid (rv + 1))
    \<and> fetch (commit st ws) (job_ref (job_id_of ie uid cid (rv + 1))) =
        Some (upd_fields Map.empty (new_job ie uid cid (rv + 1) byok c trigger key (job_id_of ie uid cid (rv + 1)) (now 1)))
    \<and> fetch (commit st ws) (conversation_ref uid cid) = Some c'
    \<and> c' ''status'' = Some (PStr ''processing'')
    \<and> c' ''finalization_job_id'' = Some (PStr (job_id_of ie uid cid (rv + 1)))
    \<and> c' ''finalization_revision'' = Some (PInt (rv + 1))
    \<and> c' ''finalization_status'' = Some (PStr (if byok then ''blocked_byok'' else ''queued''))"
proof -
  let ?j = "job_id_of ie uid cid (rv + 1)"
  let ?jf = "new_job ie uid cid (rv + 1) byok c trigger key ?j (now 1)"
  let ?att = "attached_lifecycle ?j (rv + 1) (PStr (if byok then ''blocked_byok'' else ''queued''))"
  obtain intent updates where t: "create_or_get_finalization_intent_txn ie uid cid byok admit (now 1) trigger extra (fetch st) =
      Inr (intent, SetDoc (job_ref ?j) ?jf # record_projection_delta True (upd_fields Map.empty ?jf) (create_deltas byok)
           @ [Update (conversation_ref uid cid) (map (\<lambda>(k, v). (k, Put v)) updates)])" (is "_ = Inr (_, ?ws)")
    and i: "intent_created intent" "intent_job_id intent = Some ?j"
    and u: "\<forall>(k, v) \<in> set ?att. map_of updates k = Some v"
    using create_txn_new [where rd = "fetch st" and extra = extra, OF assms(2-5) refl assms(6,7) refl] by blast
  note f = create_call_fetch [OF assms(1) t]
  define c' where "c' = upd_fields c (map (\<lambda>(k, v). (k, Put v)) updates)"
  have c': "c' k = Some v" if "(k, v) \<in> set ?att" for k v
    using u that by (auto simp: c'_def upd_fields_put)
  have "fetch (commit st ?ws) (conversation_ref uid cid) = Some c'"
    using assms(2) by (simp add: f after_append delta_not_conversation c'_def del: One_nat_def)
  moreover have "fetch (commit st ?ws) (job_ref ?j) = Some (upd_fields Map.empty ?jf)"
    by (simp add: f del: One_nat_def)
  moreover have "c' ''status'' = Some (PStr ''processing'')" "c' ''finalization_job_id'' = Some (PStr ?j)"
    "c' ''finalization_revision'' = Some (PInt (rv + 1))"
    "c' ''finalization_status'' = Some (PStr (if byok then ''blocked_byok'' else ''queued''))"
    by (rule c', simp add: attached_lifecycle_def)+
  ultimately show ?thesis
    using create_granted [where st = st and now = now and fetch = fetch and aborts = aborts, OF assms(8) t] i by blast
qed

text \<open>
  A projection a client submits is stored only when it is bound to the transcript: if an
  admission call changes the \<open>client_processing\<close> field of the conversation, the new value was
  submitted under that plain name and carries the digest of the transcript decoded from the
  snapshot it is written onto.
\<close>

lemma admission_projection_bound:
  assumes "firestore fetch commit" "fetch st (conversation_ref uid cid) = Some c"
    and "create_or_get_finalization_intent fetch commit ie aborts rnd st uid cid byok admit now trigger (Some extra) = (r, st', ds)"
    and "fetch st' (conversation_ref uid cid) = Some c'" "c' ''client_processing'' \<noteq> c ''client_processing''"
  shows "\<exists>v segments expected. c' ''client_processing'' = Some v \<and> (''client_processing'', v) \<in> set extra
    \<and> decode_segments (ie_transcripts ie) uid (dget c ''transcript_segments'')
        (truthy (dget c ''transcript_segments_compressed'')) = Inr segments
    \<and> binding_sha256 (ie_transcripts ie) segments = Some expected \<and> projection_digest v = PStr expected"
proof -
  from create_call_shape [OF assms(3)] assms(2,4,5) obtain n intent ws where
    t: "create_or_get_finalization_intent_txn ie uid cid byok admit (now n) trigger (Some extra) (fetch st) = Inr (intent, ws)"
    and st': "st' = commit st ws" by auto
  from assms(2) t obtain lu jw cw where
    body: "intent_body ie uid cid byok admit (now n) trigger (Some extra) (fetch st) c = Inr (intent, lu, jw)"
    and cw: "apply_snapshot_bound_projection ie (conversation_ref uid cid) uid (Some c) (Some extra) lu = Inr cw"
    and ws: "ws = jw @ cw"
    by (fastforce simp: create_or_get_finalization_intent_txn_def Let_def)
  have "conversation_ref uid cid \<notin> wpath ` set jw"
  proof (cases "jw = []")
    case False
    from intent_body_shape [OF body False] show ?thesis
      by (elim exE conjE) (simp add: delta_not_conversation del: image_iff)
  qed simp
  then have c': "Some c' = after cw (conversation_ref uid cid) (Some c)"
    using assms(2,4) create_call_fetch [OF assms(1) t, of "conversation_ref uid cid"]
    by (simp add: st' ws after_append_other)
  from cw obtain bound where b: "extra_updates_with_bound_client_processing (ie_transcripts ie) uid c (Some extra) = Inr bound"
    and cwd: "cw = (let us = dict_update (filter (\<lambda>(k, v). k \<in> set PROJECTION_FAMILY_FIELDS) bound)
        (filter (\<lambda>(k, v). takeWhile (\<lambda>ch. ch \<noteq> CHR ''.'') k \<notin> set PROJECTION_FAMILY_FIELDS) lu)
      in if us = [] then [] else [Update (conversation_ref uid cid) (map (\<lambda>(k, v). (k, Put v)) us)])"
    by (auto simp: apply_snapshot_bound_projection_def snapshot_bound_projection_updates_def Let_def)
  have fam: "''client_processing'' \<in> set PROJECTION_FAMILY_FIELDS" by (simp add: PROJECTION_FAMILY_FIELDS_def)
  from c' assms(5) obtain v where v: "c' ''client_processing'' = Some v" "map_of bound ''client_processing'' = Some v"
    using fam by (auto simp: cwd Let_def upd_fields_put map_of_filter_key split: if_split_asm option.split_asm)
  then have m: "(''client_processing'', v) \<in> set bound" by (simp add: map_of_SomeD)
  then have "(''client_processing'', v) \<in> set extra" using bound_subset [OF b] by (rule subsetD [rotated])
  moreover obtain segments expected where
    "decode_segments (ie_transcripts ie) uid (dget c ''transcript_segments'')
       (truthy (dget c ''transcript_segments_compressed'')) = Inr segments"
    "binding_sha256 (ie_transcripts ie) segments = Some expected" "projection_digest v = PStr expected"
    by (rule bound_projection [OF b m fam])
  ultimately show ?thesis using v(1) by blast
qed

text \<open>A store reached by one admission; the runs of the system below start from it.\<close>

definition ex_created :: "bool \<Rightarrow> mem_store" where
  "ex_created byok = fin_exec mem_fetch mem_commit ex_env
     (Op_Create (\<lambda>n. False) (\<lambda>n. 0) ''U'' ''C'' byok ex_admit (\<lambda>n. 0) CAPTURE_END None) ex_fresh"

definition ex_new_job :: "bool \<Rightarrow> fields" where
  "ex_new_job byok = new_job ex_env ''U'' ''C'' 1 byok ex_fresh_conversation CAPTURE_END ''K'' ''J'' 0"

lemma ex_created_reach: "sys_reach mem_fetch mem_commit ex_env ({}, ex_created byok)"
proof (rule sys_reach.step)
  show "sys_reach mem_fetch mem_commit ex_env ({}, ex_fresh)"
    by (rule sys_reach.start)
      (simp add: sys_start_def mem_fetch_def ex_fresh_def job_ref_def shard_path_def conversation_ref_def)
  show "sys_step mem_fetch mem_commit ex_env ({}, ex_fresh) ({}, ex_created byok)"
    unfolding ex_created_def by (rule sys_step.call) simp
qed

definition ex_attached :: "bool \<Rightarrow> dict" where
  "ex_attached byok = attached_lifecycle ''J'' 1 (PStr (if byok then ''blocked_byok'' else ''queued''))"

lemma ex_created_txn:
  "\<exists>intent. create_or_get_finalization_intent_txn ex_env ''U'' ''C'' byok ex_admit 0 CAPTURE_END None (mem_fetch ex_fresh) =
     Inr (intent, SetDoc (job_ref ''J'') (ex_new_job byok)
       # record_projection_delta True (upd_fields Map.empty (ex_new_job byok)) (create_deltas byok)
       @ [Update (conversation_ref ''U'' ''C'') (map (\<lambda>(k, v). (k, Put v)) (ex_attached byok))])"
proof -
  have "as_str (dget ex_fresh_conversation ''finalization_job_id'') = None"
    "int_or ex_fresh_conversation ''finalization_revision'' 0 = Inr 0"
    by (simp_all add: ex_fresh_conversation_def dget_def int_or_def py_or_def)
  moreover have "job_id_of ex_env ''U'' ''C'' (0 + 1) = ''J''" by (simp add: job_id_of_def ex_env_def)
  ultimately obtain intent where b: "intent_body ex_env ''U'' ''C'' byok ex_admit 0 CAPTURE_END None (mem_fetch ex_fresh)
      ex_fresh_conversation = Inr (intent, dict_update (non_projection_extra_updates None) (ex_attached byok),
        SetDoc (job_ref ''J'') (ex_new_job byok)
        # record_projection_delta True (upd_fields Map.empty (ex_new_job byok)) (create_deltas byok))"
    using intent_body_new [where rd = "mem_fetch ex_fresh" and jf = "ex_new_job byok" and rv = 0 and j = "''J''"
        and byok = byok and now = 0 and trigger = CAPTURE_END and extra = None, OF ex_admissible]
    by (auto simp: ex_new_job_def ex_attached_def)
  have "apply_snapshot_bound_projection ex_env (conversation_ref ''U'' ''C'') ''U'' (Some ex_fresh_conversation) None
      (dict_update (non_projection_extra_updates None) (ex_attached byok)) =
    Inr [Update (conversation_ref ''U'' ''C'') (map (\<lambda>(k, v). (k, Put v)) (ex_attached byok))]"
    by (simp add: apply_snapshot_bound_projection_def snapshot_bound_projection_updates_def Let_def dict_update_def
        extra_updates_with_bound_client_processing_def non_projection_extra_updates_def ex_attached_def attached_lifecycle_def
        PROJECTION_FAMILY_FIELDS_def)
  with b show ?thesis by (simp add: create_or_get_finalization_intent_txn_def Let_def)
qed

lemma ex_created_reads:
  "mem_fetch (ex_created byok) (job_ref ''J'') = Some (upd_fields Map.empty (ex_new_job byok))"
  "mem_fetch (ex_created byok) (conversation_ref ''U'' ''C'') =
     Some (upd_fields ex_fresh_conversation (map (\<lambda>(k, v). (k, Put v)) (ex_attached byok)))"
proof -
  obtain intent where t: "create_or_get_finalization_intent_txn ex_env ''U'' ''C'' byok ex_admit 0 CAPTURE_END None (mem_fetch ex_fresh) =
     Inr (intent, SetDoc (job_ref ''J'') (ex_new_job byok)
       # record_projection_delta True (upd_fields Map.empty (ex_new_job byok)) (create_deltas byok)
       @ [Update (conversation_ref ''U'' ''C'') (map (\<lambda>(k, v). (k, Put v)) (ex_attached byok))])"
    using ex_created_txn by blast
  note c = create_granted [where st = ex_fresh and aborts = "\<lambda>n. False" and now = "\<lambda>n. 0" and fetch = mem_fetch,
      OF _ t, simplified]
  show "mem_fetch (ex_created byok) (job_ref ''J'') = Some (upd_fields Map.empty (ex_new_job byok))"
    "mem_fetch (ex_created byok) (conversation_ref ''U'' ''C'') =
     Some (upd_fields ex_fresh_conversation (map (\<lambda>(k, v). (k, Put v)) (ex_attached byok)))"
    unfolding ex_created_def fin_exec.simps c
    by (simp_all add: mem_fetch_commit after_append_other delta_not_conversation)
qed

end
