(* ===== verification/Finalization_Calls.thy ===== *)
theory Finalization_Calls
  imports Admission
begin

text \<open>
  What single calls on the job collection do, in any state the system can be in: the guards
  that keep a lease and a delivered fanout exclusive, the isolation of jobs that need user keys,
  the atomic end of a job and its conversation, and that a job can always be driven to its end.
\<close>

subsection \<open>Calls that change nothing\<close>

lemma run_txn_silent:
  assumes "firestore fetch commit" "\<And>r ws. body (fetch st) = Inr (r, ws) \<Longrightarrow> ws = []"
  shows "fetch (snd (run_txn fetch commit body st)) = fetch st"
proof (cases "body (fetch st)")
  case (Inr p)
  then have "snd p = []" using assms(2) [of "fst p" "snd p"] by simp
  with Inr show ?thesis by (cases p) (simp add: ext firestore.fetch_commit [OF assms(1)])
qed (simp add: run_txn_def)

lemma effect_after:
  assumes "firestore fetch commit" "job_effect (fetch st) ws"
  shows "fetch (commit st ws) p = after ws p (fetch st p)"
  by (rule firestore.fetch_commit [OF assms(1) job_effect_ok [OF assms(2)]])

lemma conversation_ref_inj: "conversation_ref u c = conversation_ref u' c' \<longleftrightarrow> u = u' \<and> c = c'"
  by (simp add: conversation_ref_def)

lemma sys_ok_job:
  "sys_ok fetch (C, st) \<Longrightarrow> fetch st (job_ref j) = Some d \<Longrightarrow> wf_job d \<and> ajob_inv (abs_job d)"
  by (simp add: sys_ok_def jobs_ok_def)

text \<open>The fanout was recorded as delivered, or the abandonment of a job with user keys has since overwritten that record.\<close>

definition fanout_settled :: "ajob \<Rightarrow> bool" where
  "fanout_settled a \<longleftrightarrow> a_fanout a = F_Completed \<or> (a_byok a \<and> a_status a = Dead_Letter)"

lemma ajob_next_delivered: "ajob_next a b \<Longrightarrow> fanout_settled a \<Longrightarrow> fanout_settled b"
  by (auto simp: ajob_next_def fanout_settled_def elim!: ajob_stepE)

lemma ajob_run_delivered: "ajob_next\<^sup>*\<^sup>* a b \<Longrightarrow> a_fanout a = F_Completed \<Longrightarrow> fanout_settled b"
  by (induction rule: rtranclp_induct) (simp add: fanout_settled_def, rule ajob_next_delivered)

subsection \<open>Calls of a worker that succeed\<close>

text \<open>The lease of a job is not live at the given time.\<close>

definition lapsed :: "doc \<Rightarrow> int \<Rightarrow> bool" where
  "lapsed d now \<longleftrightarrow>
     a_status (abs_job d) = Leased \<longrightarrow> (case as_time (dget d ''lease_expires_at'') of None \<Rightarrow> True | Some t \<Rightarrow> t \<le> now)"

lemma claim_granted:
  assumes "wf_job d" "rd (job_ref j) = Some d" "a_status (abs_job d) \<in> {Queued, Leased}" "a_byok (abs_job d) \<longrightarrow> allow"
    and "lapsed d now"
  shows "\<exists>r ws. claim_finalization_job_txn True j (a_generation (abs_job d)) allow ls now None None rd = Inr (r, ws)
    \<and> claim_status r = ''claimed'' \<and> claim_lease_epoch r = Some (a_epoch (abs_job d) + 1) \<and> ws \<noteq> []"
  using assms
  by (auto simp: claim_finalization_job_txn_def Let_def wf_job_reads lapsed_def TERMINAL_JOB_STATUSES_def claim_result_def
      split: option.splits)

text \<open>Every call that is not a replay keeps the state legitimate.\<close>

lemma call_ok:
  assumes "firestore fetch commit" "sys_ok fetch (C, st)" "\<And>j s n. op \<noteq> Op_Replay j s n"
  shows "sys_ok fetch (C, fin_exec fetch commit ie op st)"
  by (rule firestore.sys_step_ok [OF assms(1,2)]) (rule sys_step.call, use assms(3) in simp)

lemma claim_call:
  fixes ls :: int and ie :: intent_env
  assumes "firestore fetch commit" "sys_ok fetch (C, st)" "fetch st (job_ref j) = Some d" "a_status (abs_job d) \<in> {Queued, Leased}"
    and "\<not> a_byok (abs_job d)" "lapsed d now"
  defines "st' \<equiv> fin_exec fetch commit ie (Op_Claim j (a_generation (abs_job d)) False ls None None now) st"
  shows "fetch st' (job_ref j) = Some (upd_fields d (claimed_update now (now + td_seconds ls) (a_epoch (abs_job d) + 1) False))"
    and "fetch st' (conversation_ref u c) = fetch st (conversation_ref u c)"
proof -
  from sys_ok_job [OF assms(2,3)] have wf: "wf_job d" by simp
  obtain r ws where t: "claim_finalization_job_txn True j (a_generation (abs_job d)) False ls now None None (fetch st) = Inr (r, ws)"
    "ws \<noteq> []" using claim_granted [where rd = "fetch st" and allow = False, OF wf assms(3,4) _ assms(6), of ls] assms(5) by blast
  have eff: "job_effect (fetch st) ws" by (rule claim_effect [OF t(1)]) (use assms(2) in \<open>simp add: sys_ok_def jobs_ok_def\<close>)
  have st': "st' = commit st ws" using t(1) by (simp add: st'_def claim_finalization_job_def)
  note w = claim_txn_writes [OF wf assms(3) t]
  show "fetch st' (job_ref j) = Some (upd_fields d (claimed_update now (now + td_seconds ls) (a_epoch (abs_job d) + 1) False))"
    unfolding st' effect_after [OF assms(1) eff] using w assms(3,5) by simp
  show "fetch st' (conversation_ref u c) = fetch st (conversation_ref u c)"
    unfolding st' effect_after [OF assms(1) eff] using w delta_not_conversation [of u c]
    by (auto simp: after_untouched simp del: image_iff)
qed

lemma fanout_claim_call:
  assumes "firestore fetch commit" "sys_ok fetch (C, st)" "fetch st (job_ref j) = Some d" "holds_lease d g e"
    and "bound_conversation d = Some (u, c)" "fetch st (conversation_ref u c) = Some conv" "conversation_admits_fanout conv d j"
  shows "\<exists>d'. fetch (fin_exec fetch commit ie (Op_Fanout_Claim j g e now) st) (job_ref j) = Some d' \<and> holds_lease d' g e"
proof (cases "a_fanout (abs_job d) = F_Completed")
  case True
  have "fetch (fin_exec fetch commit ie (Op_Fanout_Claim j g e now) st) = fetch st"
    using sys_ok_job [OF assms(2,3)] assms(3) True unfolding fin_exec.simps claim_finalization_fanout_def
    by (intro run_txn_silent [OF assms(1)]) (auto simp: claim_finalization_fanout_txn_def Let_def wf_job_reads)
  with assms(3,4) show ?thesis by simp
next
  case False
  from sys_ok_job [OF assms(2,3)] have wf: "wf_job d" by simp
  have "\<exists>key. fanout_key d = Inr key"
    using wf by (cases "as_str (dget d ''fanout_key'')") (auto simp: fanout_key_def wf_jobD(4) split: list.split)
  then obtain key where k: "fanout_key d = Inr key" by blast
  have t: "claim_finalization_fanout_txn True j g e now (fetch st) =
      Inr (\<lparr>fanout_claim_status = ''claimed'', fanout_claim_key = Some key\<rparr>,
           [Update (job_ref j) (fanout_claimed_update now key e)])"
    using assms(3-7) False k wf
    by (simp add: claim_finalization_fanout_txn_def Let_def wf_job_reads is_current_lease_wf holds_lease_def)
  have eff: "job_effect (fetch st) [Update (job_ref j) (fanout_claimed_update now key e)]"
    by (rule fanout_claim_effect [OF t]) (use assms(2) in \<open>simp add: sys_ok_def jobs_ok_def\<close>)
  show ?thesis
    using t effect_after [OF assms(1) eff, of "job_ref j"] assms(3,4)
    by (simp add: claim_finalization_fanout_def holds_lease_def fanout_claimed_abs)
qed

lemma fanout_done_call:
  assumes "firestore fetch commit" "sys_ok fetch (C, st)" "fetch st (job_ref j) = Some d" "holds_lease d g e"
  shows "\<exists>d'. fetch (fin_exec fetch commit ie (Op_Fanout_Done j g e now) st) (job_ref j) = Some d' \<and> holds_lease d' g e
    \<and> a_fanout (abs_job d') = F_Completed"
proof (cases "a_fanout (abs_job d) = F_Completed")
  case True
  have "fetch (fin_exec fetch commit ie (Op_Fanout_Done j g e now) st) = fetch st"
    using sys_ok_job [OF assms(2,3)] assms(3) True unfolding fin_exec.simps mark_finalization_fanout_completed_def
    by (intro run_txn_silent [OF assms(1)]) (auto simp: mark_finalization_fanout_completed_txn_def wf_job_reads)
  with assms(3,4) True show ?thesis by simp
next
  case False
  from sys_ok_job [OF assms(2,3)] have wf: "wf_job d" by simp
  have t: "mark_finalization_fanout_completed_txn j g e now (fetch st) = Inr (True, [Update (job_ref j) (fanout_done_update now)])"
    using assms(3,4) False wf
    by (simp add: mark_finalization_fanout_completed_txn_def wf_job_reads is_current_lease_wf holds_lease_def)
  have eff: "job_effect (fetch st) [Update (job_ref j) (fanout_done_update now)]"
    by (rule fanout_done_effect [OF t]) (use assms(2) in \<open>simp add: sys_ok_def jobs_ok_def\<close>)
  show ?thesis
    using t effect_after [OF assms(1) eff, of "job_ref j"] assms(3,4)
    by (simp add: mark_finalization_fanout_completed_def holds_lease_def fanout_done_abs)
qed

lemma complete_call:
  assumes "firestore fetch commit" "sys_ok fetch (C, st)" "fetch st (job_ref j) = Some d" "holds_lease d g e"
    and "a_fanout (abs_job d) = F_Completed"
  shows "\<exists>d'. fetch (fin_exec fetch commit ie (Op_Complete j g e now) st) (job_ref j) = Some d'
    \<and> a_status (abs_job d') = Completed \<and> a_outcome (abs_job d') = Some Success"
proof -
  from sys_ok_job [OF assms(2,3)] have wf: "wf_job d" by simp
  let ?ws = "Update (job_ref j) (completed_update now)
    # record_projection_delta True d [(''leased'', -1), (''completed'', 1), (''success'', 1)]"
  have t: "mark_finalization_completed_txn True j g e now (fetch st) = Inr (True, ?ws)"
    using assms(3-5) wf by (simp add: mark_finalization_completed_txn_def wf_job_reads is_current_lease_wf holds_lease_def)
  have eff: "job_effect (fetch st) ?ws"
    by (rule completed_effect [OF t]) (use assms(2) in \<open>simp add: sys_ok_def jobs_ok_def\<close>)
  show ?thesis
    using t effect_after [OF assms(1) eff, of "job_ref j"] assms(3)
    by (simp add: mark_finalization_completed_def completed_abs)
qed

subsection \<open>An example run\<close>

text \<open>The created job is leased, and its fanout recorded.\<close>

definition ex_claim :: fin_op where
  "ex_claim = Op_Claim ''J'' 1 False 60 None None 5"

definition ex_leased :: mem_store where
  "ex_leased = fin_exec mem_fetch mem_commit ex_env ex_claim (ex_created False)"

definition ex_leased_job :: doc where
  "ex_leased_job = upd_fields (upd_fields Map.empty (ex_new_job False)) (claimed_update 5 (5 + td_seconds 60) 1 False)"

definition ex_delivered :: mem_store where
  "ex_delivered = fin_exec mem_fetch mem_commit ex_env (Op_Fanout_Done ''J'' 1 1 6) ex_leased"

lemma ex_new_job_abs: "abs_job (upd_fields Map.empty (ex_new_job byok)) = ajob_init byok"
  by (simp add: ex_new_job_def new_job_abs)

lemma ex_created_ok: "sys_ok mem_fetch ({}, ex_created byok)"
  using firestore.sys_reach_inv [OF mem.firestore_axioms ex_created_reach] by simp

lemma ex_claim_step: "sys_step mem_fetch mem_commit ex_env ({}, ex_created False) ({}, ex_leased)"
  unfolding ex_leased_def by (rule sys_step.call) (simp add: ex_claim_def)

lemma ex_leased_reach: "sys_reach mem_fetch mem_commit ex_env ({}, ex_leased)"
  by (rule sys_reach.step [OF ex_created_reach ex_claim_step])

lemma ex_leased_reads:
  "mem_fetch ex_leased (job_ref ''J'') = Some ex_leased_job"
  "mem_fetch ex_leased (conversation_ref u c) = mem_fetch (ex_created False) (conversation_ref u c)"
  using claim_call [where fetch = mem_fetch and commit = mem_commit and st = "ex_created False" and now = 5 and ls = 60
      and ie = ex_env, OF mem.firestore_axioms ex_created_ok ex_created_reads(1)]
  unfolding ex_new_job_abs
  by (simp_all add: ajob_init_def lapsed_def ex_new_job_abs ex_leased_def ex_claim_def ex_leased_job_def)

lemma ex_leased_abs: "abs_job ex_leased_job = (ajob_init False)\<lparr>a_status := Leased, a_epoch := 1\<rparr>"
  by (simp add: ex_leased_job_def claimed_abs ex_new_job_abs ajob_init_def)

lemma ex_delivered_reach: "sys_reach mem_fetch mem_commit ex_env ({}, ex_delivered)"
  unfolding ex_delivered_def by (rule sys_reach.step [OF ex_leased_reach sys_step.call]) simp

lemma ex_delivered_job:
  "\<exists>d. mem_fetch ex_delivered (job_ref ''J'') = Some d \<and> holds_lease d 1 1 \<and> a_fanout (abs_job d) = F_Completed"
proof -
  have "sys_ok mem_fetch ({}, ex_leased)" using firestore.sys_reach_inv [OF mem.firestore_axioms ex_leased_reach] by simp
  then show ?thesis
    unfolding ex_delivered_def
    by (rule fanout_done_call [OF mem.firestore_axioms, OF _ ex_leased_reads(1)])
      (simp add: holds_lease_def ex_leased_abs ajob_init_def)
qed

subsection \<open>Fanout, leases and user keys\<close>

text \<open>
  C7. The external fanout of a job is granted to nobody once it has been recorded as completed:
  in every later state of the run, whatever calls were made, the key is the one it was delivered
  under, and a further claim of the fanout, by any worker, writes nothing and is answered
  \<open>completed\<close>, or \<open>lease_conflict\<close> when the job needs user keys and was abandoned in the
  meantime, which overwrites the record. Without user keys the record itself stays.
\<close>

theorem fanout_delivered_once:
  assumes "firestore fetch commit" "sys_reach fetch commit ie x" "fetch (snd x) (job_ref j) = Some d"
    and "a_fanout (abs_job d) = F_Completed" "(sys_step fetch commit ie)\<^sup>*\<^sup>* x y"
  shows "\<exists>d'. fetch (snd y) (job_ref j) = Some d' \<and> fanout_key d' = fanout_key d
    \<and> (a_fanout (abs_job d') = F_Completed \<or> (a_byok (abs_job d) \<and> a_status (abs_job d') = Dead_Letter))
    \<and> (\<forall>g e now. fetch (snd (claim_finalization_fanout fetch commit (snd y) j g e now)) = fetch (snd y)
         \<and> (\<forall>r. fst (claim_finalization_fanout fetch commit (snd y) j g e now) = Inr r \<longrightarrow>
              fanout_claim_status r = (if a_fanout (abs_job d') = F_Completed then ''completed'' else ''lease_conflict'')))"
proof -
  have "sys_ok fetch x" using firestore.sys_reach_inv [OF assms(1,2)] by simp
  from firestore.sys_steps_job [OF assms(1,5) this assms(3)] obtain d' where
    d': "fetch (snd y) (job_ref j) = Some d'" "wf_job d'" "same_identity d d'" "ajob_next\<^sup>*\<^sup>* (abs_job d) (abs_job d')" by blast
  have f: "fanout_settled (abs_job d')" by (rule ajob_run_delivered [OF d'(4) assms(4)])
  have claim: "ws = [] \<and> fanout_claim_status r = (if a_fanout (abs_job d') = F_Completed then ''completed'' else ''lease_conflict'')"
    if "claim_finalization_fanout_txn True j g e now (fetch (snd y)) = Inr (r, ws)" for g e now r ws
    using that d'(1) f fanout_reads(1) [OF d'(2)]
    by (auto simp: claim_finalization_fanout_txn_def Let_def fanout_settled_def is_current_lease_wf [OF d'(2)] split: if_split_asm)
  have "fetch (snd (claim_finalization_fanout fetch commit (snd y) j g e now)) = fetch (snd y)" for g e now
    unfolding claim_finalization_fanout_def by (rule run_txn_silent [OF assms(1)]) (use claim in blast)
  moreover have "fanout_claim_status r = (if a_fanout (abs_job d') = F_Completed then ''completed'' else ''lease_conflict'')"
    if "fst (claim_finalization_fanout fetch commit (snd y) j g e now) = Inr r" for g e now r
    using that claim by (auto simp: claim_finalization_fanout_def run_txn_def split: sum.splits)
  moreover have "a_byok (abs_job d') = a_byok (abs_job d)" using ajob_run_mono [OF d'(4)] by simp
  ultimately show ?thesis using d' f by (auto simp: same_identity_def fanout_settled_def)
qed

theorem fanout_delivered_once_witness:
  "\<exists>d. mem_fetch ex_delivered (job_ref ''J'') = Some d \<and> a_fanout (abs_job d) = F_Completed
    \<and> mem_fetch (snd (claim_finalization_fanout mem_fetch mem_commit ex_delivered ''J'' 1 1 9)) = mem_fetch ex_delivered"
proof -
  obtain d where d: "mem_fetch ex_delivered (job_ref ''J'') = Some d" "a_fanout (abs_job d) = F_Completed"
    using ex_delivered_job by blast
  with fanout_delivered_once [OF mem.firestore_axioms ex_delivered_reach, of "''J''" d "({}, ex_delivered)"]
  show ?thesis by auto
qed

text \<open>
  C8. A job that needs user keys is out of reach of a worker without them: a claim that does not
  present the keys writes nothing and grants no lease on such a job, and no job that a reconciler
  ever picked up for replay needs keys. (The abandonment sweep, which ends such a job, asks for
  no keys, and neither do the calls made under a lease that was granted with keys.)
\<close>

theorem byok_isolated:
  assumes "firestore fetch commit" "sys_reach fetch commit ie (C, st)"
  shows "(\<forall>j \<in> C. \<exists>d. fetch st (job_ref j) = Some d \<and> \<not> a_byok (abs_job d))
    \<and> (\<forall>j d g ls eu ec now. fetch st (job_ref j) = Some d \<and> a_byok (abs_job d) \<longrightarrow>
         fetch (snd (claim_finalization_job fetch commit st j g False ls eu ec now)) = fetch st
         \<and> (\<forall>r. fst (claim_finalization_job fetch commit st j g False ls eu ec now) = Inr r \<longrightarrow>
              claim_status r \<noteq> ''claimed''))"
proof -
  have ok: "sys_ok fetch (C, st)" using firestore.sys_reach_inv [OF assms] by simp
  have "\<exists>d. fetch st (job_ref j) = Some d \<and> \<not> a_byok (abs_job d)" if "j \<in> C" for j
    using ok that by (auto simp: sys_ok_def plain_jobs_def abs_job_def)
  moreover have claim: "ws = [] \<and> claim_status r \<noteq> ''claimed''"
    if "fetch st (job_ref j) = Some d" "a_byok (abs_job d)"
      "claim_finalization_job_txn True j g False ls now eu ec (fetch st) = Inr (r, ws)" for j d g ls eu ec now r ws
  proof -
    have wf: "wf_job d" using sys_ok_job [OF ok that(1)] by simp
    show ?thesis
      using that wf by (auto simp: claim_finalization_job_txn_def Let_def wf_job_reads claim_result_def
          TERMINAL_JOB_STATUSES_def split: if_split_asm)
  qed
  have "fetch (snd (claim_finalization_job fetch commit st j g False ls eu ec now)) = fetch st"
    if "fetch st (job_ref j) = Some d" "a_byok (abs_job d)" for j d g ls eu ec now
    unfolding claim_finalization_job_def by (rule run_txn_silent [OF assms(1)]) (use claim [OF that] in blast)
  moreover have "claim_status r \<noteq> ''claimed''"
    if "fetch st (job_ref j) = Some d" "a_byok (abs_job d)"
      "fst (claim_finalization_job fetch commit st j g False ls eu ec now) = Inr r" for j d g ls eu ec now r
    using that(3) claim [OF that(1,2)] by (auto simp: claim_finalization_job_def run_txn_def split: sum.splits)
  ultimately show ?thesis by blast
qed

theorem byok_isolated_witness:
  "mem_fetch (snd (claim_finalization_job mem_fetch mem_commit (ex_created True) ''J'' 1 False 60 None None 5)) =
   mem_fetch (ex_created True)"
  using byok_isolated [OF mem.firestore_axioms ex_created_reach, of True] ex_created_reads(1) [of True]
  by (auto simp: ex_new_job_abs ajob_init_def)

text \<open>
  C9. A live lease is exclusive: before it expires, no worker can claim the job, no reconciler
  can replay it, and no sweep can abandon it.
\<close>

theorem live_lease_exclusive:
  assumes "firestore fetch commit" "sys_reach fetch commit ie (C, st)" "fetch st (job_ref j) = Some d"
    and "a_status (abs_job d) = Leased" "d ''lease_expires_at'' = Some (PTime t)" "now < t"
  shows "fetch (snd (claim_finalization_job fetch commit st j g allow ls eu ec now)) = fetch st
    \<and> fetch (snd (claim_finalization_replay fetch commit st j stale now)) = fetch st
    \<and> fetch (snd (abandon_byok_finalization_job fetch commit st j es eg ee age now)) = fetch st"
proof -
  have "sys_ok fetch (C, st)" using firestore.sys_reach_inv [OF assms(1,2)] by simp
  from sys_ok_job [OF this assms(3)] have wf: "wf_job d" by simp
  have "dget d ''lease_expires_at'' = PTime t" using assms(5) by (simp add: dget_def)
  note live = assms(3,4,6) wf this
  have c: "ws = []" if "claim_finalization_job_txn True j g allow ls now eu ec (fetch st) = Inr (r, ws)" for r ws
    using that live by (auto simp: claim_finalization_job_txn_def Let_def wf_job_reads split: if_split_asm)
  have r: "ws = []" if "claim_finalization_replay_txn True j stale now (fetch st) = Inr (r, ws)" for r ws
    using that live by (auto simp: claim_finalization_replay_txn_def Let_def wf_job_reads split: if_split_asm)
  have a: "ws = []" if "abandon_byok_finalization_job_txn True j es eg ee (now - age) now (fetch st) = Inr (r, ws)" for r ws
    using that live by (auto simp: abandon_byok_finalization_job_txn_def Let_def wf_job_reads split: if_split_asm)
  show ?thesis
    unfolding claim_finalization_job_def claim_finalization_replay_def abandon_byok_finalization_job_def
    by (intro conjI run_txn_silent [OF assms(1)]) (erule c, erule r, erule a)
qed

theorem live_lease_exclusive_witness:
  "mem_fetch (snd (claim_finalization_job mem_fetch mem_commit ex_leased ''J'' 1 False 60 None None 6)) = mem_fetch ex_leased"
  using live_lease_exclusive [where fetch = mem_fetch and commit = mem_commit and st = ex_leased and now = 6 and C = "{}"
      and ie = ex_env and t = "5 + td_seconds 60", OF mem.firestore_axioms ex_leased_reach ex_leased_reads(1)]
  by (simp add: ex_leased_abs) (simp add: ex_leased_job_def claimed_update_def td_seconds_def)

subsection \<open>The end of a job and of its conversation\<close>

text \<open>A job still owns a conversation that is being processed and names this job and generation.\<close>

definition owns_conversation :: "string \<Rightarrow> doc \<Rightarrow> doc \<Rightarrow> bool" where
  "owns_conversation j d c \<longleftrightarrow>
     dget c ''status'' = PStr ''processing'' \<and> \<not> truthy (dget c ''discarded'')
     \<and> dget c ''finalization_job_id'' = PStr j
     \<and> py_eq (dget c ''finalization_revision'') (dget d ''finalization_revision'')"

text \<open>
  C31. The holder of a lease ends a job for good and its conversation with it, in one commit:
  a conversation the job still owns becomes failed and discarded, any other conversation is
  left as it was, so a stale worker cannot hide a newer generation.
\<close>

theorem dead_letter_closes_conversation:
  assumes "firestore fetch commit" "sys_reach fetch commit ie (C, st)" "fetch st (job_ref j) = Some d" "holds_lease d g e"
    and "bound_conversation d = Some (u, c)" "fetch st (conversation_ref u c) = Some conv"
  shows "\<exists>st' d' conv'. mark_finalization_dead_letter fetch commit st j g e n now = (Inr True, st')
    \<and> fetch st' (job_ref j) = Some d' \<and> a_status (abs_job d') = Dead_Letter \<and> a_outcome (abs_job d') = Some Failure
    \<and> fetch st' (conversation_ref u c) = Some conv'
    \<and> (owns_conversation j d conv \<longrightarrow> conv' ''status'' = Some (PStr ''failed'')
          \<and> conv' ''discarded'' = Some (PBool True) \<and> conv' ''finalization_status'' = Some (PStr ''dead_letter''))
    \<and> (\<not> owns_conversation j d conv \<longrightarrow> conv' = conv)
    \<and> (\<forall>u' c'. (u', c') \<noteq> (u, c) \<longrightarrow> fetch st' (conversation_ref u' c') = fetch st (conversation_ref u' c'))"
proof -
  have ok: "sys_ok fetch (C, st)" using firestore.sys_reach_inv [OF assms(1,2)] by simp
  from sys_ok_job [OF this assms(3)] have wf: "wf_job d" by simp
  define cw where "cw = dead_letter_conversation_writes j d (fetch st)"
  define ws where "ws = Update (job_ref j) (dead_letter_update now n)
    # record_projection_delta True d [(''leased'', -1), (''dead_letter'', 1), (''failure'', 1)] @ cw"
  have t: "mark_finalization_dead_letter_txn True j g e n now (fetch st) = Inr (True, ws)"
    using assms(3,4) wf unfolding mark_finalization_dead_letter_txn_def ws_def cw_def
    by (simp add: is_current_lease_wf holds_lease_def)
  have eff: "job_effect (fetch st) ws" by (rule dead_letter_effect [OF t]) (use ok in \<open>simp add: sys_ok_def jobs_ok_def\<close>)
  note f = effect_after [OF assms(1) eff]
  have call: "mark_finalization_dead_letter fetch commit st j g e n now = (Inr True, commit st ws)"
    using t by (simp add: mark_finalization_dead_letter_def)
  have cw_val: "cw = (if owns_conversation j d conv then [Update (conversation_ref u c)
      [(''status'', Put (PStr ''failed'')), (''discarded'', Put (PBool True)), (''finalization_status'', Put (PStr ''dead_letter''))]] else [])"
    unfolding cw_def by (simp add: dead_letter_conversation_writes_def assms(5,6) owns_conversation_def)
  have conv: "fetch (commit st ws) (conversation_ref a b) = after cw (conversation_ref a b) (fetch st (conversation_ref a b))" for a b
    unfolding f by (simp add: ws_def after_append_other delta_not_conversation)
  have job: "fetch (commit st ws) (job_ref j) = Some (upd_fields d (dead_letter_update now n))"
    unfolding f using assms(3) by (simp add: ws_def)
  show ?thesis
    unfolding call
    by (rule exI [of _ "commit st ws"], rule exI [of _ "upd_fields d (dead_letter_update now n)"],
        rule exI [of _ "the (after cw (conversation_ref u c) (Some conv))"])
      (auto simp: job conv cw_val assms(6) dead_letter_abs conversation_ref_inj)
qed

theorem dead_letter_closes_conversation_witness:
  "\<exists>st' conv'. mark_finalization_dead_letter mem_fetch mem_commit ex_leased ''J'' 1 1 4 7 = (Inr True, st')
    \<and> mem_fetch st' (conversation_ref ''U'' ''C'') = Some conv' \<and> conv' ''status'' = Some (PStr ''failed'')
    \<and> conv' ''discarded'' = Some (PBool True)"
proof -
  let ?conv = "upd_fields ex_fresh_conversation (map (\<lambda>(k, v). (k, Put v)) (ex_attached False))"
  have "bound_conversation ex_leased_job = Some (''U'', ''C'')"
    by (simp add: ex_leased_job_def bound_conversation_def claimed_update_def ex_new_job_def new_job_def dget_def)
  moreover have "holds_lease ex_leased_job 1 1" by (simp add: holds_lease_def ex_leased_abs ajob_init_def)
  moreover have "owns_conversation ''J'' ex_leased_job ?conv"
    by (simp add: owns_conversation_def ex_leased_job_def claimed_update_def ex_new_job_def new_job_def dget_def
        ex_attached_def attached_lifecycle_def ex_fresh_conversation_def)
  ultimately show ?thesis
    using dead_letter_closes_conversation [where fetch = mem_fetch and commit = mem_commit and st = ex_leased and C = "{}"
        and ie = ex_env and g = 1 and e = 1 and u = "''U''" and c = "''C''" and conv = ?conv and n = 4 and now = 7,
        OF mem.firestore_axioms ex_leased_reach ex_leased_reads(1)] ex_leased_reads(2) ex_created_reads(2)
    by fastforce
qed

text \<open>
  The sweep that abandons user-key jobs marks the fanout of an abandoned job as fenced
  whatever it was: a fanout that had been delivered is recorded as never delivered.
\<close>

lemma abandonment_forgets_delivery:
  assumes "firestore fetch commit" "sys_ok fetch (C, st)" "fetch st (job_ref j) = Some d"
    and "a_byok (abs_job d)" "a_status (abs_job d) \<in> {Queued, Leased}" "a_fanout (abs_job d) = F_Completed"
    and "\<And>t. as_time (dget d ''lease_expires_at'') = Some t \<Longrightarrow> t \<le> now"
    and "job_last_activity_at d = Some t" "t \<le> now - age"
  shows "\<exists>r st' d'. abandon_byok_finalization_job fetch commit st j (status_name (a_status (abs_job d)))
        (a_generation (abs_job d)) (a_epoch (abs_job d)) age now = (Inr r, st')
    \<and> abandonment_status r = ''abandoned'' \<and> fetch st' (job_ref j) = Some d' \<and> a_fanout (abs_job d') = F_Fenced"
proof -
  from sys_ok_job [OF assms(2,3)] have wf: "wf_job d" by simp
  let ?body = "abandon_byok_finalization_job_txn True j (status_name (a_status (abs_job d))) (a_generation (abs_job d))
    (a_epoch (abs_job d)) (now - age) now"
  have "\<not> (case as_time (dget d ''lease_expires_at'') of None \<Rightarrow> False | Some t \<Rightarrow> t > now)"
    using assms(7) by (fastforce split: option.splits)
  then obtain r ws where t: "?body (fetch st) = Inr (r, ws)" "ws \<noteq> []"
    using wf assms(3-5,8,9)
    by (cases "abandoned_conversation j d (fetch st)")
      (auto simp: abandon_byok_finalization_job_txn_def Let_def wf_job_reads)
  note w = abandon_txn_writes [OF wf assms(3) t]
  have eff: "job_effect (fetch st) ws" by (rule abandon_effect [OF t(1)]) (use assms(2) in \<open>simp add: sys_ok_def jobs_ok_def\<close>)
  have "abandonment_status r = ''abandoned''" using w by (simp add: byok_abandonment_def)
  moreover have "fetch (commit st ws) (job_ref j) = Some (upd_fields d (abandoned_update now))"
    unfolding effect_after [OF assms(1) eff] using w assms(3) by simp
  ultimately show ?thesis
    using t(1) by (simp add: abandon_byok_finalization_job_def abandoned_abs)
qed

text \<open>
  C32. No unfinished platform-key job is stuck: in every reachable state, as long as its
  conversation still admits the fanout and no lease on it is live, the four calls of a worker
  (claim, claim of the fanout, its completion, completion of the job) finish it successfully.
\<close>

theorem unfinished_job_can_complete:
  assumes "firestore fetch commit" "sys_reach fetch commit ie (C, st)" "fetch st (job_ref j) = Some d"
    and "a_status (abs_job d) \<in> {Queued, Leased}" "\<not> a_byok (abs_job d)" "lapsed d now"
    and "bound_conversation d = Some (u, c)" "fetch st (conversation_ref u c) = Some conv" "conversation_admits_fanout conv d j"
    and "g = a_generation (abs_job d)" "e = a_epoch (abs_job d) + 1"
  shows "\<exists>d'. fetch (foldl (\<lambda>s op. fin_exec fetch commit ie op s) st
        [Op_Claim j g False ls None None now, Op_Fanout_Claim j g e now, Op_Fanout_Done j g e now, Op_Complete j g e now])
      (job_ref j) = Some d'
    \<and> a_status (abs_job d') = Completed \<and> a_outcome (abs_job d') = Some Success"
proof -
  have ok: "sys_ok fetch (C, st)" using firestore.sys_reach_inv [OF assms(1,2)] by simp
  let ?d1 = "upd_fields d (claimed_update now (now + td_seconds ls) e False)"
  define st1 where "st1 = fin_exec fetch commit ie (Op_Claim j g False ls None None now) st"
  define st2 where "st2 = fin_exec fetch commit ie (Op_Fanout_Claim j g e now) st1"
  define st3 where "st3 = fin_exec fetch commit ie (Op_Fanout_Done j g e now) st2"
  note claim = claim_call [OF assms(1) ok assms(3-6), of ie ls, folded assms(10,11), folded st1_def]
  have ok1: "sys_ok fetch (C, st1)" unfolding st1_def by (rule call_ok [OF assms(1) ok]) simp
  have ok2: "sys_ok fetch (C, st2)" unfolding st2_def by (rule call_ok [OF assms(1) ok1]) simp
  have ok3: "sys_ok fetch (C, st3)" unfolding st3_def by (rule call_ok [OF assms(1) ok2]) simp
  have "0 \<le> e" using sys_ok_job [OF ok assms(3)] by (simp add: assms(11) wf_jobD(9))
  then have l1: "holds_lease ?d1 g e" by (simp add: holds_lease_def claimed_abs assms(10))
  have "bound_conversation ?d1 = Some (u, c)"
    using assms(7) by (simp add: bound_conversation_def claimed_update_def dget_def)
  moreover have revision: "int_or ?d1 ''finalization_revision'' 0 = int_or d ''finalization_revision'' 0"
    by (simp add: int_or_def dget_def claimed_update_def)
  have "conversation_admits_fanout conv ?d1 j"
    using assms(9) unfolding conversation_admits_fanout_def revision .
  ultimately obtain d2 where "fetch st2 (job_ref j) = Some d2" "holds_lease d2 g e"
    using fanout_claim_call [OF assms(1) ok1 claim(1) l1, of u c conv ie now] claim(2) assms(8) by (auto simp: st2_def)
  with fanout_done_call [OF assms(1) ok2, of j d2 g e ie now] obtain d3 where
    "fetch st3 (job_ref j) = Some d3" "holds_lease d3 g e" "a_fanout (abs_job d3) = F_Completed"
    by (auto simp: st3_def)
  with complete_call [OF assms(1) ok3, of j d3 g e ie now] show ?thesis
    by (simp add: st3_def st2_def st1_def)
qed

text \<open>The processor has stored its result before the worker claims the job.\<close>

definition ex_processed :: mem_store where
  "ex_processed = mem_commit (ex_created False) [Update (conversation_ref ''U'' ''C'') [(''status'', Put (PStr ''completed''))]]"

theorem unfinished_job_can_complete_witness:
  "\<exists>d'. mem_fetch (foldl (\<lambda>s op. fin_exec mem_fetch mem_commit ex_env op s) ex_processed
        [Op_Claim ''J'' 1 False 60 None None 5, Op_Fanout_Claim ''J'' 1 1 5, Op_Fanout_Done ''J'' 1 1 5, Op_Complete ''J'' 1 1 5])
      (job_ref ''J'') = Some d' \<and> a_status (abs_job d') = Completed \<and> a_outcome (abs_job d') = Some Success"
proof -
  let ?d = "upd_fields Map.empty (ex_new_job False)"
  let ?conv = "upd_fields (upd_fields ex_fresh_conversation (map (\<lambda>(k, v). (k, Put v)) (ex_attached False)))
    [(''status'', Put (PStr ''completed''))]"
  have "sys_reach mem_fetch mem_commit ex_env ({}, ex_processed)"
    unfolding ex_processed_def
    by (rule sys_reach.step [OF ex_created_reach sys_step.other])
      (simp add: ex_created_reads, simp add: shard_path_def conversation_ref_def job_ref_def)
  moreover have "mem_fetch ex_processed (job_ref ''J'') = Some ?d"
    "mem_fetch ex_processed (conversation_ref ''U'' ''C'') = Some ?conv"
    by (simp_all add: ex_processed_def mem_fetch_commit ex_created_reads)
  moreover have "bound_conversation ?d = Some (''U'', ''C'')" "conversation_admits_fanout ?conv ?d ''J''"
    by (simp_all add: bound_conversation_def conversation_admits_fanout_def ex_new_job_def new_job_def dget_def int_or_def py_or_def
        ex_attached_def attached_lifecycle_def ex_fresh_conversation_def)
  moreover have "lapsed ?d 5" by (simp add: lapsed_def ex_new_job_abs ajob_init_def)
  moreover have "a_status (abs_job ?d) \<in> {Queued, Leased}" "\<not> a_byok (abs_job ?d)" "1 = a_generation (abs_job ?d)"
    "1 = a_epoch (abs_job ?d) + 1"
    unfolding ex_new_job_abs by (simp_all add: ajob_init_def)
  ultimately show ?thesis
    by (intro unfinished_job_can_complete [OF mem.firestore_axioms])
qed

end
