(* ===== verification/Orphan_Recovery.thy ===== *)
theory Orphan_Recovery
  imports Finalization_Job
begin

text \<open>
  The transactions of \<^verbatim>\<open>database/conversation_finalization_jobs.py\<close> on a conversation that
  is processed without a durable job: stamping and renewing its admission instant, closing a
  crash orphan, and the claim and release of deferred enrichment. All of them are
  compare-and-swap operations on one document.
\<close>

subsection \<open>Transactions\<close>

definition stamp_processing_admission_if_absent_txn ::
  "path \<Rightarrow> int \<Rightarrow> (path \<Rightarrow> doc option) \<Rightarrow> (bool \<times> write list) res" where
  "stamp_processing_admission_if_absent_txn ref now rd =
     (case rd ref of
        None \<Rightarrow> Inr (False, [])
      | Some data \<Rightarrow>
          if dget data ''status'' \<noteq> PStr ''processing'' then Inr (False, [])
          else if as_time (dget data ''processing_admitted_at'') \<noteq> None then Inr (False, [])
          else Inr (True, [Update ref [(''processing_admitted_at'', Put (PTime now))]]))"

text \<open>\<open>update_time\<close> is the snapshot's server-owned time of the last write, if it has one.\<close>

definition complete_unstampable_orphan_conversation_txn ::
  "path \<Rightarrow> (path \<Rightarrow> int option) \<Rightarrow> int \<Rightarrow> (path \<Rightarrow> doc option) \<Rightarrow> (bool \<times> write list) res" where
  "complete_unstampable_orphan_conversation_txn ref update_time stale_before rd =
     (case rd ref of
        None \<Rightarrow> Inr (False, [])
      | Some data \<Rightarrow>
          if dget data ''status'' \<noteq> PStr ''processing'' then Inr (False, [])
          else if truthy (dget data ''discarded'') \<or> truthy (dget data ''deferred'')
             \<or> truthy (dget data ''finalization_job_id'') then Inr (False, [])
          else if as_time (dget data ''processing_admitted_at'') \<noteq> None then Inr (False, [])
          else if (case update_time ref of None \<Rightarrow> True | Some t \<Rightarrow> t > stale_before) then Inr (False, [])
          else Inr (True, [Update ref [(''status'', Put (PStr ''completed''))]]))"

definition complete_orphan_conversation_txn ::
  "path \<Rightarrow> int option \<Rightarrow> (path \<Rightarrow> doc option) \<Rightarrow> (bool \<times> write list) res" where
  "complete_orphan_conversation_txn ref expected_admitted_at rd =
     (case rd ref of
        None \<Rightarrow> Inr (False, [])
      | Some data \<Rightarrow>
          if dget data ''status'' \<noteq> PStr ''processing'' then Inr (False, [])
          else if truthy (dget data ''discarded'') \<or> truthy (dget data ''deferred'')
             \<or> truthy (dget data ''finalization_job_id'') then Inr (False, [])
          else if as_time (dget data ''processing_admitted_at'') = None
             \<or> as_time (dget data ''processing_admitted_at'') \<noteq> expected_admitted_at then Inr (False, [])
          else Inr (True, [Update ref [(''status'', Put (PStr ''completed''))]]))"

definition renew_processing_lease_txn :: "path \<Rightarrow> int \<Rightarrow> (path \<Rightarrow> doc option) \<Rightarrow> (bool \<times> write list) res" where
  "renew_processing_lease_txn ref now rd =
     (case rd ref of
        None \<Rightarrow> Inr (False, [])
      | Some data \<Rightarrow>
          if dget data ''status'' \<noteq> PStr ''processing'' \<or> truthy (dget data ''discarded'') then Inr (False, [])
          else Inr (True, [Update ref [(''processing_admitted_at'', Put (PTime now))]]))"

definition reacquire_deferred_processing_txn :: "path \<Rightarrow> int \<Rightarrow> (path \<Rightarrow> doc option) \<Rightarrow> (bool \<times> write list) res" where
  "reacquire_deferred_processing_txn ref now rd =
     (case rd ref of
        None \<Rightarrow> Inr (False, [])
      | Some data \<Rightarrow>
          if dget data ''status'' \<notin> {PStr ''processing'', PStr ''completed''}
             \<or> truthy (dget data ''discarded'') \<or> dget data ''deferred'' \<noteq> PBool True then Inr (False, [])
          else Inr (True, [Update ref
                 [(''status'', Put (PStr ''processing'')),
                  (''deferred'', Put (PBool False)),
                  (''processing_admitted_at'', Put (PTime now))]]))"

definition recover_deferred_processing_failure_txn :: "path \<Rightarrow> (path \<Rightarrow> doc option) \<Rightarrow> (bool \<times> write list) res" where
  "recover_deferred_processing_failure_txn ref rd =
     (case rd ref of
        None \<Rightarrow> Inr (False, [])
      | Some data \<Rightarrow>
          if dget data ''status'' \<notin> {PStr ''processing'', PStr ''completed''}
             \<or> truthy (dget data ''discarded'') \<or> dget data ''deferred'' \<noteq> PBool False then Inr (False, [])
          else Inr (True, [Update ref
                 [(''status'', Put (PStr ''completed'')),
                  (''deferred'', Put (PBool True))]]))"

subsection \<open>Public entry points\<close>

definition stamp_processing_admission_if_absent where
  "stamp_processing_admission_if_absent fetch commit st uid conversation_id now =
     run_txn fetch commit (stamp_processing_admission_if_absent_txn (conversation_ref uid conversation_id) now) st"

definition complete_unstampable_orphan_conversation where
  "complete_unstampable_orphan_conversation fetch commit update_time st uid conversation_id stale_after now =
     run_txn fetch commit (complete_unstampable_orphan_conversation_txn (conversation_ref uid conversation_id)
       (update_time st) (now - stale_after)) st"

definition complete_orphan_conversation where
  "complete_orphan_conversation fetch commit st uid conversation_id expected_admitted_at =
     run_txn fetch commit (complete_orphan_conversation_txn (conversation_ref uid conversation_id) expected_admitted_at) st"

definition renew_processing_lease where
  "renew_processing_lease fetch commit st uid conversation_id now =
     run_txn fetch commit (renew_processing_lease_txn (conversation_ref uid conversation_id) now) st"

definition reacquire_deferred_processing where
  "reacquire_deferred_processing fetch commit st uid conversation_id now =
     run_txn fetch commit (reacquire_deferred_processing_txn (conversation_ref uid conversation_id) now) st"

definition recover_deferred_processing_failure where
  "recover_deferred_processing_failure fetch commit st uid conversation_id =
     run_txn fetch commit (recover_deferred_processing_failure_txn (conversation_ref uid conversation_id)) st"

lemmas recovery_txn_defs =
  stamp_processing_admission_if_absent_txn_def complete_unstampable_orphan_conversation_txn_def
  complete_orphan_conversation_txn_def renew_processing_lease_txn_def reacquire_deferred_processing_txn_def
  recover_deferred_processing_failure_txn_def

subsection \<open>The contract of a compare-and-swap on one document\<close>

text \<open>
  Such a transaction never raises. It answers \<open>True\<close> exactly when it writes, and then it has
  updated some dot-free fields of the one document, which exists; \<open>False\<close> means the document
  moved on and nothing was written.
\<close>

locale doc_cas =
  fixes ref :: path and txn :: "(path \<Rightarrow> doc option) \<Rightarrow> (bool \<times> write list) res"
  assumes answer: "txn rd = Inr (False, []) \<or>
    (\<exists>d fs. rd ref = Some d \<and> txn rd = Inr (True, [Update ref fs]) \<and> (\<forall>k \<in> fst ` set fs. CHR ''.'' \<notin> set k))"
    and frame: "rd ref = rd' ref \<Longrightarrow> txn rd = txn rd'"
begin

lemma total: "\<exists>b ws. txn rd = Inr (b, ws)"
  using answer [of rd] by auto

lemma refused_silent:
  assumes "firestore fetch commit" "run_txn fetch commit txn st = (Inr False, st')"
  shows "fetch st' = fetch st"
  using answer [of "fetch st"] assms(2) firestore.fetch_commit [OF assms(1), of st "[]"] by (auto simp: run_txn_def)

lemma granted_writes:
  assumes "firestore fetch commit" "run_txn fetch commit txn st = (Inr True, st')"
  obtains d fs where "fetch st ref = Some d" "txn (fetch st) = Inr (True, [Update ref fs])"
    "fetch st' ref = Some (upd_fields d fs)" "\<And>p. p \<noteq> ref \<Longrightarrow> fetch st' p = fetch st p"
proof -
  from assms(2) answer [of "fetch st"] obtain d fs where
    d: "fetch st ref = Some d" and t: "txn (fetch st) = Inr (True, [Update ref fs])"
    and dots: "\<forall>k \<in> fst ` set fs. CHR ''.'' \<notin> set k" and st': "st' = commit st [Update ref fs]"
    by (auto simp: run_txn_def)
  have "writes_ok (fetch st) [Update ref fs]" using d dots by simp
  then have "fetch st' p = after [Update ref fs] p (fetch st p)" for p
    unfolding st' by (rule firestore.fetch_commit [OF assms(1)])
  with d t that show thesis by auto
qed

end

interpretation stamp_cas: doc_cas ref "stamp_processing_admission_if_absent_txn ref now" for ref now
  by unfold_locales (auto simp: stamp_processing_admission_if_absent_txn_def split: option.split)

interpretation unstampable_cas: doc_cas ref "complete_unstampable_orphan_conversation_txn ref update_time stale_before"
  for ref update_time stale_before
  by unfold_locales (auto simp: complete_unstampable_orphan_conversation_txn_def split: option.split)

interpretation orphan_cas: doc_cas ref "complete_orphan_conversation_txn ref expected" for ref expected
  by unfold_locales (auto simp: complete_orphan_conversation_txn_def split: option.split)

interpretation renew_cas: doc_cas ref "renew_processing_lease_txn ref now" for ref now
  by unfold_locales (auto simp: renew_processing_lease_txn_def split: option.split)

interpretation reacquire_cas: doc_cas ref "reacquire_deferred_processing_txn ref now" for ref now
  by unfold_locales (auto simp: reacquire_deferred_processing_txn_def split: option.split)

interpretation recover_cas: doc_cas ref "recover_deferred_processing_failure_txn ref" for ref
  by unfold_locales (auto simp: recover_deferred_processing_failure_txn_def split: option.split)

subsection \<open>Interleavings on one conversation\<close>

datatype rec_op =
    R_Stamp int
  | R_Unstampable "path \<Rightarrow> int option" int
  | R_Complete "int option"
  | R_Renew int
  | R_Reacquire int
  | R_Recover

fun rec_txn :: "path \<Rightarrow> rec_op \<Rightarrow> (path \<Rightarrow> doc option) \<Rightarrow> (bool \<times> write list) res" where
  "rec_txn ref (R_Stamp now) = stamp_processing_admission_if_absent_txn ref now"
| "rec_txn ref (R_Unstampable update_time stale_before) =
     complete_unstampable_orphan_conversation_txn ref update_time stale_before"
| "rec_txn ref (R_Complete expected) = complete_orphan_conversation_txn ref expected"
| "rec_txn ref (R_Renew now) = renew_processing_lease_txn ref now"
| "rec_txn ref (R_Reacquire now) = reacquire_deferred_processing_txn ref now"
| "rec_txn ref R_Recover = recover_deferred_processing_failure_txn ref"

text \<open>A run of calls in the order their transactions commit, with the answer each caller gets.\<close>

fun rec_run :: "path \<Rightarrow> rec_op list \<Rightarrow> (path \<Rightarrow> doc option) \<Rightarrow> (rec_op \<times> bool) list \<times> (path \<Rightarrow> doc option)" where
  "rec_run ref [] rd = ([], rd)"
| "rec_run ref (op # ops) rd =
     (case rec_txn ref op rd of
        Inl e \<Rightarrow> rec_run ref ops rd
      | Inr (b, ws) \<Rightarrow>
          let (answers, rd') = rec_run ref ops (after_view ws rd) in ((op, b) # answers, rd'))"

fun reacquired :: "rec_op \<times> bool \<Rightarrow> bool" where
  "reacquired (R_Reacquire now, b) = b"
| "reacquired _ = False"

fun closed :: "rec_op \<times> bool \<Rightarrow> bool" where
  "closed (R_Complete expected, b) = b"
| "closed (R_Unstampable u t, b) = b"
| "closed _ = False"

text \<open>Whether the conversation is waiting for deferred enrichment, or is being processed.\<close>

definition armed :: "path \<Rightarrow> (path \<Rightarrow> doc option) \<Rightarrow> bool" where
  "armed ref rd = (case rd ref of None \<Rightarrow> False | Some d \<Rightarrow> dget d ''deferred'' = PBool True)"

definition processing :: "path \<Rightarrow> (path \<Rightarrow> doc option) \<Rightarrow> bool" where
  "processing ref rd = (case rd ref of None \<Rightarrow> False | Some d \<Rightarrow> dget d ''status'' = PStr ''processing'')"

lemma rec_txn_deferred:
  assumes "rec_txn ref op rd = Inr (b, ws)"
  shows "reacquired (op, b) \<Longrightarrow> armed ref rd \<and> \<not> armed ref (after_view ws rd)"
    and "(op, b) \<noteq> (R_Recover, True) \<Longrightarrow> \<not> armed ref rd \<Longrightarrow> \<not> armed ref (after_view ws rd)"
  using assms
  by (cases op; auto simp: recovery_txn_defs armed_def after_view_def dget_def split: option.split_asm if_split_asm)+

lemma rec_txn_status:
  assumes "rec_txn ref op rd = Inr (b, ws)"
  shows "closed (op, b) \<Longrightarrow> processing ref rd \<and> \<not> processing ref (after_view ws rd)"
    and "\<not> reacquired (op, b) \<Longrightarrow> \<not> processing ref rd \<Longrightarrow> \<not> processing ref (after_view ws rd)"
  using assms
  by (cases op; auto simp: recovery_txn_defs processing_def after_view_def dget_def split: option.split_asm if_split_asm)+

lemma rec_txn_total: "\<exists>b ws. rec_txn ref op rd = Inr (b, ws)"
  by (cases op) (simp_all add: stamp_cas.total unstampable_cas.total orphan_cas.total renew_cas.total
      reacquire_cas.total recover_cas.total)

lemma rec_run_Cons:
  assumes "rec_run ref (op # ops) rd = (answers, rd')"
  obtains b ws rest where "rec_txn ref op rd = Inr (b, ws)" "rec_run ref ops (after_view ws rd) = (rest, rd')"
    "answers = (op, b) # rest"
proof -
  obtain b ws where "rec_txn ref op rd = Inr (b, ws)" using rec_txn_total by blast
  with assms that show thesis by (auto simp: Let_def split: prod.splits)
qed

lemma rec_run_disarmed:
  "rec_run ref ops rd = (answers, rd') \<Longrightarrow> (R_Recover, True) \<notin> set answers \<Longrightarrow> \<not> armed ref rd \<Longrightarrow>
   filter reacquired answers = []"
proof (induction ops arbitrary: rd answers)
  case (Cons op ops)
  from Cons.prems(1) obtain b ws rest where
    t: "rec_txn ref op rd = Inr (b, ws)" and r: "rec_run ref ops (after_view ws rd) = (rest, rd')"
    and a: "answers = (op, b) # rest" by (rule rec_run_Cons)
  have ne: "(op, b) \<noteq> (R_Recover, True)" and nr: "(R_Recover, True) \<notin> set rest"
    using Cons.prems(2) unfolding a by (simp_all only: list.set insert_iff) blast+
  have "\<not> armed ref (after_view ws rd)" by (rule rec_txn_deferred(2) [OF t ne Cons.prems(3)])
  moreover have "\<not> reacquired (op, b)" using rec_txn_deferred(1) [OF t] Cons.prems(3) by blast
  ultimately show ?case using Cons.IH [OF r nr] a by simp
qed simp

lemma rec_run_reacquired_once:
  "rec_run ref ops rd = (answers, rd') \<Longrightarrow> (R_Recover, True) \<notin> set answers \<Longrightarrow> length (filter reacquired answers) \<le> 1"
proof (induction ops arbitrary: rd answers)
  case (Cons op ops)
  from Cons.prems(1) obtain b ws rest where
    t: "rec_txn ref op rd = Inr (b, ws)" and r: "rec_run ref ops (after_view ws rd) = (rest, rd')"
    and a: "answers = (op, b) # rest" by (rule rec_run_Cons)
  have nr: "(R_Recover, True) \<notin> set rest" using Cons.prems(2) a by simp
  show ?case
  proof (cases "reacquired (op, b)")
    case True
    then have "\<not> armed ref (after_view ws rd)" using rec_txn_deferred(1) [OF t] by blast
    with rec_run_disarmed [OF r nr] True a show ?thesis by simp
  next
    case False
    with Cons.IH [OF r nr] a show ?thesis by simp
  qed
qed simp

lemma rec_run_not_processing:
  "rec_run ref ops rd = (answers, rd') \<Longrightarrow> filter reacquired answers = [] \<Longrightarrow> \<not> processing ref rd \<Longrightarrow>
   filter closed answers = []"
proof (induction ops arbitrary: rd answers)
  case (Cons op ops)
  from Cons.prems(1) obtain b ws rest where
    t: "rec_txn ref op rd = Inr (b, ws)" and r: "rec_run ref ops (after_view ws rd) = (rest, rd')"
    and a: "answers = (op, b) # rest" by (rule rec_run_Cons)
  have nr: "\<not> reacquired (op, b)" "filter reacquired rest = []" using Cons.prems(2) a by (simp_all split: if_split_asm)
  have "\<not> processing ref (after_view ws rd)" by (rule rec_txn_status(2) [OF t nr(1) Cons.prems(3)])
  moreover have "\<not> closed (op, b)" using rec_txn_status(1) [OF t] Cons.prems(3) by blast
  ultimately show ?case using Cons.IH [OF r nr(2)] a by simp
qed simp

lemma rec_run_closed_once:
  "rec_run ref ops rd = (answers, rd') \<Longrightarrow> filter reacquired answers = [] \<Longrightarrow> length (filter closed answers) \<le> 1"
proof (induction ops arbitrary: rd answers)
  case (Cons op ops)
  from Cons.prems(1) obtain b ws rest where
    t: "rec_txn ref op rd = Inr (b, ws)" and r: "rec_run ref ops (after_view ws rd) = (rest, rd')"
    and a: "answers = (op, b) # rest" by (rule rec_run_Cons)
  have nr: "filter reacquired rest = []" using Cons.prems(2) a by (simp split: if_split_asm)
  show ?case
  proof (cases "closed (op, b)")
    case True
    then have "\<not> processing ref (after_view ws rd)" using rec_txn_status(1) [OF t] by blast
    with rec_run_not_processing [OF r nr] True a show ?thesis by simp
  next
    case False
    with Cons.IH [OF r nr] a show ?thesis by simp
  qed
qed simp

subsection \<open>Properties\<close>

text \<open>
  A live processor wins against the sweep: once it has renewed its admission, a sweep that
  saw an earlier admission instant can no longer close the conversation.
\<close>

lemma renewal_fences_orphan_completion:
  assumes "renew_processing_lease_txn ref now rd = Inr (True, ws)" "seen \<noteq> now"
  shows "complete_orphan_conversation_txn ref (Some seen) (after_view ws rd) = Inr (False, [])"
  using assms
  by (auto simp: renew_processing_lease_txn_def complete_orphan_conversation_txn_def after_view_def dget_def
      split: option.splits if_split_asm)

text \<open>
  Deferred enrichment is claimed by one worker: in any sequence of recovery calls on a
  conversation, as their transactions commit, the claim is granted at most once unless a
  failure in between armed it again.
\<close>

lemma deferred_claimed_once:
  assumes "rec_run ref ops rd = (answers, rd')" "(R_Recover, True) \<notin> set answers"
  shows "length (filter reacquired answers) \<le> 1"
  using assms by (rule rec_run_reacquired_once)

text \<open>
  A stranded conversation is closed at most once: in any sequence of recovery calls that
  does not reopen it for enrichment, at most one of the two closing calls succeeds.
\<close>

lemma orphan_closed_once:
  assumes "rec_run ref ops rd = (answers, rd')" "filter reacquired answers = []"
  shows "length (filter closed answers) \<le> 1"
  using assms by (rule rec_run_closed_once)

end
