(* ===== verification/Conversation_Status.thy ===== *)
theory Conversation_Status
  imports Projection_Binding Orphan_Recovery
begin

text \<open>
  The storage primitives of \<^verbatim>\<open>database/conversations.py\<close> that write a conversation's
  life-cycle fields: the compare-and-swap on its status, discarding and restoring, creation,
  and the merge of a processor's result. Refreshing the search index after a write is left
  out: it fails open and never changes the document.
\<close>

definition is_soft_deleted :: "doc \<Rightarrow> bool" where
  "is_soft_deleted conversation = truthy (dget conversation ''deleted'')"

subsection \<open>Status\<close>

text \<open>A plain update, which the service refuses for a missing document.\<close>

definition transition_conversation_status_txn ::
  "path \<Rightarrow> string \<Rightarrow> (path \<Rightarrow> doc option) \<Rightarrow> (unit \<times> write list) res" where
  "transition_conversation_status_txn ref status rd =
     (if rd ref = None then Inl NotFound else Inr ((), [Update ref [(''status'', Put (PStr status))]]))"

definition claim_conversation_status_txn ::
  "transcript_env \<Rightarrow> string \<Rightarrow> path \<Rightarrow> string \<Rightarrow> string \<Rightarrow> dict \<Rightarrow> (path \<Rightarrow> doc option) \<Rightarrow> (bool \<times> write list) res" where
  "claim_conversation_status_txn te uid ref expected_status claimed_status extra_updates rd =
     (case rd ref of
        None \<Rightarrow> Inl NotFound
      | Some current \<Rightarrow>
          if truthy (dget current ''discarded'') \<or> dget current ''status'' \<noteq> PStr expected_status
          then Inr (False, [])
          else res_bind
            (if extra_updates = [] then Inr []
             else extra_updates_with_bound_client_processing te uid current (Some extra_updates))
            (\<lambda>extra. Inr (True, [Update ref (put_all (dict_update [(''status'', PStr claimed_status)] extra))])))"

subsection \<open>Visibility\<close>

definition set_conversation_as_discarded_txn :: "path \<Rightarrow> (path \<Rightarrow> doc option) \<Rightarrow> (unit \<times> write list) res" where
  "set_conversation_as_discarded_txn ref rd =
     (if rd ref = None then Inl NotFound
      else Inr ((), [Update ref [(''discarded'', Put (PBool True)), (''sync_relevance_user_kept'', Put (PBool False))]]))"

definition discard_by_relevance_txn :: "path \<Rightarrow> pyval \<Rightarrow> (path \<Rightarrow> doc option) \<Rightarrow> (bool \<times> write list) res" where
  "discard_by_relevance_txn ref relevance_decision rd =
     (case rd ref of
        None \<Rightarrow> Inr (False, [])
      | Some current \<Rightarrow>
          if is_soft_deleted current \<or> truthy (dget current ''discarded'')
             \<or> truthy (dget current ''sync_relevance_user_kept'') then Inr (False, [])
          else Inr (True, [Update ref [(''discarded'', Put (PBool True)),
                                       (''relevance_decision'', Put relevance_decision)]]))"

definition jev_discarded :: "doc \<Rightarrow> bool" where
  "jev_discarded current \<longleftrightarrow>
     truthy (dget current ''discarded'') \<and>
     (case dget current ''relevance_decision'' of
        PDict kvs \<Rightarrow> map_of kvs ''verdict'' = Some (PStr ''discard'') \<and> map_of kvs ''decided_by'' = Some (PStr ''jev'')
      | _ \<Rightarrow> False)"

definition restore_conversation_from_discarded_txn :: "path \<Rightarrow> (path \<Rightarrow> doc option) \<Rightarrow> (bool \<times> write list) res" where
  "restore_conversation_from_discarded_txn ref rd =
     (case rd ref of
        None \<Rightarrow> Inr (False, [])
      | Some current \<Rightarrow>
          if is_soft_deleted current then Inr (False, [])
          else Inr (True, [Update ref
            ([(''discarded'', Put (PBool False)), (''sync_relevance_user_kept'', Put (PBool True))]
             @ (if dget current ''sync_relevance'' = PStr ''review''
                then [(''sync_relevance'', Put (PStr ''keep''))] else [])
             @ (if jev_discarded current then [(''jev_discard_restored'', Put (PBool True))] else []))]))"

subsection \<open>Creation\<close>

definition dict_pop :: "string \<Rightarrow> dict \<Rightarrow> dict" where
  "dict_pop k d = filter (\<lambda>(k', v). k' \<noteq> k) d"

text \<open>The keys no writer may persist: derived metadata, inline audio and the photo list.\<close>

definition strip_unowned :: "dict \<Rightarrow> dict" where
  "strip_unowned data = dict_pop ''photos'' (dict_pop ''audio_base64_url'' (dict_pop ''updated_at'' data))"

definition create_conversation_if_absent_with_lifecycle_txn ::
  "path \<Rightarrow> dict \<Rightarrow> (path \<Rightarrow> doc option) \<Rightarrow> (bool \<times> write list) res" where
  "create_conversation_if_absent_with_lifecycle_txn ref conversation_data rd =
     (if rd ref \<noteq> None then Inr (False, [])
      else Inr (True, [Create ref
             (put_all (dict_setdefault (strip_unowned conversation_data) ''has_photos'' (PBool False)))]))"

subsection \<open>Merging a processor's result\<close>

text \<open>
  What the merge takes from elsewhere: decoding of the speaker receipt and of the segments,
  applying one to the other, and the encryption and compression of stored fields.
\<close>

record persist_env =
  pe_transcripts :: transcript_env
  decode_receipt :: "string \<Rightarrow> pyval \<Rightarrow> bool \<Rightarrow> pyval res"
  apply_manual_assignments :: "pyval list \<Rightarrow> pyval \<Rightarrow> pyval"
  prepare_for_write :: "dict \<Rightarrow> string \<Rightarrow> pyval \<Rightarrow> dict res"

definition reapply_current_manual_assignments :: "persist_env \<Rightarrow> string \<Rightarrow> dict \<Rightarrow> doc \<Rightarrow> dict res" where
  "reapply_current_manual_assignments pe uid write_data0 existing =
     (let write_data = dict_pop ''manual_speaker_assignments_compressed''
            (dict_pop ''manual_speaker_assignments'' write_data0) in
      case map_of write_data ''transcript_segments'' of
        None \<Rightarrow> Inr write_data
      | Some raw \<Rightarrow>
          let level = py_or (dget existing ''data_protection_level'')
                (py_or (dict_get write_data ''data_protection_level'') (PStr ''standard''))
          in res_bind (decode_receipt pe uid (dget existing ''manual_speaker_assignments'')
                 (truthy (dget existing ''manual_speaker_assignments_compressed''))) (\<lambda>receipt.
             res_bind (decode_segments (pe_transcripts pe) uid raw
                 (truthy (dict_get write_data ''transcript_segments_compressed''))) (\<lambda>segments.
             res_bind (prepare_for_write pe
                 [(''transcript_segments'', apply_manual_assignments pe segments receipt),
                  (''manual_speaker_assignments'', receipt)] uid level) (\<lambda>prepared.
             Inr (dict_update (dict_update write_data prepared) [(''data_protection_level'', level)])))))"

text \<open>The user-owned fields the stored row keeps, whatever the processor produced.\<close>

definition keep_user_fields :: "doc \<Rightarrow> dict \<Rightarrow> dict" where
  "keep_user_fields existing write_data =
     (let kept = dict_update write_data
            (map (\<lambda>k. (k, dget existing k))
               (filter (\<lambda>k. dget existing k \<noteq> PNone) [''starred'', ''folder_id'', ''visibility'', ''user_title'']));
          foldered = (if truthy (dget existing ''folder_user_set'')
                      then dict_update kept [(''folder_id'', dget existing ''folder_id'')] else kept)
      in case as_str (dget existing ''user_title'') of
           None \<Rightarrow> foldered
         | Some t \<Rightarrow>
             dict_update foldered
               [(''structured'',
                 PDict (dict_update (case dict_get foldered ''structured'' of PDict kvs \<Rightarrow> kvs | _ \<Rightarrow> [])
                          [(''title'', PStr t)]))])"

definition restore_user_kept :: "doc \<Rightarrow> dict \<Rightarrow> dict" where
  "restore_user_kept existing write_data =
     (if truthy (dget existing ''sync_relevance_user_kept'')
      then dict_update write_data
             [(''sync_relevance_user_kept'', PBool True), (''discarded'', PBool False),
              (''sync_relevance'', PStr ''keep'')]
      else write_data)"

record persist_result =
  persisted :: bool
  stale_sync_revision :: bool
  first_completed :: bool

definition persist_processing_result_txn ::
  "persist_env \<Rightarrow> string \<Rightarrow> path \<Rightarrow> dict \<Rightarrow> (path \<Rightarrow> doc option) \<Rightarrow> (persist_result \<times> write list) res" where
  "persist_processing_result_txn pe uid ref conversation_data rd =
     (let write_data = dict_pop ''capture_group'' (strip_unowned conversation_data);
          refused = (\<lambda>stale. Inr (\<lparr>persisted = False, stale_sync_revision = stale, first_completed = False\<rparr>, []))
      in case rd ref of
        None \<Rightarrow> refused False
      | Some existing \<Rightarrow>
          if is_soft_deleted existing then refused False
          else if dget existing ''sync_content_revision'' \<noteq> PNone
             \<and> \<not> py_eq (dict_get write_data ''sync_content_revision'') (dget existing ''sync_content_revision'')
          then refused True
          else res_bind (reapply_current_manual_assignments pe uid
                 (keep_user_fields existing (restore_user_kept existing write_data)) existing) (\<lambda>data.
            Inr (\<lparr>persisted = True, stale_sync_revision = False,
                  first_completed = (dget existing ''status'' \<noteq> PStr ''completed''
                                     \<and> dict_get data ''status'' = PStr ''completed'')\<rparr>,
                 [SetMerge ref (put_all data)])))"

definition upsert_conversation_with_lifecycle_txn ::
  "persist_env \<Rightarrow> string \<Rightarrow> path \<Rightarrow> dict \<Rightarrow> (path \<Rightarrow> doc option) \<Rightarrow> (unit \<times> write list) res" where
  "upsert_conversation_with_lifecycle_txn pe uid ref conversation_data rd =
     (let write_data = dict_pop ''capture_group'' (strip_unowned conversation_data) in
      case rd ref of
        Some existing \<Rightarrow>
          res_bind (reapply_current_manual_assignments pe uid (keep_user_fields existing write_data) existing) (\<lambda>data.
            Inr ((), [SetMerge ref (put_all data)]))
      | None \<Rightarrow> Inr ((), [SetDoc ref (put_all (dict_setdefault write_data ''has_photos'' (PBool False)))]))"

subsection \<open>Properties\<close>

text \<open>
  The compare-and-swap on the status has one winner: of two claims that expect the same
  status, made by any two workers for any targets, at most one succeeds, provided the first
  target differs from the expected status and the caller's extra fields leave the status alone.
\<close>

lemma status_claim_one_winner:
  assumes "claim_conversation_status_txn te uid ref expected claimed extra rd = Inr (True, ws)"
    and "claimed \<noteq> expected" "map_of extra ''status'' = None"
    and "claim_conversation_status_txn te uid' ref expected claimed' extra' (after_view ws rd) = Inr (b, ws')"
  shows "\<not> b \<and> ws' = []"
proof -
  obtain c bound where c: "rd ref = Some c"
    and b: "(if extra = [] then Inr [] else extra_updates_with_bound_client_processing te uid c (Some extra)) = Inr bound"
    and ws: "ws = [Update ref (put_all (dict_update [(''status'', PStr claimed)] bound))]"
    using assms(1) by (auto simp: claim_conversation_status_txn_def split: option.splits if_split_asm)
  have "set bound \<subseteq> set extra" using b bound_subset by (cases "extra = []") auto
  then have "map_of bound ''status'' = None" using assms(3) by (auto simp: map_of_eq_None_iff)
  then have "dget (upd_fields c (put_all (dict_update [(''status'', PStr claimed)] bound))) ''status'' = PStr claimed"
    by (simp add: dget_def upd_put_all)
  then show ?thesis
    using assms(2,4) by (simp add: claim_conversation_status_txn_def ws after_view_def c)
qed

text \<open>
  A user's restore beats the relevance verdict: after a restore, a discard by relevance is
  refused, until the user discards the conversation again.
\<close>

lemma restore_beats_relevance:
  assumes "restore_conversation_from_discarded_txn ref rd = Inr (True, ws)"
  shows "discard_by_relevance_txn ref verdict (after_view ws rd) = Inr (False, [])
    \<and> (\<exists>c. after_view ws rd ref = Some c \<and> c ''discarded'' = Some (PBool False))"
proof -
  from assms obtain c where c: "rd ref = Some c"
    by (auto simp: restore_conversation_from_discarded_txn_def split: option.splits)
  have "\<exists>fs. ws = [Update ref ([(''discarded'', Put (PBool False)), (''sync_relevance_user_kept'', Put (PBool True))] @ fs)]"
    using assms c by (cases "is_soft_deleted c") (auto simp: restore_conversation_from_discarded_txn_def)
  then obtain fs where ws: "ws = [Update ref ([(''discarded'', Put (PBool False)), (''sync_relevance_user_kept'', Put (PBool True))] @ fs)]"
    by blast
  define c' where "c' = upd_fields c ([(''discarded'', Put (PBool False)), (''sync_relevance_user_kept'', Put (PBool True))] @ fs)"
  have "after_view ws rd ref = Some c'" by (simp add: ws after_view_def c c'_def)
  moreover have "c' ''discarded'' = Some (PBool False)" "c' ''sync_relevance_user_kept'' = Some (PBool True)"
    by (simp_all add: c'_def)
  ultimately show ?thesis by (simp add: discard_by_relevance_txn_def dget_def)
qed

subsection \<open>The merge of a processor's result\<close>

definition USER_FIELDS :: "string list" where
  "USER_FIELDS = [''starred'', ''folder_id'', ''visibility'', ''user_title'']"

text \<open>What the merge relies on the field encoder for: it adds no user-owned or visibility field.\<close>

definition encoder_ok :: "persist_env \<Rightarrow> bool" where
  "encoder_ok pe \<longleftrightarrow> (\<forall>d u l p k. prepare_for_write pe d u l = Inr p \<longrightarrow> map_of d k = None \<longrightarrow>
     k \<in> set (''discarded'' # USER_FIELDS) \<longrightarrow> map_of p k = None)"

lemma map_of_dict_pop: "map_of (dict_pop k d) k' = (if k' = k then None else map_of d k')"
  unfolding dict_pop_def by (induction d) auto

lemma reapply_lookup:
  assumes "reapply_current_manual_assignments pe uid wd existing = Inr data" "encoder_ok pe" "k \<in> set (''discarded'' # USER_FIELDS)"
  shows "map_of data k = map_of wd k"
proof -
  have k: "k \<noteq> ''manual_speaker_assignments''" "k \<noteq> ''manual_speaker_assignments_compressed''" "k \<noteq> ''transcript_segments''"
    "k \<noteq> ''data_protection_level''" using assms(3) by (auto simp: USER_FIELDS_def)
  have p: "map_of p k = None" if "prepare_for_write pe [(''transcript_segments'', a), (''manual_speaker_assignments'', b)] u l = Inr p"
    for a b u l p
  proof -
    have "map_of [(''transcript_segments'', a), (''manual_speaker_assignments'', b)] k = None" using k by simp
    with assms(2,3) that show ?thesis unfolding encoder_ok_def by blast
  qed
  show ?thesis
    using assms(1) k p
    by (auto simp: reapply_current_manual_assignments_def Let_def map_of_dict_pop split: option.splits)
qed

lemma map_of_tabulate:
  "map_of (dict_update wd (map (\<lambda>k. (k, f k)) (filter P ks))) k = (if k \<in> set ks \<and> P k then Some (f k) else map_of wd k)"
proof -
  have "map_of (map (\<lambda>k. (k, f k)) (filter P ks)) k = (if k \<in> set ks \<and> P k then Some (f k) else None)"
    by (induction ks) auto
  then show ?thesis by simp
qed

lemma keep_unfold:
  obtains kept where "\<And>k. map_of kept k = (if k \<in> set USER_FIELDS \<and> dget existing k \<noteq> PNone then Some (dget existing k) else map_of wd k)"
    and "\<And>k. k \<noteq> ''structured'' \<Longrightarrow> map_of (keep_user_fields existing wd) k =
      (if k = ''folder_id'' \<and> truthy (dget existing ''folder_user_set'') then Some (dget existing ''folder_id'') else map_of kept k)"
proof -
  define kept where "kept = dict_update wd (map (\<lambda>k. (k, dget existing k)) (filter (\<lambda>k. dget existing k \<noteq> PNone) USER_FIELDS))"
  have keep: "keep_user_fields existing wd =
      (let foldered = (if truthy (dget existing ''folder_user_set'')
                       then dict_update kept [(''folder_id'', dget existing ''folder_id'')] else kept)
       in case as_str (dget existing ''user_title'') of None \<Rightarrow> foldered
        | Some t \<Rightarrow> dict_update foldered [(''structured'',
            PDict (dict_update (case dict_get foldered ''structured'' of PDict kvs \<Rightarrow> kvs | _ \<Rightarrow> []) [(''title'', PStr t)]))])"
    unfolding keep_user_fields_def kept_def USER_FIELDS_def Let_def by (rule refl)
  show thesis
  proof (rule that)
    show "map_of kept k = (if k \<in> set USER_FIELDS \<and> dget existing k \<noteq> PNone then Some (dget existing k) else map_of wd k)" for k
      unfolding kept_def by (rule map_of_tabulate)
    show "map_of (keep_user_fields existing wd) k =
      (if k = ''folder_id'' \<and> truthy (dget existing ''folder_user_set'') then Some (dget existing ''folder_id'') else map_of kept k)"
      if "k \<noteq> ''structured''" for k
      using that unfolding keep Let_def by (simp split: option.split)
  qed
qed

lemma keep_lookup:
  assumes "k \<in> set USER_FIELDS" "dget existing k \<noteq> PNone"
  shows "map_of (keep_user_fields existing wd) k = Some (dget existing k)"
  using assms by (rule_tac keep_unfold [of existing wd]) (auto simp: USER_FIELDS_def)

lemma keep_discarded: "map_of (keep_user_fields existing wd) ''discarded'' = map_of wd ''discarded''"
  by (rule keep_unfold [of existing wd]) (simp add: USER_FIELDS_def)

text \<open>
  A processor's result never undoes what the user did: it is refused for a conversation
  that is missing or deleted; otherwise the stored star, folder, visibility and title of the
  user survive the merge, and a conversation the user chose to keep stays visible.
\<close>

lemma processing_result_keeps_user_choices:
  assumes "persist_processing_result_txn pe uid ref data rd = Inr (r, ws)" "encoder_ok pe"
  shows "(persisted r \<longrightarrow> (\<exists>old new. rd ref = Some old \<and> \<not> is_soft_deleted old \<and> after_view ws rd ref = Some new
      \<and> (\<forall>k \<in> set USER_FIELDS. dget old k \<noteq> PNone \<longrightarrow> new k = Some (dget old k))
      \<and> (truthy (dget old ''sync_relevance_user_kept'') \<longrightarrow> new ''discarded'' = Some (PBool False))))
    \<and> (\<not> persisted r \<longrightarrow> ws = [])"
proof (cases "persisted r")
  case True
  define wd where "wd = dict_pop ''capture_group'' (strip_unowned data)"
  from assms(1) True obtain old out where old: "rd ref = Some old" "\<not> is_soft_deleted old"
    and out: "reapply_current_manual_assignments pe uid (keep_user_fields old (restore_user_kept old wd)) old = Inr out"
    and ws: "ws = [SetMerge ref (put_all out)]"
    unfolding wd_def by (auto simp: persist_processing_result_txn_def Let_def split: option.splits if_split_asm)
  have new: "after_view ws rd ref = Some (upd_fields old (put_all out))" by (simp add: ws after_view_def old)
  have "upd_fields old (put_all out) k = Some (dget old k)" if "k \<in> set USER_FIELDS" "dget old k \<noteq> PNone" for k
    using reapply_lookup [OF out assms(2)] keep_lookup [OF that] that(1) by (simp add: upd_put_all)
  moreover have "upd_fields old (put_all out) ''discarded'' = Some (PBool False)"
    if "truthy (dget old ''sync_relevance_user_kept'')"
    using reapply_lookup [OF out assms(2), of "''discarded''"] that
    by (simp add: upd_put_all keep_discarded restore_user_kept_def)
  ultimately show ?thesis using True old new by blast
next
  case False
  with assms(1) show ?thesis
    by (auto simp: persist_processing_result_txn_def Let_def split: option.splits if_split_asm)
qed

definition plain_encoder :: persist_env where
  "plain_encoder =
     \<lparr>pe_transcripts = plain_transcripts, decode_receipt = (\<lambda>uid v c. Inr v), apply_manual_assignments = (\<lambda>segs r. PList segs),
      prepare_for_write = (\<lambda>d uid level. Inr d)\<rparr>"

end
