(* ===== verification/Recording_Session.thy ===== *)
theory Recording_Session
  imports Conversation_Status
begin

text \<open>
  \<^verbatim>\<open>database/recording_sessions.py\<close>: the durable binding of a recording session to one
  conversation, the ordered life-cycle envelopes of the session, and the deletion of an empty
  conversation together with the tombstone of its session.
\<close>

subsection \<open>Data\<close>

definition LIFECYCLE_ENVELOPE_VERSION :: int where
  "LIFECYCLE_ENVELOPE_VERSION = 1"

definition RECORDING_SESSION_SCHEMA_VERSION :: int where
  "RECORDING_SESSION_SCHEMA_VERSION = 1"

definition PHASE_ORDER :: "(string \<times> int) list" where
  "PHASE_ORDER = [(''in_progress'', 0), (''processing'', 1), (''completed'', 2), (''failed'', 2), (''discarded'', 2)]"

definition TERMINAL_SESSION_PHASES :: "string list" where
  "TERMINAL_SESSION_PHASES = [''completed'', ''failed'', ''discarded'']"

record session_binding =
  b_session :: string
  b_conversation :: string
  b_version :: int
  b_phase :: string
  b_sequence :: int
  b_conflict :: bool

record session_event =
  e_conversation :: string
  e_version :: int
  e_phase :: string
  e_sequence :: int
  e_accepted :: bool
  e_discard_reason :: "string option"

definition session_ref :: "string \<Rightarrow> string \<Rightarrow> path" where
  "session_ref uid recording_session_id = [''users'', uid, ''recording_sessions'', recording_session_id]"

text \<open>\<open>data['conversation_id']\<close> raises when the field is absent.\<close>

definition binding :: "doc \<Rightarrow> string \<Rightarrow> bool \<Rightarrow> session_binding res" where
  "binding data recording_session_id conflict =
     (case data ''conversation_id'' of
        None \<Rightarrow> Inl KeyError
      | Some cid \<Rightarrow>
          res_bind (int_or data ''lifecycle_version'' LIFECYCLE_ENVELOPE_VERSION) (\<lambda>version.
          res_bind (int_or data ''lifecycle_sequence'' 0) (\<lambda>sequence.
            Inr \<lparr>b_session = recording_session_id, b_conversation = py_str cid, b_version = version,
                 b_phase = str_or data ''lifecycle_phase'' ''in_progress'', b_sequence = sequence,
                 b_conflict = conflict\<rparr>)))"

subsection \<open>Binding a session\<close>

definition new_session :: "string \<Rightarrow> string \<Rightarrow> string \<Rightarrow> int \<Rightarrow> fields" where
  "new_session uid recording_session_id conversation_id now =
     [(''schema_version'', Put (PInt RECORDING_SESSION_SCHEMA_VERSION)),
      (''uid'', Put (PStr uid)),
      (''recording_session_id'', Put (PStr recording_session_id)),
      (''conversation_id'', Put (PStr conversation_id)),
      (''lifecycle_version'', Put (PInt LIFECYCLE_ENVELOPE_VERSION)),
      (''lifecycle_phase'', Put (PStr ''in_progress'')),
      (''lifecycle_sequence'', Put (PInt 0)),
      (''created_at'', Put (PTime now)),
      (''updated_at'', Put (PTime now))]"

definition create_or_get_recording_session_txn ::
  "string \<Rightarrow> string \<Rightarrow> string \<Rightarrow> int \<Rightarrow> (path \<Rightarrow> doc option) \<Rightarrow> (session_binding \<times> write list) res" where
  "create_or_get_recording_session_txn uid recording_session_id proposed_conversation_id now rd =
     (case rd (session_ref uid recording_session_id) of
        Some current \<Rightarrow>
          if dget current ''uid'' \<noteq> PStr uid \<or> dget current ''recording_session_id'' \<noteq> PStr recording_session_id
          then Inl ValueError
          else res_bind (binding current recording_session_id
                 (dget current ''conversation_id'' \<noteq> PStr proposed_conversation_id)) (\<lambda>b. Inr (b, []))
      | None \<Rightarrow>
          let session = new_session uid recording_session_id proposed_conversation_id now in
          res_bind (binding (upd_fields Map.empty session) recording_session_id False) (\<lambda>b.
            Inr (b, [Create (session_ref uid recording_session_id) session])))"

definition create_or_get_recording_session where
  "create_or_get_recording_session fetch commit st uid recording_session_id proposed_conversation_id now =
     (if uid = [] \<or> recording_session_id = [] \<or> proposed_conversation_id = [] then (Inl ValueError, st)
      else run_txn fetch commit
             (create_or_get_recording_session_txn uid recording_session_id proposed_conversation_id now) st)"

definition get_recording_session :: "string \<Rightarrow> string \<Rightarrow> (path \<Rightarrow> doc option) \<Rightarrow> session_binding option res" where
  "get_recording_session uid recording_session_id rd =
     (if uid = [] \<or> recording_session_id = [] then Inl ValueError
      else case rd (session_ref uid recording_session_id) of
        None \<Rightarrow> Inr None
      | Some data \<Rightarrow>
          if dget data ''uid'' \<noteq> PStr uid \<or> dget data ''recording_session_id'' \<noteq> PStr recording_session_id
          then Inl ValueError
          else res_bind (binding data recording_session_id False) (\<lambda>b. Inr (Some b)))"

subsection \<open>Life-cycle envelopes\<close>

text \<open>\<open>_PHASE_ORDER.get(current_phase, -1)\<close>.\<close>

definition phase_rank :: "string \<Rightarrow> int" where
  "phase_rank phase = (case map_of PHASE_ORDER phase of None \<Rightarrow> -1 | Some n \<Rightarrow> n)"

definition event_update :: "string \<Rightarrow> int \<Rightarrow> int \<Rightarrow> fields" where
  "event_update phase sequence now =
     [(''lifecycle_phase'', Put (PStr phase)),
      (''lifecycle_sequence'', Put (PInt sequence)),
      (''updated_at'', Put (PTime now))]"

definition record_lifecycle_event_txn ::
  "path \<Rightarrow> string \<Rightarrow> string \<Rightarrow> int \<Rightarrow> (path \<Rightarrow> doc option) \<Rightarrow> (session_event \<times> write list) res" where
  "record_lifecycle_event_txn ref conversation_id phase now rd =
     (case rd ref of
        None \<Rightarrow> Inr (\<lparr>e_conversation = conversation_id, e_version = LIFECYCLE_ENVELOPE_VERSION, e_phase = phase,
                      e_sequence = 0, e_accepted = False, e_discard_reason = Some ''missing_session''\<rparr>, [])
      | Some current \<Rightarrow>
          let bound = str_or current ''conversation_id'' [] in
          res_bind (int_or current ''lifecycle_version'' LIFECYCLE_ENVELOPE_VERSION) (\<lambda>version.
          res_bind (int_or current ''lifecycle_sequence'' 0) (\<lambda>sequence.
            let current_phase = str_or current ''lifecycle_phase'' ''in_progress'';
                same = (\<lambda>accepted reason. Inr (\<lparr>e_conversation = bound, e_version = version, e_phase = current_phase,
                          e_sequence = sequence, e_accepted = accepted, e_discard_reason = reason\<rparr>, []))
            in
            if bound \<noteq> conversation_id then same False (Some ''mapping_conflict'')
            else if current_phase \<in> set TERMINAL_SESSION_PHASES \<and> phase \<noteq> current_phase
            then same False (Some ''terminal_immutable'')
            else if phase_rank phase < phase_rank current_phase then same False (Some ''stale_event'')
            else if phase = current_phase then same True None
            else Inr (\<lparr>e_conversation = bound, e_version = version, e_phase = phase, e_sequence = sequence + 1,
                       e_accepted = True, e_discard_reason = None\<rparr>,
                      [Update ref (event_update phase (sequence + 1) now)]))))"

definition record_lifecycle_event where
  "record_lifecycle_event fetch commit st uid recording_session_id conversation_id phase now =
     (if map_of PHASE_ORDER phase = None then (Inl ValueError, st)
      else run_txn fetch commit
             (record_lifecycle_event_txn (session_ref uid recording_session_id) conversation_id phase now) st)"

subsection \<open>Deleting an empty conversation\<close>

text \<open>The session that is still bound to the conversation is terminalized by the same transaction.\<close>

definition tombstone_session_writes ::
  "string \<Rightarrow> string \<Rightarrow> string option \<Rightarrow> int \<Rightarrow> (path \<Rightarrow> doc option) \<Rightarrow> write list res" where
  "tombstone_session_writes uid conversation_id recording_session_id now rd =
     (case recording_session_id of
        None \<Rightarrow> Inr []
      | Some sid \<Rightarrow>
          if sid = [] then Inr []
          else (case rd (session_ref uid sid) of
                  None \<Rightarrow> Inr []
                | Some session \<Rightarrow>
                    if dget session ''uid'' = PStr uid \<and> dget session ''recording_session_id'' = PStr sid
                       \<and> dget session ''conversation_id'' = PStr conversation_id
                       \<and> str_or session ''lifecycle_phase'' ''in_progress'' \<notin> set TERMINAL_SESSION_PHASES
                    then res_bind (int_or session ''lifecycle_sequence'' 0) (\<lambda>sequence.
                      Inr [Update (session_ref uid sid) (event_update ''discarded'' (sequence + 1) now)])
                    else Inr []))"

definition tombstone_and_delete_empty_conversation_txn ::
  "transcript_env \<Rightarrow> string \<Rightarrow> string \<Rightarrow> string option \<Rightarrow> int \<Rightarrow> (path \<Rightarrow> doc option) \<Rightarrow> (doc option \<times> write list) res" where
  "tombstone_and_delete_empty_conversation_txn te uid conversation_id recording_session_id now rd =
     (case rd (conversation_ref uid conversation_id) of
        None \<Rightarrow> Inr (None, [])
      | Some conversation \<Rightarrow>
          if dget conversation ''status'' \<noteq> PStr ''in_progress''
             \<or> truthy (dget conversation ''discarded'') \<or> truthy (dget conversation ''deleted'')
             \<or> truthy (dget conversation ''is_locked'') \<or> truthy (dget conversation ''sync_content_revision'')
          then Inr (None, [])
          else res_bind (raw_conversation_has_content te uid conversation) (\<lambda>content.
            if content then Inr (None, [])
            else res_bind (tombstone_session_writes uid conversation_id recording_session_id now rd) (\<lambda>ws.
              Inr (Some conversation, ws @ [Delete (conversation_ref uid conversation_id)]))))"

definition tombstone_and_delete_empty_conversation where
  "tombstone_and_delete_empty_conversation fetch commit te st uid conversation_id recording_session_id now =
     run_txn fetch commit
       (tombstone_and_delete_empty_conversation_txn te uid conversation_id recording_session_id now) st"

subsection \<open>The ordering of envelopes\<close>

text \<open>
  A session document as the source writes it, and the run of a list of reported phases, each
  with the conversation its reporter believes in; the accepted envelopes are collected.
\<close>

definition wf_session :: "doc \<Rightarrow> bool" where
  "wf_session d \<longleftrightarrow>
     (\<exists>c. d ''conversation_id'' = Some (PStr c)) \<and>
     (\<exists>p. d ''lifecycle_phase'' = Some (PStr p) \<and> map_of PHASE_ORDER p \<noteq> None) \<and>
     (\<exists>n. d ''lifecycle_sequence'' = Some (PInt n) \<and> 0 \<le> n) \<and>
     (\<exists>v. d ''lifecycle_version'' = Some (PInt v))"

definition s_phase :: "doc \<Rightarrow> string" where
  "s_phase d = py_str (dget d ''lifecycle_phase'')"

definition s_sequence :: "doc \<Rightarrow> int" where
  "s_sequence d = fint d ''lifecycle_sequence'' 0"

definition s_conversation :: "doc \<Rightarrow> string" where
  "s_conversation d = py_str (dget d ''conversation_id'')"

fun session_run ::
  "path \<Rightarrow> (string \<times> string \<times> int) list \<Rightarrow> (path \<Rightarrow> doc option) \<Rightarrow> session_event list \<times> (path \<Rightarrow> doc option)" where
  "session_run ref [] rd = ([], rd)"
| "session_run ref ((cid, phase, now) # rest) rd =
     (case record_lifecycle_event_txn ref cid phase now rd of
        Inl e \<Rightarrow> session_run ref rest rd
      | Inr (ev, ws) \<Rightarrow>
          let (evs, rd') = session_run ref rest (after_view ws rd) in
          (if e_accepted ev then ev # evs else evs, rd'))"

lemma phase_nonempty: "map_of PHASE_ORDER p \<noteq> None \<Longrightarrow> p \<noteq> []"
  by (auto simp: PHASE_ORDER_def)

lemma wf_session_reads:
  assumes "wf_session d"
  shows "str_or d ''conversation_id'' [] = s_conversation d" "str_or d ''lifecycle_phase'' ''in_progress'' = s_phase d"
    "int_or d ''lifecycle_sequence'' 0 = Inr (s_sequence d)" "\<exists>v. int_or d ''lifecycle_version'' m = Inr v"
    "map_of PHASE_ORDER (s_phase d) \<noteq> None"
proof -
  from assms obtain c p n v where d: "d ''conversation_id'' = Some (PStr c)" "d ''lifecycle_phase'' = Some (PStr p)"
    "map_of PHASE_ORDER p \<noteq> None" "d ''lifecycle_sequence'' = Some (PInt n)" "d ''lifecycle_version'' = Some (PInt v)"
    by (auto simp: wf_session_def)
  have "p \<noteq> []" using phase_nonempty [OF d(3)] .
  then show "str_or d ''lifecycle_phase'' ''in_progress'' = s_phase d"
    using d by (simp add: s_phase_def str_or_PStr dget_def)
  show "str_or d ''conversation_id'' [] = s_conversation d"
    using d by (simp add: s_conversation_def str_or_def py_or_def dget_def)
  show "int_or d ''lifecycle_sequence'' 0 = Inr (s_sequence d)"
    using d by (simp add: s_sequence_def int_field_def)
  show "\<exists>v. int_or d ''lifecycle_version'' m = Inr v"
    using d by (simp add: int_field_def)
  show "map_of PHASE_ORDER (s_phase d) \<noteq> None" using d by (simp add: s_phase_def dget_def)
qed

lemma event_update_reads:
  assumes "wf_session d" "map_of PHASE_ORDER phase \<noteq> None" "0 \<le> n"
  shows "wf_session (upd_fields d (event_update phase n now))"
    "s_phase (upd_fields d (event_update phase n now)) = phase"
    "s_sequence (upd_fields d (event_update phase n now)) = n"
    "s_conversation (upd_fields d (event_update phase n now)) = s_conversation d"
proof -
  show "wf_session (upd_fields d (event_update phase n now))"
    using assms unfolding wf_session_def by (simp add: event_update_def)
  show "s_phase (upd_fields d (event_update phase n now)) = phase" by (simp add: s_phase_def event_update_def dget_def)
  show "s_sequence (upd_fields d (event_update phase n now)) = n" by (simp add: s_sequence_def event_update_def fint_def)
  show "s_conversation (upd_fields d (event_update phase n now)) = s_conversation d"
    by (simp add: s_conversation_def event_update_def dget_def)
qed

text \<open>One reported event: the document is unchanged, or its phase and its sequence advance together.\<close>

definition session_advance :: "doc \<Rightarrow> doc \<Rightarrow> bool" where
  "session_advance d d' \<longleftrightarrow>
     wf_session d' \<and> s_conversation d' = s_conversation d \<and>
     (s_phase d' = s_phase d \<and> s_sequence d' = s_sequence d \<or>
      s_sequence d' = s_sequence d + 1 \<and> phase_rank (s_phase d) \<le> phase_rank (s_phase d')
      \<and> s_phase d \<notin> set TERMINAL_SESSION_PHASES)"

definition event_ok :: "doc \<Rightarrow> string \<Rightarrow> string \<Rightarrow> session_event \<Rightarrow> doc \<Rightarrow> bool" where
  "event_ok d cid phase ev d' \<longleftrightarrow> session_advance d d' \<and>
     (e_accepted ev \<longrightarrow> e_conversation ev = cid \<and> s_conversation d = cid \<and> e_phase ev = phase \<and>
        e_phase ev = s_phase d' \<and> e_sequence ev = s_sequence d')"

lemma record_event_step:
  assumes wf: "wf_session d" and rd: "rd ref = Some d" and ph: "map_of PHASE_ORDER phase \<noteq> None"
  shows "\<exists>ev ws d'. record_lifecycle_event_txn ref cid phase now rd = Inr (ev, ws) \<and> writes_ok rd ws
    \<and> after_view ws rd ref = Some d' \<and> event_ok d cid phase ev d'"
proof -
  obtain v where v: "int_or d ''lifecycle_version'' LIFECYCLE_ENVELOPE_VERSION = Inr v" using wf_session_reads(4) [OF wf] by blast
  let ?up = "event_update phase (s_sequence d + 1) now"
  have "0 \<le> s_sequence d" using wf by (auto simp: wf_session_def s_sequence_def fint_def)
  then have up: "wf_session (upd_fields d ?up)" "s_phase (upd_fields d ?up) = phase"
    "s_sequence (upd_fields d ?up) = s_sequence d + 1" "s_conversation (upd_fields d ?up) = s_conversation d"
    using event_update_reads [OF wf ph, of "s_sequence d + 1"] by simp_all
  have ok: "writes_ok rd [Update ref ?up]" "after_view [Update ref ?up] rd ref = Some (upd_fields d ?up)"
    using rd by (simp_all add: after_view_def event_update_def)
  have same: "session_advance d d" using wf by (simp add: session_advance_def)
  define S where "S a r = (Inr (\<lparr>e_conversation = s_conversation d, e_version = v, e_phase = s_phase d,
      e_sequence = s_sequence d, e_accepted = a, e_discard_reason = r\<rparr>, []) :: (session_event \<times> write list) res)" for a r
  have eq: "record_lifecycle_event_txn ref cid phase now rd =
    (if s_conversation d \<noteq> cid then S False (Some ''mapping_conflict'')
     else if s_phase d \<in> set TERMINAL_SESSION_PHASES \<and> phase \<noteq> s_phase d then S False (Some ''terminal_immutable'')
     else if phase_rank phase < phase_rank (s_phase d) then S False (Some ''stale_event'')
     else if phase = s_phase d then S True None
     else Inr (\<lparr>e_conversation = s_conversation d, e_version = v, e_phase = phase, e_sequence = s_sequence d + 1,
                e_accepted = True, e_discard_reason = None\<rparr>, [Update ref ?up]))"
    unfolding record_lifecycle_event_txn_def rd option.case Let_def wf_session_reads(1-3) [OF wf] v res_bind_simps S_def
    by (rule refl)
  have stay: "\<exists>ev ws d'. S a r = Inr (ev, ws) \<and> writes_ok rd ws \<and> after_view ws rd ref = Some d' \<and> event_ok d cid phase ev d'"
    if "a \<Longrightarrow> s_conversation d = cid \<and> phase = s_phase d" for a r
    using that same rd by (auto simp: S_def event_ok_def)
  show ?thesis
    unfolding eq using stay ok up by (auto simp: event_ok_def session_advance_def)
qed

lemma session_advance_terminal:
  "session_advance d d' \<Longrightarrow> s_phase d \<in> set TERMINAL_SESSION_PHASES \<Longrightarrow> s_phase d' = s_phase d \<and> s_sequence d' = s_sequence d"
  by (auto simp: session_advance_def)

text \<open>
  The envelopes of a run: each carries the conversation the session is bound to, sequences and
  phases never go back, equal sequences carry equal phases, and nothing but repetitions of it
  follows a terminal phase.
\<close>

definition envelope_le :: "session_event \<Rightarrow> session_event \<Rightarrow> bool" where
  "envelope_le a b \<longleftrightarrow>
     e_sequence a \<le> e_sequence b \<and> phase_rank (e_phase a) \<le> phase_rank (e_phase b)
     \<and> (e_sequence a = e_sequence b \<or> e_phase a \<in> set TERMINAL_SESSION_PHASES \<longrightarrow> e_phase a = e_phase b \<and> e_sequence a = e_sequence b)"

definition envelope_of :: "doc \<Rightarrow> session_event \<Rightarrow> bool" where
  "envelope_of d ev \<longleftrightarrow> e_conversation ev = s_conversation d \<and> s_sequence d \<le> e_sequence ev
     \<and> phase_rank (s_phase d) \<le> phase_rank (e_phase ev)
     \<and> (s_sequence d = e_sequence ev \<or> s_phase d \<in> set TERMINAL_SESSION_PHASES \<longrightarrow>
          s_phase d = e_phase ev \<and> s_sequence d = e_sequence ev)"

lemma envelope_of_advance: "session_advance d d' \<Longrightarrow> envelope_of d' ev \<Longrightarrow> envelope_of d ev"
  by (auto simp: session_advance_def envelope_of_def)

lemma session_run_ordered:
  assumes "wf_session d" "rd ref = Some d" "\<forall>(cid, phase, now) \<in> set evs. map_of PHASE_ORDER phase \<noteq> None"
    and "session_run ref evs rd = (out, rd')"
  shows "sorted_wrt envelope_le out \<and> (\<forall>ev \<in> set out. envelope_of d ev)"
  using assms
proof (induction evs arbitrary: d rd out)
  case Nil
  then show ?case by simp
next
  case (Cons x rest)
  obtain cid phase now where x: "x = (cid, phase, now)" by (cases x)
  then have ph: "map_of PHASE_ORDER phase \<noteq> None" using Cons.prems(3) by simp
  obtain ev ws d' where t: "record_lifecycle_event_txn ref cid phase now rd = Inr (ev, ws)"
    "after_view ws rd ref = Some d'" "session_advance d d'"
    and acc: "e_accepted ev \<Longrightarrow> e_conversation ev = cid \<and> s_conversation d = cid \<and> e_phase ev = phase \<and>
       e_phase ev = s_phase d' \<and> e_sequence ev = s_sequence d'"
    using record_event_step [of d rd ref phase cid now, OF Cons.prems(1,2) ph] unfolding event_ok_def by blast
  obtain out' where r: "session_run ref rest (after_view ws rd) = (out', rd')"
    and out: "out = (if e_accepted ev then ev # out' else out')"
    using Cons.prems(4) t x by (auto split: prod.splits)
  have wf': "wf_session d'" using t(3) by (simp add: session_advance_def)
  have rest: "\<forall>(cid, phase, now) \<in> set rest. map_of PHASE_ORDER phase \<noteq> None" using Cons.prems(3) by simp
  note IH = Cons.IH [OF wf' t(2) rest r]
  then have tail: "\<forall>ev \<in> set out'. envelope_of d ev" using envelope_of_advance [OF t(3)] by blast
  show ?case
  proof (cases "e_accepted ev")
    case False
    with IH tail out show ?thesis by simp
  next
    case True
    have self: "envelope_of d' ev" using acc [OF True] t(3) by (auto simp: envelope_of_def session_advance_def)
    have eqs: "e_phase ev = s_phase d'" "e_sequence ev = s_sequence d'" using acc [OF True] by blast+
    have "envelope_le ev e2" if "envelope_of d' e2" for e2
      using that unfolding envelope_le_def envelope_of_def eqs by blast
    then have "\<forall>e2 \<in> set out'. envelope_le ev e2" using IH by blast
    with True IH tail out envelope_of_advance [OF t(3) self] show ?thesis by simp
  qed
qed

subsection \<open>Properties\<close>

text \<open>
  C39. The envelopes a session's clients accept are ordered: whatever phases are reported, by
  whichever reporters and in whatever order, the accepted envelopes all carry the bound
  conversation, their sequence numbers and phases never go back, two envelopes with one number
  agree, and nothing follows a terminal phase.
\<close>

theorem session_envelopes_ordered:
  assumes "wf_session d" "rd ref = Some d" "\<forall>(cid, phase, now) \<in> set evs. map_of PHASE_ORDER phase \<noteq> None"
    and "session_run ref evs rd = (out, rd')"
  shows "sorted_wrt envelope_le out \<and> (\<forall>ev \<in> set out. e_conversation ev = s_conversation d \<and> s_sequence d \<le> e_sequence ev)"
proof -
  have "sorted_wrt envelope_le out" "\<forall>ev \<in> set out. envelope_of d ev" using session_run_ordered [OF assms] by blast+
  then show ?thesis unfolding envelope_of_def by blast
qed

definition ex_session :: doc where
  "ex_session = [''conversation_id'' \<mapsto> PStr ''C'', ''lifecycle_phase'' \<mapsto> PStr ''in_progress'', ''lifecycle_sequence'' \<mapsto> PInt 0,
     ''lifecycle_version'' \<mapsto> PInt 1]"

lemma ex_session_wf: "wf_session ex_session"
  by (simp add: wf_session_def ex_session_def PHASE_ORDER_def)

theorem session_envelopes_ordered_witness:
  "sorted_wrt envelope_le (fst (session_run [''s''] [(''C'', ''completed'', 1), (''C'', ''processing'', 2)] [[''s''] \<mapsto> ex_session]))"
proof -
  have "\<forall>(cid, phase, now) \<in> set [(''C'', ''completed'', 1), (''C'', ''processing'', 2 :: int)]. map_of PHASE_ORDER phase \<noteq> None"
    by (simp add: PHASE_ORDER_def)
  moreover have "[[''s''] \<mapsto> ex_session] [''s''] = Some ex_session" by simp
  ultimately show ?thesis
    by (intro session_envelopes_ordered [OF ex_session_wf _ _ prod.collapse [symmetric], THEN conjunct1])
qed

text \<open>
  A recording session stays bound to its first conversation: after a call has bound or
  found it, every later call gets the same conversation, whatever it proposes, writes nothing,
  and is told of a conflict exactly when it proposed another one.
\<close>

lemma session_binding_stable:
  assumes "create_or_get_recording_session_txn uid sid proposed now rd = Inr (b, ws)"
    and "\<And>d. rd (session_ref uid sid) = Some d \<Longrightarrow> \<exists>c. d ''conversation_id'' = Some (PStr c)"
  shows "\<exists>b'. create_or_get_recording_session_txn uid sid proposed' now' (after_view ws rd) = Inr (b', [])
    \<and> b_conversation b' = b_conversation b \<and> (b_conflict b' \<longleftrightarrow> proposed' \<noteq> b_conversation b)"
proof (cases "rd (session_ref uid sid)")
  case None
  have "int_or (upd_fields Map.empty (new_session uid sid proposed now)) ''lifecycle_version'' 1 = Inr 1"
    "int_or (upd_fields Map.empty (new_session uid sid proposed now)) ''lifecycle_sequence'' 0 = Inr 0"
    by (simp_all add: int_field_def fint_def new_session_def LIFECYCLE_ENVELOPE_VERSION_def)
  with None assms(1) show ?thesis
    by (auto simp: create_or_get_recording_session_txn_def Let_def binding_def after_view_def LIFECYCLE_ENVELOPE_VERSION_def)
      (auto simp: new_session_def dget_def)
next
  case (Some d)
  then obtain c where "d ''conversation_id'' = Some (PStr c)" using assms(2) by blast
  with Some assms(1) show ?thesis
    by (auto simp: create_or_get_recording_session_txn_def binding_def dget_def split: if_split_asm)
qed

definition bound_session :: "string \<Rightarrow> string \<Rightarrow> string \<Rightarrow> doc \<Rightarrow> bool" where
  "bound_session uid sid cid d \<longleftrightarrow> dget d ''uid'' = PStr uid \<and> dget d ''recording_session_id'' = PStr sid
     \<and> dget d ''conversation_id'' = PStr cid"

lemma tombstoned_session_terminal:
  assumes "tombstone_session_writes uid cid (Some s) now rd = Inr tw" "s \<noteq> []" "rd (session_ref uid s) = Some d"
    "bound_session uid s cid d"
  shows "\<exists>d'. after_view tw rd (session_ref uid s) = Some d'
    \<and> str_or d' ''lifecycle_phase'' ''in_progress'' \<in> set TERMINAL_SESSION_PHASES"
  using assms
  by (auto simp: tombstone_session_writes_def bound_session_def after_view_def event_update_def str_or_PStr
      TERMINAL_SESSION_PHASES_def split: if_split_asm)

text \<open>
  Deleting an empty conversation deletes nothing else: the row that disappears was in
  progress, visible, unlocked, had never taken synced content, and held neither transcript nor
  photos; a session still bound to it is terminal afterwards; and a refused call writes nothing.
\<close>

lemma empty_deletion_is_safe:
  assumes "tombstone_and_delete_empty_conversation_txn te uid cid sid now rd = Inr (deleted, ws)"
  shows "(deleted = None \<longrightarrow> ws = [])
    \<and> (\<forall>c. deleted = Some c \<longrightarrow>
         rd (conversation_ref uid cid) = Some c \<and> after_view ws rd (conversation_ref uid cid) = None
         \<and> dget c ''status'' = PStr ''in_progress'' \<and> \<not> truthy (dget c ''discarded'') \<and> \<not> truthy (dget c ''is_locked'')
         \<and> \<not> truthy (dget c ''sync_content_revision'') \<and> raw_conversation_has_content te uid c = Inr False
         \<and> (\<forall>s d. sid = Some s \<and> s \<noteq> [] \<and> rd (session_ref uid s) = Some d \<and> bound_session uid s cid d \<longrightarrow>
              (\<exists>d'. after_view ws rd (session_ref uid s) = Some d'
                 \<and> str_or d' ''lifecycle_phase'' ''in_progress'' \<in> set TERMINAL_SESSION_PHASES))
         \<and> (\<forall>p. p \<noteq> conversation_ref uid cid \<and> (\<forall>s. sid = Some s \<longrightarrow> p \<noteq> session_ref uid s) \<longrightarrow> after_view ws rd p = rd p))"
proof (cases "rd (conversation_ref uid cid)")
  case (Some c)
  show ?thesis
  proof (cases deleted)
    case None
    with assms Some show ?thesis
      by (auto simp: tombstone_and_delete_empty_conversation_txn_def split: if_split_asm)
  next
    case (Some c')
    with assms \<open>rd (conversation_ref uid cid) = Some c\<close> obtain tw where
      tw: "tombstone_session_writes uid cid sid now rd = Inr tw" and ws: "ws = tw @ [Delete (conversation_ref uid cid)]"
      and c: "c' = c" "dget c ''status'' = PStr ''in_progress''" "\<not> truthy (dget c ''discarded'')" "\<not> truthy (dget c ''is_locked'')"
        "\<not> truthy (dget c ''sync_content_revision'')" "raw_conversation_has_content te uid c = Inr False"
      by (auto simp: tombstone_and_delete_empty_conversation_txn_def split: if_split_asm)
    have paths: "\<exists>s. sid = Some s \<and> wpath w = session_ref uid s" if "w \<in> set tw" for w
      using tw that by (auto simp: tombstone_session_writes_def split: option.splits if_split_asm)
    have "conversation_ref uid cid \<noteq> session_ref uid s" for s
      by (simp add: conversation_ref_def session_ref_def CONVERSATIONS_COLLECTION_def)
    then have "conversation_ref uid cid \<notin> wpath ` set tw" using paths by fastforce
    moreover have "after_view ws rd p = rd p"
      if "p \<noteq> conversation_ref uid cid" "\<forall>s. sid = Some s \<longrightarrow> p \<noteq> session_ref uid s" for p
      unfolding after_view_def using that paths by (intro after_untouched) (fastforce simp: ws)
    moreover have "\<exists>d'. after_view ws rd (session_ref uid s) = Some d'
        \<and> str_or d' ''lifecycle_phase'' ''in_progress'' \<in> set TERMINAL_SESSION_PHASES"
      if "sid = Some s" "s \<noteq> []" "rd (session_ref uid s) = Some d" "bound_session uid s cid d" for s d
      using tombstoned_session_terminal [of uid cid s now rd tw d] that tw \<open>\<And>s. conversation_ref uid cid \<noteq> session_ref uid s\<close> [of s]
      by (auto simp: ws after_view_def after_append after_untouched)
    ultimately show ?thesis
      using Some c \<open>rd (conversation_ref uid cid) = Some c\<close> by (simp add: ws after_view_def after_append_other)
  qed
qed (use assms in \<open>simp add: tombstone_and_delete_empty_conversation_txn_def\<close>)

end
