(* ===== verification/Finalization_Decision.thy ===== *)
theory Finalization_Decision
  imports Py_Value "HOL-Library.FSet"
begin

text \<open>
  \<^verbatim>\<open>utils/conversations/finalization_decision.py\<close>: the pure reducer that decides what one
  event does to one life-cycle generation of a conversation, and which fanout key, if any,
  it admits. The set of emitted keys is a \<open>frozenset\<close> of the source.
\<close>

datatype lifecycle_phase = IN_PROGRESS | PROCESSING | MERGING | COMPLETED | FAILED | DISCARDED

datatype finalization_event =
    DISCONNECT | FINALIZE | REPROCESS | EVENT_MERGE | MERGE_COMPLETED | PROCESSING_COMPLETED | DISCARD | RESTART

definition TERMINAL_PHASES :: "lifecycle_phase list" where
  "TERMINAL_PHASES = [COMPLETED, FAILED, DISCARDED]"

record decision_state =
  phase :: lifecycle_phase
  terminal_outcome :: "lifecycle_phase option"
  emitted_fanout_keys :: "string fset"

record finalization_decision =
  decision_state :: decision_state
  decision_fanout_key :: "string option"
  decision_reason :: string

definition is_terminal :: "decision_state \<Rightarrow> bool" where
  "is_terminal s = (phase s \<in> set TERMINAL_PHASES)"

definition initial_state :: decision_state where
  "initial_state = \<lparr>phase = IN_PROGRESS, terminal_outcome = None, emitted_fanout_keys = {||}\<rparr>"

definition decided :: "decision_state \<Rightarrow> string option \<Rightarrow> string \<Rightarrow> finalization_decision" where
  "decided s key reason = \<lparr>decision_state = s, decision_fanout_key = key, decision_reason = reason\<rparr>"

definition terminal :: "decision_state \<Rightarrow> lifecycle_phase \<Rightarrow> decision_state" where
  "terminal s p =
     (if terminal_outcome s \<noteq> None then s
      else \<lparr>phase = p, terminal_outcome = Some p, emitted_fanout_keys = emitted_fanout_keys s\<rparr>)"

text \<open>\<open>fanout_key or f'conversation:{conversation_id}:finalization'\<close>.\<close>

definition admit_key :: "string \<Rightarrow> string option \<Rightarrow> string" where
  "admit_key conversation_id key =
     (case key of
        Some (c # cs) \<Rightarrow> c # cs
      | _ \<Rightarrow> ''conversation:'' @ conversation_id @ '':finalization'')"

definition admit_finalization :: "decision_state \<Rightarrow> string \<Rightarrow> string option \<Rightarrow> finalization_decision" where
  "admit_finalization s conversation_id key0 =
     (let key = admit_key conversation_id key0 in
      if key |\<in>| emitted_fanout_keys s then decided s None ''duplicate_finalization''
      else decided \<lparr>phase = PROCESSING, terminal_outcome = None,
                    emitted_fanout_keys = finsert key (emitted_fanout_keys s)\<rparr>
                   (Some key) ''accepted'')"

definition decide_finalization ::
  "decision_state \<Rightarrow> finalization_event \<Rightarrow> string \<Rightarrow> string option \<Rightarrow> finalization_decision" where
  "decide_finalization s event conversation_id key =
     (if is_terminal s then decided s None ''terminal''
      else if event \<in> {DISCONNECT, FINALIZE} then
        (if phase s = IN_PROGRESS then admit_finalization s conversation_id key
         else decided s None ''already_finalizing'')
      else if event = PROCESSING_COMPLETED \<and> phase s = PROCESSING
        then decided (terminal s COMPLETED) None ''accepted''
      else if event = DISCARD \<and> phase s \<in> {IN_PROGRESS, PROCESSING, MERGING}
        then decided (terminal s DISCARDED) None ''accepted''
      else if event = EVENT_MERGE \<and> phase s = IN_PROGRESS
        then decided \<lparr>phase = MERGING, terminal_outcome = None, emitted_fanout_keys = emitted_fanout_keys s\<rparr>
               None ''accepted''
      else if event = MERGE_COMPLETED \<and> phase s = MERGING
        then decided (terminal s COMPLETED) None ''accepted''
      else if event = RESTART then decided s None ''restart_replays_state''
      else if event = REPROCESS then decided s None ''reprocess_requires_new_generation''
      else decided s None ''invalid_transition'')"

subsection \<open>Runs\<close>

text \<open>
  A run feeds a list of events, each with the key its caller proposes, and collects the keys
  the reducer admits.
\<close>

fun decision_run ::
  "string \<Rightarrow> decision_state \<Rightarrow> (finalization_event \<times> string option) list \<Rightarrow> decision_state \<times> string list" where
  "decision_run cid s [] = (s, [])"
| "decision_run cid s ((event, key) # rest) =
     (let d = decide_finalization s event cid key;
          (s', keys) = decision_run cid (decision_state d) rest
      in (s', (case decision_fanout_key d of None \<Rightarrow> keys | Some k \<Rightarrow> k # keys)))"

text \<open>
  The invariant of a generation: an outcome is recorded exactly in a terminal phase and is
  that phase, and no key has been emitted before processing starts.
\<close>

definition decision_inv :: "decision_state \<Rightarrow> bool" where
  "decision_inv s \<longleftrightarrow>
     (terminal_outcome s = (if is_terminal s then Some (phase s) else None))
     \<and> (phase s \<in> {IN_PROGRESS, MERGING} \<longrightarrow> emitted_fanout_keys s = {||})"

lemma decision_inv_initial: "decision_inv initial_state"
  by (simp add: decision_inv_def initial_state_def is_terminal_def TERMINAL_PHASES_def)

lemmas decision_defs =
  decide_finalization_def admit_finalization_def terminal_def decided_def decision_inv_def
  is_terminal_def TERMINAL_PHASES_def Let_def

lemma decide_inv: "decision_inv s \<Longrightarrow> decision_inv (decision_state (decide_finalization s ev cid key))"
  by (cases ev; cases "phase s") (simp_all add: decision_defs)

lemma decide_terminal: "is_terminal s \<Longrightarrow> decision_state (decide_finalization s ev cid key) = s
    \<and> decision_fanout_key (decide_finalization s ev cid key) = None"
  by (simp add: decide_finalization_def decided_def)

lemma decide_emits:
  assumes "decision_inv s" "decision_fanout_key (decide_finalization s ev cid key) = Some k"
  shows "phase s = IN_PROGRESS" "k = admit_key cid key"
    "phase (decision_state (decide_finalization s ev cid key)) = PROCESSING"
  using assms by (auto simp: decision_defs split: if_split_asm)

lemma decide_not_in_progress:
  "phase s \<noteq> IN_PROGRESS \<Longrightarrow> phase (decision_state (decide_finalization s ev cid key)) \<noteq> IN_PROGRESS"
  by (cases ev) (auto simp: decision_defs)

lemma decision_run_silent: "decision_inv s \<Longrightarrow> phase s \<noteq> IN_PROGRESS \<Longrightarrow> snd (decision_run cid s evs) = []"
proof (induction cid s evs rule: decision_run.induct)
  case (1 cid s)
  then show ?case by simp
next
  case (2 cid s ev key rest)
  let ?d = "decide_finalization s ev cid key"
  from "2.prems" have "decision_fanout_key ?d = None"
    using decide_emits(1) by (metis not_Some_eq)
  moreover have "snd (decision_run cid (decision_state ?d) rest) = []"
    using "2.prems" by (intro "2.IH") (simp_all add: decide_inv decide_not_in_progress)
  ultimately show ?case by (auto simp: Let_def split: prod.splits)
qed

lemma run_terminal: "is_terminal s \<Longrightarrow> decision_run cid s evs = (s, [])"
  by (induction cid s evs rule: decision_run.induct) (simp_all add: decide_terminal Let_def)

lemma run_emits_at_most_one:
  "decision_inv s \<Longrightarrow> length (snd (decision_run cid s evs)) \<le> 1"
proof (induction cid s evs rule: decision_run.induct)
  case (1 cid s)
  then show ?case by simp
next
  case (2 cid s ev key rest)
  let ?d = "decide_finalization s ev cid key"
  have inv: "decision_inv (decision_state ?d)" using "2.prems" by (rule decide_inv)
  show ?case
  proof (cases "decision_fanout_key ?d")
    case None
    with "2.IH" [OF refl inv] show ?thesis by (simp add: Let_def split: prod.splits)
  next
    case (Some k)
    have "phase (decision_state ?d) \<noteq> IN_PROGRESS"
      using decide_emits(3) [OF "2.prems" Some] by simp
    then have "snd (decision_run cid (decision_state ?d) rest) = []"
      using inv by (intro decision_run_silent)
    with Some show ?thesis by (auto simp: Let_def split: prod.splits)
  qed
qed

lemma decision_run_append:
  "decision_run cid s (evs @ evs') =
     (let (s1, k1) = decision_run cid s evs; (s2, k2) = decision_run cid s1 evs' in (s2, k1 @ k2))"
  by (induction cid s evs rule: decision_run.induct) (auto simp: Let_def split: prod.splits option.splits)

lemma run_inv: "decision_inv s \<Longrightarrow> decision_inv (fst (decision_run cid s evs))"
  by (induction cid s evs rule: decision_run.induct) (auto simp: Let_def decide_inv split: prod.splits)

text \<open>
  One generation emits at most one fanout key, whatever events arrive in whatever order
  and whatever keys their callers propose, and the state it ends in records an outcome exactly
  when it is terminal.
\<close>

lemma reducer_emits_at_most_one_key:
  "length (snd (decision_run cid initial_state evs)) \<le> 1 \<and> decision_inv (fst (decision_run cid initial_state evs))"
  using run_emits_at_most_one [OF decision_inv_initial] run_inv [OF decision_inv_initial] by blast

text \<open>
  Terminal states absorb: once a run has reached one, no further event changes the state
  or emits a key.
\<close>

lemma reducer_terminal_absorbs:
  assumes "is_terminal (fst (decision_run cid s evs))"
  shows "decision_run cid s (evs @ evs') = decision_run cid s evs"
  using assms by (cases "decision_run cid s evs") (simp add: decision_run_append run_terminal)

end
