(* ===== verification/Lifecycle.thy ===== *)
theory Lifecycle
  imports Recording_Session Finalization_System Finalization_Decision
begin

text \<open>
  \<^verbatim>\<open>utils/conversations/lifecycle.py\<close>: the owner of conversation life-cycle changes. A read
  that happens before a transaction is made explicit: \<open>mid\<close> is whatever other workers do to the
  store between the read and the transaction that follows it. Metrics and log lines are left
  out; task dispatch is the parameter \<open>enqueue\<close>, which may raise.
\<close>

subsection \<open>Status transitions\<close>

definition STATUS_TRANSITIONS :: "(string \<times> string list) list" where
  "STATUS_TRANSITIONS =
     [(''in_progress'', [''processing'', ''merging'', ''failed'']),
      (''processing'', [''completed'', ''failed'']),
      (''merging'', [''completed'', ''failed'']),
      (''completed'', [''merging''])]"

definition allowed_targets :: "string \<Rightarrow> string list" where
  "allowed_targets current = (case map_of STATUS_TRANSITIONS current of None \<Rightarrow> [] | Some ts \<Rightarrow> ts)"

definition status_value :: "pyval \<Rightarrow> string res" where
  "status_value v = (case as_str v of Some s \<Rightarrow> Inr s | None \<Rightarrow> Inl LifecycleTransitionError)"

definition require_status :: "dict \<Rightarrow> string list \<Rightarrow> unit res" where
  "require_status data allowed =
     res_bind (status_value (dict_get data ''status'')) (\<lambda>s.
       if s \<in> set allowed then Inr () else Inl LifecycleTransitionError)"

definition claim_conversation_status where
  "claim_conversation_status fetch commit te uid conversation_id expected claimed extra st =
     run_txn fetch commit
       (claim_conversation_status_txn te uid (conversation_ref uid conversation_id) expected claimed extra) st"

definition transition_conversation_status where
  "transition_conversation_status fetch commit uid conversation_id status st =
     run_txn fetch commit (transition_conversation_status_txn (conversation_ref uid conversation_id) status) st"

definition transition ::
  "('s \<Rightarrow> path \<Rightarrow> doc option) \<Rightarrow> ('s \<Rightarrow> write list \<Rightarrow> 's) \<Rightarrow> transcript_env \<Rightarrow> ('s \<Rightarrow> 's) \<Rightarrow> string \<Rightarrow> string \<Rightarrow>
   string \<Rightarrow> string option \<Rightarrow> dict \<Rightarrow> 's \<Rightarrow> bool res \<times> 's" where
  "transition fetch commit te mid uid conversation_id target expected extra st =
     (case fetch st (conversation_ref uid conversation_id) of
        None \<Rightarrow> (Inl LifecycleTransitionError, st)
      | Some conversation \<Rightarrow>
          (case status_value (dget conversation ''status'') of
             Inl e \<Rightarrow> (Inl e, st)
           | Inr current \<Rightarrow>
               if expected \<noteq> None \<and> expected \<noteq> Some current then (Inr False, st)
               else if target \<notin> set (allowed_targets current) then (Inl LifecycleTransitionError, st)
               else (case expected of
                       Some e \<Rightarrow> claim_conversation_status fetch commit te uid conversation_id e target extra (mid st)
                     | None \<Rightarrow>
                         (case transition_conversation_status fetch commit uid conversation_id target (mid st) of
                            (Inl e, st') \<Rightarrow> (Inl e, st')
                          | (Inr u, st') \<Rightarrow> (Inr True, st')))))"

definition admit_processing where
  "admit_processing fetch commit te mid uid conversation_id extra now st =
     transition fetch commit te mid uid conversation_id ''processing'' (Some ''in_progress'')
       (dict_setdefault extra ''processing_admitted_at'' (PTime now)) st"

definition ensure_processing where
  "ensure_processing fetch commit te mid uid conversation_id now st =
     (case fetch st (conversation_ref uid conversation_id) of
        None \<Rightarrow> (Inl LifecycleTransitionError, st)
      | Some conversation \<Rightarrow>
          (case status_value (dget conversation ''status'') of
             Inl e \<Rightarrow> (Inl e, st)
           | Inr status \<Rightarrow>
               if status = ''processing'' then (Inr True, st)
               else if status = ''completed'' \<or> status = ''failed'' then (Inr False, st)
               else admit_processing fetch commit te mid uid conversation_id [] now (mid st)))"

definition complete where
  "complete fetch commit te mid uid conversation_id st =
     (case claim_conversation_status fetch commit te uid conversation_id ''processing'' ''completed'' [] st of
        (Inl e, st') \<Rightarrow> (Inl e, st')
      | (Inr True, st') \<Rightarrow> (Inr True, st')
      | (Inr False, st') \<Rightarrow>
          claim_conversation_status fetch commit te uid conversation_id ''merging'' ''completed'' [] (mid st'))"

definition rollback_processing_admission where
  "rollback_processing_admission fetch commit te uid conversation_id st =
     claim_conversation_status fetch commit te uid conversation_id ''processing'' ''in_progress'' [] st"

definition fail_and_discard_processing where
  "fail_and_discard_processing fetch commit te uid conversation_id st =
     claim_conversation_status fetch commit te uid conversation_id ''processing'' ''failed''
       [(''discarded'', PBool True)] st"

definition begin_merge where
  "begin_merge fetch commit te mid uid conversation_id st =
     transition fetch commit te mid uid conversation_id ''merging'' None [] st"

subsection \<open>Creation and persistence\<close>

definition create_conversation_if_absent where
  "create_conversation_if_absent fetch commit uid conversation_data st =
     (case map_of conversation_data ''id'' of
        Some (PStr cid) \<Rightarrow>
          run_txn fetch commit
            (create_conversation_if_absent_with_lifecycle_txn (conversation_ref uid cid) conversation_data) st
      | Some _ \<Rightarrow> (Inl TypeError, st)
      | None \<Rightarrow> (Inl KeyError, st))"

definition upsert_conversation where
  "upsert_conversation fetch commit pe uid conversation_data st =
     (case map_of conversation_data ''id'' of
        Some (PStr cid) \<Rightarrow>
          (case run_txn fetch commit
                  (upsert_conversation_with_lifecycle_txn pe uid (conversation_ref uid cid) conversation_data) st of
             (Inl e, st') \<Rightarrow> (Inl e, st')
           | (Inr u, st') \<Rightarrow> (Inr True, st'))
      | Some _ \<Rightarrow> (Inl TypeError, st)
      | None \<Rightarrow> (Inl KeyError, st))"

definition create_with_status where
  "create_with_status fetch commit pe uid conversation_data status idempotent st =
     (case require_status conversation_data [status] of
        Inl e \<Rightarrow> (Inl e, st)
      | Inr u \<Rightarrow>
          if idempotent then create_conversation_if_absent fetch commit uid conversation_data st
          else upsert_conversation fetch commit pe uid conversation_data st)"

definition create_in_progress_conversation where
  "create_in_progress_conversation fetch commit pe uid conversation_data idempotent st =
     create_with_status fetch commit pe uid conversation_data ''in_progress'' idempotent st"

text \<open>The admission instant is stamped only after the status test, and never over the caller's own.\<close>

definition create_processing_conversation where
  "create_processing_conversation fetch commit pe uid conversation_data idempotent now st =
     create_with_status fetch commit pe uid
       (dict_setdefault conversation_data ''processing_admitted_at'' (PTime now)) ''processing'' idempotent st"

definition create_completed_conversation where
  "create_completed_conversation fetch commit pe uid conversation_data idempotent st =
     create_with_status fetch commit pe uid conversation_data ''completed'' idempotent st"

definition persist_processed_conversation where
  "persist_processed_conversation fetch commit pe uid conversation_data st =
     (case require_status conversation_data [''processing'', ''completed'', ''failed''] of
        Inl e \<Rightarrow> (Inl e, st)
      | Inr u \<Rightarrow>
          (case map_of conversation_data ''id'' of
             Some (PStr cid) \<Rightarrow>
               (case run_txn fetch commit
                       (persist_processing_result_txn pe uid (conversation_ref uid cid) conversation_data) st of
                  (Inl e, st') \<Rightarrow> (Inl e, st')
                | (Inr r, st') \<Rightarrow> (Inr (persisted r), st'))
           | Some _ \<Rightarrow> (Inl TypeError, st)
           | None \<Rightarrow> (Inl KeyError, st)))"

definition persist_imported_conversation where
  "persist_imported_conversation fetch commit uid conversation_data st =
     (case require_status conversation_data [''completed''] of
        Inl e \<Rightarrow> (Inl e, st)
      | Inr u \<Rightarrow>
          create_conversation_if_absent fetch commit uid
            (dict_update conversation_data [(''imported'', PBool True)]) st)"

subsection \<open>The admission lease of an inline processor\<close>

text \<open>\<open>max(60.0, stale_after.total_seconds() / 4.0)\<close>, in seconds.\<close>

definition processing_lease_renewal_interval :: "env \<Rightarrow> real" where
  "processing_lease_renewal_interval env =
     max 60 (real_of_int (get_stale_processing_orphan_after env) / 1000000 / 4)"

text \<open>
  The heartbeat loop, on the sequence of what each turn meets: whether the stop event is set
  when the turn begins, whether the wait returns because it was set, and the time of renewal.
\<close>

fun run_processing_lease_heartbeat where
  "run_processing_lease_heartbeat fetch commit uid conversation_id [] st = st"
| "run_processing_lease_heartbeat fetch commit uid conversation_id ((is_set, stopped, now) # turns) st =
     (if is_set then st
      else if stopped then st
      else (case renew_processing_lease fetch commit st uid conversation_id now of
              (Inl e, st') \<Rightarrow> st'
            | (Inr b, st') \<Rightarrow> run_processing_lease_heartbeat fetch commit uid conversation_id turns st'))"

text \<open>
  The guard around an inline run: \<open>body\<close> is the guarded block; its failure rolls the admission
  back and is raised again, whatever the rollback does.
\<close>

definition processing_admission_guard where
  "processing_admission_guard fetch commit te uid conversation_id rollback_on_failure body st =
     (case body st of
        (Inr r, st') \<Rightarrow> (Inr r, st')
      | (Inl e, st') \<Rightarrow>
          if rollback_on_failure
          then (Inl e, snd (rollback_processing_admission fetch commit te uid conversation_id st'))
          else (Inl e, st'))"

subsection \<open>Recording sessions\<close>

definition RECORDING_SESSION_MODES :: "string list" where
  "RECORDING_SESSION_MODES = [''shadow'', ''dual_write'', ''enforce'']"

text \<open>Only ASCII letters occur in the modes, so lower-casing other letters cannot produce one.\<close>

definition recording_session_mode :: "env \<Rightarrow> string" where
  "recording_session_mode env =
     (let configured = ascii_lower (py_strip (getenv env ''RECORDING_SESSION_MODE'' ''dual_write'')) in
      if configured \<in> set RECORDING_SESSION_MODES then configured else ''dual_write'')"

record session_route =
  route_conversation :: string
  route_envelope :: "(int \<times> string \<times> int) option"
  route_conflict :: bool

definition route_of_binding :: "session_binding \<Rightarrow> session_route" where
  "route_of_binding b =
     \<lparr>route_conversation = b_conversation b, route_envelope = Some (b_version b, b_phase b, b_sequence b),
      route_conflict = b_conflict b\<rparr>"

definition open_recording_session where
  "open_recording_session env fetch commit uid recording_session_id proposed now st =
     (case create_or_get_recording_session fetch commit st uid recording_session_id proposed now of
        (Inl e, st') \<Rightarrow>
          if recording_session_mode env = ''enforce'' then (Inl e, st')
          else (Inr \<lparr>route_conversation = proposed, route_envelope = None, route_conflict = False\<rparr>, st')
      | (Inr b, st') \<Rightarrow>
          if b_conflict b \<and> recording_session_mode env \<in> {''shadow'', ''dual_write''}
          then (Inr \<lparr>route_conversation = proposed, route_envelope = None, route_conflict = True\<rparr>, st')
          else (Inr (route_of_binding b), st'))"

definition record_recording_session_event where
  "record_recording_session_event env fetch commit uid recording_session_id conversation_id reported now st =
     (let legacy = Some \<lparr>route_conversation = conversation_id, route_envelope = None, route_conflict = False\<rparr> in
      case record_lifecycle_event fetch commit st uid recording_session_id conversation_id reported now of
        (Inl e, st') \<Rightarrow> if recording_session_mode env = ''enforce'' then (Inl e, st') else (Inr legacy, st')
      | (Inr ev, st') \<Rightarrow>
          if e_accepted ev
          then (Inr (Some \<lparr>route_conversation = e_conversation ev,
                           route_envelope = Some (e_version ev, e_phase ev, e_sequence ev),
                           route_conflict = False\<rparr>), st')
          else if recording_session_mode env \<in> {''shadow'', ''dual_write''} then (Inr legacy, st')
          else (Inr None, st'))"

definition tombstone_recording_session where
  "tombstone_recording_session env fetch commit uid recording_session_id conversation_id now st =
     record_recording_session_event env fetch commit uid recording_session_id conversation_id ''discarded'' now st"

text \<open>
  Deleting an empty conversation; the second component says whether unreferenced audio is
  reclaimed, which only a row that never registered any permits.
\<close>

definition delete_empty_recording_conversation where
  "delete_empty_recording_conversation fetch commit te uid conversation_id recording_session_id now st =
     (case tombstone_and_delete_empty_conversation fetch commit te st uid conversation_id recording_session_id now of
        (Inl e, st') \<Rightarrow> (Inl e, st')
      | (Inr None, st') \<Rightarrow> (Inr (False, False), st')
      | (Inr (Some deleted), st') \<Rightarrow> (Inr (True, \<not> truthy (dget deleted ''audio_files'')), st'))"

definition open_live_recording_session where
  "open_live_recording_session env fetch commit mid uid recording_session_id proposed now st =
     (case get_recording_session uid recording_session_id (fetch st) of
        Inl e \<Rightarrow> (Inl e, st)
      | Inr existing \<Rightarrow>
          (case open_recording_session env fetch commit uid recording_session_id proposed now (mid st) of
             (Inl e, st') \<Rightarrow> (Inl e, st')
           | (Inr route, st') \<Rightarrow>
               (case existing of
                  None \<Rightarrow> (Inr (route, False), st')
                | Some b \<Rightarrow>
                    if fetch st' (conversation_ref uid (b_conversation b)) \<noteq> None then (Inr (route, False), st')
                    else if b_phase b \<in> set TERMINAL_SESSION_PHASES then (Inr (route, True), st')
                    else (case tombstone_recording_session env fetch commit uid recording_session_id
                                 (b_conversation b) now (mid st') of
                            (Inl e, st'') \<Rightarrow> (Inl e, st'')
                          | (Inr ev, st'') \<Rightarrow> (Inr (route, True), st'')))))"

subsection \<open>Properties\<close>

text \<open>
  A live inline processor always looks fresh: whatever the environment, its admission is
  renewed at least four times within the age at which a conversation counts as orphaned.
\<close>

lemma lease_renewed_in_time:
  "60 \<le> processing_lease_renewal_interval env
   \<and> 4 * processing_lease_renewal_interval env \<le> real_of_int (get_stale_processing_orphan_after env) / 1000000"
proof -
  have "300 \<le> real_of_int (get_stale_processing_orphan_after env) / 1000000"
    by (simp add: get_stale_processing_orphan_after_def td_seconds_def)
  then show ?thesis by (simp add: processing_lease_renewal_interval_def)
qed

lemma status_claim_call:
  assumes "firestore fetch commit" "fetch st (conversation_ref uid cid) = Some c"
  shows "claim_conversation_status fetch commit te uid cid expected claimed [] st =
      (if truthy (dget c ''discarded'') \<or> dget c ''status'' \<noteq> PStr expected then (Inr False, commit st [])
       else (Inr True, commit st [Update (conversation_ref uid cid) [(''status'', Put (PStr claimed))]]))"
  using assms
  by (simp add: claim_conversation_status_def claim_conversation_status_txn_def run_txn_def dict_update_def put_all_def)

text \<open>
  A discarded conversation does block a transition that names the status it expects: such
  a transition, although allowed by the table and expecting the right status, answers False and
  changes nothing.
\<close>

lemma discard_blocks_expected_transition:
  assumes "firestore fetch commit" "fetch st (conversation_ref uid cid) = Some c" "dget c ''status'' = PStr current"
    and "truthy (dget c ''discarded'')" "target \<in> set (allowed_targets current)"
  shows "\<exists>st'. transition fetch commit te id uid cid target (Some current) [] st = (Inr False, st') \<and> fetch st' = fetch st"
  using assms status_claim_call [OF assms(1,2)] firestore.fetch_commit [OF assms(1), of st "[]"]
  by (auto simp: transition_def status_value_def)

text \<open>
  Rolling an admission back does not look at the generation: a conversation that is being
  processed again, under another admission instant or for another job, goes back to
  \<open>in_progress\<close> while it keeps that instant and that job.
\<close>

lemma rollback_ignores_generation:
  assumes "firestore fetch commit" "fetch st (conversation_ref uid cid) = Some c" "dget c ''status'' = PStr ''processing''"
    and "\<not> truthy (dget c ''discarded'')"
  shows "\<exists>st' c'. rollback_processing_admission fetch commit te uid cid st = (Inr True, st')
    \<and> fetch st' (conversation_ref uid cid) = Some c' \<and> c' ''status'' = Some (PStr ''in_progress'')
    \<and> (\<forall>k. k \<noteq> ''status'' \<longrightarrow> c' k = c k)"
proof -
  let ?ws = "[Update (conversation_ref uid cid) [(''status'', Put (PStr ''in_progress''))]]"
  have "fetch (commit st ?ws) (conversation_ref uid cid) = Some (upd_fields c [(''status'', Put (PStr ''in_progress''))])"
    by (rule firestore.fetch_commit_update [OF assms(1,2)]) (simp add: assms(2))
  then show ?thesis
    unfolding rollback_processing_admission_def status_claim_call [OF assms(1,2)] using assms(3,4) by auto
qed

end
