(* ===== verification/Finalization_Request.thy ===== *)
theory Finalization_Request
  imports Lifecycle
begin

text \<open>
  The finalization requests of \<^verbatim>\<open>utils/conversations/lifecycle.py\<close>: the admission decision
  taken on the transaction's snapshot, the request that admits a conversation and chooses the
  one route its job is handed over on, and the status report of a job.
\<close>

subsection \<open>Admission\<close>

definition finalization_fanout_key :: "doc \<Rightarrow> string \<Rightarrow> string res" where
  "finalization_fanout_key conversation conversation_id =
     res_bind (int_or conversation ''finalization_revision'' 0) (\<lambda>rv.
       Inr (''conversation:'' @ conversation_id @ '':finalization:'' @ dec_int (rv + 1)))"

definition finalization_decision_state :: "doc \<Rightarrow> string \<Rightarrow> decision_state res" where
  "finalization_decision_state conversation conversation_id =
     (if truthy (dget conversation ''discarded'')
      then Inr \<lparr>phase = DISCARDED, terminal_outcome = Some DISCARDED, emitted_fanout_keys = {||}\<rparr>
      else let status = str_or conversation ''status'' ''in_progress'' in
        res_bind (finalization_fanout_key conversation conversation_id) (\<lambda>key.
          if status = ''completed'' then Inr \<lparr>phase = COMPLETED, terminal_outcome = Some COMPLETED, emitted_fanout_keys = {||}\<rparr>
          else if status = ''failed'' then Inr \<lparr>phase = FAILED, terminal_outcome = Some FAILED, emitted_fanout_keys = {||}\<rparr>
          else if status = ''processing''
          then Inr \<lparr>phase = PROCESSING, terminal_outcome = None, emitted_fanout_keys = {|key|}\<rparr>
          else Inr initial_state))"

definition finalization_admission_of :: "string \<Rightarrow> doc \<Rightarrow> finalization_admission res" where
  "finalization_admission_of conversation_id conversation =
     res_bind (finalization_fanout_key conversation conversation_id) (\<lambda>key.
     res_bind (finalization_decision_state conversation conversation_id) (\<lambda>state.
       let decision = decide_finalization state FINALIZE conversation_id (Some key) in
       Inr \<lparr>admission_accepted = (decision_fanout_key decision \<noteq> None),
            admission_terminal = (decision_reason decision = ''terminal''),
            admission_reason = decision_reason decision,
            admission_fanout_key = decision_fanout_key decision\<rparr>))"

subsection \<open>Requests\<close>

text \<open>\<^verbatim>\<open>utils/cloud_tasks.py\<close>: whether the durable worker is switched on and configured.\<close>

definition is_listen_finalization_dispatch_enabled :: "env \<Rightarrow> bool" where
  "is_listen_finalization_dispatch_enabled env =
     (getenv env ''LISTEN_FINALIZATION_DISPATCH_MODE'' ''inline'' = ''cloud_tasks'')"

text \<open>The handler's URL and its service account come from helpers of the same module.\<close>

definition is_listen_finalization_dispatch_configured :: "env \<Rightarrow> string \<Rightarrow> string \<Rightarrow> bool" where
  "is_listen_finalization_dispatch_configured env handler_url invoker_sa \<longleftrightarrow>
     is_listen_finalization_dispatch_enabled env \<and>
     getenv env ''SYNC_TASKS_PROJECT'' [] \<noteq> [] \<and> getenv env ''SYNC_TASKS_LOCATION'' [] \<noteq> [] \<and>
     getenv env ''LISTEN_FINALIZATION_TASKS_QUEUE'' [] \<noteq> [] \<and> handler_url \<noteq> [] \<and> invoker_sa \<noteq> []"

datatype route = Noop | Route_Blocked_Byok | Pusher | Route_Queued | Cloud_Tasks

record request_env =
  re_intent :: intent_env
  re_handler_url :: string
  re_invoker_sa :: string
  re_enqueue :: "string \<Rightarrow> int \<Rightarrow> unit res"

definition request_finalization ::
  "('s \<Rightarrow> path \<Rightarrow> doc option) \<Rightarrow> ('s \<Rightarrow> write list \<Rightarrow> 's) \<Rightarrow> request_env \<Rightarrow> (nat \<Rightarrow> bool) \<Rightarrow> (nat \<Rightarrow> real) \<Rightarrow> (nat \<Rightarrow> int) \<Rightarrow>
   string \<Rightarrow> string \<Rightarrow> bool \<Rightarrow> processing_trigger \<Rightarrow> dict option \<Rightarrow> bool \<Rightarrow> int \<Rightarrow> 's \<Rightarrow>
   (finalization_intent \<times> route) res \<times> 's" where
  "request_finalization fetch commit re aborts rnd clock uid conversation_id has_byok_keys trigger extra_updates
     require_cloud_tasks now st =
     (let env = ie_env (re_intent re) in
      if require_cloud_tasks
         \<and> \<not> is_listen_finalization_dispatch_configured env (re_handler_url re) (re_invoker_sa re)
      then (Inl FinalizationDispatchUnavailable, st)
      else (case create_or_get_finalization_intent fetch commit (re_intent re) aborts rnd st uid conversation_id
                   has_byok_keys (finalization_admission_of conversation_id) clock trigger extra_updates of
          (Contention_Exhausted, st', ds) \<Rightarrow> (Inl FinalizationDispatchUnavailable, st')
        | (Bad_Max_Attempts, st', ds) \<Rightarrow> (Inl ValueError, st')
        | (Raised e, st', ds) \<Rightarrow> (Inl (case map_of (fst e) (snd e) of Some (c, _) \<Rightarrow> c | None \<Rightarrow> TypeError), st')
        | (Returned intent, st', ds) \<Rightarrow>
            (case intent_job_id intent of
               None \<Rightarrow> (Inr (intent, Noop), st')
             | Some job_id \<Rightarrow>
                 if intent_status intent \<in> {''missing'', ''no_content'', ''deferred'', ''completed'', ''dead_letter''}
                 then (Inr (intent, Noop), st')
                 else if intent_requires_byok intent then
                   (if \<not> has_byok_keys then (Inr (intent, Route_Blocked_Byok), st')
                    else (case resume_blocked_byok_job_for_live_session fetch commit st' job_id now of
                            (Inl e, st'') \<Rightarrow> (Inl e, st'')
                          | (Inr resumed, st'') \<Rightarrow> (Inr (resumed, Pusher), st'')))
                 else if \<not> is_listen_finalization_dispatch_enabled env then (Inr (intent, Pusher), st')
                 else (case re_enqueue re job_id (case intent_generation intent of None \<Rightarrow> 1 | Some g \<Rightarrow> if g = 0 then 1 else g) of
                         Inl e \<Rightarrow> (Inr (intent, Route_Queued), st')
                       | Inr u \<Rightarrow> (Inr (intent, Cloud_Tasks), st')))))"

subsection \<open>The status report\<close>

record finalization_status =
  fs_job_id :: string
  fs_status :: string
  fs_terminal :: bool
  fs_retryable :: bool
  fs_attempt_count :: int
  fs_task_retry_count :: int
  fs_meeting_eligible :: bool
  fs_terminal_outcome :: string
  fs_fanout_status :: string

definition get_finalization_job :: "(path \<Rightarrow> doc option) \<Rightarrow> string \<Rightarrow> doc option" where
  "get_finalization_job rd job_id = rd (job_ref job_id)"

definition get_finalization_status :: "(path \<Rightarrow> doc option) \<Rightarrow> string \<Rightarrow> string \<Rightarrow> finalization_status option res" where
  "get_finalization_status rd uid conversation_id =
     (case rd (conversation_ref uid conversation_id) of
        None \<Rightarrow> Inr None
      | Some conversation \<Rightarrow>
          (case as_str (dget conversation ''finalization_job_id'') of
             Some (c # cs) \<Rightarrow>
               (case get_finalization_job rd (c # cs) of
                  None \<Rightarrow> Inr None
                | Some job \<Rightarrow>
                    if job = Map.empty \<or> dget job ''uid'' \<noteq> PStr uid \<or> dget job ''conversation_id'' \<noteq> PStr conversation_id
                    then Inr None
                    else
                      let status = str_or job ''status'' ''unknown'';
                          outcome = str_or job ''terminal_outcome'' ''unknown'';
                          fanout = str_or job ''fanout_status'' ''unknown''
                      in res_bind (int_or job ''attempt_count'' 0) (\<lambda>attempts.
                         res_bind (int_or job ''task_retry_count'' 0) (\<lambda>retries.
                           Inr (Some
                             \<lparr>fs_job_id = c # cs, fs_status = status,
                              fs_terminal = (status \<in> set TERMINAL_JOB_STATUSES),
                              fs_retryable = (status = ''queued''),
                              fs_attempt_count = attempts, fs_task_retry_count = retries,
                              fs_meeting_eligible = truthy (dget job ''meeting_treatment_eligible''),
                              fs_terminal_outcome =
                                (if outcome \<in> {''success'', ''failure'', ''stale''} then outcome else ''unknown''),
                              fs_fanout_status =
                                (if fanout \<in> {''pending'', ''leased'', ''completed'', ''fenced''} then fanout else ''unknown'')\<rparr>))))
           | _ \<Rightarrow> Inr None))"

subsection \<open>The routes of a request\<close>

lemma py_int_errors: "py_int v = Inl e \<Longrightarrow> e \<in> {TypeError, ValueError}"
  by (cases v) (auto split: option.split_asm)

lemma int_or_errors: "int_or d k n = Inl e \<Longrightarrow> e \<in> {TypeError, ValueError}"
  by (simp only: int_or_def py_int_errors)

lemma intent_from_job_errors: "intent_from_job job_id job created = Inl e \<Longrightarrow> e \<in> {TypeError, ValueError}"
  by (auto simp: intent_from_job_def Let_def res_bind_def dest!: int_or_errors split: sum.split_asm)

lemma resume_errors:
  assumes "resume_blocked_byok_job_for_live_session fetch commit st job_id now = (Inl e, st')"
  shows "e \<in> {TypeError, ValueError} \<and> st' = st"
  using assms
  by (auto simp: resume_blocked_byok_job_for_live_session_def run_txn_def resume_blocked_byok_job_txn_def Let_def res_bind_def
      dest!: intent_from_job_errors split: sum.split_asm option.split_asm if_split_asm)

lemma request_routes:
  assumes call: "create_or_get_finalization_intent fetch commit (re_intent re) aborts rnd st uid cid byok
      (finalization_admission_of cid) clock trigger extra = (Returned intent, st1, ds)"
    and cfg: "\<not> require_cloud_tasks \<or> is_listen_finalization_dispatch_configured (ie_env (re_intent re)) (re_handler_url re) (re_invoker_sa re)"
    and job: "intent_job_id intent = Some jid" "intent_status intent \<notin> {''missing'', ''no_content'', ''deferred'', ''completed'', ''dead_letter''}"
  shows "request_finalization fetch commit re aborts rnd clock uid cid byok trigger extra require_cloud_tasks now st =
    (if intent_requires_byok intent then
       if \<not> byok then (Inr (intent, Route_Blocked_Byok), st1)
       else (case resume_blocked_byok_job_for_live_session fetch commit st1 jid now of
               (Inl e, st2) \<Rightarrow> (Inl e, st2) | (Inr resumed, st2) \<Rightarrow> (Inr (resumed, Pusher), st2))
     else if \<not> is_listen_finalization_dispatch_enabled (ie_env (re_intent re)) then (Inr (intent, Pusher), st1)
     else (case re_enqueue re jid (case intent_generation intent of None \<Rightarrow> 1 | Some g \<Rightarrow> if g = 0 then 1 else g) of
             Inl e \<Rightarrow> (Inr (intent, Route_Queued), st1) | Inr u \<Rightarrow> (Inr (intent, Cloud_Tasks), st1)))"
proof -
  have "(require_cloud_tasks \<and> \<not> is_listen_finalization_dispatch_configured (ie_env (re_intent re)) (re_handler_url re) (re_invoker_sa re))
      = False" using cfg by blast
  then show ?thesis
    unfolding request_finalization_def Let_def call by (simp only: if_False prod.case retry_result.case job option.case)
qed

subsection \<open>Properties\<close>

text \<open>
  A conversation that is being merged is admitted: the decision state has no branch for
  \<open>merging\<close> and falls back to a recording in progress, so the reducer accepts the request,
  although the transition table does not let a merging conversation become \<open>processing\<close>.
\<close>

lemma merging_conversation_admitted:
  assumes "dget c ''status'' = PStr ''merging''" "\<not> truthy (dget c ''discarded'')" "int_or c ''finalization_revision'' 0 = Inr rv"
  shows "\<exists>adm. finalization_admission_of cid c = Inr adm \<and> admission_accepted adm
    \<and> ''processing'' \<notin> set (allowed_targets ''merging'')"
  using assms
  by (simp add: finalization_admission_of_def finalization_fanout_key_def finalization_decision_state_def Let_def
      str_or_def py_or_def decide_finalization_def initial_state_def is_terminal_def admit_finalization_def decided_def TERMINAL_PHASES_def
      allowed_targets_def STATUS_TRANSITIONS_def)

text \<open>
  A request hands its job over on one route and reports it truthfully: a task is reported
  only for a job that needs no keys, with the dispatcher enabled and the task enqueued under
  the job's dispatch generation; a job that needs keys goes to the live session only when the
  session has them; and when the request is refused as unavailable nothing was written.
\<close>

lemma request_route_sound:
  assumes "request_finalization fetch commit re aborts rnd clock uid cid byok trigger extra require_cloud_tasks now st = (r, st')"
  shows "(\<forall>intent. r = Inr (intent, Cloud_Tasks) \<longrightarrow>
            \<not> intent_requires_byok intent \<and> is_listen_finalization_dispatch_enabled (ie_env (re_intent re))
            \<and> (\<exists>jid g. intent_job_id intent = Some jid \<and> re_enqueue re jid g = Inr ()
                 \<and> (\<forall>n. intent_generation intent = Some n \<and> n \<noteq> 0 \<longrightarrow> g = n)))
    \<and> (\<forall>intent. r = Inr (intent, Route_Blocked_Byok) \<longrightarrow> intent_requires_byok intent \<and> \<not> byok)
    \<and> (\<forall>intent. r = Inr (intent, Pusher) \<longrightarrow> byok \<or> \<not> is_listen_finalization_dispatch_enabled (ie_env (re_intent re)))
    \<and> (r = Inl FinalizationDispatchUnavailable \<longrightarrow> st' = st)"
proof -
  let ?bad = "require_cloud_tasks \<and> \<not> is_listen_finalization_dispatch_configured (ie_env (re_intent re)) (re_handler_url re) (re_invoker_sa re)"
  obtain r1 st1 ds where call: "create_or_get_finalization_intent fetch commit (re_intent re) aborts rnd st uid cid byok
      (finalization_admission_of cid) clock trigger extra = (r1, st1, ds)" by (cases "create_or_get_finalization_intent fetch commit (re_intent re) aborts rnd st uid cid byok
      (finalization_admission_of cid) clock trigger extra") auto
  have keep: "st1 = st" if "\<And>i. r1 \<noteq> Returned i" using create_call_shape [OF call] that by auto
  show ?thesis
  proof (cases "?bad \<or> (\<forall>i. r1 \<noteq> Returned i)")
    case True
    then have "(\<exists>e. r = Inl e) \<and> st' = st"
      using assms [unfolded request_finalization_def Let_def call prod.case] keep
      by (cases r1) (auto split: if_split_asm)
    then show ?thesis by auto
  next
    case False
    then obtain intent where r1: "r1 = Returned intent" and cfg: "\<not> ?bad" by auto
    show ?thesis
    proof (cases "\<exists>jid. intent_job_id intent = Some jid \<and> intent_status intent \<notin> {''missing'', ''no_content'', ''deferred'', ''completed'', ''dead_letter''}")
      case True
      then obtain jid where j: "intent_job_id intent = Some jid"
        "intent_status intent \<notin> {''missing'', ''no_content'', ''deferred'', ''completed'', ''dead_letter''}" by blast
      show ?thesis
        using assms cfg request_routes [OF call [unfolded r1] _ j, of require_cloud_tasks now]
        by (auto simp: j(1) dest!: resume_errors split: if_split_asm sum.split_asm prod.split_asm option.split_asm)
    next
      case False
      then have "r = Inr (intent, Noop)"
        using assms [unfolded request_finalization_def Let_def call prod.case r1 retry_result.case] cfg
        by (auto split: option.split_asm if_split_asm)
      then show ?thesis by simp
    qed
  qed
qed

end
