(* ===== verification/Paged_Sweep.thy ===== *)
theory Paged_Sweep
  imports Firestore
begin

text \<open>
  The paging loop that the three bounded sweeps of
  \<^verbatim>\<open>database/conversation_finalization_jobs.py\<close> share
  (\<^verbatim>\<open>get_stale_processing_orphan_candidates\<close>, \<^verbatim>\<open>get_abandoned_byok_job_candidates\<close>,
  \<^verbatim>\<open>get_meeting_receipt_backfill_candidates\<close>). They differ only in the query and in the test
  a row must pass; \<open>examine\<close> gives the candidate a row yields, if any. The query's result is a
  list of rows in the service's document order; a row carries its position key, its path and
  its document. \<open>locate\<close> finds the position of the document at a stored path.
\<close>

record 'k row =
  row_key :: 'k
  row_path :: string
  row_doc :: doc

record 'c sweep =
  candidates :: "'c list"
  resume_after_path :: "string option"
  exhausted :: bool

text \<open>\<open>query.start_after(cursor_snapshot)\<close>, or the whole result without a cursor.\<close>

definition start_after :: "('k::linorder) option \<Rightarrow> 'k row list \<Rightarrow> 'k row list" where
  "start_after cursor rows = (case cursor of None \<Rightarrow> rows | Some k \<Rightarrow> filter (\<lambda>r. k < row_key r) rows)"

text \<open>The loop over one page: collected candidates, rows scanned, path of the last row examined.\<close>

fun scan_page ::
  "('k row \<Rightarrow> 'c option) \<Rightarrow> nat \<Rightarrow> nat \<Rightarrow> 'k row list \<Rightarrow> 'c list \<Rightarrow> nat \<Rightarrow> string option \<Rightarrow>
   'c list \<times> nat \<times> string option" where
  "scan_page examine limit max_scan [] collected scanned last_path = (collected, scanned, last_path)"
| "scan_page examine limit max_scan (r # rs) collected scanned last_path =
     (if scanned + 1 > max_scan then (collected, scanned + 1, last_path)
      else case examine r of
        None \<Rightarrow> scan_page examine limit max_scan rs collected (scanned + 1) (Some (row_path r))
      | Some c \<Rightarrow>
          if length (collected @ [c]) \<ge> limit then (collected @ [c], scanned + 1, Some (row_path r))
          else scan_page examine limit max_scan rs (collected @ [c]) (scanned + 1) (Some (row_path r)))"

lemma scan_page_progress:
  "scan_page examine limit max_scan rs collected scanned last_path = (c', s', l') \<Longrightarrow> rs \<noteq> [] \<Longrightarrow> scanned < s'"
proof (induction rs arbitrary: collected scanned last_path)
  case (Cons r rs)
  then show ?case
    by (cases "rs = []") (fastforce split: if_split_asm option.split_asm)+
qed simp

function sweep_loop ::
  "('k::linorder row \<Rightarrow> 'c option) \<Rightarrow> 'k row list \<Rightarrow> nat \<Rightarrow> nat \<Rightarrow> nat \<Rightarrow> 'k option \<Rightarrow> 'c list \<Rightarrow> nat \<Rightarrow>
   string option \<Rightarrow> 'c list \<times> string option \<times> bool" where
  "sweep_loop examine rows page_size limit max_scan cursor collected scanned last_path =
     (if length collected < limit \<and> scanned < max_scan then
        let page = take page_size (start_after cursor rows) in
        if page = [] then (collected, last_path, True)
        else (case scan_page examine limit max_scan page collected scanned last_path of
                (collected', scanned', last_path') \<Rightarrow>
                  if scanned' > max_scan then (collected', last_path', False)
                  else if length page < page_size then (collected', last_path', True)
                  else sweep_loop examine rows page_size limit max_scan (Some (row_key (last page)))
                         collected' scanned' last_path')
      else (collected, last_path, False))"
  by pat_completeness auto
termination
proof (relation "measure (\<lambda>(_, _, _, _, max_scan, _, _, scanned, _). max_scan - scanned)", goal_cases)
  case 1
  show ?case by simp
next
  case (2 examine rows page_size limit max_scan cursor collected scanned last_path page c' y s' l')
  have "scan_page examine limit max_scan page collected scanned last_path = (c', s', l')" using 2(4,5) by simp
  then have "scanned < s'" using 2(3) by (rule scan_page_progress)
  with 2(1,6) show ?case by simp
qed

declare sweep_loop.simps [simp del]

definition page_size_of :: "nat \<Rightarrow> nat" where
  "page_size_of limit = max 1 (min limit 100)"

text \<open>One sweep: the stored cursor is looked up, and a vanished cursor starts from the top.\<close>

definition resume_cursor :: "(string \<Rightarrow> 'k option) \<Rightarrow> string option \<Rightarrow> 'k option" where
  "resume_cursor locate resume = (case resume of Some (c # cs) \<Rightarrow> locate (c # cs) | _ \<Rightarrow> None)"

definition run_sweep ::
  "('k::linorder row \<Rightarrow> 'c option) \<Rightarrow> 'k row list \<Rightarrow> (string \<Rightarrow> 'k option) \<Rightarrow> nat \<Rightarrow> nat \<Rightarrow> string option \<Rightarrow> 'c sweep" where
  "run_sweep examine rows locate limit max_scan resume =
     (let cursor = resume_cursor locate resume in
      case sweep_loop examine rows (page_size_of limit) limit max_scan cursor [] 0 None of
        (collected, last_path, ex) \<Rightarrow>
          \<lparr>candidates = collected, resume_after_path = (if ex then None else last_path), exhausted = ex\<rparr>)"

text \<open>The caller's rotation: a sweep starts where the one before it stopped, the next from the top.\<close>

fun sweeps ::
  "('k::linorder row \<Rightarrow> 'c option) \<Rightarrow> 'k row list \<Rightarrow> (string \<Rightarrow> 'k option) \<Rightarrow> nat \<Rightarrow> nat \<Rightarrow> nat \<Rightarrow> string option \<Rightarrow> 'c list" where
  "sweeps examine rows locate limit max_scan 0 resume = []"
| "sweeps examine rows locate limit max_scan (Suc n) resume =
     (let s = run_sweep examine rows locate limit max_scan resume in
      candidates s @ sweeps examine rows locate limit max_scan n
        (if exhausted s then None else resume_after_path s))"

subsection \<open>What a sweep examines\<close>

text \<open>
  Below, \<open>found\<close> is the list of candidates a complete pass would collect. A sweep that does not
  reach \<open>limit\<close> collects exactly those of the first \<open>max_scan\<close> rows after its cursor.
\<close>

definition found :: "('k row \<Rightarrow> 'c option) \<Rightarrow> 'k row list \<Rightarrow> 'c list" where
  "found examine rows = List.map_filter examine rows"

lemma found_simps [simp]:
  "found examine [] = []"
  "found examine (r # rs) = (case examine r of None \<Rightarrow> found examine rs | Some c \<Rightarrow> c # found examine rs)"
  "found examine (rs @ rs') = found examine rs @ found examine rs'"
  by (simp_all add: found_def List.map_filter_def split: option.split)

lemma found_take_le: "length (found examine (take n rs)) \<le> length (found examine rs)"
proof -
  have "found examine rs = found examine (take n rs) @ found examine (drop n rs)"
    by (metis append_take_drop_id found_simps(3))
  then show ?thesis by (metis le_add1 length_append)
qed

lemma scan_page_all:
  assumes "length collected + length (found examine rs) < limit" "scanned \<le> max_scan"
  shows "scan_page examine limit max_scan rs collected scanned last_path =
    (collected @ found examine (take (max_scan - scanned) rs),
     (if length rs \<le> max_scan - scanned then scanned + length rs else max_scan + 1),
     (if take (max_scan - scanned) rs = [] then last_path
      else Some (row_path (last (take (max_scan - scanned) rs)))))"
  using assms
proof (induction rs arbitrary: collected scanned last_path)
  case Nil
  then show ?case by simp
next
  case (Cons r rs)
  show ?case
  proof (cases "scanned + 1 > max_scan")
    case True
    with Cons.prems show ?thesis by simp
  next
    case False
    then obtain m where m: "max_scan - scanned = Suc m" "max_scan - (scanned + 1) = m" by (cases "max_scan - scanned") auto
    show ?thesis
    proof (cases "examine r")
      case None
      with False Cons.prems m Cons.IH [of collected "scanned + 1" "Some (row_path r)"] show ?thesis
        by (auto simp: not_less)
    next
      case (Some c)
      with False Cons.prems m Cons.IH [of "collected @ [c]" "scanned + 1" "Some (row_path r)"] show ?thesis
        by (auto simp: not_less)
    qed
  qed
qed

lemma start_after_last:
  assumes "sorted_wrt (<) (map row_key rows)" "0 < n" "n \<le> length (start_after cursor rows)"
  shows "start_after (Some (row_key (last (take n (start_after cursor rows))))) rows = drop n (start_after cursor rows)"
proof -
  let ?A = "start_after cursor rows"
  have sA: "sorted_wrt (<) (map row_key ?A)"
    using assms(1) by (auto simp: start_after_def sorted_wrt_map intro: sorted_wrt_filter split: option.split)
  define k where "k = row_key (?A ! (n - 1))"
  have k: "row_key (last (take n ?A)) = k"
    using assms(2,3) unfolding k_def by (subst last_conv_nth) (auto simp: min_def)
  have "filter (\<lambda>r. k < row_key r) rows = filter (\<lambda>r. k < row_key r) ?A"
  proof (cases cursor)
    case (Some k')
    have "?A ! (n - 1) \<in> set ?A" using assms(2,3) by simp
    then have "k' < k" using Some by (simp add: k_def start_after_def)
    then show ?thesis using Some by (auto simp: start_after_def intro!: filter_cong)
  qed (simp add: start_after_def)
  moreover have "filter (\<lambda>r. k < row_key r) ?A = drop n ?A"
  proof -
    have lo: "\<forall>r \<in> set (take n ?A). \<not> k < row_key r"
    proof
      fix r assume "r \<in> set (take n ?A)"
      then obtain i where i: "i < n" "i < length ?A" "r = ?A ! i" by (auto simp: in_set_conv_nth)
      then have "i < n - 1 \<or> i = n - 1" by auto
      moreover have "n - 1 < length ?A" using assms(2,3) by simp
      ultimately show "\<not> k < row_key r"
        using i sorted_wrt_nth_less [OF sA, of i "n - 1"] assms(2,3) by (auto simp: k_def)
    qed
    have hi: "\<forall>r \<in> set (drop n ?A). k < row_key r"
    proof
      fix r assume "r \<in> set (drop n ?A)"
      then obtain i where i: "n + i < length ?A" "r = ?A ! (n + i)" 
        by (auto simp: in_set_conv_nth less_diff_conv add.commute) (metis add.commute)
      then show "k < row_key r"
        using sorted_wrt_nth_less [OF sA, of "n - 1" "n + i"] assms(2) by (simp add: k_def)
    qed
    have "filter (\<lambda>r. k < row_key r) ?A = filter (\<lambda>r. k < row_key r) (take n ?A @ drop n ?A)" by simp
    also have "\<dots> = drop n ?A" using lo hi by (simp only: filter_append) (simp add: filter_empty_conv filter_id_conv)
    finally show ?thesis .
  qed
  moreover have "start_after (Some k) rows = filter (\<lambda>r. k < row_key r) rows" by (simp add: start_after_def)
  ultimately show ?thesis by (simp only: k)
qed

lemma sweep_loop_step:
  assumes "length collected < limit" "scanned < max_scan" "take page_size (start_after cursor rows) = page" "page \<noteq> []"
    and "scan_page examine limit max_scan page collected scanned last_path = (c', s', l')"
  shows "sweep_loop examine rows page_size limit max_scan cursor collected scanned last_path =
    (if s' > max_scan then (c', l', False) else if length page < page_size then (c', l', True)
     else sweep_loop examine rows page_size limit max_scan (Some (row_key (last page))) c' s' l')"
  using assms by (simp add: sweep_loop.simps [of _ _ _ _ _ cursor])

lemma sweep_loop_all:
  assumes sorted: "sorted_wrt (<) (map row_key rows)" and ps: "0 < page_size"
    and "length collected + length (found examine (start_after cursor rows)) < limit" "scanned \<le> max_scan"
  shows "\<exists>ex. sweep_loop examine rows page_size limit max_scan cursor collected scanned last_path =
      (collected @ found examine (take (max_scan - scanned) (start_after cursor rows)),
       (if take (max_scan - scanned) (start_after cursor rows) = [] then last_path
        else Some (row_path (last (take (max_scan - scanned) (start_after cursor rows))))), ex)
    \<and> (if ex then length (start_after cursor rows) \<le> max_scan - scanned
       else max_scan - scanned \<le> length (start_after cursor rows))"
  using assms(3,4)
proof (induction "max_scan - scanned" arbitrary: cursor collected scanned last_path rule: less_induct)
  case less
  let ?A = "start_after cursor rows"
  let ?page = "take page_size ?A"
  have lim: "length collected < limit" using less.prems(1) by simp
  show ?case
  proof (cases "scanned < max_scan")
    case False
    with less.prems show ?thesis by (auto simp: sweep_loop.simps [of _ _ _ _ _ cursor])
  next
    case True
    show ?thesis
    proof (cases "?A = []")
      case True
      with ps \<open>scanned < max_scan\<close> lim show ?thesis by (auto simp: sweep_loop.simps [of _ _ _ _ _ cursor])
    next
      case False
      have "length collected + length (found examine ?page) < limit"
        using less.prems(1) found_take_le [of examine page_size ?A] by simp
      note sp = scan_page_all [OF this less.prems(2), of last_path]
      have "?page \<noteq> []" using False ps by simp
      note step = sweep_loop_step [OF lim True refl this sp]
      consider (over) "max_scan - scanned < length ?page" | (tail) "length ?page \<le> max_scan - scanned" "length ?A < page_size"
        | (full) "length ?page \<le> max_scan - scanned \<and> page_size \<le> length ?A" by linarith
      then show ?thesis
      proof cases
        case over
        then have "take (max_scan - scanned) ?page = take (max_scan - scanned) ?A" "max_scan - scanned \<le> length ?A"
          by (simp_all add: min_def split: if_split_asm)
        with over show ?thesis using step True \<open>?page \<noteq> []\<close> by auto
      next
        case tail
        then have "?page = ?A" by simp
        with tail show ?thesis using step True \<open>?A \<noteq> []\<close> by auto
      next
        case full
        define A' where "A' = start_after (Some (row_key (last ?page))) rows"
        have A': "A' = drop page_size ?A" unfolding A'_def using start_after_last [OF sorted ps] full by blast
        have B: "take (max_scan - scanned) ?A = ?page @ take (max_scan - (scanned + page_size)) A'"
        proof -
          have "max_scan - scanned = page_size + (max_scan - (scanned + page_size))" using full True by (auto simp: min_def split: if_splits)
          then show ?thesis unfolding A' by (metis take_add)
        qed
        have fnd: "found examine ?A = found examine ?page @ found examine A'"
          by (metis A' append_take_drop_id found_simps(3))
        have "max_scan - (scanned + page_size) < max_scan - scanned" using ps True by simp
        moreover have "length (collected @ found examine ?page) + length (found examine A') < limit"
          using less.prems(1) fnd by simp
        moreover have "scanned + page_size \<le> max_scan" using full True by (auto simp: min_def split: if_splits)
        ultimately obtain ex where rec: "sweep_loop examine rows page_size limit max_scan (Some (row_key (last ?page)))
            (collected @ found examine ?page) (scanned + page_size) (Some (row_path (last ?page))) =
            ((collected @ found examine ?page) @ found examine (take (max_scan - (scanned + page_size)) A'),
             (if take (max_scan - (scanned + page_size)) A' = [] then Some (row_path (last ?page))
              else Some (row_path (last (take (max_scan - (scanned + page_size)) A')))), ex)"
          and ex: "if ex then length A' \<le> max_scan - (scanned + page_size) else max_scan - (scanned + page_size) \<le> length A'"
          unfolding A'_def using less.hyps [of "scanned + page_size" "collected @ found examine ?page"
              "Some (row_key (last ?page))" "Some (row_path (last ?page))"] by blast
        have lp: "length ?page = page_size" "page_size \<le> max_scan - scanned" using full by (elim conjE, simp)+
        have tp: "take (max_scan - scanned) ?page = ?page" using lp by (intro take_all) simp
        have "\<not> max_scan < scanned + page_size" using lp(2) True by simp
        then have "sweep_loop examine rows page_size limit max_scan cursor collected scanned last_path =
            sweep_loop examine rows page_size limit max_scan (Some (row_key (last ?page)))
              (collected @ found examine ?page) (scanned + page_size) (Some (row_path (last ?page)))"
          using step lp \<open>?page \<noteq> []\<close> by (simp only: tp if_True if_False order_refl less_irrefl)
        moreover have "if ex then length ?A \<le> max_scan - scanned else max_scan - scanned \<le> length ?A"
          using ex lp(2) conjunct2 [OF full] by (cases ex) (simp_all add: A')
        ultimately show ?thesis
          using rec \<open>?page \<noteq> []\<close> unfolding B by (intro exI [of _ ex]) simp
      qed
    qed
  qed
qed

subsection \<open>Repeated sweeps\<close>

lemma found_start_after: "length (found examine (start_after cursor rows)) \<le> length (found examine rows)"
proof -
  have "length (found examine (filter P rows)) \<le> length (found examine rows)" for P
    by (induction rows) (auto split: option.split)
  then show ?thesis by (simp add: start_after_def split: option.split)
qed

lemma run_sweep_all:
  fixes locate :: "string \<Rightarrow> ('k::linorder) option"
  assumes sorted: "sorted_wrt (<) (map row_key rows)" and few: "length (found examine rows) < limit" and ms: "0 < max_scan"
  defines "A \<equiv> \<lambda>resume. start_after (resume_cursor locate resume) rows"
  shows "candidates (run_sweep examine rows locate limit max_scan resume) = found examine (take max_scan (A resume))"
    and "exhausted (run_sweep examine rows locate limit max_scan resume) \<Longrightarrow> length (A resume) \<le> max_scan"
    and "\<not> exhausted (run_sweep examine rows locate limit max_scan resume) \<Longrightarrow> max_scan \<le> length (A resume)
      \<and> resume_after_path (run_sweep examine rows locate limit max_scan resume)
        = Some (row_path (last (take max_scan (A resume))))"
proof -
  have "0 < page_size_of limit" by (simp add: page_size_of_def)
  moreover have "length [] + length (found examine (start_after (resume_cursor locate resume) rows)) < limit"
    using found_start_after [of examine "resume_cursor locate resume" rows] few by simp
  ultimately obtain ex where
    l: "sweep_loop examine rows (page_size_of limit) limit max_scan (resume_cursor locate resume) [] 0 None =
      (found examine (take max_scan (A resume)),
       (if take max_scan (A resume) = [] then None else Some (row_path (last (take max_scan (A resume))))), ex)"
    and ex: "if ex then length (A resume) \<le> max_scan else max_scan \<le> length (A resume)"
    using sweep_loop_all [OF sorted, of "page_size_of limit" "[]" examine "resume_cursor locate resume" limit 0 max_scan None]
    unfolding A_def append_Nil minus_nat.diff_0 by blast
  show "candidates (run_sweep examine rows locate limit max_scan resume) = found examine (take max_scan (A resume))"
    "exhausted (run_sweep examine rows locate limit max_scan resume) \<Longrightarrow> length (A resume) \<le> max_scan"
    "\<not> exhausted (run_sweep examine rows locate limit max_scan resume) \<Longrightarrow> max_scan \<le> length (A resume)
      \<and> resume_after_path (run_sweep examine rows locate limit max_scan resume)
        = Some (row_path (last (take max_scan (A resume))))"
    using l ex ms by (auto simp: run_sweep_def)
qed

lemma run_sweep_next:
  assumes sorted: "sorted_wrt (<) (map row_key rows)" and few: "length (found examine rows) < limit" and ms: "0 < max_scan"
    and loc: "\<forall>r \<in> set rows. row_path r \<noteq> [] \<and> locate (row_path r) = Some (row_key r)"
    and more: "\<not> exhausted (run_sweep examine rows locate limit max_scan resume)"
  shows "max_scan \<le> length (start_after (resume_cursor locate resume) rows)
    \<and> start_after (resume_cursor locate (resume_after_path (run_sweep examine rows locate limit max_scan resume))) rows
        = drop max_scan (start_after (resume_cursor locate resume) rows)"
proof -
  let ?A = "start_after (resume_cursor locate resume) rows"
  define r where "r = last (take max_scan ?A)"
  have len: "max_scan \<le> length ?A"
    and res: "resume_after_path (run_sweep examine rows locate limit max_scan resume) = Some (row_path r)"
    using run_sweep_all(3) [OF sorted few ms, where locate = locate and resume = resume] more by (simp_all add: r_def)
  have "r \<in> set (take max_scan ?A)" unfolding r_def using len ms by (intro last_in_set) auto
  then have "r \<in> set rows" by (auto dest!: in_set_takeD simp: start_after_def split: option.splits)
  with loc have cur: "resume_cursor locate (Some (row_path r)) = Some (row_key r)"
    by (auto simp: resume_cursor_def neq_Nil_conv)
  show ?thesis unfolding res cur unfolding r_def using start_after_last [OF sorted ms len] len by blast
qed

lemma sweeps_cover:
  assumes sorted: "sorted_wrt (<) (map row_key rows)" and few: "length (found examine rows) < limit" and ms: "0 < max_scan"
    and loc: "\<forall>r \<in> set rows. row_path r \<noteq> [] \<and> locate (row_path r) = Some (row_key r)"
    and n: "length (start_after (resume_cursor locate resume) rows) < n * max_scan"
  shows "set (found examine (start_after (resume_cursor locate resume) rows))
    \<subseteq> set (sweeps examine rows locate limit max_scan n resume)"
  using n
proof (induction n arbitrary: resume)
  case 0
  then show ?case by simp
next
  case (Suc n)
  let ?s = "run_sweep examine rows locate limit max_scan resume"
  let ?A = "start_after (resume_cursor locate resume) rows"
  note all = run_sweep_all [OF sorted few ms, where locate = locate and resume = resume]
  show ?case
  proof (cases "exhausted ?s")
    case True
    with all(1,2) show ?thesis by (simp add: Let_def)
  next
    case False
    from run_sweep_next [OF sorted few ms loc False] have len: "max_scan \<le> length ?A"
      and A': "start_after (resume_cursor locate (resume_after_path ?s)) rows = drop max_scan ?A" by simp_all
    have "set (found examine (drop max_scan ?A)) \<subseteq> set (sweeps examine rows locate limit max_scan n (resume_after_path ?s))"
      using Suc.IH [of "resume_after_path ?s"] Suc.prems len by (simp add: A')
    moreover have "found examine ?A = found examine (take max_scan ?A) @ found examine (drop max_scan ?A)"
      by (metis append_take_drop_id found_simps(3))
    ultimately show ?thesis using False all(1) by (auto simp: Let_def)
  qed
qed

text \<open>From any stored position the rotation wraps, so enough sweeps pass the whole collection.\<close>

lemma sweeps_cover_all:
  assumes sorted: "sorted_wrt (<) (map row_key rows)" and few: "length (found examine rows) < limit" and ms: "0 < max_scan"
    and loc: "\<forall>r \<in> set rows. row_path r \<noteq> [] \<and> locate (row_path r) = Some (row_key r)"
    and m: "length rows < m * max_scan" and n: "length (start_after (resume_cursor locate resume) rows) < n * max_scan"
  shows "set (found examine rows) \<subseteq> set (sweeps examine rows locate limit max_scan (n + m) resume)"
  using n
proof (induction n arbitrary: resume)
  case 0
  then show ?case by simp
next
  case (Suc n)
  let ?s = "run_sweep examine rows locate limit max_scan resume"
  show ?case
  proof (cases "exhausted ?s")
    case True
    have "length rows < (n + m) * max_scan" using m by (simp add: add_mult_distrib)
    then have "set (found examine rows) \<subseteq> set (sweeps examine rows locate limit max_scan (n + m) None)"
      using sweeps_cover [OF sorted few ms loc, where resume = None] by (simp add: resume_cursor_def start_after_def)
    with True show ?thesis by (auto simp: Let_def)
  next
    case False
    have "set (found examine rows) \<subseteq> set (sweeps examine rows locate limit max_scan (n + m) (resume_after_path ?s))"
      using Suc.IH [of "resume_after_path ?s"] Suc.prems run_sweep_next [OF sorted few ms loc False] by (elim conjE) simp
    with False show ?thesis by (auto simp: Let_def)
  qed
qed

text \<open>Whatever a sweep returns comes from a row of the query that passed the test.\<close>

lemma scan_page_sound:
  "scan_page examine limit max_scan rs collected scanned last_path = (c', s', l') \<Longrightarrow>
   set c' \<subseteq> set collected \<union> set (found examine rs)"
  by (induction examine limit max_scan rs collected scanned last_path rule: scan_page.induct)
    (auto split: if_split_asm option.split_asm)

lemma found_set: "c \<in> set (found examine rs) \<longleftrightarrow> (\<exists>r \<in> set rs. examine r = Some c)"
  by (induction rs) (auto split: option.split)

lemma sweep_loop_sound:
  "sweep_loop examine rows page_size limit max_scan cursor collected scanned last_path = (c', l', ex) \<Longrightarrow>
   set c' \<subseteq> set collected \<union> set (found examine rows)"
proof (induction examine rows page_size limit max_scan cursor collected scanned last_path rule: sweep_loop.induct)
  case (1 examine rows page_size limit max_scan cursor collected scanned last_path)
  let ?page = "take page_size (start_after cursor rows)"
  obtain c1 s1 l1 where sp: "scan_page examine limit max_scan ?page collected scanned last_path = (c1, s1, l1)"
    by (metis prod_cases3)
  have "set ?page \<subseteq> set rows" by (auto dest!: in_set_takeD simp: start_after_def split: option.splits)
  then have "set c1 \<subseteq> set collected \<union> set (found examine rows)"
    using scan_page_sound [OF sp] by (fastforce simp: found_set)
  then show ?case
    using "1.prems" "1.IH" [OF _ refl _ sp [symmetric] refl] sp
    by (subst (asm) sweep_loop.simps) (fastforce simp: Let_def split: if_split_asm)
qed

lemma run_sweep_sound:
  "c \<in> set (candidates (run_sweep examine rows locate limit max_scan resume)) \<Longrightarrow> \<exists>r \<in> set rows. examine r = Some c"
  using sweep_loop_sound [of examine rows "page_size_of limit" limit max_scan "resume_cursor locate resume" "[]" 0 None]
  by (fastforce simp: run_sweep_def Let_def found_set split: prod.splits)

end
