(* ===== verification/Finalization_Sweep.thy ===== *)
theory Finalization_Sweep
  imports Lease_Fencing Paged_Sweep
begin

text \<open>
  The bounded sweeps of \<^verbatim>\<open>database/conversation_finalization_jobs.py\<close> (stale processing
  conversations, abandoned user-key jobs, receipt back-fill), their persisted compare-and-swap
  cursors, and the job summary read from the projection shards.
\<close>

subsection \<open>Candidate tests\<close>

text \<open>The id of a snapshot is the last segment of its path.\<close>

definition snapshot_id :: "string \<Rightarrow> string" where
  "snapshot_id p = last (py_split (CHR ''/'') p)"

record orphan_candidate =
  orphan_uid :: string
  orphan_conversation_id :: string
  orphan_admitted_at :: "int option"
  orphan_legacy :: bool

definition orphan_examine :: "int \<Rightarrow> 'k row \<Rightarrow> orphan_candidate option" where
  "orphan_examine cutoff r =
     (case uid_from_conversation_path (row_path r) of
        None \<Rightarrow> None
      | Some uid \<Rightarrow>
          let data = row_doc r;
              candidate = (\<lambda>admitted legacy. Some \<lparr>orphan_uid = uid, orphan_conversation_id = snapshot_id (row_path r),
                             orphan_admitted_at = admitted, orphan_legacy = legacy\<rparr>)
          in if truthy (dget data ''deferred'') \<or> truthy (dget data ''finalization_job_id'') then None
             else (case as_time (dget data ''processing_admitted_at'') of
                     Some t \<Rightarrow> if t > cutoff then None else candidate (Some t) False
                   | None \<Rightarrow> candidate None True))"

definition get_stale_processing_orphan_candidates ::
  "'k::linorder row list \<Rightarrow> (string \<Rightarrow> 'k option) \<Rightarrow> int \<Rightarrow> int \<Rightarrow> nat \<Rightarrow> nat \<Rightarrow> string option \<Rightarrow> orphan_candidate sweep" where
  "get_stale_processing_orphan_candidates conversations locate now stale_after limit max_scan resume =
     run_sweep (orphan_examine (now - stale_after))
       (filter (\<lambda>r. dget (row_doc r) ''status'' = PStr ''processing'') conversations) locate limit max_scan resume"

record byok_candidate =
  byok_job_id :: string
  byok_job :: doc
  byok_last_activity_at :: int

definition byok_examine :: "int \<Rightarrow> int \<Rightarrow> 'k row \<Rightarrow> byok_candidate option" where
  "byok_examine now cutoff r =
     (let job = row_doc r; status = str_or job ''status'' [] in
      if status \<notin> {''queued'', ''leased''} then None
      else if status = ''leased'' \<and>
          (case as_time (dget job ''lease_expires_at'') of None \<Rightarrow> False | Some t \<Rightarrow> t > now) then None
      else (case job_last_activity_at job of
              None \<Rightarrow> None
            | Some t \<Rightarrow> if t > cutoff then None
                else Some \<lparr>byok_job_id = snapshot_id (row_path r), byok_job = job, byok_last_activity_at = t\<rparr>))"

definition get_abandoned_byok_job_candidates ::
  "'k::linorder row list \<Rightarrow> (string \<Rightarrow> 'k option) \<Rightarrow> int \<Rightarrow> int \<Rightarrow> nat \<Rightarrow> nat \<Rightarrow> string option \<Rightarrow> byok_candidate sweep" where
  "get_abandoned_byok_job_candidates jobs locate now abandoned_after limit max_scan resume =
     run_sweep (byok_examine now (now - abandoned_after))
       (filter (\<lambda>r. dget (row_doc r) ''requires_byok'' = PBool True) jobs) locate limit max_scan resume"

text \<open>
  \<open>data.get('external_data') or {}\<close> must be a mapping whose role is a meeting; an enumeration
  value of \<open>source\<close> is stored as its string.
\<close>

definition conversation_role :: "pyval \<Rightarrow> pyval" where
  "conversation_role v =
     (case py_or v (PDict []) of
        PDict kvs \<Rightarrow> (case map_of kvs ''conversation_role'' of None \<Rightarrow> PNone | Some w \<Rightarrow> w)
      | _ \<Rightarrow> PNone)"

record backfill_candidate =
  backfill_uid :: string
  backfill_conversation_id :: string
  backfill_conversation :: doc

definition backfill_examine :: "'k row \<Rightarrow> backfill_candidate option" where
  "backfill_examine r =
     (case uid_from_conversation_path (row_path r) of
        None \<Rightarrow> None
      | Some uid \<Rightarrow>
          let data = row_doc r in
          if dget data ''source'' \<noteq> PStr ''desktop''
             \<or> conversation_role (dget data ''external_data'') \<noteq> PStr ''meeting''
             \<or> truthy (dget data ''meeting_treatment_reason'') then None
          else Some \<lparr>backfill_uid = uid, backfill_conversation_id = snapshot_id (row_path r),
                     backfill_conversation = data(''id'' \<mapsto> PStr (snapshot_id (row_path r)))\<rparr>)"

definition get_meeting_receipt_backfill_candidates ::
  "'k::linorder row list \<Rightarrow> (string \<Rightarrow> 'k option) \<Rightarrow> nat \<Rightarrow> nat \<Rightarrow> string option \<Rightarrow> backfill_candidate sweep" where
  "get_meeting_receipt_backfill_candidates conversations locate limit max_scan resume =
     run_sweep backfill_examine
       (filter (\<lambda>r. dget (row_doc r) ''status'' = PStr ''completed'') conversations) locate limit max_scan resume"

text \<open>
  The due query of receipts: eligible, without an intent, past their reconcile time; an absent
  field never satisfies an equality filter.
\<close>

definition get_meeting_receipt_reconcile_candidates :: "(string \<times> doc) list \<Rightarrow> int \<Rightarrow> int \<Rightarrow> (string \<times> doc) list" where
  "get_meeting_receipt_reconcile_candidates rows now limit =
     take (nat (max 1 (min limit 100)))
       (filter (\<lambda>(j, d). d ''meeting_treatment_eligible'' = Some (PBool True)
                  \<and> d ''meeting_receipt_intent_id'' = Some PNone
                  \<and> (case d ''meeting_receipt_reconcile_after_at'' of Some (PTime t) \<Rightarrow> t \<le> now | _ \<Rightarrow> False)) rows)"

subsection \<open>Cursors\<close>

definition sweep_state_path :: "string \<Rightarrow> path" where
  "sweep_state_path d = [''conversation_recovery_state'', d]"

text \<open>\<open>int(data.get('generation', 0))\<close>: the default stands for an absent key only.\<close>

definition cursor_generation :: "doc \<Rightarrow> int res" where
  "cursor_generation data = (case data ''generation'' of None \<Rightarrow> Inr 0 | Some v \<Rightarrow> py_int v)"

definition get_sweep_cursor :: "string \<Rightarrow> (path \<Rightarrow> doc option) \<Rightarrow> (string option \<times> int) res" where
  "get_sweep_cursor state_doc rd =
     (case rd (sweep_state_path state_doc) of
        None \<Rightarrow> Inr (None, 0)
      | Some data \<Rightarrow> res_bind (cursor_generation data) (\<lambda>g. Inr (as_str (dget data ''resume_after_path''), g)))"

definition advance_sweep_cursor_txn ::
  "string \<Rightarrow> int \<Rightarrow> string option \<Rightarrow> int \<Rightarrow> (path \<Rightarrow> doc option) \<Rightarrow> (bool \<times> write list) res" where
  "advance_sweep_cursor_txn state_doc expected_generation new_resume_after_path now rd =
     res_bind (case rd (sweep_state_path state_doc) of None \<Rightarrow> Inr 0 | Some data \<Rightarrow> cursor_generation data)
       (\<lambda>current_generation.
          if current_generation \<noteq> expected_generation then Inr (False, [])
          else Inr (True,
            [SetDoc (sweep_state_path state_doc)
               [(''resume_after_path'', Put (case new_resume_after_path of None \<Rightarrow> PNone | Some p \<Rightarrow> PStr p)),
                (''generation'', Put (PInt (current_generation + 1))),
                (''updated_at'', Put (PTime now))]]))"

definition get_stale_processing_sweep_cursor where
  "get_stale_processing_sweep_cursor = get_sweep_cursor ''stale_processing_sweep''"

definition advance_stale_processing_sweep_cursor_txn where
  "advance_stale_processing_sweep_cursor_txn = advance_sweep_cursor_txn ''stale_processing_sweep''"

definition get_meeting_receipt_backfill_cursor where
  "get_meeting_receipt_backfill_cursor = get_sweep_cursor ''meeting_receipt_backfill_sweep''"

definition advance_meeting_receipt_backfill_cursor_txn where
  "advance_meeting_receipt_backfill_cursor_txn = advance_sweep_cursor_txn ''meeting_receipt_backfill_sweep''"

definition get_byok_abandonment_sweep_cursor where
  "get_byok_abandonment_sweep_cursor = get_sweep_cursor ''byok_abandonment_sweep''"

definition advance_byok_abandonment_sweep_cursor_txn where
  "advance_byok_abandonment_sweep_cursor_txn = advance_sweep_cursor_txn ''byok_abandonment_sweep''"

text \<open>
  The contract of a shared cursor: an advance that holds the current generation succeeds,
  stores the new position and bumps the generation; any other advance changes nothing.
\<close>

locale cas_cursor =
  fixes read :: "(path \<Rightarrow> doc option) \<Rightarrow> (string option \<times> int) res"
    and advance :: "int \<Rightarrow> string option \<Rightarrow> int \<Rightarrow> (path \<Rightarrow> doc option) \<Rightarrow> (bool \<times> write list) res"
  assumes hit: "read rd = Inr (p, g) \<Longrightarrow>
      \<exists>ws. advance g q now rd = Inr (True, ws) \<and> writes_ok rd ws \<and> read (after_view ws rd) = Inr (q, g + 1)"
    and miss: "read rd = Inr (p, g') \<Longrightarrow> g' \<noteq> g \<Longrightarrow> advance g q now rd = Inr (False, [])"
begin

text \<open>Of two pods that read the same generation, the second to advance is refused.\<close>

lemma one_winner:
  assumes "read rd = Inr (p, g)" "advance g q now rd = Inr (b, ws)"
  shows "b \<and> read (after_view ws rd) = Inr (q, g + 1) \<and> advance g q' now' (after_view ws rd) = Inr (False, [])"
proof -
  obtain ws' where "advance g q now rd = Inr (True, ws')" "read (after_view ws' rd) = Inr (q, g + 1)"
    using hit [OF assms(1)] by blast
  then show ?thesis using assms(2) miss [of "after_view ws rd" q "g + 1" g q' now'] by simp
qed

text \<open>A sequence of attempted advances, each with the generation its pod read some time ago.\<close>

fun attempts :: "(int \<times> string option \<times> int) list \<Rightarrow> (path \<Rightarrow> doc option) \<Rightarrow> (path \<Rightarrow> doc option)" where
  "attempts [] rd = rd"
| "attempts ((g, q, now) # rest) rd =
     attempts rest (case advance g q now rd of Inl e \<Rightarrow> rd | Inr (b, ws) \<Rightarrow> after_view ws rd)"

lemma generation_monotone: "read rd = Inr (p, g) \<Longrightarrow> \<exists>p' g'. read (attempts as rd) = Inr (p', g') \<and> g \<le> g'"
proof (induction "as" rd arbitrary: p g rule: attempts.induct)
  case (1 rd)
  then show ?case by simp
next
  case (2 g0 q now rest rd)
  show ?case
  proof (cases "g0 = g")
    case True
    with hit [OF "2.prems", of q now] obtain ws where
      "advance g0 q now rd = Inr (True, ws)" "read (after_view ws rd) = Inr (q, g + 1)" by blast
    with "2.IH" [of q "g + 1"] show ?thesis by fastforce
  next
    case False
    with miss [OF "2.prems"] have "advance g0 q now rd = Inr (False, [])" by auto
    with "2.IH" "2.prems" show ?thesis by simp
  qed
qed

end

lemma cas_cursor_sweep: "cas_cursor (get_sweep_cursor d) (advance_sweep_cursor_txn d)"
proof
  fix rd p g q now
  assume "get_sweep_cursor d rd = Inr (p, g)"
  then have "(case rd (sweep_state_path d) of None \<Rightarrow> Inr 0 | Some data \<Rightarrow> cursor_generation data) = Inr g"
    by (auto simp: get_sweep_cursor_def split: option.splits)
  then show "\<exists>ws. advance_sweep_cursor_txn d g q now rd = Inr (True, ws) \<and> writes_ok rd ws \<and>
      get_sweep_cursor d (after_view ws rd) = Inr (q, g + 1)"
    by (simp add: advance_sweep_cursor_txn_def get_sweep_cursor_def after_view_def cursor_generation_def dget_def
        split: option.split)
next
  fix rd p g' g q now
  assume "get_sweep_cursor d rd = Inr (p, g')" "g' \<noteq> g"
  then show "advance_sweep_cursor_txn d g q now rd = Inr (False, [])"
    by (auto simp: advance_sweep_cursor_txn_def get_sweep_cursor_def split: option.splits)
qed

interpretation stale_processing_cursor:
  cas_cursor get_stale_processing_sweep_cursor advance_stale_processing_sweep_cursor_txn
  unfolding get_stale_processing_sweep_cursor_def advance_stale_processing_sweep_cursor_txn_def
  by (rule cas_cursor_sweep)

interpretation receipt_backfill_cursor:
  cas_cursor get_meeting_receipt_backfill_cursor advance_meeting_receipt_backfill_cursor_txn
  unfolding get_meeting_receipt_backfill_cursor_def advance_meeting_receipt_backfill_cursor_txn_def
  by (rule cas_cursor_sweep)

interpretation byok_abandonment_cursor:
  cas_cursor get_byok_abandonment_sweep_cursor advance_byok_abandonment_sweep_cursor_txn
  unfolding get_byok_abandonment_sweep_cursor_def advance_byok_abandonment_sweep_cursor_txn_def
  by (rule cas_cursor_sweep)

subsection \<open>The job summary\<close>

definition summary_shard_value :: "(path \<Rightarrow> doc option) \<Rightarrow> string \<Rightarrow> int \<Rightarrow> int" where
  "summary_shard_value rd name n =
     (case rd [FINALIZATION_PROJECTION_COLLECTION, projection_shard_id FINALIZATION_PROJECTION_GENERATION n] of
        None \<Rightarrow> 0
      | Some data \<Rightarrow>
          if dget data ''generation'' \<noteq> PStr FINALIZATION_PROJECTION_GENERATION
             \<or> \<not> py_eq (dget data ''shard'') (PInt n) then 0
          else (case data name of
                  Some (PInt v) \<Rightarrow> v
                | Some (PBool b) \<Rightarrow> if b then 1 else 0
                | Some (PFloat r) \<Rightarrow> if 0 \<le> r then \<lfloor>r\<rfloor> else \<lceil>r\<rceil>
                | _ \<Rightarrow> 0))"

definition summary_total :: "(path \<Rightarrow> doc option) \<Rightarrow> string \<Rightarrow> int" where
  "summary_total rd name =
     foldl (\<lambda>total n. total + summary_shard_value rd name n) 0
       (map int [0..<nat FINALIZATION_PROJECTION_SHARD_COUNT])"

text \<open>\<open>oldest\<close> answers the ordered single-row query of each unfinished status; ages are in seconds.\<close>

definition oldest_nonterminal_age :: "(string \<Rightarrow> doc option) \<Rightarrow> int \<Rightarrow> real" where
  "oldest_nonterminal_age oldest now =
     foldl (\<lambda>age status.
         (case oldest status of
            None \<Rightarrow> age
          | Some d \<Rightarrow> (case as_time (dget d ''created_at'') of
                None \<Rightarrow> age
              | Some t \<Rightarrow> max age (max 0 (real_of_int (now - t) / 1000000)))))
       0 [''blocked_byok'', ''leased'', ''queued'']"

record job_summary =
  summary_accepted :: int
  summary_success :: int
  summary_failure :: int
  summary_stale :: int
  summary_nonterminal :: int
  summary_queued :: int
  summary_leased :: int
  summary_blocked_byok :: int
  summary_completed :: int
  summary_dead_letter :: int
  summary_terminal_unknown :: int
  summary_oldest_age :: real

definition get_finalization_job_summary :: "(path \<Rightarrow> doc option) \<Rightarrow> (string \<Rightarrow> doc option) \<Rightarrow> int \<Rightarrow> job_summary" where
  "get_finalization_job_summary rd oldest now =
     \<lparr>summary_accepted = summary_total rd ''accepted'', summary_success = summary_total rd ''success'',
      summary_failure = summary_total rd ''failure'', summary_stale = summary_total rd ''stale'',
      summary_nonterminal = summary_total rd ''queued'' + summary_total rd ''leased'',
      summary_queued = summary_total rd ''queued'', summary_leased = summary_total rd ''leased'',
      summary_blocked_byok = summary_total rd ''blocked_byok'', summary_completed = summary_total rd ''completed'',
      summary_dead_letter = summary_total rd ''dead_letter'', summary_terminal_unknown = 0,
      summary_oldest_age = oldest_nonterminal_age oldest now\<rparr>"

text \<open>The jobs the projection is about, and the number of them a counter is meant to count.\<close>

definition projected_census :: "(path \<Rightarrow> doc option) \<Rightarrow> counter \<Rightarrow> nat" where
  "projected_census rd c =
     card {j. \<exists>d. rd (job_ref j) = Some d \<and> projection_ref_for_job d \<noteq> None \<and> counted c (abs_job d)}"

lemma summary_shard_count:
  assumes "projection_exact rd" "shards_labelled rd" "0 \<le> n" "n < FINALIZATION_PROJECTION_SHARD_COUNT"
  shows "summary_shard_value rd (counter_name c) n = int (job_census rd (shard_no n) c)"
proof -
  have t: "shard_typed (rd (shard_no n))" and e: "shard_count (rd (shard_no n)) c = int (job_census rd (shard_no n) c)"
    using assms(1) by (simp_all add: projection_exact_def shard_no_def)
  show ?thesis
  proof (cases "rd (shard_no n)")
    case None
    with e show ?thesis by (simp add: summary_shard_value_def shard_no_def shard_path_def shard_count_def)
  next
    case (Some s)
    then have "s ''generation'' = Some (PStr FINALIZATION_PROJECTION_GENERATION)" "s ''shard'' = Some (PInt n)"
      using assms(2-4) unfolding shards_labelled_def by blast+
    moreover have "int_field s (counter_name c)" using t Some by (simp add: shard_typed_def)
    ultimately have "summary_shard_value rd (counter_name c) n = fint s (counter_name c) 0"
      using Some by (auto simp: summary_shard_value_def shard_no_def shard_path_def dget_def int_field_def fint_def
          split: option.splits pyval.splits)
    with e Some show ?thesis by (simp add: shard_count_def)
  qed
qed

lemma foldl_add_sum: "foldl (\<lambda>t n. t + f n) (a::int) xs = a + sum_list (map f xs)"
  by (induction xs arbitrary: a) (simp_all add: algebra_simps)

lemma projected_census_shards:
  assumes "finite (job_ids rd)"
  shows "projected_census rd c = (\<Sum>i < nat FINALIZATION_PROJECTION_SHARD_COUNT. job_census rd (shard_no (int i)) c)"
proof -
  let ?N = "nat FINALIZATION_PROJECTION_SHARD_COUNT"
  let ?S = "\<lambda>i. {j. counts_job rd (shard_no (int i)) c j}"
  have "{j. \<exists>d. rd (job_ref j) = Some d \<and> projection_ref_for_job d \<noteq> None \<and> counted c (abs_job d)} = (\<Union>i < ?N. ?S i)"
  proof (intro equalityI subsetI)
    fix j assume "j \<in> {j. \<exists>d. rd (job_ref j) = Some d \<and> projection_ref_for_job d \<noteq> None \<and> counted c (abs_job d)}"
    then obtain d p where d: "rd (job_ref j) = Some d" "projection_ref_for_job d = Some p" "counted c (abs_job d)" by auto
    obtain n where n: "0 \<le> n" "n < FINALIZATION_PROJECTION_SHARD_COUNT" "p = shard_no n"
      using projection_ref_shard_no [OF d(2)] by blast
    then have "nat n \<in> {..<?N}" "j \<in> ?S (nat n)" using d by (simp_all add: counts_job_def)
    then show "j \<in> (\<Union>i < ?N. ?S i)" by (rule UN_I)
  qed (auto simp: counts_job_def split: option.splits)
  then have "projected_census rd c = card (\<Union>i < ?N. ?S i)" by (simp add: projected_census_def)
  also have "\<dots> = (\<Sum>i < ?N. card (?S i))"
  proof (rule card_UN_disjoint)
    show "\<forall>i \<in> {..<?N}. \<forall>j \<in> {..<?N}. i \<noteq> j \<longrightarrow> ?S i \<inter> ?S j = {}"
    proof (intro ballI impI)
      fix i j assume "i \<in> {..<?N}" "j \<in> {..<?N}" "i \<noteq> j"
      then have "shard_no (int i) \<noteq> shard_no (int j)" using shard_no_inj [of "int i" "int j"] by simp
      then show "?S i \<inter> ?S j = {}" by (auto simp: counts_job_def split: option.splits)
    qed
  qed (simp_all add: counts_job_finite [OF assms])
  finally show ?thesis by (simp add: job_census_def)
qed

lemma summary_total_exact:
  assumes "projection_exact rd" "shards_labelled rd" "finite (job_ids rd)"
  shows "summary_total rd (counter_name c) = int (projected_census rd c)"
proof -
  let ?N = "nat FINALIZATION_PROJECTION_SHARD_COUNT"
  have "summary_total rd (counter_name c) = (\<Sum>i < ?N. summary_shard_value rd (counter_name c) (int i))"
    by (simp add: summary_total_def foldl_add_sum comp_def interv_sum_list_conv_sum_set_nat atLeast0LessThan)
  also have "\<dots> = (\<Sum>i < ?N. int (job_census rd (shard_no (int i)) c))"
    using assms(1,2) by (intro sum.cong refl summary_shard_count) auto
  finally show ?thesis by (simp add: projected_census_shards [OF assms(3)])
qed

subsection \<open>The rotation of the stale-processing sweep\<close>

text \<open>Successive sweeps of one collection, each started where the previous one left the cursor.\<close>

fun orphan_rotation ::
  "'k::linorder row list \<Rightarrow> (string \<Rightarrow> 'k option) \<Rightarrow> int \<Rightarrow> int \<Rightarrow> nat \<Rightarrow> nat \<Rightarrow> nat \<Rightarrow> string option \<Rightarrow> orphan_candidate list" where
  "orphan_rotation conversations locate now stale_after limit max_scan 0 resume = []"
| "orphan_rotation conversations locate now stale_after limit max_scan (Suc n) resume =
     (let s = get_stale_processing_orphan_candidates conversations locate now stale_after limit max_scan resume in
      candidates s @ orphan_rotation conversations locate now stale_after limit max_scan n (resume_after_path s))"

definition processing_rows :: "'k row list \<Rightarrow> 'k row list" where
  "processing_rows conversations = filter (\<lambda>r. dget (row_doc r) ''status'' = PStr ''processing'') conversations"

lemma run_sweep_resume: "exhausted (run_sweep ex rows locate limit max_scan resume) \<Longrightarrow>
    resume_after_path (run_sweep ex rows locate limit max_scan resume) = None"
  by (auto simp: run_sweep_def split: prod.splits)

lemma orphan_rotation_sweeps:
  "orphan_rotation conversations locate now stale_after limit max_scan n resume =
     sweeps (orphan_examine (now - stale_after)) (processing_rows conversations) locate limit max_scan n resume"
  by (induction n arbitrary: resume)
    (simp_all add: get_stale_processing_orphan_candidates_def processing_rows_def Let_def run_sweep_resume)

lemma processing_rows_sorted:
  "sorted_wrt (<) (map row_key conversations) \<Longrightarrow> sorted_wrt (<) (map row_key (processing_rows conversations))"
  by (simp add: processing_rows_def sorted_wrt_map sorted_wrt_filter)

subsection \<open>Properties\<close>

text \<open>
  C38. Every stranded conversation is found: while the collection stays as it is and holds
  fewer candidates than one sweep may return, and every row is found by its path, the rotation, started at any stored position,
  returns every candidate within twice the number of windows that the processing rows fill.
\<close>

theorem orphan_rotation_covers:
  fixes conversations :: "'k::linorder row list"
  assumes "sorted_wrt (<) (map row_key conversations)" "0 < max_scan"
    and "length (found (orphan_examine (now - stale_after)) (processing_rows conversations)) < limit"
    and "\<forall>r \<in> set conversations. row_path r \<noteq> [] \<and> locate (row_path r) = Some (row_key r)"
    and "length (processing_rows conversations) < n * max_scan"
    and "r \<in> set conversations" "dget (row_doc r) ''status'' = PStr ''processing''"
    and "orphan_examine (now - stale_after) r = Some c"
  shows "c \<in> set (orphan_rotation conversations locate now stale_after limit max_scan (n + n) resume)"
proof -
  let ?rows = "processing_rows conversations"
  have "length (start_after (resume_cursor locate resume) ?rows) \<le> length ?rows"
    by (simp add: start_after_def split: option.split)
  then have "length (start_after (resume_cursor locate resume) ?rows) < n * max_scan" using assms(5) by simp
  moreover have "\<forall>r \<in> set ?rows. row_path r \<noteq> [] \<and> locate (row_path r) = Some (row_key r)"
    using assms(4) by (simp add: processing_rows_def)
  ultimately have "set (found (orphan_examine (now - stale_after)) ?rows)
      \<subseteq> set (sweeps (orphan_examine (now - stale_after)) ?rows locate limit max_scan (n + n) resume)"
    using assms(2,3,5) by (intro sweeps_cover_all processing_rows_sorted assms(1))
  moreover have "c \<in> set (found (orphan_examine (now - stale_after)) ?rows)"
    using assms(6-8) by (auto simp: found_set processing_rows_def)
  ultimately show ?thesis by (auto simp: orphan_rotation_sweeps)
qed

text \<open>Rows of user \<open>u\<close>, keyed by their position; a row is a candidate unless it is deferred.\<close>

definition ex_row :: "nat \<Rightarrow> char \<Rightarrow> bool \<Rightarrow> nat row" where
  "ex_row k ch excluded = \<lparr>row_key = k, row_path = ''users/u/conversations/'' @ [ch],
     row_doc = [''status'' \<mapsto> PStr ''processing'', ''deferred'' \<mapsto> PBool excluded]\<rparr>"

definition ex_orphan :: "char \<Rightarrow> orphan_candidate" where
  "ex_orphan ch = \<lparr>orphan_uid = ''u'', orphan_conversation_id = [ch], orphan_admitted_at = None, orphan_legacy = True\<rparr>"

lemma ex_row_path: "ch \<noteq> CHR ''/'' \<Longrightarrow> uid_from_conversation_path (''users/u/conversations/'' @ [ch]) = Some ''u''
    \<and> snapshot_id (''users/u/conversations/'' @ [ch]) = [ch]"
  by (simp add: uid_from_conversation_path_def snapshot_id_def CONVERSATIONS_COLLECTION_def)

lemma ex_row_examine:
  "ch \<noteq> CHR ''/'' \<Longrightarrow> orphan_examine cutoff (ex_row k ch excluded) = (if excluded then None else Some (ex_orphan ch))"
  using ex_row_path [of ch] by (simp add: orphan_examine_def ex_row_def ex_orphan_def Let_def dget_def del: append_Cons)

definition ex_locate :: "string \<Rightarrow> nat option" where
  "ex_locate p = map_of [(''users/u/conversations/a'', 1), (''users/u/conversations/b'', 2)] p"

theorem orphan_rotation_covers_witness:
  "ex_orphan CHR ''b'' \<in> set (orphan_rotation [ex_row 1 CHR ''a'' True, ex_row 2 CHR ''b'' False] ex_locate 100 10 5 1 6 None)"
proof -
  have "processing_rows [ex_row 1 CHR ''a'' True, ex_row 2 CHR ''b'' False] = [ex_row 1 CHR ''a'' True, ex_row 2 CHR ''b'' False]"
    by (simp add: processing_rows_def ex_row_def dget_def)
  then have "ex_orphan CHR ''b'' \<in> set (orphan_rotation [ex_row 1 CHR ''a'' True, ex_row 2 CHR ''b'' False] ex_locate 100 10 5 1 (3 + 3) None)"
    by (intro orphan_rotation_covers [where r = "ex_row 2 CHR ''b'' False"])
      (simp_all add: ex_row_examine, simp_all add: ex_row_def ex_locate_def dget_def)
  then show ?thesis by simp
qed

text \<open>
  A sweep returns only stranded conversations: each candidate is a conversation of a user
  that is processing, not deferred and bound to no job, and its admission is either missing
  (then it is reported as a legacy row) or older than the threshold.
\<close>

lemma orphan_candidates_sound:
  assumes "c \<in> set (candidates (get_stale_processing_orphan_candidates conversations locate now stale_after limit max_scan resume))"
  shows "\<exists>r \<in> set conversations. uid_from_conversation_path (row_path r) = Some (orphan_uid c)
    \<and> dget (row_doc r) ''status'' = PStr ''processing'' \<and> \<not> truthy (dget (row_doc r) ''deferred'')
    \<and> \<not> truthy (dget (row_doc r) ''finalization_job_id'')
    \<and> (if orphan_legacy c then as_time (dget (row_doc r) ''processing_admitted_at'') = None \<and> orphan_admitted_at c = None
       else \<exists>t. dget (row_doc r) ''processing_admitted_at'' = PTime t \<and> orphan_admitted_at c = Some t \<and> t \<le> now - stale_after)"
proof -
  obtain r where r: "r \<in> set conversations" "dget (row_doc r) ''status'' = PStr ''processing''"
    and ex: "orphan_examine (now - stale_after) r = Some c"
    using assms run_sweep_sound unfolding get_stale_processing_orphan_candidates_def by fastforce
  have as_time: "as_time v = Some t \<longleftrightarrow> v = PTime t" for v t by (cases v) auto
  show ?thesis
    by (rule bexI [OF _ r(1)])
      (use r(2) ex in \<open>auto simp: orphan_examine_def Let_def as_time split: option.split_asm if_split_asm\<close>)
qed

definition ex_tail :: "nat row list" where
  "ex_tail = [ex_row 1 CHR ''a'' True, ex_row 2 CHR ''b'' False, ex_row 3 CHR ''c'' False, ex_row 4 CHR ''d'' False, ex_row 5 CHR ''e'' False]"

lemma ex_tail_sweep:
  "get_stale_processing_orphan_candidates ex_tail locate 100 10 3 2000 None =
     \<lparr>candidates = [ex_orphan CHR ''b'', ex_orphan CHR ''c'', ex_orphan CHR ''d''], resume_after_path = None, exhausted = True\<rparr>"
proof -
  have rows: "processing_rows ex_tail = ex_tail" by (simp add: processing_rows_def ex_tail_def ex_row_def dget_def)
  have key: "row_key (ex_row k ch x) = k" for k ch x by (simp add: ex_row_def)
  show ?thesis
    unfolding get_stale_processing_orphan_candidates_def processing_rows_def [symmetric] rows
    by (simp add: run_sweep_def resume_cursor_def sweep_loop.simps page_size_of_def start_after_def ex_tail_def ex_row_examine key)
qed

text \<open>
  The last page can hide a conversation: when the limit is reached inside a partial last
  page the sweep reports the collection as exhausted, the cursor wraps, and the rows after the
  last candidate are not examined. In the example, with a limit of three, the fifth row is a
  candidate, and no number of sweeps returns it while the rows before it stay.
\<close>

lemma sweep_tail_starves:
  "orphan_examine (100 - 10) (ex_row 5 CHR ''e'' False) = Some (ex_orphan CHR ''e'') \<and> ex_row 5 CHR ''e'' False \<in> set ex_tail
   \<and> (\<forall>n. ex_orphan CHR ''e'' \<notin> set (orphan_rotation ex_tail locate 100 10 3 2000 n None))"
proof (intro conjI allI)
  show "ex_orphan CHR ''e'' \<notin> set (orphan_rotation ex_tail locate 100 10 3 2000 n None)" for n
    by (induction n) (simp_all add: ex_tail_sweep, simp add: ex_orphan_def)
qed (simp_all add: ex_row_examine ex_tail_def)

text \<open>
  Two instances cannot both move the cursor: after one advance from the generation they
  read, the cursor stands at its position under the next generation, and every further advance
  from the old generation is refused without a write.
\<close>

lemma cursor_advanced_once:
  assumes "get_stale_processing_sweep_cursor rd = Inr (p, g)"
    and "advance_stale_processing_sweep_cursor_txn g q now rd = Inr (b, ws)"
  shows "b \<and> get_stale_processing_sweep_cursor (after_view ws rd) = Inr (q, g + 1)
    \<and> advance_stale_processing_sweep_cursor_txn g q' now' (after_view ws rd) = Inr (False, [])"
  using assms by (rule stale_processing_cursor.one_winner)

end
