(* ===== verification/Finalization_Service.thy ===== *)
theory Finalization_Service
  imports Finalization_Request Finalization_Sweep
begin

text \<open>
  \<^verbatim>\<open>services/conversation_finalization.py\<close>: the periodic reconcilers. Each loop runs over the
  candidates a query returned earlier; before every call other workers may have changed the
  store (\<open>mid\<close>, indexed by the position in the loop), and \<open>clock\<close> is the time the call reads.
  A call that raises is counted and the loop goes on. Metrics are left out.
\<close>

subsection \<open>Switches\<close>

definition is_truthy_flag :: "string \<Rightarrow> bool" where
  "is_truthy_flag s = (ascii_lower (py_strip s) \<in> {''1'', ''true'', ''yes'', ''on''})"

definition is_meeting_receipt_reconciler_enabled :: "env \<Rightarrow> bool" where
  "is_meeting_receipt_reconciler_enabled env = is_truthy_flag (getenv env ''MEETING_RECEIPT_RECONCILER_ENABLED'' ''false'')"

definition is_byok_abandonment_sweep_enabled :: "env \<Rightarrow> bool" where
  "is_byok_abandonment_sweep_enabled env =
     is_truthy_flag (getenv env ''LISTEN_FINALIZATION_BYOK_ABANDONMENT_ENABLED'' ''true'')"

subsection \<open>Replaying stale jobs\<close>

record replay_result =
  requeued :: nat
  replay_skipped :: nat
  enqueue_failed :: nat
  replay_error :: nat

text \<open>The loop also returns the tasks it enqueued, as pairs of job id and dispatch generation.\<close>

fun replay_loop ::
  "('s \<Rightarrow> path \<Rightarrow> doc option) \<Rightarrow> ('s \<Rightarrow> write list \<Rightarrow> 's) \<Rightarrow> (string \<Rightarrow> int \<Rightarrow> unit res) \<Rightarrow> int \<Rightarrow> (nat \<Rightarrow> int) \<Rightarrow>
   (nat \<Rightarrow> 's \<Rightarrow> 's) \<Rightarrow> nat \<Rightarrow> string list \<Rightarrow> replay_result \<Rightarrow> 's \<Rightarrow> replay_result \<times> (string \<times> int) list \<times> 's" where
  "replay_loop fetch commit enqueue stale_after clock mid k [] result st = (result, [], st)"
| "replay_loop fetch commit enqueue stale_after clock mid k (job_id # rest) result st0 =
     (let st = mid k st0;
          next = replay_loop fetch commit enqueue stale_after clock mid (k + 1) rest
      in
      if job_id = [] then next (result\<lparr>replay_skipped := replay_skipped result + 1\<rparr>) st
      else (case claim_finalization_replay fetch commit st job_id stale_after (clock k) of
              (Inl e, st') \<Rightarrow> next (result\<lparr>replay_skipped := replay_skipped result + 1\<rparr>) st'
            | (Inr claimed, st') \<Rightarrow>
                (case intent_generation claimed of
                   None \<Rightarrow> next (result\<lparr>replay_skipped := replay_skipped result + 1\<rparr>) st'
                 | Some g \<Rightarrow>
                     if intent_status claimed \<noteq> ''queued''
                     then next (result\<lparr>replay_skipped := replay_skipped result + 1\<rparr>) st'
                     else (case enqueue job_id g of
                             Inl e \<Rightarrow> next (result\<lparr>enqueue_failed := enqueue_failed result + 1\<rparr>) st'
                           | Inr u \<Rightarrow>
                               (case next (result\<lparr>requeued := requeued result + 1\<rparr>) st' of
                                  (r, tasks, st'') \<Rightarrow> (r, (job_id, g) # tasks, st''))))))"

definition zero_replay :: replay_result where
  "zero_replay = \<lparr>requeued = 0, replay_skipped = 0, enqueue_failed = 0, replay_error = 0\<rparr>"

text \<open>\<open>query\<close> is what the candidate query answers, the rows of the collection or an error.\<close>

definition reconcile_listen_finalization_jobs where
  "reconcile_listen_finalization_jobs fetch commit env enqueue query clock mid limit now st =
     (if \<not> is_listen_finalization_dispatch_enabled env then (zero_replay, [], st)
      else (case query st of
              Inl (e :: pyerr) \<Rightarrow> (zero_replay\<lparr>replay_error := 1\<rparr>, [], st)
            | Inr rows \<Rightarrow>
                replay_loop fetch commit enqueue (get_finalization_reconcile_stale_after env) clock mid 0
                  (map fst (get_finalization_replay_candidates rows now limit)) zero_replay st))"

subsection \<open>Closing stale conversations\<close>

record orphan_result =
  orphan_completed :: nat
  orphan_migrated :: nat
  orphan_skipped :: nat
  orphan_error :: nat

datatype orphan_outcome = O_Completed | O_Migrated | O_Skipped | O_Error

fun count_orphan :: "orphan_outcome \<Rightarrow> orphan_result \<Rightarrow> orphan_result" where
  "count_orphan O_Completed r = r\<lparr>orphan_completed := orphan_completed r + 1\<rparr>"
| "count_orphan O_Migrated r = r\<lparr>orphan_migrated := orphan_migrated r + 1\<rparr>"
| "count_orphan O_Skipped r = r\<lparr>orphan_skipped := orphan_skipped r + 1\<rparr>"
| "count_orphan O_Error r = r\<lparr>orphan_error := orphan_error r + 1\<rparr>"

text \<open>
  One candidate. \<open>refuse\<close> is the error with which the service refuses the stamp's write, if it
  does; a document at the size limit is refused with \<open>InvalidArgument True\<close>.
\<close>

definition reconcile_orphan where
  "reconcile_orphan fetch commit update_time refuse stale_after now candidate st =
     (let uid = orphan_uid candidate; cid = orphan_conversation_id candidate;
          answer = (\<lambda>yes no (r :: bool res \<times> 's). (case r of
             (Inl e, st') \<Rightarrow> (O_Error, st') | (Inr b, st') \<Rightarrow> (if b then yes else no, st')))
      in
      if orphan_legacy candidate then
        (case refuse uid cid of
           Some e \<Rightarrow>
             (case stamp_processing_admission_if_absent fetch commit st uid cid now of
                (Inr True, st') \<Rightarrow>
                  if e = InvalidArgument True
                  then answer O_Completed O_Skipped
                         (complete_unstampable_orphan_conversation fetch commit update_time st uid cid stale_after now)
                  else (O_Error, st)
              | r \<Rightarrow> answer O_Migrated O_Skipped r)
         | None \<Rightarrow>
             answer O_Migrated O_Skipped (stamp_processing_admission_if_absent fetch commit st uid cid now))
      else answer O_Completed O_Skipped
             (complete_orphan_conversation fetch commit st uid cid (orphan_admitted_at candidate)))"

fun orphan_loop where
  "orphan_loop fetch commit update_time refuse stale_after clock mid k [] result st = (result, st)"
| "orphan_loop fetch commit update_time refuse stale_after clock mid k (c # cs) result st =
     (case reconcile_orphan fetch commit update_time refuse stale_after (clock k) c (mid k st) of
        (outcome, st') \<Rightarrow>
          orphan_loop fetch commit update_time refuse stale_after clock mid (k + 1) cs (count_orphan outcome result) st')"

definition zero_orphan :: orphan_result where
  "zero_orphan = \<lparr>orphan_completed = 0, orphan_migrated = 0, orphan_skipped = 0, orphan_error = 0\<rparr>"

text \<open>
  The whole pass: read the cursor (from the top if that fails), sweep, advance the cursor
  (a lost compare-and-swap or an error does not matter), then work the candidates off.
\<close>

definition reconcile_stale_processing_conversations where
  "reconcile_stale_processing_conversations fetch commit env update_time refuse query locate clock mid limit max_scan now st =
     (let stale_after = get_stale_processing_orphan_after env;
          (resume, generation) = (case get_stale_processing_sweep_cursor (fetch st) of Inl e \<Rightarrow> (None, 0) | Inr c \<Rightarrow> c)
      in case query st of
           Inl (e :: pyerr) \<Rightarrow> (zero_orphan\<lparr>orphan_error := 1\<rparr>, st)
         | Inr conversations \<Rightarrow>
             let sweep = get_stale_processing_orphan_candidates conversations locate now stale_after limit max_scan resume;
                 st' = snd (run_txn fetch commit
                   (advance_stale_processing_sweep_cursor_txn generation
                      (if exhausted sweep then None else resume_after_path sweep) now) st)
             in orphan_loop fetch commit update_time refuse stale_after clock mid 0 (candidates sweep) zero_orphan st')"

subsection \<open>Abandoning user-key jobs\<close>

record byok_result =
  byok_abandoned :: nat
  byok_conversations_closed :: nat
  byok_skipped :: nat
  byok_error :: nat

definition zero_byok :: byok_result where
  "zero_byok = \<lparr>byok_abandoned = 0, byok_conversations_closed = 0, byok_skipped = 0, byok_error = 0\<rparr>"

text \<open>The expectations are read off the candidate; a malformed counter raises and counts as an error.\<close>

definition abandon_candidate where
  "abandon_candidate fetch commit abandoned_after now candidate st =
     (let job = byok_job candidate in
      case res_bind (int_or job ''dispatch_generation'' 1) (\<lambda>g. res_bind (int_or job ''lease_epoch'' 0) (\<lambda>e. Inr (g, e))) of
        Inl e \<Rightarrow> (Inl e, st)
      | Inr (g, e) \<Rightarrow>
          abandon_byok_finalization_job fetch commit st (byok_job_id candidate) (str_or job ''status'' []) g e
            abandoned_after now)"

fun byok_loop where
  "byok_loop fetch commit abandoned_after clock mid k [] result st = (result, st)"
| "byok_loop fetch commit abandoned_after clock mid k (c # cs) result st0 =
     (let st = mid k st0; next = byok_loop fetch commit abandoned_after clock mid (k + 1) cs in
      if byok_job_id c = [] then next (result\<lparr>byok_skipped := byok_skipped result + 1\<rparr>) st
      else (case abandon_candidate fetch commit abandoned_after (clock k) c st of
              (Inl e, st') \<Rightarrow> next (result\<lparr>byok_error := byok_error result + 1\<rparr>) st'
            | (Inr d, st') \<Rightarrow>
                if abandonment_status d \<noteq> ''abandoned''
                then next (result\<lparr>byok_skipped := byok_skipped result + 1\<rparr>) st'
                else next (result\<lparr>byok_abandoned := byok_abandoned result + 1,
                             byok_conversations_closed :=
                               byok_conversations_closed result + (if conversation_outcome d = ''closed'' then 1 else 0)\<rparr>) st'))"

definition reconcile_abandoned_byok_finalization_jobs where
  "reconcile_abandoned_byok_finalization_jobs fetch commit env query locate clock mid limit max_scan now st =
     (if \<not> is_byok_abandonment_sweep_enabled env then (zero_byok, st)
      else
        let abandoned_after = get_byok_abandoned_after env;
            (resume, generation) = (case get_byok_abandonment_sweep_cursor (fetch st) of Inl e \<Rightarrow> (None, 0) | Inr c \<Rightarrow> c)
        in case query st of
             Inl (e :: pyerr) \<Rightarrow> (zero_byok\<lparr>byok_error := 1\<rparr>, st)
           | Inr jobs \<Rightarrow>
               let sweep = get_abandoned_byok_job_candidates jobs locate now abandoned_after limit max_scan resume;
                   st' = snd (run_txn fetch commit
                     (advance_byok_abandonment_sweep_cursor_txn generation
                        (if exhausted sweep then None else resume_after_path sweep) now) st)
               in byok_loop fetch commit abandoned_after clock mid 0 (candidates sweep) zero_byok st')"

subsection \<open>Final attempts\<close>

text \<open>What follows the dead letter (metrics, search index) fails open and changes neither.\<close>

definition final_attempt_failed where
  "final_attempt_failed fetch commit st job_id dispatch_generation lease_epoch retry_count now =
     mark_finalization_dead_letter fetch commit st job_id dispatch_generation lease_epoch retry_count now"

subsection \<open>Repairing and back-filling receipts\<close>

record receipt_counts =
  receipts_repaired :: nat
  receipts_backfilled :: nat
  receipts_skipped :: nat
  receipts_error :: nat

definition zero_receipts :: receipt_counts where
  "zero_receipts = \<lparr>receipts_repaired = 0, receipts_backfilled = 0, receipts_skipped = 0, receipts_error = 0\<rparr>"

text \<open>
  \<open>repair\<close> and \<open>backfill\<close> are the two calls into \<^verbatim>\<open>utils/conversations/meeting_receipt.py\<close>;
  each may raise and answers whether it did something.
\<close>

fun receipt_loop ::
  "('c \<Rightarrow> 's \<Rightarrow> bool res \<times> 's) \<Rightarrow> (receipt_counts \<Rightarrow> receipt_counts) \<Rightarrow> 'c list \<Rightarrow> receipt_counts \<Rightarrow> 's \<Rightarrow> receipt_counts \<times> 's" where
  "receipt_loop act hit [] result st = (result, st)"
| "receipt_loop act hit (c # cs) result st =
     (case act c st of
        (Inl e, st') \<Rightarrow> receipt_loop act hit cs (result\<lparr>receipts_error := receipts_error result + 1\<rparr>) st'
      | (Inr b, st') \<Rightarrow>
          receipt_loop act hit cs (if b then hit result else result\<lparr>receipts_skipped := receipts_skipped result + 1\<rparr>) st')"

definition reconcile_meeting_receipts where
  "reconcile_meeting_receipts fetch commit env due query locate repair backfill limit max_scan now st =
     (if \<not> is_meeting_receipt_reconciler_enabled env then (zero_receipts, st)
      else
        let (r1, st1) =
              (case due st of
                 Inl (e :: pyerr) \<Rightarrow> (zero_receipts\<lparr>receipts_error := 1\<rparr>, st)
               | Inr rows \<Rightarrow>
                   receipt_loop repair (\<lambda>r. r\<lparr>receipts_repaired := receipts_repaired r + 1\<rparr>)
                     (get_meeting_receipt_reconcile_candidates rows now limit) zero_receipts st)
        in case get_meeting_receipt_backfill_cursor (fetch st1) of
             Inl e \<Rightarrow> (r1\<lparr>receipts_error := receipts_error r1 + 1\<rparr>, st1)
           | Inr (resume, generation) \<Rightarrow>
               (case query st1 of
                  Inl (e :: pyerr) \<Rightarrow> (r1\<lparr>receipts_error := receipts_error r1 + 1\<rparr>, st1)
                | Inr conversations \<Rightarrow>
                    let sweep = get_meeting_receipt_backfill_candidates conversations locate (nat limit) max_scan resume
                    in case run_txn fetch commit
                              (advance_meeting_receipt_backfill_cursor_txn generation
                                 (if exhausted sweep then None else resume_after_path sweep) now) st1 of
                         (Inl e, st2) \<Rightarrow> (r1\<lparr>receipts_error := receipts_error r1 + 1\<rparr>, st2)
                       | (Inr b, st2) \<Rightarrow>
                           receipt_loop backfill (\<lambda>r. r\<lparr>receipts_backfilled := receipts_backfilled r + 1\<rparr>)
                             (candidates sweep) r1 st2))"

subsection \<open>Every candidate is accounted for\<close>

lemma replay_loop_counts:
  "replay_loop fetch commit enqueue stale_after clock mid k jobs r st = (r', tasks, st') \<Longrightarrow>
   requeued r' + replay_skipped r' + enqueue_failed r' = requeued r + replay_skipped r + enqueue_failed r + length jobs
   \<and> requeued r' = requeued r + length tasks \<and> replay_error r' = replay_error r"
proof (induction jobs arbitrary: k r st r' tasks st')
  case Nil
  then show ?case by simp
next
  case (Cons j jobs)
  from Cons.prems show ?case
    by (auto simp: Let_def split: if_split_asm prod.split_asm sum.split_asm option.split_asm dest!: Cons.IH)
qed

lemma orphan_loop_counts:
  "orphan_loop fetch commit update_time refuse stale_after clock mid k cs r st = (r', st') \<Longrightarrow>
   orphan_completed r' + orphan_migrated r' + orphan_skipped r' + orphan_error r' =
     orphan_completed r + orphan_migrated r + orphan_skipped r + orphan_error r + length cs"
proof (induction cs arbitrary: k r st)
  case Nil
  then show ?case by simp
next
  case (Cons c cs)
  obtain outcome st1 where o: "reconcile_orphan fetch commit update_time refuse stale_after (clock k) c (mid k st) = (outcome, st1)"
    by fastforce
  with Cons.prems have "orphan_loop fetch commit update_time refuse stale_after clock mid (k + 1) cs (count_orphan outcome r) st1 = (r', st')"
    by simp
  from Cons.IH [OF this] show ?case by (cases outcome) simp_all
qed

lemma byok_loop_counts:
  "byok_loop fetch commit abandoned_after clock mid k cs r st = (r', st') \<Longrightarrow>
   byok_abandoned r' + byok_skipped r' + byok_error r' = byok_abandoned r + byok_skipped r + byok_error r + length cs
   \<and> byok_conversations_closed r' + byok_abandoned r \<le> byok_conversations_closed r + byok_abandoned r'"
proof (induction cs arbitrary: k r st)
  case Nil
  then show ?case by simp
next
  case (Cons c cs)
  from Cons.prems show ?case
    by (auto simp: Let_def split: if_split_asm prod.split_asm sum.split_asm dest!: Cons.IH)
qed

subsection \<open>Properties\<close>

text \<open>
  The recovery passes account for every candidate: the replay counts each due job once and
  reports as requeued exactly the tasks it enqueued, the closing of stale conversations counts
  each candidate of its sweep once, and the abandonment of user-key jobs counts each candidate
  once and never reports more closed conversations than abandoned jobs.
\<close>

lemma recovery_passes_account:
  assumes "query st = Inr rows" "conversations st = Inr convs" "byok_query st = Inr jobs" "is_listen_finalization_dispatch_enabled env"
    and "is_byok_abandonment_sweep_enabled env"
    and "reconcile_listen_finalization_jobs fetch commit env enqueue query clock mid limit now st = (r, tasks, st1)"
    and "reconcile_stale_processing_conversations fetch commit env update_time refuse conversations locate clock mid bound max_scan now st = (cl, st2)"
    and "reconcile_abandoned_byok_finalization_jobs fetch commit env byok_query locate clock mid bound max_scan now st = (b, st3)"
  shows "requeued r + replay_skipped r + enqueue_failed r = length (get_finalization_replay_candidates rows now limit)
      \<and> requeued r = length tasks
    \<and> (\<exists>resume. orphan_completed cl + orphan_migrated cl + orphan_skipped cl + orphan_error cl =
         length (candidates (get_stale_processing_orphan_candidates convs locate now (get_stale_processing_orphan_after env) bound max_scan resume)))
    \<and> (\<exists>resume. byok_abandoned b + byok_skipped b + byok_error b =
         length (candidates (get_abandoned_byok_job_candidates jobs locate now (get_byok_abandoned_after env) bound max_scan resume)))
    \<and> byok_conversations_closed b \<le> byok_abandoned b"
proof -
  have "requeued r + replay_skipped r + enqueue_failed r = length (get_finalization_replay_candidates rows now limit)
      \<and> requeued r = length tasks"
    using assms(1,4,6) by (auto simp: reconcile_listen_finalization_jobs_def zero_replay_def dest!: replay_loop_counts)
  moreover have "\<exists>resume. orphan_completed cl + orphan_migrated cl + orphan_skipped cl + orphan_error cl =
      length (candidates (get_stale_processing_orphan_candidates convs locate now (get_stale_processing_orphan_after env) bound max_scan resume))"
    using assms(2,7) by (auto simp: reconcile_stale_processing_conversations_def zero_orphan_def Let_def
        dest!: orphan_loop_counts split: prod.split_asm)
  moreover have "(\<exists>resume. byok_abandoned b + byok_skipped b + byok_error b =
      length (candidates (get_abandoned_byok_job_candidates jobs locate now (get_byok_abandoned_after env) bound max_scan resume)))
    \<and> byok_conversations_closed b \<le> byok_abandoned b"
    using assms(3,5,8) by (auto simp: reconcile_abandoned_byok_finalization_jobs_def zero_byok_def Let_def
        dest!: byok_loop_counts split: prod.split_asm)
  ultimately show ?thesis by blast
qed

end
