(* ===== verification/Redis_Store.thy ===== *)
theory Redis_Store
  imports Projection_Binding
begin

text \<open>
  The key-value service the backend keeps its short-lived jobs and locks in is not part of the
  repository. A server-side script, like a single command, is a function of what it reads that
  returns a reply and a list of commands; the service runs it atomically. The locale \<open>redis\<close>
  states the effect of the commands the code uses. A key with a time to live may vanish
  between two calls; that is a step of the environment.

  A stored job is the text \<open>json.dumps\<close> made of a mapping. The text is determined by the mapping
  and the separators, and \<open>json.loads\<close> recovers the mapping from it, so it is represented by
  them; two texts are equal exactly when their representations are. Text that parses to
  something else than a mapping, and text that does not parse, have constructors of their own.
\<close>

datatype json_style = Spaced | Compact

datatype payload = Json_Dict json_style dict | Json_Other string | Not_Json string

definition json_loads :: "payload \<Rightarrow> dict option res" where
  "json_loads p = (case p of Json_Dict sty d \<Rightarrow> Inr (Some d) | Json_Other s \<Rightarrow> Inr None | Not_Json s \<Rightarrow> Inl ValueError)"

datatype rval = R_Text string | R_Payload payload | R_Counter int | R_Members "string list"

datatype rwrite =
    R_Set string rval "int option"
  | R_Del string
  | R_Incr string
  | R_Sadd string string
  | R_Expire string int

fun rkey :: "rwrite \<Rightarrow> string" where
  "rkey (R_Set k v ttl) = k"
| "rkey (R_Del k) = k"
| "rkey (R_Incr k) = k"
| "rkey (R_Sadd k m) = k"
| "rkey (R_Expire k ttl) = k"

fun reffect :: "rwrite \<Rightarrow> rval option \<Rightarrow> rval option" where
  "reffect (R_Set k v ttl) old = Some v"
| "reffect (R_Del k) old = None"
| "reffect (R_Incr k) old = Some (R_Counter (case old of Some (R_Counter n) \<Rightarrow> n + 1 | _ \<Rightarrow> 1))"
| "reffect (R_Sadd k m) old =
     Some (R_Members (case old of Some (R_Members ms) \<Rightarrow> (if m \<in> set ms then ms else ms @ [m]) | _ \<Rightarrow> [m]))"
| "reffect (R_Expire k ttl) old = old"

definition rafter :: "rwrite list \<Rightarrow> string \<Rightarrow> rval option \<Rightarrow> rval option" where
  "rafter ws k old = foldl (\<lambda>v w. if rkey w = k then reffect w v else v) old ws"

lemma rafter_simps [simp]:
  "rafter [] k old = old"
  "rafter (w # ws) k old = rafter ws k (if rkey w = k then reffect w old else old)"
  by (simp_all add: rafter_def)

definition rafter_view :: "rwrite list \<Rightarrow> (string \<Rightarrow> rval option) \<Rightarrow> string \<Rightarrow> rval option" where
  "rafter_view ws rd = (\<lambda>k. rafter ws k (rd k))"

lemma rafter_view_Nil [simp]: "rafter_view [] rd = rd"
  by (simp add: rafter_view_def)

locale redis =
  fixes get :: "'s \<Rightarrow> string \<Rightarrow> rval option"
    and exec :: "'s \<Rightarrow> rwrite list \<Rightarrow> 's"
  assumes get_exec: "get (exec st ws) k = rafter ws k (get st k)"
begin

lemma get_exec_other: "k \<notin> rkey ` set ws \<Longrightarrow> get (exec st ws) k = get st k"
proof -
  assume "k \<notin> rkey ` set ws"
  then have "rafter ws k old = old" for old by (induction ws arbitrary: old) auto
  then show ?thesis by (simp add: get_exec)
qed

lemma get_exec_view: "get (exec st ws) = rafter_view ws (get st)"
  by (simp add: rafter_view_def get_exec fun_eq_iff)

end

text \<open>A call that reaches the service runs its script, which may only read; one that does not raises.\<close>

definition redis_call ::
  "('s \<Rightarrow> string \<Rightarrow> rval option) \<Rightarrow> ('s \<Rightarrow> rwrite list \<Rightarrow> 's) \<Rightarrow> bool \<Rightarrow>
   ((string \<Rightarrow> rval option) \<Rightarrow> 'r \<times> rwrite list) \<Rightarrow> 's \<Rightarrow> 'r res \<times> 's" where
  "redis_call get exec up script st =
     (if up then (case script (get st) of (r, ws) \<Rightarrow> (Inr r, if ws = [] then st else exec st ws)) else (Inl RedisError, st))"

subsection \<open>An in-memory service\<close>

type_synonym mem_redis = "string \<Rightarrow> rval option"

definition mem_get :: "mem_redis \<Rightarrow> string \<Rightarrow> rval option" where
  "mem_get st = st"

definition mem_exec :: "mem_redis \<Rightarrow> rwrite list \<Rightarrow> mem_redis" where
  "mem_exec st ws = rafter_view ws st"

interpretation mem_r: redis mem_get mem_exec
  by unfold_locales (simp add: mem_get_def mem_exec_def rafter_view_def)

end
