(* ===== verification/Sync_Job.thy ===== *)
theory Sync_Job
  imports Redis_Store
begin

text \<open>
  \<^verbatim>\<open>database/sync_jobs.py\<close>: the short-lived jobs of uploaded recordings, kept as JSON under one
  key each; their updates, which compare the stored text and retry; the run lock with its
  epoch; and the per-job sets and once-markers. Between two calls of one function other
  clients may act: \<open>mid i\<close> gives the store call number \<open>i\<close> finds, and \<open>up i\<close> says whether it
  reaches the service. Times are seconds as reals.
\<close>

subsection \<open>Constants and keys\<close>

definition JOB_TTL_SECONDS :: int where "JOB_TTL_SECONDS = 86400"
definition STALE_THRESHOLD_SECONDS :: real where "STALE_THRESHOLD_SECONDS = 600"
definition QUEUED_DISPATCH_STALE_SECONDS :: real where "QUEUED_DISPATCH_STALE_SECONDS = 1800"
definition RUN_LOCK_TTL_SECONDS :: int where "RUN_LOCK_TTL_SECONDS = 1800"

definition TERMINAL_STATUSES :: "string list" where
  "TERMINAL_STATUSES = [''completed'', ''partial_failure'', ''failed'']"

definition SYNC_DISPATCH_MODES :: "string list" where
  "SYNC_DISPATCH_MODES = [''inline'', ''cloud_tasks'']"

definition job_key :: "string \<Rightarrow> string" where "job_key job_id = ''sync_job:'' @ job_id"
definition lock_key :: "string \<Rightarrow> string" where "lock_key job_id = ''sync_job_lock:'' @ job_id"
definition epoch_key :: "string \<Rightarrow> string" where "epoch_key job_id = ''sync_job_lock_epoch:'' @ job_id"
definition segments_key :: "string \<Rightarrow> string" where "segments_key job_id = ''sync_job_segments:'' @ job_id"

definition once_key :: "string \<Rightarrow> string \<Rightarrow> string" where
  "once_key job_id tag = ''sync_job_once:'' @ job_id @ '':'' @ tag"

lemmas key_defs = job_key_def lock_key_def epoch_key_def segments_key_def once_key_def

lemma keys_distinct [simp]:
  "job_key a \<noteq> lock_key b" "lock_key b \<noteq> job_key a" "job_key a \<noteq> epoch_key b" "epoch_key b \<noteq> job_key a"
  "lock_key a \<noteq> epoch_key b" "epoch_key b \<noteq> lock_key a" "segments_key a \<noteq> job_key b" "segments_key a \<noteq> lock_key b"
  "segments_key a \<noteq> epoch_key b" "once_key a t \<noteq> job_key b" "once_key a t \<noteq> lock_key b" "once_key a t \<noteq> epoch_key b"
  "job_key a = job_key b \<longleftrightarrow> a = b" "lock_key a = lock_key b \<longleftrightarrow> a = b" "epoch_key a = epoch_key b \<longleftrightarrow> a = b"
  by (simp_all add: key_defs)

subsection \<open>Outcomes and rollout mode\<close>

datatype fence_outcome = APPLIED | CONFLICT | MISSING_OWNER | STALE_OWNER | MISSING_JOB | INVALID_JOB | INVALID_STATE

definition outcome_of :: "string \<Rightarrow> fence_outcome res" where
  "outcome_of s =
     (case map_of [(''applied'', APPLIED), (''conflict'', CONFLICT), (''missing_owner'', MISSING_OWNER),
         (''stale_owner'', STALE_OWNER), (''missing_job'', MISSING_JOB), (''invalid_job'', INVALID_JOB),
         (''invalid_state'', INVALID_STATE)] s of
        None \<Rightarrow> Inl RuntimeError | Some out \<Rightarrow> Inr out)"

record fenced_mutation =
  fm_outcome :: fence_outcome
  fm_job :: "dict option"
  fm_raw :: "payload option"

definition mutation :: "fence_outcome \<Rightarrow> fenced_mutation" where
  "mutation out = \<lparr>fm_outcome = out, fm_job = None, fm_raw = None\<rparr>"

definition applied :: "fenced_mutation \<Rightarrow> bool" where
  "applied m \<longleftrightarrow> fm_outcome m = APPLIED"

datatype ledger_fence_mode = LEGACY | STANDBY | ACTIVE

fun fence_mode_value :: "ledger_fence_mode \<Rightarrow> string" where
  "fence_mode_value LEGACY = ''legacy''"
| "fence_mode_value STANDBY = ''standby''"
| "fence_mode_value ACTIVE = ''active''"

definition get_sync_ledger_fence_mode :: "env \<Rightarrow> ledger_fence_mode" where
  "get_sync_ledger_fence_mode env =
     (case map_of [(''legacy'', LEGACY), (''standby'', STANDBY), (''active'', ACTIVE)]
             (ascii_lower (py_strip (getenv env ''SYNC_LEDGER_FENCE_MODE'' (fence_mode_value LEGACY)))) of
        None \<Rightarrow> STANDBY | Some m \<Rightarrow> m)"

definition sync_job_uses_ledger_fence :: "dict \<Rightarrow> bool" where
  "sync_job_uses_ledger_fence job = (dict_get job ''ledger_fence_mode'' = PStr (fence_mode_value ACTIVE))"

subsection \<open>Creating and reading a job\<close>

definition opt_text :: "string option \<Rightarrow> pyval" where
  "opt_text v = (case v of None \<Rightarrow> PNone | Some s \<Rightarrow> PStr s)"

definition opt_number :: "int option \<Rightarrow> pyval" where
  "opt_number v = (case v of None \<Rightarrow> PNone | Some n \<Rightarrow> PInt n)"

definition new_sync_job ::
  "string \<Rightarrow> int \<Rightarrow> int \<Rightarrow> string \<Rightarrow> string \<Rightarrow> string \<Rightarrow> int option \<Rightarrow> string option \<Rightarrow> string \<Rightarrow> string \<Rightarrow> real \<Rightarrow> dict" where
  "new_sync_job uid total_files total_segments job_id lane capture_time_trust recording_age_seconds content_id dispatch_mode
     fence_mode now =
     [(''job_id'', PStr job_id), (''uid'', PStr uid), (''status'', PStr ''queued''), (''created_at'', PFloat now),
      (''started_at'', PNone), (''updated_at'', PFloat now), (''completed_at'', PNone), (''total_files'', PInt total_files),
      (''total_segments'', PInt total_segments), (''processed_segments'', PInt 0), (''successful_segments'', PInt 0),
      (''failed_segments'', PInt 0), (''result'', PNone), (''error'', PNone), (''reason_code'', PNone), (''retry_after'', PNone),
      (''lane'', PStr lane), (''capture_time_trust'', PStr capture_time_trust),
      (''recording_age_seconds'', opt_number recording_age_seconds), (''content_id'', opt_text content_id),
      (''dispatch_mode'', PStr (if dispatch_mode \<in> set SYNC_DISPATCH_MODES then dispatch_mode else ''inline'')),
      (''ledger_fence_mode'',
         PStr (if fence_mode = fence_mode_value ACTIVE then fence_mode_value ACTIVE else fence_mode_value LEGACY))]"

text \<open>\<open>fresh_id\<close> is the random id taken when the caller gives none.\<close>

definition create_sync_job where
  "create_sync_job get exec up st uid total_files total_segments job_id fresh_id lane capture_time_trust recording_age_seconds
     content_id dispatch_mode fence_mode now =
     (let j = (case job_id of None \<Rightarrow> fresh_id | Some j \<Rightarrow> j);
          job = new_sync_job uid total_files total_segments j lane capture_time_trust recording_age_seconds content_id
                  dispatch_mode fence_mode now
      in redis_call get exec up
           (\<lambda>rd. (job, [R_Set (job_key j) (R_Payload (Json_Dict Spaced job)) (Some JOB_TTL_SECONDS)])) st)"

definition delete_sync_job where
  "delete_sync_job get exec up st job_id = redis_call get exec up (\<lambda>rd. ((), [R_Del (job_key job_id)])) st"

text \<open>The value under a key that holds JSON; the empty text counts as no value where truth is tested.\<close>

definition stored_payload :: "(string \<Rightarrow> rval option) \<Rightarrow> string \<Rightarrow> payload option" where
  "stored_payload rd k = (case rd k of Some (R_Payload p) \<Rightarrow> Some p | Some (R_Text s) \<Rightarrow> Some (Not_Json s) | _ \<Rightarrow> None)"

definition is_sync_job_stale :: "dict \<Rightarrow> real \<Rightarrow> bool" where
  "is_sync_job_stale job now =
     (let status = dict_get job ''status'';
          judge = (\<lambda>threshold.
            case num_of (py_or (dict_get job ''updated_at'') (dict_get job ''created_at'')) of
              None \<Rightarrow> False | Some t \<Rightarrow> now - t > threshold)
      in
      if status = PStr ''processing'' then judge STALE_THRESHOLD_SECONDS
      else if status = PStr ''queued'' \<and> dict_get job ''dispatch_mode'' = PStr ''cloud_tasks''
        \<and> dict_get job ''started_at'' = PNone \<and> dict_get job ''attempt'' = PNone
      then judge QUEUED_DISPATCH_STALE_SECONDS
      else False)"

text \<open>\<open>d.update(e)\<close>, which keeps the position of a key that is present.\<close>

definition py_update :: "dict \<Rightarrow> dict \<Rightarrow> dict" where
  "py_update d e = foldl (\<lambda>m (k, v). AList.update k v m) d e"

lemma map_of_py_update: "distinct (map fst e) \<Longrightarrow> map_of (py_update d e) k = (case map_of e k of None \<Rightarrow> map_of d k | Some v \<Rightarrow> Some v)"
proof (induction e arbitrary: d)
  case (Cons x e)
  obtain k' v where x: "x = (k', v)" by (cases x)
  from Cons.prems x have "map_of e k' = None" by (simp add: map_of_eq_None_iff)
  with Cons x show ?case by (auto simp: py_update_def update_conv' split: option.split)
qed (simp add: py_update_def)

definition timed_out_job :: "dict \<Rightarrow> real \<Rightarrow> dict" where
  "timed_out_job job now =
     py_update job [(''status'', PStr ''failed''), (''error'', PStr ''Job timed out (background worker likely died)''),
       (''completed_at'', PFloat now)]"

text \<open>
  The read and, for a stale job, the write are two calls; other clients may act in between
  (\<open>mid\<close>), and the write does not compare what it replaces.
\<close>

definition get_sync_job where
  "get_sync_job get exec up mid st job_id now =
     (if \<not> up (0 :: nat) then (Inl RedisError, st)
      else case stored_payload (get st) (job_key job_id) of
        None \<Rightarrow> (Inr None, st)
      | Some p \<Rightarrow>
          (case json_loads p of
             Inl e \<Rightarrow> (Inr None, st)
           | Inr d \<Rightarrow>
               let job = (case d of None \<Rightarrow> [] | Some m \<Rightarrow> m) in
               if is_sync_job_stale job now
               then (case redis_call get exec (up 1)
                       (\<lambda>rd. ((), [R_Set (job_key job_id) (R_Payload (Json_Dict Spaced (timed_out_job job now))) (Some JOB_TTL_SECONDS)]))
                       (mid (1 :: nat) st) of
                       (Inl e, st') \<Rightarrow> (Inl e, st')
                     | (Inr u, st') \<Rightarrow> (Inr (Some (timed_out_job job now)), st'))
               else (Inr (Some job), st)))"

subsection \<open>Updates that compare the stored text\<close>

definition legacy_mutation_script :: "string \<Rightarrow> payload \<Rightarrow> payload \<Rightarrow> (string \<Rightarrow> rval option) \<Rightarrow> (string \<times> payload option) \<times> rwrite list" where
  "legacy_mutation_script k current next rd =
     (case stored_payload rd k of
        None \<Rightarrow> ((''missing_job'', None), [])
      | Some raw \<Rightarrow>
          if raw \<noteq> current then ((''conflict'', Some raw), [])
          else ((''applied'', Some next), [R_Set k (R_Payload next) (Some JOB_TTL_SECONDS)]))"

definition lock_owner :: "(string \<Rightarrow> rval option) \<Rightarrow> string \<Rightarrow> string option" where
  "lock_owner rd k = (case rd k of Some (R_Text s) \<Rightarrow> Some s | _ \<Rightarrow> None)"

definition fenced_mutation_script ::
  "string \<Rightarrow> string \<Rightarrow> string \<Rightarrow> payload \<Rightarrow> payload \<Rightarrow> (string \<Rightarrow> rval option) \<Rightarrow> (string \<times> payload option) \<times> rwrite list" where
  "fenced_mutation_script lk jk token current next rd =
     (case lock_owner rd lk of
        None \<Rightarrow> ((''missing_owner'', None), [])
      | Some owner \<Rightarrow>
          if owner \<noteq> token then ((''stale_owner'', None), [])
          else (case stored_payload rd jk of
                  None \<Rightarrow> ((''missing_job'', None), [])
                | Some raw \<Rightarrow>
                    if raw \<noteq> current then ((''conflict'', Some raw), [])
                    else ((''applied'', Some next), [R_Set jk (R_Payload next) (Some JOB_TTL_SECONDS)])))"

text \<open>The legacy and the fenced decoder have the same body.\<close>

definition decode_fenced_mutation :: "string \<times> payload option \<Rightarrow> fenced_mutation res" where
  "decode_fenced_mutation response =
     res_bind (outcome_of (fst response)) (\<lambda>out.
       if out \<notin> {APPLIED, CONFLICT} then Inr (mutation out)
       else (case snd response of
               None \<Rightarrow> Inr (mutation INVALID_JOB)
             | Some raw \<Rightarrow>
                 (case json_loads raw of
                    Inr (Some d) \<Rightarrow> Inr \<lparr>fm_outcome = out, fm_job = Some d, fm_raw = Some raw\<rparr>
                  | _ \<Rightarrow> Inr (mutation INVALID_JOB))))"

definition decode_fence_only_mutation :: "string \<Rightarrow> fenced_mutation res" where
  "decode_fence_only_mutation s = res_bind (outcome_of s) (\<lambda>out. Inr (mutation out))"

definition is_terminal_status :: "pyval \<Rightarrow> bool" where
  "is_terminal_status v \<longleftrightarrow> v \<in> PStr ` set TERMINAL_STATUSES"

fun legacy_update_loop ::
  "('s \<Rightarrow> string \<Rightarrow> rval option) \<Rightarrow> ('s \<Rightarrow> rwrite list \<Rightarrow> 's) \<Rightarrow> (nat \<Rightarrow> bool) \<Rightarrow> (nat \<Rightarrow> 's \<Rightarrow> 's) \<Rightarrow> string \<Rightarrow> nat \<Rightarrow> nat \<Rightarrow>
   payload \<Rightarrow> dict \<Rightarrow> dict \<Rightarrow> 's \<Rightarrow> dict option res \<times> 's" where
  "legacy_update_loop get exec up mid k 0 i current_raw current_job updates st = (Inr None, st)"
| "legacy_update_loop get exec up mid k (Suc n) i current_raw current_job updates st0 =
     (if is_terminal_status (dict_get current_job ''status'') then (Inr None, st0)
      else
        let next = py_update current_job updates;
            next_raw = Json_Dict Compact next;
            st = mid i st0
        in (case redis_call get exec (up i) (legacy_mutation_script k current_raw next_raw) st of
              (Inl e, st') \<Rightarrow> (Inl e, st')
            | (Inr reply, st') \<Rightarrow>
                (case decode_fenced_mutation reply of
                   Inl e \<Rightarrow> (Inl e, st')
                 | Inr m \<Rightarrow>
                     if fm_outcome m = APPLIED then (Inr (fm_job m), st')
                     else if fm_outcome m \<noteq> CONFLICT then (Inr None, st')
                     else (case (fm_raw m, fm_job m) of
                             (Some raw, Some job) \<Rightarrow> legacy_update_loop get exec up mid k n (i + 1) raw job updates st'
                           | _ \<Rightarrow> (Inr None, st')))))"

definition stamped :: "dict \<Rightarrow> real \<Rightarrow> dict" where
  "stamped updates now = py_update updates [(''updated_at'', PFloat now)]"

definition update_sync_job where
  "update_sync_job get exec up mid st job_id updates now =
     (if \<not> up 0 then (Inl RedisError, st)
      else case stored_payload (get st) (job_key job_id) of
        None \<Rightarrow> (Inr None, st)
      | Some raw \<Rightarrow>
          (case json_loads raw of
             Inr (Some job) \<Rightarrow>
               legacy_update_loop get exec up mid (job_key job_id) (3 :: nat) (1 :: nat) raw job (stamped updates now) st
           | _ \<Rightarrow> (Inr None, st)))"

text \<open>Membership in a set hashes the value, which raises for a list or a mapping.\<close>

definition status_allowed :: "string list option \<Rightarrow> pyval \<Rightarrow> bool res" where
  "status_allowed allowed v =
     (case allowed of
        None \<Rightarrow> Inr True
      | Some ss \<Rightarrow> (case v of PList xs \<Rightarrow> Inl TypeError | PDict kvs \<Rightarrow> Inl TypeError | _ \<Rightarrow> Inr (v \<in> PStr ` set ss)))"

fun fenced_update_loop ::
  "('s \<Rightarrow> string \<Rightarrow> rval option) \<Rightarrow> ('s \<Rightarrow> rwrite list \<Rightarrow> 's) \<Rightarrow> (nat \<Rightarrow> bool) \<Rightarrow> (nat \<Rightarrow> 's \<Rightarrow> 's) \<Rightarrow> string \<Rightarrow> string \<Rightarrow> string \<Rightarrow>
   string list option \<Rightarrow> nat \<Rightarrow> nat \<Rightarrow> payload \<Rightarrow> dict \<Rightarrow> dict \<Rightarrow> fenced_mutation \<Rightarrow> 's \<Rightarrow> fenced_mutation res \<times> 's" where
  "fenced_update_loop get exec up mid lk jk token allowed 0 i current_raw current_job updates prev st = (Inr prev, st)"
| "fenced_update_loop get exec up mid lk jk token allowed (Suc n) i current_raw current_job updates prev st0 =
     (let status = dict_get current_job ''status'';
          refused = (Inr \<lparr>fm_outcome = INVALID_STATE, fm_job = Some current_job, fm_raw = Some current_raw\<rparr>, st0)
      in if is_terminal_status status then refused
      else (case status_allowed allowed status of
          Inl e \<Rightarrow> (Inl e, st0)
        | Inr False \<Rightarrow> refused
        | Inr True \<Rightarrow>
            let next = py_update current_job updates;
                next_raw = Json_Dict Compact next;
                st = mid i st0
            in (case redis_call get exec (up i) (fenced_mutation_script lk jk token current_raw next_raw) st of
                  (Inl e, st') \<Rightarrow> (Inl e, st')
                | (Inr reply, st') \<Rightarrow>
                    (case decode_fenced_mutation reply of
                       Inl e \<Rightarrow> (Inl e, st')
                     | Inr m \<Rightarrow>
                         if fm_outcome m \<noteq> CONFLICT then (Inr m, st')
                         else (case (fm_raw m, fm_job m) of
                                 (Some raw, Some job) \<Rightarrow>
                                   fenced_update_loop get exec up mid lk jk token allowed n (i + 1) raw job updates m st'
                               | _ \<Rightarrow> (Inr (mutation INVALID_JOB), st'))))))"

definition fenced_update_sync_job where
  "fenced_update_sync_job get exec up mid st job_id token updates now allowed =
     (let lk = lock_key job_id; jk = job_key job_id;
          payload = stamped updates now;
          run = (\<lambda>raw job st. fenced_update_loop get exec up mid lk jk token allowed (3 :: nat) (2 :: nat) raw job payload
                   (mutation CONFLICT) st)
      in
      if \<not> up 0 then (Inl RedisError, st)
      else case stored_payload (get st) jk of
        None \<Rightarrow>
          (case redis_call get exec (up 1) (fenced_mutation_script lk jk token (Not_Json []) (Not_Json [])) (mid 1 st) of
             (Inl e, st') \<Rightarrow> (Inl e, st')
           | (Inr reply, st') \<Rightarrow>
               (case decode_fenced_mutation reply of
                  Inl e \<Rightarrow> (Inl e, st')
                | Inr m \<Rightarrow>
                    if fm_outcome m \<noteq> CONFLICT then (Inr m, st')
                    else (case (fm_raw m, fm_job m) of
                            (Some raw, Some job) \<Rightarrow> run raw job st'
                          | _ \<Rightarrow> (Inr (mutation INVALID_JOB), st'))))
      | Some raw \<Rightarrow>
          (case json_loads raw of
             Inr (Some job) \<Rightarrow> run raw job st
           | _ \<Rightarrow> (Inr (mutation INVALID_JOB), st)))"

subsection \<open>Status changes\<close>

definition processing_updates :: "real \<Rightarrow> dict" where
  "processing_updates now = [(''status'', PStr ''processing''), (''started_at'', PFloat now)]"

definition fenced_mark_job_processing where
  "fenced_mark_job_processing get exec up mid st job_id token now =
     fenced_update_sync_job get exec up mid st job_id token (processing_updates now) now
       (Some [''queued'', ''processing''])"

definition mark_job_processing where
  "mark_job_processing get exec up mid st job_id now =
     update_sync_job get exec up mid st job_id (processing_updates now) now"

text \<open>
  The counters of a result default to zero when absent; comparing anything but numbers raises.
  \<open>max(0, total - failed)\<close> is an integer for integers and whenever zero wins.
\<close>

definition get_default :: "dict \<Rightarrow> string \<Rightarrow> pyval \<Rightarrow> pyval" where
  "get_default d k v = (case map_of d k of None \<Rightarrow> v | Some w \<Rightarrow> w)"

definition py_max_sub :: "pyval \<Rightarrow> pyval \<Rightarrow> pyval res" where
  "py_max_sub a b =
     (case (as_int a, as_int b) of
        (Some m, Some n) \<Rightarrow> Inr (PInt (max 0 (m - n)))
      | _ \<Rightarrow> (case (num_of a, num_of b) of
                (Some x, Some y) \<Rightarrow> Inr (if x - y > 0 then PFloat (x - y) else PInt 0)
              | _ \<Rightarrow> Inl TypeError))"

definition first_error :: "pyval \<Rightarrow> string option res" where
  "first_error v =
     (if \<not> truthy v then Inr None
      else case v of PList (x # xs) \<Rightarrow> Inr (Some (py_str x)) | PStr (c # cs) \<Rightarrow> Inr (Some [c]) | PDict kvs \<Rightarrow> Inl KeyError
        | _ \<Rightarrow> Inl TypeError)"

record finalization =
  fz_status :: string
  fz_total :: pyval
  fz_failed :: pyval
  fz_updates :: dict

definition sync_job_finalization_updates :: "dict \<Rightarrow> real \<Rightarrow> finalization res" where
  "sync_job_finalization_updates result completed_at =
     (let failed = get_default result ''failed_segments'' (PInt 0);
          tot = get_default result ''total_segments'' (PInt 0)
      in case (num_of failed, num_of tot) of
        (Some f, Some t) \<Rightarrow>
          let status = (if t > 0 \<and> f \<ge> t then ''failed'' else if f > 0 then ''partial_failure'' else ''completed'')
          in res_bind
               (if status = ''failed'' then
                  res_bind (first_error (get_default result ''errors'' (PList []))) (\<lambda>first.
                    Inr (PStr (''All '' @ py_str tot @
                      (case first of
                         Some x \<Rightarrow> '' segments failed. First error: '' @ x
                       | None \<Rightarrow> '' segments failed processing''))))
                else Inr PNone)
               (\<lambda>error. res_bind (py_max_sub tot failed) (\<lambda>successful.
                  Inr \<lparr>fz_status = status, fz_total = tot, fz_failed = failed,
                    fz_updates =
                      [(''status'', PStr status), (''completed_at'', PFloat completed_at), (''result'', PDict result),
                       (''successful_segments'', successful), (''failed_segments'', failed), (''processed_segments'', tot),
                       (''error'', error)]\<rparr>))
      | _ \<Rightarrow> Inl TypeError)"

definition finalize_sync_job where
  "finalize_sync_job get exec up mid st job_id result now completed_at =
     (case sync_job_finalization_updates result completed_at of
        Inl e \<Rightarrow> (Inl e, st)
      | Inr fz \<Rightarrow> update_sync_job get exec up mid st job_id (fz_updates fz) now)"

definition fenced_finalize where
  "fenced_finalize get exec up mid st job_id token result now allowed =
     (case sync_job_finalization_updates result now of
        Inl e \<Rightarrow> (Inl e, st)
      | Inr fz \<Rightarrow> fenced_update_sync_job get exec up mid st job_id token (fz_updates fz) now (Some allowed))"

definition fenced_finalize_sync_job where
  "fenced_finalize_sync_job get exec up mid st job_id token result now =
     fenced_finalize get exec up mid st job_id token result now [''processing'']"

definition fenced_finalize_sync_job_from_durable_ledger where
  "fenced_finalize_sync_job_from_durable_ledger get exec up mid st job_id token result now =
     fenced_finalize get exec up mid st job_id token result now [''queued'', ''processing'']"

definition mark_job_completed where
  "mark_job_completed get exec up mid st job_id result now completed_at =
     finalize_sync_job get exec up mid st job_id result now completed_at"

definition failed_updates :: "string \<Rightarrow> string option \<Rightarrow> int option \<Rightarrow> real \<Rightarrow> dict" where
  "failed_updates error reason_code retry_after now =
     [(''status'', PStr ''failed''), (''completed_at'', PFloat now), (''error'', PStr error),
      (''reason_code'', opt_text reason_code), (''retry_after'', opt_number retry_after)]"

definition mark_job_failed where
  "mark_job_failed get exec up mid st job_id error reason_code retry_after now completed_at =
     update_sync_job get exec up mid st job_id (failed_updates error reason_code retry_after completed_at) now"

definition fenced_mark_job_failed where
  "fenced_mark_job_failed get exec up mid st job_id token error reason_code retry_after now =
     fenced_update_sync_job get exec up mid st job_id token (failed_updates error reason_code retry_after now) now
       (Some [''queued'', ''processing''])"

definition queued_updates :: "int \<Rightarrow> string \<Rightarrow> dict" where
  "queued_updates attempt error = [(''status'', PStr ''queued''), (''attempt'', PInt attempt), (''last_error'', PStr error)]"

definition mark_job_queued_for_retry where
  "mark_job_queued_for_retry get exec up mid st job_id attempt error now =
     update_sync_job get exec up mid st job_id (queued_updates attempt error) now"

definition fenced_mark_job_queued_for_retry where
  "fenced_mark_job_queued_for_retry get exec up mid st job_id token attempt error now =
     fenced_update_sync_job get exec up mid st job_id token (queued_updates attempt error) now
       (Some [''queued'', ''processing''])"

subsection \<open>The run lock\<close>

text \<open>The counter is incremented only when the lock is free; the token carries its value.\<close>

definition acquire_lock_with_epoch_script ::
  "string \<Rightarrow> string \<Rightarrow> string \<Rightarrow> (string \<Rightarrow> rval option) \<Rightarrow> (bool \<times> string) \<times> rwrite list" where
  "acquire_lock_with_epoch_script lk ek uuid rd =
     (if rd lk \<noteq> None then ((False, []), [])
      else let epoch = (case rd ek of Some (R_Counter n) \<Rightarrow> n + 1 | _ \<Rightarrow> 1);
               token = dec_int epoch @ '':'' @ uuid
           in ((True, token), [R_Incr ek, R_Set lk (R_Text token) (Some RUN_LOCK_TTL_SECONDS)]))"

text \<open>\<open>token.partition(':')\<close>\<close>

definition get_sync_job_run_lock_epoch :: "string \<Rightarrow> int" where
  "get_sync_job_run_lock_epoch token =
     (if CHR '':'' \<notin> set token then 0
      else case py_int_of_str (takeWhile (\<lambda>c. c \<noteq> CHR '':'') token) of
        None \<Rightarrow> 0
      | Some epoch \<Rightarrow> if epoch > 0 then epoch else 0)"

definition try_acquire_job_run_lock where
  "try_acquire_job_run_lock get exec up st job_id uuid =
     redis_call get exec up (\<lambda>rd. if rd (lock_key job_id) \<noteq> None then (None, [])
       else (Some uuid, [R_Set (lock_key job_id) (R_Text uuid) (Some RUN_LOCK_TTL_SECONDS)])) st"

definition try_acquire_sync_job_run_lock where
  "try_acquire_sync_job_run_lock get exec up st job_id uuid =
     (case redis_call get exec up (acquire_lock_with_epoch_script (lock_key job_id) (epoch_key job_id) uuid) st of
        (Inl e, st') \<Rightarrow> (Inl e, st')
      | (Inr (acquired, token), st') \<Rightarrow>
          if \<not> acquired then (Inr None, st')
          else if get_sync_job_run_lock_epoch token \<le> 0 then (Inl RuntimeError, st')
          else (Inr (Some token), st'))"

text \<open>A failing cleanup is logged and ignored.\<close>

definition delete_sync_job_run_lock_epoch where
  "delete_sync_job_run_lock_epoch get exec up st job_id =
     snd (redis_call get exec up (\<lambda>rd. ((), [R_Del (epoch_key job_id)])) st)"

definition renew_job_run_lock where
  "renew_job_run_lock get exec up st job_id token =
     redis_call get exec up (\<lambda>rd. if rd (lock_key job_id) = Some (R_Text token)
       then (True, [R_Expire (lock_key job_id) RUN_LOCK_TTL_SECONDS]) else (False, [])) st"

definition release_job_run_lock where
  "release_job_run_lock get exec up st job_id token =
     snd (redis_call get exec up (\<lambda>rd. ((), if rd (lock_key job_id) = Some (R_Text token) then [R_Del (lock_key job_id)] else [])) st)"

subsection \<open>Segments and once-markers\<close>

text \<open>\<open>up1\<close> and \<open>up2\<close>: each of the two commands may fail, and the failure is swallowed.\<close>

definition add_processed_segment where
  "add_processed_segment get exec up1 up2 st job_id segment_path =
     (case redis_call get exec up1 (\<lambda>rd. ((), [R_Sadd (segments_key job_id) segment_path])) st of
        (Inl e, st') \<Rightarrow> st'
      | (Inr u, st') \<Rightarrow> snd (redis_call get exec up2 (\<lambda>rd. ((), [R_Expire (segments_key job_id) JOB_TTL_SECONDS])) st'))"

definition fenced_add_segment_script :: "string \<Rightarrow> string \<Rightarrow> string \<Rightarrow> string \<Rightarrow> (string \<Rightarrow> rval option) \<Rightarrow> string \<times> rwrite list" where
  "fenced_add_segment_script lk sk token segment_path rd =
     (case lock_owner rd lk of
        None \<Rightarrow> (''missing_owner'', [])
      | Some owner \<Rightarrow>
          if owner \<noteq> token then (''stale_owner'', [])
          else (''applied'', [R_Sadd sk segment_path, R_Expire sk JOB_TTL_SECONDS]))"

definition add_processed_segment_if_run_owner where
  "add_processed_segment_if_run_owner get exec up st job_id token segment_path =
     (case redis_call get exec up (fenced_add_segment_script (lock_key job_id) (segments_key job_id) token segment_path) st of
        (Inl e, st') \<Rightarrow> (Inl e, st')
      | (Inr reply, st') \<Rightarrow> (decode_fence_only_mutation reply, st'))"

definition get_processed_segments :: "bool \<Rightarrow> (string \<Rightarrow> rval option) \<Rightarrow> string \<Rightarrow> string set" where
  "get_processed_segments up rd job_id =
     (if up then (case rd (segments_key job_id) of Some (R_Members ms) \<Rightarrow> set ms | _ \<Rightarrow> {}) else {})"

definition try_mark_once where
  "try_mark_once get exec up st job_id tag =
     (case redis_call get exec up (\<lambda>rd. if rd (once_key job_id tag) \<noteq> None then (False, [])
             else (True, [R_Set (once_key job_id tag) (R_Text ''1'') (Some JOB_TTL_SECONDS)])) st of
        (Inl e, st') \<Rightarrow> (True, st')
      | (Inr b, st') \<Rightarrow> (b, st'))"

subsection \<open>What an update does\<close>

text \<open>The states the environment alone can lead to while a call is under way.\<close>

inductive interfered :: "(nat \<Rightarrow> 's \<Rightarrow> 's) \<Rightarrow> 's \<Rightarrow> 's \<Rightarrow> bool" for mid where
  still: "interfered mid st st"
| moved: "interfered mid st s \<Longrightarrow> interfered mid st (mid i s)"

lemma interfered_trans: "interfered mid s u \<Longrightarrow> interfered mid st s \<Longrightarrow> interfered mid st u"
  by (induction rule: interfered.induct) (auto intro: interfered.moved)

text \<open>
  A call either leaves the store to the environment, or replaces once the text of a job that was
  not finished and, if fenced, whose lock its token held at that moment.
\<close>

definition commits :: "('s \<Rightarrow> string \<Rightarrow> rval option) \<Rightarrow> ('s \<Rightarrow> rwrite list \<Rightarrow> 's) \<Rightarrow> (nat \<Rightarrow> 's \<Rightarrow> 's) \<Rightarrow> string \<Rightarrow> dict \<Rightarrow>
    (dict \<Rightarrow> 's \<Rightarrow> bool) \<Rightarrow> 's \<Rightarrow> dict \<Rightarrow> 's \<Rightarrow> bool" where
  "commits get exec mid jk updates ok st job' st' \<longleftrightarrow>
     (\<exists>s raw job. interfered mid st s \<and> stored_payload (get s) jk = Some raw \<and> json_loads raw = Inr (Some job)
        \<and> \<not> is_terminal_status (dict_get job ''status'') \<and> ok job s \<and> job' = py_update job updates
        \<and> st' = exec s [R_Set jk (R_Payload (Json_Dict Compact job')) (Some JOB_TTL_SECONDS)])"

lemma commits_later: "commits get exec mid jk updates ok s job' st' \<Longrightarrow> interfered mid st s \<Longrightarrow> commits get exec mid jk updates ok st job' st'"
  unfolding commits_def by (blast intro: interfered_trans)

lemma json_loads_Some: "json_loads raw = Inr (Some d) \<longleftrightarrow> (\<exists>sty. raw = Json_Dict sty d)"
  by (auto simp: json_loads_def split: payload.splits)

lemma fence_outcome_simps [simp]:
  "outcome_of ''applied'' = Inr APPLIED" "outcome_of ''conflict'' = Inr CONFLICT" "outcome_of ''missing_owner'' = Inr MISSING_OWNER"
  "outcome_of ''stale_owner'' = Inr STALE_OWNER" "outcome_of ''missing_job'' = Inr MISSING_JOB"
  by (simp_all add: outcome_of_def)

lemma decode_simps [simp]:
  "decode_fenced_mutation (''applied'', Some (Json_Dict sty d)) = Inr \<lparr>fm_outcome = APPLIED, fm_job = Some d, fm_raw = Some (Json_Dict sty d)\<rparr>"
  "decode_fenced_mutation (''missing_job'', r) = Inr (mutation MISSING_JOB)"
  "decode_fenced_mutation (''missing_owner'', r) = Inr (mutation MISSING_OWNER)"
  "decode_fenced_mutation (''stale_owner'', r) = Inr (mutation STALE_OWNER)"
  by (simp_all add: decode_fenced_mutation_def json_loads_def)

lemma decode_conflict:
  "decode_fenced_mutation (''conflict'', Some raw) =
     Inr (case json_loads raw of Inr (Some d) \<Rightarrow> \<lparr>fm_outcome = CONFLICT, fm_job = Some d, fm_raw = Some raw\<rparr> | _ \<Rightarrow> mutation INVALID_JOB)"
  by (simp add: decode_fenced_mutation_def split: sum.split option.split)

lemma legacy_update_shape:
  assumes "legacy_update_loop get exec up mid jk n i raw job updates st = (r, st')" "json_loads raw = Inr (Some job)"
  shows "case r of Inr (Some job') \<Rightarrow> commits get exec mid jk updates (\<lambda>_ _. True) st job' st' | _ \<Rightarrow> interfered mid st st'"
  using assms
proof (induction n arbitrary: i raw job st)
  case 0
  then show ?case by (auto intro: interfered.still)
next
  case (Suc n)
  let ?s = "mid i st"
  let ?go = "legacy_update_loop get exec up mid jk (Suc n) i raw job updates st"
  have mid: "interfered mid st ?s" by (rule interfered.moved [OF interfered.still])
  show ?case
  proof (cases "is_terminal_status (dict_get job ''status'') \<or> \<not> up i \<or> stored_payload (get ?s) jk = None")
    case True
    with Suc.prems(1) mid show ?thesis
      by (auto simp: Let_def redis_call_def legacy_mutation_script_def mutation_def intro: interfered.still split: if_split_asm)
  next
    case False
    then obtain raw' where raw': "stored_payload (get ?s) jk = Some raw'" and nt: "\<not> is_terminal_status (dict_get job ''status'')"
      and up: "up i" by auto
    show ?thesis
    proof (cases "raw' = raw")
      case True
      then have "r = Inr (Some (py_update job updates))"
        "st' = exec ?s [R_Set jk (R_Payload (Json_Dict Compact (py_update job updates))) (Some JOB_TTL_SECONDS)]"
        using Suc.prems(1) raw' nt up by (simp_all add: Let_def redis_call_def legacy_mutation_script_def)
      moreover have "commits get exec mid jk updates (\<lambda>_ _. True) st (py_update job updates)
          (exec ?s [R_Set jk (R_Payload (Json_Dict Compact (py_update job updates))) (Some JOB_TTL_SECONDS)])"
        unfolding commits_def using mid raw' True Suc.prems(2) nt by blast
      ultimately show ?thesis by simp
    next
      case False
      show ?thesis
      proof (cases "\<exists>d. json_loads raw' = Inr (Some d)")
        case True
        then obtain d where d: "json_loads raw' = Inr (Some d)" by blast
        have "legacy_update_loop get exec up mid jk n (i + 1) raw' d updates ?s = (r, st')"
          using Suc.prems(1) raw' nt up False d by (simp add: Let_def redis_call_def legacy_mutation_script_def decode_conflict)
        from Suc.IH [OF this d] show ?thesis
          by (auto intro: commits_later [OF _ mid] interfered_trans [OF _ mid] split: sum.split option.split)
      next
        case False
        then have "json_loads raw' = Inr None \<or> (\<exists>e. json_loads raw' = Inl e)" by (cases "json_loads raw'") auto
        then have "r = Inr None \<and> st' = ?s"
          using Suc.prems(1) raw' nt up \<open>raw' \<noteq> raw\<close>
          by (auto simp: Let_def redis_call_def legacy_mutation_script_def decode_conflict mutation_def)
        with mid show ?thesis by simp
      qed
    qed
  qed
qed

definition held :: "('s \<Rightarrow> string \<Rightarrow> rval option) \<Rightarrow> string \<Rightarrow> string \<Rightarrow> string list option \<Rightarrow> dict \<Rightarrow> 's \<Rightarrow> bool" where
  "held get lk token allowed job s \<longleftrightarrow>
     lock_owner (get s) lk = Some token \<and> status_allowed allowed (dict_get job ''status'') = Inr True"

definition fenced_effect ::
  "('s \<Rightarrow> string \<Rightarrow> rval option) \<Rightarrow> ('s \<Rightarrow> rwrite list \<Rightarrow> 's) \<Rightarrow> (nat \<Rightarrow> 's \<Rightarrow> 's) \<Rightarrow> string \<Rightarrow> string \<Rightarrow> string \<Rightarrow> string list option \<Rightarrow>
   dict \<Rightarrow> 's \<Rightarrow> fenced_mutation res \<Rightarrow> 's \<Rightarrow> bool" where
  "fenced_effect get exec mid lk jk token allowed updates st r st' \<longleftrightarrow>
     (case r of
        Inl e \<Rightarrow> interfered mid st st'
      | Inr m \<Rightarrow>
          if applied m then \<exists>job'. fm_job m = Some job' \<and> commits get exec mid jk updates (held get lk token allowed) st job' st'
          else interfered mid st st')"

lemma fenced_effect_later:
  "fenced_effect get exec mid lk jk token allowed updates s r st' \<Longrightarrow> interfered mid st s \<Longrightarrow>
   fenced_effect get exec mid lk jk token allowed updates st r st'"
  unfolding fenced_effect_def
  by (auto intro: commits_later interfered_trans split: sum.split_asm if_split_asm)

lemma fenced_effect_quiet:
  "interfered mid st st' \<Longrightarrow> (\<And>m. r = Inr m \<Longrightarrow> \<not> applied m) \<Longrightarrow> fenced_effect get exec mid lk jk token allowed updates st r st'"
  by (auto simp: fenced_effect_def split: sum.split)

lemma fenced_loop_conflict:
  assumes "\<not> is_terminal_status (dict_get job ''status'')" "status_allowed allowed (dict_get job ''status'') = Inr True" "up i"
    "lock_owner (get (mid i st)) lk = Some token" "stored_payload (get (mid i st)) jk = Some raw'" "raw' \<noteq> raw"
    "json_loads raw' = Inr (Some d)"
  shows "fenced_update_loop get exec up mid lk jk token allowed (Suc n) i raw job updates prev st =
    fenced_update_loop get exec up mid lk jk token allowed n (i + 1) raw' d updates
      \<lparr>fm_outcome = CONFLICT, fm_job = Some d, fm_raw = Some raw'\<rparr> (mid i st)"
  unfolding fenced_update_loop.simps(2) Let_def redis_call_def fenced_mutation_script_def using assms
  by (simp add: decode_conflict)

lemma fenced_loop_effect:
  assumes "fenced_update_loop get exec up mid lk jk token allowed n i raw job updates prev st = (r, st')"
    "json_loads raw = Inr (Some job)" "\<not> applied prev"
  shows "fenced_effect get exec mid lk jk token allowed updates st r st'"
  using assms
proof (induction n arbitrary: i raw job st prev)
  case 0
  then show ?case by (intro fenced_effect_quiet) (auto intro: interfered.still)
next
  case (Suc n)
  let ?s = "mid i st" and ?status = "dict_get job ''status''"
  have mid: "interfered mid st ?s" by (rule interfered.moved [OF interfered.still])
  consider (refused) "is_terminal_status ?status \<or> status_allowed allowed ?status \<noteq> Inr True"
    | (lost) "\<not> is_terminal_status ?status" "status_allowed allowed ?status = Inr True"
        "\<not> up i \<or> lock_owner (get ?s) lk \<noteq> Some token \<or> stored_payload (get ?s) jk = None"
    | (found) raw' where "\<not> is_terminal_status ?status" "status_allowed allowed ?status = Inr True" "up i"
        "lock_owner (get ?s) lk = Some token" "stored_payload (get ?s) jk = Some raw'" by fastforce
  then show ?case
  proof cases
    case refused
    have "status_allowed allowed ?status = Inr False \<or> (\<exists>e. status_allowed allowed ?status = Inl e)" if "status_allowed allowed ?status \<noteq> Inr True"
      using that by (cases "status_allowed allowed ?status") auto
    with refused Suc.prems(1) show ?thesis
      by (intro fenced_effect_quiet) (auto simp: Let_def applied_def intro: interfered.still split: if_split_asm)
  next
    case lost
    with Suc.prems(1) mid show ?thesis
      by (intro fenced_effect_quiet)
        (auto simp: Let_def redis_call_def fenced_mutation_script_def applied_def mutation_def split: if_split_asm option.split_asm)
  next
    case found
    show ?thesis
    proof (cases "raw' = raw")
      case True
      then have r: "r = Inr \<lparr>fm_outcome = APPLIED, fm_job = Some (py_update job updates), fm_raw = Some (Json_Dict Compact (py_update job updates))\<rparr>"
        "st' = exec ?s [R_Set jk (R_Payload (Json_Dict Compact (py_update job updates))) (Some JOB_TTL_SECONDS)]"
        using Suc.prems(1) found by (simp_all add: Let_def redis_call_def fenced_mutation_script_def)
      have "commits get exec mid jk updates (held get lk token allowed) st (py_update job updates) st'"
        unfolding commits_def held_def r(2) using mid found True Suc.prems(2) by blast
      then show ?thesis by (simp add: fenced_effect_def r(1) applied_def)
    next
      case False
      show ?thesis
      proof (cases "\<exists>d. json_loads raw' = Inr (Some d)")
        case True
        then obtain d where d: "json_loads raw' = Inr (Some d)" by blast
        then have "fenced_update_loop get exec up mid lk jk token allowed n (i + 1) raw' d updates
            \<lparr>fm_outcome = CONFLICT, fm_job = Some d, fm_raw = Some raw'\<rparr> ?s = (r, st')"
          using Suc.prems(1) by (simp only: fenced_loop_conflict [where get = get and mid = mid and up = up and i = i and st = st, OF found \<open>raw' \<noteq> raw\<close> d])
        moreover have "\<not> applied \<lparr>fm_outcome = CONFLICT, fm_job = Some d, fm_raw = Some raw'\<rparr>" by (simp add: applied_def)
        ultimately show ?thesis by (rule fenced_effect_later [OF Suc.IH [OF _ d] mid])
      next
        case False
        then have "json_loads raw' = Inr None \<or> (\<exists>e. json_loads raw' = Inl e)" by (cases "json_loads raw'") auto
        then have "r = Inr (mutation INVALID_JOB) \<and> st' = ?s"
          using Suc.prems(1) found \<open>raw' \<noteq> raw\<close>
          by (auto simp: Let_def redis_call_def fenced_mutation_script_def decode_conflict mutation_def)
        with mid show ?thesis by (intro fenced_effect_quiet) (simp_all add: applied_def mutation_def)
      qed
    qed
  qed
qed

lemma update_sync_job_effect:
  assumes "update_sync_job get exec up mid st job_id updates now = (r, st')"
  shows "case r of Inr (Some job') \<Rightarrow> commits get exec mid (job_key job_id) (stamped updates now) (\<lambda>_ _. True) st job' st'
    | _ \<Rightarrow> interfered mid st st'"
proof (cases "up 0 \<and> (\<exists>raw job. stored_payload (get st) (job_key job_id) = Some raw \<and> json_loads raw = Inr (Some job))")
  case True
  then obtain raw job where j: "up 0" "stored_payload (get st) (job_key job_id) = Some raw" "json_loads raw = Inr (Some job)" by blast
  then have "legacy_update_loop get exec up mid (job_key job_id) 3 1 raw job (stamped updates now) st = (r, st')"
    using assms by (simp add: update_sync_job_def)
  from legacy_update_shape [OF this j(3)] show ?thesis .
next
  case False
  then have "(\<exists>e. r = Inl e) \<or> r = Inr None" "st' = st"
    using assms by (auto simp: update_sync_job_def split: if_split_asm option.split_asm sum.split_asm)
  then show ?thesis by (auto intro: interfered.still)
qed

text \<open>
  A fenced update first probes the lock when there is no job; the probe compares with the empty
  text and can at most store that text over itself.
\<close>

definition probed :: "('s \<Rightarrow> string \<Rightarrow> rval option) \<Rightarrow> ('s \<Rightarrow> rwrite list \<Rightarrow> 's) \<Rightarrow> (nat \<Rightarrow> 's \<Rightarrow> 's) \<Rightarrow> string \<Rightarrow> 's \<Rightarrow> 's \<Rightarrow> bool" where
  "probed get exec mid jk st st' \<longleftrightarrow>
     stored_payload (get (mid 1 st)) jk = Some (Not_Json [])
     \<and> st' = exec (mid 1 st) [R_Set jk (R_Payload (Not_Json [])) (Some JOB_TTL_SECONDS)]"

lemma fenced_update_effect:
  assumes "fenced_update_sync_job get exec up mid st job_id token updates now allowed = (r, st')"
  shows "fenced_effect get exec mid (lock_key job_id) (job_key job_id) token allowed (stamped updates now) st r st'
    \<or> r = Inr (mutation INVALID_JOB) \<and> probed get exec mid (job_key job_id) st st'"
proof -
  let ?jk = "job_key job_id" and ?lk = "lock_key job_id" and ?s = "mid 1 st"
  let ?run = "\<lambda>raw job s. fenced_update_loop get exec up mid ?lk ?jk token allowed 3 2 raw job (stamped updates now) (mutation CONFLICT) s"
  let ?E = "\<lambda>r. fenced_effect get exec mid ?lk ?jk token allowed (stamped updates now) st r st'"
  have na: "\<not> applied (mutation CONFLICT)" by (simp add: applied_def mutation_def)
  have mid: "interfered mid st ?s" by (rule interfered.moved [OF interfered.still])
  consider (down) "\<not> up 0" | (some) raw where "up 0" "stored_payload (get st) ?jk = Some raw"
    | (none) "up 0" "stored_payload (get st) ?jk = None" by fastforce
  then show ?thesis
  proof cases
    case down
    then have "r = Inl RedisError" "st' = st" using assms by (simp_all add: fenced_update_sync_job_def Let_def)
    then show ?thesis by (intro disjI1 fenced_effect_quiet) (simp_all add: interfered.still)
  next
    case some
    show ?thesis
    proof (cases "\<exists>job. json_loads raw = Inr (Some job)")
      case True
      then obtain job where j: "json_loads raw = Inr (Some job)" by blast
      then have "?run raw job st = (r, st')" using assms some by (simp add: fenced_update_sync_job_def Let_def)
      from fenced_loop_effect [OF this j na] show ?thesis by blast
    next
      case False
      then have "json_loads raw = Inr None \<or> (\<exists>e. json_loads raw = Inl e)" by (cases "json_loads raw") auto
      then have "r = Inr (mutation INVALID_JOB)" "st' = st" using assms some by (auto simp: fenced_update_sync_job_def Let_def)
      then show ?thesis by (intro disjI1 fenced_effect_quiet) (simp_all add: interfered.still applied_def mutation_def)
    qed
  next
    case none
    note def = assms [unfolded fenced_update_sync_job_def Let_def]
    consider (lost) "\<not> up 1 \<or> lock_owner (get ?s) ?lk \<noteq> Some token \<or> stored_payload (get ?s) ?jk = None"
      | (empty) "up 1" "lock_owner (get ?s) ?lk = Some token" "stored_payload (get ?s) ?jk = Some (Not_Json [])"
      | (bad) raw where "up 1" "lock_owner (get ?s) ?lk = Some token" "stored_payload (get ?s) ?jk = Some raw" "raw \<noteq> Not_Json []"
          "json_loads raw = Inr None \<or> (\<exists>e. json_loads raw = Inl e)"
      | (found) raw job where "up 1" "lock_owner (get ?s) ?lk = Some token" "stored_payload (get ?s) ?jk = Some raw"
          "json_loads raw = Inr (Some job)"
      by (cases "stored_payload (get ?s) ?jk"; cases "json_loads (the (stored_payload (get ?s) ?jk))") (auto, metis not_Some_eq)
    then show ?thesis
    proof cases
      case lost
      then have "interfered mid st st' \<and> (\<forall>m. r = Inr m \<longrightarrow> \<not> applied m)"
        using def none mid by (auto simp: redis_call_def fenced_mutation_script_def applied_def mutation_def split: if_split_asm option.split_asm)
      then show ?thesis by (intro disjI1 fenced_effect_quiet) simp_all
    next
      case empty
      then show ?thesis
        using def none by (auto simp: redis_call_def fenced_mutation_script_def decode_fenced_mutation_def json_loads_def probed_def mutation_def)
    next
      case bad
      then have "r = Inr (mutation INVALID_JOB) \<and> st' = ?s"
        using def none by (auto simp: redis_call_def fenced_mutation_script_def decode_conflict mutation_def)
      with mid show ?thesis by (intro disjI1 fenced_effect_quiet) (simp_all add: applied_def mutation_def)
    next
      case found
      then have "raw \<noteq> Not_Json []" by (auto simp: json_loads_def)
      then have "?run raw job ?s = (r, st')" using def none found by (simp add: redis_call_def fenced_mutation_script_def decode_conflict)
      from fenced_loop_effect [OF this found(4) na] mid show ?thesis by (blast intro: fenced_effect_later)
    qed
  qed
qed

end
