(* ===== verification/Op_Runs.thy ===== *)
theory Op_Runs
  imports Remi_Prelude
begin

text \<open>
  Runs of operations on a shared state, in the order in which they take effect, with their
  answers; and the contract of a marker that makes one kind of operation succeed at most once.
\<close>

fun run_ops :: "('op \<Rightarrow> 's \<Rightarrow> 'r \<times> 's) \<Rightarrow> 'op list \<Rightarrow> 's \<Rightarrow> ('op \<times> 'r) list \<times> 's" where
  "run_ops exec [] s = ([], s)"
| "run_ops exec (op # ops) s =
     (let (b, s') = exec op s; (answers, s'') = run_ops exec ops s' in ((op, b) # answers, s''))"

lemma run_ops_Cons:
  assumes "run_ops exec (op # ops) s = (answers, s'')"
  obtains b s' rest where "exec op s = (b, s')" "run_ops exec ops s' = (rest, s'')" "answers = (op, b) # rest"
  using assms that by (auto simp: Let_def split: prod.splits)

lemma run_ops_invariant:
  assumes "\<And>op s. I s \<Longrightarrow> P op \<Longrightarrow> I (snd (exec op s))" and "I s" "\<forall>op \<in> set ops. P op"
  shows "I (snd (run_ops exec ops s))"
  using assms(2,3)
proof (induction ops arbitrary: s)
  case (Cons op ops)
  have "I (snd (exec op s))" using Cons.prems assms(1) by simp
  then have "I (snd (run_ops exec ops (snd (exec op s))))" using Cons.IH Cons.prems(2) by simp
  then show ?case by (auto simp: Let_def split: prod.splits)
qed simp

text \<open>A promise about every answer that an invariant of the state carries.\<close>

lemma run_ops_answers:
  assumes step: "\<And>op s. I s \<Longrightarrow> P op \<Longrightarrow> I (snd (exec op s)) \<and> Q op (fst (exec op s))"
    and "run_ops exec ops s = (answers, s')" "I s" "\<forall>op \<in> set ops. P op"
  shows "I s' \<and> (\<forall>(op, r) \<in> set answers. Q op r)"
  using assms(2-)
proof (induction ops arbitrary: s answers)
  case (Cons op ops)
  obtain b s1 rest where e: "exec op s = (b, s1)" "run_ops exec ops s1 = (rest, s')" "answers = (op, b) # rest"
    using Cons.prems(1) by (rule run_ops_Cons)
  have "I s1" "Q op b" using step [of s op] Cons.prems(2,3) e(1) by simp_all
  with Cons.IH [OF e(2)] Cons.prems(3) show ?case by (simp add: e(3))
qed simp

lemma run_ops_append: "snd (run_ops f (xs @ ys) s) = snd (run_ops f ys (snd (run_ops f xs s)))"
  by (induction xs arbitrary: s) (simp_all add: Let_def case_prod_beta)

locale once_only =
  fixes exec :: "'op \<Rightarrow> 's \<Rightarrow> bool \<times> 's" and admits :: "'op \<Rightarrow> bool" and inv :: "'s \<Rightarrow> bool"
    and hit :: "'op \<Rightarrow> bool" and marked :: "'s \<Rightarrow> bool"
  assumes inv_step: "inv s \<Longrightarrow> admits op \<Longrightarrow> inv (snd (exec op s))"
    and marked_step: "inv s \<Longrightarrow> admits op \<Longrightarrow> marked s \<Longrightarrow> marked (snd (exec op s))"
    and hit_step: "inv s \<Longrightarrow> admits op \<Longrightarrow> hit op \<Longrightarrow> fst (exec op s) \<Longrightarrow> \<not> marked s \<and> marked (snd (exec op s))"
begin

definition hits :: "('op \<times> bool) list \<Rightarrow> ('op \<times> bool) list" where
  "hits answers = filter (\<lambda>(op, b). hit op \<and> b) answers"

lemma none_after_mark:
  "run_ops exec ops s = (answers, s') \<Longrightarrow> inv s \<Longrightarrow> \<forall>op \<in> set ops. admits op \<Longrightarrow> marked s \<Longrightarrow> hits answers = []"
proof (induction ops arbitrary: s answers)
  case (Cons op ops)
  obtain b s1 rest where e: "exec op s = (b, s1)" "run_ops exec ops s1 = (rest, s')" "answers = (op, b) # rest"
    using Cons.prems(1) by (rule run_ops_Cons)
  have "inv s1" "marked s1" using inv_step [of s op] marked_step [of s op] Cons.prems e(1) by simp_all
  with Cons.IH [OF e(2)] Cons.prems(3) have "hits rest = []" by simp
  moreover have "\<not> (hit op \<and> b)" using hit_step [of s op] Cons.prems e(1) by auto
  ultimately show ?case by (simp add: e(3) hits_def)
qed (simp add: hits_def)

lemma at_most_once:
  "run_ops exec ops s = (answers, s') \<Longrightarrow> inv s \<Longrightarrow> \<forall>op \<in> set ops. admits op \<Longrightarrow> length (hits answers) \<le> 1"
proof (induction ops arbitrary: s answers)
  case (Cons op ops)
  obtain b s1 rest where e: "exec op s = (b, s1)" "run_ops exec ops s1 = (rest, s')" "answers = (op, b) # rest"
    using Cons.prems(1) by (rule run_ops_Cons)
  have inv: "inv s1" using inv_step [of s op] Cons.prems e(1) by simp
  show ?case
  proof (cases "hit op \<and> b")
    case True
    then have "marked s1" using hit_step [of s op] Cons.prems e(1) by auto
    then have "hits rest = []" using none_after_mark [OF e(2) inv] Cons.prems(3) by simp
    then show ?thesis by (simp add: e(3) hits_def)
  next
    case False
    then have "hits answers = hits rest" by (auto simp: e(3) hits_def)
    with Cons.IH [OF e(2) inv] Cons.prems(3) show ?thesis by simp
  qed
qed (simp add: hits_def)

end

end
