(* ===== verification/Sync_Ledger.thy ===== *)
theory Sync_Ledger
  imports Projection_Binding Op_Runs "HOL-Library.Sublist"
begin

text \<open>
  \<^verbatim>\<open>database/sync_ledger.py\<close>: the durable ledger that makes the processing and the metering of
  an uploaded recording happen once. One document per content id carries the claim (status and
  job), the run token and the epoch of the worker that owns it, the markers of the side effects
  already taken, the segments already processed, and finally the result.
\<close>

subsection \<open>Data\<close>

definition LEDGER_RETENTION_DAYS :: int where
  "LEDGER_RETENTION_DAYS = 45"

definition CLAIM_STALE_SECONDS :: int where
  "CLAIM_STALE_SECONDS = 2 * 24 * 60 * 60"

datatype run_binding = BOUND | COMPLETED_BINDING pyval | LOST

datatype ledger_claim = Claim_Owned | Claim_Busy | Claim_Completed pyval

definition ledger_ref :: "string \<Rightarrow> string \<Rightarrow> path" where
  "ledger_ref uid content_id = [''users'', uid, ''sync_content_ledger'', content_id]"

text \<open>\<open>snapshot.to_dict() or {}\<close>, and the empty mapping for a missing document.\<close>

definition existing_doc :: "(path \<Rightarrow> doc option) \<Rightarrow> path \<Rightarrow> doc" where
  "existing_doc rd ref = (case rd ref of None \<Rightarrow> Map.empty | Some d \<Rightarrow> d)"

definition expiry :: "int \<Rightarrow> int" where
  "expiry now = now + td_seconds (LEDGER_RETENTION_DAYS * 86400)"

definition opt_str :: "string option \<Rightarrow> pyval" where
  "opt_str v = (case v of None \<Rightarrow> PNone | Some s \<Rightarrow> PStr s)"

definition opt_int :: "int option \<Rightarrow> pyval" where
  "opt_int v = (case v of None \<Rightarrow> PNone | Some n \<Rightarrow> PInt n)"

definition ledger_owner_matches :: "doc \<Rightarrow> string \<Rightarrow> string option \<Rightarrow> int option \<Rightarrow> bool" where
  "ledger_owner_matches existing job_id run_token run_epoch =
     (if dget existing ''status'' \<noteq> PStr ''processing'' \<or> dget existing ''job_id'' \<noteq> PStr job_id then False
      else case run_token of
        None \<Rightarrow> dget existing ''ledger_run_token'' = PNone \<and> dget existing ''ledger_run_epoch'' = PNone
      | Some token \<Rightarrow> dget existing ''ledger_run_token'' = PStr token
          \<and> py_eq (dget existing ''ledger_run_epoch'') (opt_int run_epoch))"

text \<open>
  \<open>v in {'success', 'expected_silence'}\<close> raises for a list or a mapping, which cannot be hashed.
  The counters must be integers and not booleans; the error list must be an empty list.
\<close>

definition accepted_outcome :: "pyval \<Rightarrow> bool res" where
  "accepted_outcome v =
     (case v of PList xs \<Rightarrow> Inl TypeError | PDict kvs \<Rightarrow> Inl TypeError
      | _ \<Rightarrow> Inr (v \<in> {PStr ''success'', PStr ''expected_silence''}))"

definition is_valid_completed_sync_content_result :: "pyval \<Rightarrow> bool res" where
  "is_valid_completed_sync_content_result result =
     (case result of
        PDict kvs \<Rightarrow>
          (case (dict_get kvs ''failed_segments'', dict_get kvs ''total_segments'', dict_get kvs ''errors'') of
             (PInt failed_n, PInt total_n, PList errs) \<Rightarrow>
               if failed_n = 0 \<and> total_n \<ge> 0 \<and> failed_n \<le> total_n \<and> errs = [] then
                 (if dict_get kvs ''outcome'' = PNone then Inr (total_n > 0) else accepted_outcome (dict_get kvs ''outcome''))
               else Inr False
           | _ \<Rightarrow> Inr False)
      | _ \<Rightarrow> Inr False)"

subsection \<open>Claiming content\<close>

definition deletions :: "doc \<Rightarrow> string list \<Rightarrow> fields" where
  "deletions existing ks = map (\<lambda>k. (k, DeleteField)) (filter (\<lambda>k. existing k \<noteq> None) ks)"

definition processing_claim_updates :: "string \<Rightarrow> string \<Rightarrow> int \<Rightarrow> doc \<Rightarrow> bool \<Rightarrow> fields" where
  "processing_claim_updates job_id lane now existing clear_invalid_completion =
     [(''status'', Put (PStr ''processing'')),
      (''job_id'', Put (PStr job_id)),
      (''lane'', Put (PStr lane)),
      (''updated_at'', Put (PTime now)),
      (''expires_at'', Put (PTime (expiry now)))]
     @ deletions existing [''ledger_run_token'', ''ledger_run_epoch'']
     @ (if clear_invalid_completion then deletions existing [''result'', ''partial_result'', ''processed_segment_ids''] else [])"

definition claim_transaction ::
  "path \<Rightarrow> string \<Rightarrow> string \<Rightarrow> int \<Rightarrow> (path \<Rightarrow> doc option) \<Rightarrow> (ledger_claim \<times> write list) res" where
  "claim_transaction ref job_id lane now rd =
     (let existing = existing_doc rd ref;
          take = (\<lambda>clear. Inr (Claim_Owned, [SetMerge ref (processing_claim_updates job_id lane now existing clear)]))
      in
      if dget existing ''status'' = PStr ''completed'' then
        res_bind (is_valid_completed_sync_content_result (dget existing ''result'')) (\<lambda>valid.
          if valid then Inr (Claim_Completed (dget existing ''result''), []) else take True)
      else if dget existing ''job_id'' = PStr job_id then Inr (Claim_Owned, [])
      else if dget existing ''status'' = PStr ''retryable'' then take False
      else if (case as_time (dget existing ''updated_at'') of
                 None \<Rightarrow> False | Some t \<Rightarrow> now - t < td_seconds CLAIM_STALE_SECONDS) then Inr (Claim_Busy, [])
      else take False)"

definition claim_sync_content where
  "claim_sync_content fetch commit st uid content_id job_id lane now =
     run_txn fetch commit (claim_transaction (ledger_ref uid content_id) job_id lane now) st"

text \<open>The entries that follow in the literal override those of the claim updates.\<close>

definition bind_run_token_transaction ::
  "path \<Rightarrow> string \<Rightarrow> string \<Rightarrow> int \<Rightarrow> int \<Rightarrow> (path \<Rightarrow> doc option) \<Rightarrow> (run_binding \<times> write list) res" where
  "bind_run_token_transaction ref job_id run_token run_epoch now rd =
     (let existing = existing_doc rd ref;
          token = [(''ledger_run_token'', Put (PStr run_token)), (''ledger_run_epoch'', Put (PInt run_epoch))];
          adopt = Inr (BOUND, [SetMerge ref (token @ [(''updated_at'', Put (PTime now))])])
      in
      if dget existing ''status'' = PStr ''completed'' then
        res_bind (is_valid_completed_sync_content_result (dget existing ''result'')) (\<lambda>valid.
          if valid then Inr (COMPLETED_BINDING (dget existing ''result''), [])
          else if dget existing ''job_id'' \<noteq> PStr job_id then Inr (LOST, [])
          else Inr (BOUND,
            [SetMerge ref (token @ processing_claim_updates job_id (str_or existing ''lane'' ''legacy'') now existing True)]))
      else if dget existing ''status'' \<noteq> PStr ''processing'' \<or> dget existing ''job_id'' \<noteq> PStr job_id then Inr (LOST, [])
      else (case dget existing ''ledger_run_epoch'' of
              PNone \<Rightarrow> adopt
            | PInt stored_epoch \<Rightarrow>
                if stored_epoch > run_epoch then Inr (LOST, [])
                else if stored_epoch = run_epoch
                then Inr (if dget existing ''ledger_run_token'' = PStr run_token then BOUND else LOST, [])
                else adopt
            | _ \<Rightarrow> Inr (LOST, [])))"

definition bind_sync_content_run_token where
  "bind_sync_content_run_token fetch commit st uid content_id job_id run_token run_epoch now =
     run_txn fetch commit (bind_run_token_transaction (ledger_ref uid content_id) job_id run_token run_epoch now) st"

subsection \<open>Writes of the owner\<close>

definition SIDE_EFFECT_FIELDS :: "(string \<times> string) list" where
  "SIDE_EFFECT_FIELDS = [(''speech_ms'', ''metered_at''), (''usage'', ''usage_recorded_at''), (''dg_ms'', ''dg_recorded_at'')]"

definition side_effect_transaction ::
  "path \<Rightarrow> string \<Rightarrow> int \<Rightarrow> int \<Rightarrow> string \<Rightarrow> string option \<Rightarrow> int option \<Rightarrow> (path \<Rightarrow> doc option) \<Rightarrow> (bool \<times> write list) res" where
  "side_effect_transaction ref tag value now job_id run_token run_epoch rd =
     (case map_of SIDE_EFFECT_FIELDS tag of
        None \<Rightarrow> Inl KeyError
      | Some timestamp_field \<Rightarrow>
          let existing = existing_doc rd ref in
          if dget existing timestamp_field \<noteq> PNone then Inr (False, [])
          else if \<not> ledger_owner_matches existing job_id run_token run_epoch then Inr (False, [])
          else Inr (True,
            [SetMerge ref [(timestamp_field, Put (PTime now)), (tag @ ''_value'', Put (PInt value)), (''updated_at'', Put (PTime now))]]))"

definition try_mark_sync_content_side_effect where
  "try_mark_sync_content_side_effect fetch commit st uid content_id job_id tag value run_token run_epoch now =
     (if tag \<notin> fst ` set SIDE_EFFECT_FIELDS then (Inl ValueError, st)
      else run_txn fetch commit (side_effect_transaction (ledger_ref uid content_id) tag value now job_id run_token run_epoch) st)"

definition try_mark_sync_content_metered where
  "try_mark_sync_content_metered fetch commit st uid content_id job_id speech_ms run_token run_epoch now =
     try_mark_sync_content_side_effect fetch commit st uid content_id job_id ''speech_ms'' speech_ms run_token run_epoch now"

text \<open>Iterating a text yields its characters, iterating a mapping its keys; other scalars raise.\<close>

definition py_iter :: "pyval \<Rightarrow> pyval list res" where
  "py_iter v = (case v of PList xs \<Rightarrow> Inr xs | PStr s \<Rightarrow> Inr (map (\<lambda>c. PStr [c]) s) | PDict kvs \<Rightarrow> Inr (map (PStr \<circ> fst) kvs)
     | _ \<Rightarrow> Inl TypeError)"

definition py_contains :: "string \<Rightarrow> pyval \<Rightarrow> bool res" where
  "py_contains s v = (case v of PList xs \<Rightarrow> Inr (PStr s \<in> set xs) | PStr t \<Rightarrow> Inr (sublist s t) | PDict kvs \<Rightarrow> Inr (s \<in> fst ` set kvs)
     | _ \<Rightarrow> Inl TypeError)"

definition get_processed_sync_segment_ids :: "string \<Rightarrow> string \<Rightarrow> (path \<Rightarrow> doc option) \<Rightarrow> string set res" where
  "get_processed_sync_segment_ids uid content_id rd =
     res_bind (py_iter (py_or (dget (existing_doc rd (ledger_ref uid content_id)) ''processed_segment_ids'') (PList []))) (\<lambda>values.
       Inr (set (List.map_filter as_str values)))"

definition get_sync_content_partial_result :: "string \<Rightarrow> string \<Rightarrow> (path \<Rightarrow> doc option) \<Rightarrow> dict" where
  "get_sync_content_partial_result uid content_id rd =
     (case dget (existing_doc rd (ledger_ref uid content_id)) ''partial_result'' of PDict kvs \<Rightarrow> kvs | _ \<Rightarrow> [])"

definition checkpoint_partial_result_transaction ::
  "path \<Rightarrow> dict \<Rightarrow> int \<Rightarrow> string \<Rightarrow> string option \<Rightarrow> int option \<Rightarrow> (path \<Rightarrow> doc option) \<Rightarrow> (bool \<times> write list) res" where
  "checkpoint_partial_result_transaction ref partial_result now job_id run_token run_epoch rd =
     (if \<not> ledger_owner_matches (existing_doc rd ref) job_id run_token run_epoch then Inr (False, [])
      else Inr (True, [SetMerge ref [(''partial_result'', MergeMap partial_result), (''updated_at'', Put (PTime now))]]))"

definition checkpoint_sync_content_partial_result where
  "checkpoint_sync_content_partial_result fetch commit st uid content_id job_id partial_result run_token run_epoch now =
     run_txn fetch commit
       (checkpoint_partial_result_transaction (ledger_ref uid content_id) partial_result now job_id run_token run_epoch) st"

definition processed_segment_transaction ::
  "path \<Rightarrow> string \<Rightarrow> int \<Rightarrow> string \<Rightarrow> string option \<Rightarrow> int option \<Rightarrow> (path \<Rightarrow> doc option) \<Rightarrow> (bool \<times> write list) res" where
  "processed_segment_transaction ref segment_id now job_id run_token run_epoch rd =
     (let existing = existing_doc rd ref in
      res_bind (py_contains segment_id (py_or (dget existing ''processed_segment_ids'') (PList []))) (\<lambda>present.
        if present then Inr (False, [])
        else if \<not> ledger_owner_matches existing job_id run_token run_epoch then Inr (False, [])
        else Inr (True,
          [SetMerge ref [(''processed_segment_ids'', ArrayUnion [PStr segment_id]), (''updated_at'', Put (PTime now))]])))"

definition add_processed_sync_segment_id where
  "add_processed_sync_segment_id fetch commit st uid content_id job_id segment_id run_token run_epoch now =
     run_txn fetch commit (processed_segment_transaction (ledger_ref uid content_id) segment_id now job_id run_token run_epoch) st"

definition mark_completed_transaction ::
  "path \<Rightarrow> dict \<Rightarrow> int \<Rightarrow> string \<Rightarrow> string option \<Rightarrow> int option \<Rightarrow> (path \<Rightarrow> doc option) \<Rightarrow> (bool \<times> write list) res" where
  "mark_completed_transaction ref result now job_id run_token run_epoch rd =
     res_bind (is_valid_completed_sync_content_result (PDict result)) (\<lambda>valid.
       if \<not> valid then Inr (False, [])
       else if \<not> ledger_owner_matches (existing_doc rd ref) job_id run_token run_epoch then Inr (False, [])
       else Inr (True,
         [SetMerge ref
            [(''status'', Put (PStr ''completed'')), (''result'', MergeMap result), (''updated_at'', Put (PTime now)),
             (''expires_at'', Put (PTime (expiry now)))]]))"

definition mark_sync_content_completed where
  "mark_sync_content_completed fetch commit st uid content_id job_id result run_token run_epoch now =
     run_txn fetch commit (mark_completed_transaction (ledger_ref uid content_id) result now job_id run_token run_epoch) st"

subsection \<open>Releasing a claim\<close>

definition released_updates :: "int \<Rightarrow> fields" where
  "released_updates now =
     [(''status'', Put (PStr ''retryable'')),
      (''job_id'', DeleteField),
      (''ledger_run_token'', DeleteField),
      (''ledger_run_epoch'', DeleteField),
      (''updated_at'', Put (PTime now)),
      (''expires_at'', Put (PTime (expiry now)))]"

definition release_claim_transaction ::
  "path \<Rightarrow> int \<Rightarrow> string \<Rightarrow> string option \<Rightarrow> int option \<Rightarrow> (path \<Rightarrow> doc option) \<Rightarrow> (bool \<times> write list) res" where
  "release_claim_transaction ref now job_id run_token run_epoch rd =
     (let existing = existing_doc rd ref in
      if dget existing ''status'' = PStr ''completed'' \<or> \<not> ledger_owner_matches existing job_id run_token run_epoch
      then Inr (False, []) else Inr (True, [SetMerge ref (released_updates now)]))"

definition release_sync_content_claim where
  "release_sync_content_claim fetch commit st uid content_id job_id run_token run_epoch now =
     run_txn fetch commit (release_claim_transaction (ledger_ref uid content_id) now job_id run_token run_epoch) st"

definition release_claim_after_job_retired_transaction ::
  "path \<Rightarrow> string \<Rightarrow> int \<Rightarrow> (path \<Rightarrow> doc option) \<Rightarrow> (bool \<times> write list) res" where
  "release_claim_after_job_retired_transaction ref job_id now rd =
     (let existing = existing_doc rd ref in
      if dget existing ''status'' \<noteq> PStr ''processing'' \<or> dget existing ''job_id'' \<noteq> PStr job_id then Inr (False, [])
      else Inr (True, [SetMerge ref (released_updates now)]))"

definition release_sync_content_claim_after_job_retired where
  "release_sync_content_claim_after_job_retired fetch commit st uid content_id job_id now =
     run_txn fetch commit (release_claim_after_job_retired_transaction (ledger_ref uid content_id) job_id now) st"

subsection \<open>The contract of an owner's write\<close>

text \<open>
  A call under a job, a run token and an epoch writes the ledger document only, and only while
  they are the ones the document carries.
\<close>

locale ledger_write =
  fixes ref :: path and txn :: "string \<Rightarrow> string option \<Rightarrow> int option \<Rightarrow> (path \<Rightarrow> doc option) \<Rightarrow> (bool \<times> write list) res"
  assumes owned: "txn job_id token epoch rd = Inr (b, ws) \<Longrightarrow> ws \<noteq> [] \<Longrightarrow> ledger_owner_matches (existing_doc rd ref) job_id token epoch"
    and shape: "txn job_id token epoch rd = Inr (b, ws) \<Longrightarrow> ws = [] \<and> \<not> b \<or> (\<exists>fs. ws = [SetMerge ref fs]) \<and> b"
begin

text \<open>A worker whose epoch is behind the one the document carries changes nothing.\<close>

lemma stale_epoch_silent:
  assumes "txn job_id (Some token) (Some epoch) rd = Inr (b, ws)" "dget (existing_doc rd ref) ''ledger_run_epoch'' = PInt e" "epoch \<noteq> e"
  shows "\<not> b \<and> ws = []"
proof -
  have "ws = []"
  proof (rule ccontr)
    assume "ws \<noteq> []"
    then have "py_eq (PInt e) (PInt epoch)"
      using owned [OF assms(1)] assms(2) by (simp add: ledger_owner_matches_def opt_int_def split: if_split_asm)
    with assms(3) show False by simp
  qed
  with shape [OF assms(1)] show ?thesis by auto
qed

text \<open>No write after the claim has ended or moved to another job.\<close>

lemma not_processing_silent:
  assumes "txn job_id token epoch rd = Inr (b, ws)" "dget (existing_doc rd ref) ''status'' \<noteq> PStr ''processing''"
  shows "\<not> b \<and> ws = []"
  using owned [OF assms(1)] shape [OF assms(1)] assms(2) by (auto simp: ledger_owner_matches_def)

end

interpretation side_effect_write: ledger_write ref "side_effect_transaction ref tag value now" for ref tag "value" now
  by unfold_locales (auto simp: side_effect_transaction_def Let_def split: option.split_asm if_split_asm)

interpretation checkpoint_write: ledger_write ref "checkpoint_partial_result_transaction ref partial_result now" for ref partial_result now
  by unfold_locales (auto simp: checkpoint_partial_result_transaction_def split: if_split_asm)

interpretation segment_write: ledger_write ref "processed_segment_transaction ref segment_id now" for ref segment_id now
  by unfold_locales (auto simp: processed_segment_transaction_def Let_def split: if_split_asm)

interpretation completed_write: ledger_write ref "mark_completed_transaction ref result now" for ref result now
  by unfold_locales (auto simp: mark_completed_transaction_def split: if_split_asm)

interpretation release_write: ledger_write ref "release_claim_transaction ref now" for ref now
  by unfold_locales (auto simp: release_claim_transaction_def Let_def split: if_split_asm)

subsection \<open>Runs of the ledger\<close>

text \<open>
  The calls on one ledger document, with the arguments their callers pass, and the run of a
  list of them in the order their transactions commit. The answers to the marking calls are
  collected.
\<close>

datatype ledger_op =
    Do_Claim string string int
  | Do_Bind string string int int
  | Do_Mark string int int string "string option" "int option"
  | Do_Checkpoint dict int string "string option" "int option"
  | Do_Segment string int string "string option" "int option"
  | Do_Complete dict int string "string option" "int option"
  | Do_Release int string "string option" "int option"
  | Do_Retire string int

definition answer :: "('a \<Rightarrow> bool) \<Rightarrow> ('a \<times> write list) res \<Rightarrow> bool \<times> write list" where
  "answer f r = (case r of Inl e \<Rightarrow> (False, []) | Inr (x, ws) \<Rightarrow> (f x, ws))"

fun ledger_exec :: "path \<Rightarrow> ledger_op \<Rightarrow> (path \<Rightarrow> doc option) \<Rightarrow> bool \<times> write list" where
  "ledger_exec ref (Do_Claim job_id lane now) rd = answer (\<lambda>c. c = Claim_Owned) (claim_transaction ref job_id lane now rd)"
| "ledger_exec ref (Do_Bind job_id token epoch now) rd =
     answer (\<lambda>b. b = BOUND) (bind_run_token_transaction ref job_id token epoch now rd)"
| "ledger_exec ref (Do_Mark tag value now job_id token epoch) rd =
     answer id (side_effect_transaction ref tag value now job_id token epoch rd)"
| "ledger_exec ref (Do_Checkpoint partial_result now job_id token epoch) rd =
     answer id (checkpoint_partial_result_transaction ref partial_result now job_id token epoch rd)"
| "ledger_exec ref (Do_Segment segment_id now job_id token epoch) rd =
     answer id (processed_segment_transaction ref segment_id now job_id token epoch rd)"
| "ledger_exec ref (Do_Complete result now job_id token epoch) rd =
     answer id (mark_completed_transaction ref result now job_id token epoch rd)"
| "ledger_exec ref (Do_Release now job_id token epoch) rd = answer id (release_claim_transaction ref now job_id token epoch rd)"
| "ledger_exec ref (Do_Retire job_id now) rd = answer id (release_claim_after_job_retired_transaction ref job_id now rd)"

definition ledger_step :: "path \<Rightarrow> ledger_op \<Rightarrow> (path \<Rightarrow> doc option) \<Rightarrow> bool \<times> (path \<Rightarrow> doc option)" where
  "ledger_step ref op rd = (case ledger_exec ref op rd of (b, ws) \<Rightarrow> (b, after_view ws rd))"

lemma ledger_exec_shape:
  assumes "ledger_exec ref op rd = (b, ws)"
  shows "ws = [] \<or> (\<exists>fs. ws = [SetMerge ref fs])"
  using assms
  by (cases op) (auto simp: answer_def claim_transaction_def bind_run_token_transaction_def Let_def
      release_claim_after_job_retired_transaction_def
      dest!: side_effect_write.shape checkpoint_write.shape segment_write.shape completed_write.shape release_write.shape
      split: sum.split_asm prod.split_asm if_split_asm pyval.split_asm option.split_asm)

lemma existing_after [simp]: "existing_doc (after_view [SetMerge ref fs] rd) ref = upd_fields (existing_doc rd ref) fs"
  by (simp add: existing_doc_def after_view_def wdoc_def split: option.split)

text \<open>A finished entry with a valid result is never written again.\<close>

lemma completed_silent:
  assumes "dget (existing_doc rd ref) ''status'' = PStr ''completed''"
    "is_valid_completed_sync_content_result (dget (existing_doc rd ref) ''result'') = Inr True"
  shows "snd (ledger_exec ref op rd) = []"
  using assms
  by (cases op) (auto simp: answer_def claim_transaction_def bind_run_token_transaction_def Let_def
      release_claim_after_job_retired_transaction_def
      dest: side_effect_write.not_processing_silent checkpoint_write.not_processing_silent segment_write.not_processing_silent
        completed_write.not_processing_silent release_write.not_processing_silent
      split: sum.split)

subsection \<open>The state of an entry\<close>

text \<open>
  A finished entry carries a valid result, any other entry none; the processed segments are a
  list without repetitions; the bound epoch is an integer if present.
\<close>

definition wf_ledger :: "doc \<Rightarrow> bool" where
  "wf_ledger d \<longleftrightarrow>
     (if dget d ''status'' = PStr ''completed'' then is_valid_completed_sync_content_result (dget d ''result'') = Inr True
      else d ''result'' = None)
     \<and> (d ''processed_segment_ids'' = None \<or> (\<exists>vs. d ''processed_segment_ids'' = Some (PList vs) \<and> distinct vs))
     \<and> (d ''ledger_run_epoch'' = None \<or> (\<exists>e. d ''ledger_run_epoch'' = Some (PInt e)))"

fun op_ok :: "ledger_op \<Rightarrow> bool" where
  "op_ok (Do_Complete result now job_id token epoch) = distinct (map fst result)"
| "op_ok _ = True"

lemma merge_entries_map_of:
  "distinct (map fst kvs) \<Longrightarrow>
   map_of (merge_entries m kvs) k = (case map_of kvs k of None \<Rightarrow> map_of m k | Some v \<Rightarrow> Some (merge_value (map_of m k) v))"
proof (induction kvs arbitrary: m)
  case (Cons x kvs)
  obtain k' v where x: "x = (k', v)" by (cases x)
  from Cons.prems x have "distinct (map fst kvs)" and "map_of kvs k' = None" by (auto simp: map_of_eq_None_iff)
  with Cons.IH [of "AList.update k' (merge_value (map_of m k') v) m"] show ?case
    by (auto simp: x update_conv' split: option.split)
qed simp

text \<open>A valid result stays valid when the service stores it where no result was.\<close>

lemma merged_result_valid:
  assumes "is_valid_completed_sync_content_result (PDict kvs) = Inr True" "distinct (map fst kvs)"
  shows "is_valid_completed_sync_content_result (merge_value None (PDict kvs)) = Inr True"
proof -
  have ne: "kvs \<noteq> []" using assms(1) by (auto simp: is_valid_completed_sync_content_result_def dict_get_def)
  have get: "dict_get (merge_entries [] kvs) k = dict_get kvs k" if "\<forall>m. dict_get kvs k \<noteq> PDict m" for k
    using that by (cases "dict_get kvs k") (auto simp: dict_get_def merge_entries_map_of [OF assms(2)] split: option.splits)
  have "\<forall>m. dict_get kvs k \<noteq> PDict m" if "k \<in> {''failed_segments'', ''total_segments'', ''errors'', ''outcome''}" for k
    using assms(1) that
    by (auto simp: is_valid_completed_sync_content_result_def accepted_outcome_def split: pyval.split_asm if_split_asm)
  then have "dict_get (merge_entries [] kvs) ''failed_segments'' = dict_get kvs ''failed_segments''"
    "dict_get (merge_entries [] kvs) ''total_segments'' = dict_get kvs ''total_segments''"
    "dict_get (merge_entries [] kvs) ''errors'' = dict_get kvs ''errors''"
    "dict_get (merge_entries [] kvs) ''outcome'' = dict_get kvs ''outcome''"
    by (intro get; simp)+
  note reads = this
  have "is_valid_completed_sync_content_result (PDict (merge_entries [] kvs)) = is_valid_completed_sync_content_result (PDict kvs)"
    unfolding is_valid_completed_sync_content_result_def pyval.case reads by (rule refl)
  then show ?thesis using assms(1) ne by simp
qed

lemma deletions_reads [simp]:
  "upd_fields d (deletions d ks) k = (if k \<in> set ks then None else d k)"
  "upd_fields d (deletions d ks @ fs) k = (if k \<in> set ks \<and> d k \<noteq> None then None else upd_fields d fs k)"
proof -
  have "map_of (deletions d ks) k = (if k \<in> set ks \<and> d k \<noteq> None then Some DeleteField else None)"
    by (induction ks) (auto simp: deletions_def)
  then show "upd_fields d (deletions d ks) k = (if k \<in> set ks then None else d k)"
    "upd_fields d (deletions d ks @ fs) k = (if k \<in> set ks \<and> d k \<noteq> None then None else upd_fields d fs k)"
    by (auto simp: upd_fields_def map_add_def split: option.split)
qed

lemma claim_updates_reads:
  fixes d :: doc and job_id lane :: string and now :: int and clear :: bool
  defines "d' \<equiv> upd_fields d (processing_claim_updates job_id lane now d clear)"
  shows "d' ''status'' = Some (PStr ''processing'')" "d' ''job_id'' = Some (PStr job_id)"
    "d' ''ledger_run_token'' = None" "d' ''ledger_run_epoch'' = None"
    "d' ''result'' = (if clear then None else d ''result'')"
    "d' ''processed_segment_ids'' = (if clear then None else d ''processed_segment_ids'')"
    "d' ''metered_at'' = d ''metered_at''" "d' ''usage_recorded_at'' = d ''usage_recorded_at''" "d' ''dg_recorded_at'' = d ''dg_recorded_at''"
  unfolding d'_def processing_claim_updates_def by (cases clear; simp)+

text \<open>What each call writes, by cases of the code; a call that writes nothing is not listed.\<close>

lemma ledger_exec_cases:
  assumes "ledger_exec ref op rd = (b, [SetMerge ref fs])" "wf_ledger (existing_doc rd ref)"
  defines "d \<equiv> existing_doc rd ref"
  obtains (claim) job_id lane now where "op = Do_Claim job_id lane now" "fs = processing_claim_updates job_id lane now d False"
      "dget d ''status'' \<noteq> PStr ''completed''" "dget d ''job_id'' \<noteq> PStr job_id"
    | (bind) job_id token epoch now where "op = Do_Bind job_id token epoch now" b
      "fs = [(''ledger_run_token'', Put (PStr token)), (''ledger_run_epoch'', Put (PInt epoch)), (''updated_at'', Put (PTime now))]"
      "dget d ''status'' = PStr ''processing''" "dget d ''job_id'' = PStr job_id"
      "d ''ledger_run_epoch'' = None \<or> (\<exists>e < epoch. d ''ledger_run_epoch'' = Some (PInt e))"
    | (mark) tag "value" now job_id token epoch tf where "op = Do_Mark tag value now job_id token epoch" b "map_of SIDE_EFFECT_FIELDS tag = Some tf"
      "fs = [(tf, Put (PTime now)), (tag @ ''_value'', Put (PInt value)), (''updated_at'', Put (PTime now))]"
      "dget d tf = PNone" "ledger_owner_matches d job_id token epoch"
    | (checkpoint) partial now job_id token epoch where "op = Do_Checkpoint partial now job_id token epoch"
      "fs = [(''partial_result'', MergeMap partial), (''updated_at'', Put (PTime now))]" "ledger_owner_matches d job_id token epoch"
    | (segment) segment_id now job_id token epoch where "op = Do_Segment segment_id now job_id token epoch" b
      "fs = [(''processed_segment_ids'', ArrayUnion [PStr segment_id]), (''updated_at'', Put (PTime now))]"
      "py_contains segment_id (py_or (dget d ''processed_segment_ids'') (PList [])) = Inr False" "ledger_owner_matches d job_id token epoch"
    | (complete) result now job_id token epoch where "op = Do_Complete result now job_id token epoch"
      "fs = [(''status'', Put (PStr ''completed'')), (''result'', MergeMap result), (''updated_at'', Put (PTime now)),
             (''expires_at'', Put (PTime (expiry now)))]"
      "is_valid_completed_sync_content_result (PDict result) = Inr True" "ledger_owner_matches d job_id token epoch"
    | (release) now job_id token epoch where "op = Do_Release now job_id token epoch" "fs = released_updates now"
      "ledger_owner_matches d job_id token epoch"
    | (retire) job_id now where "op = Do_Retire job_id now" "fs = released_updates now" "dget d ''status'' = PStr ''processing''"
      "dget d ''job_id'' = PStr job_id"
proof -
  have valid: "is_valid_completed_sync_content_result (dget d ''result'') = Inr True" if "dget d ''status'' = PStr ''completed''"
    using assms(2) that by (simp add: wf_ledger_def d_def)
  show thesis
  proof (cases op)
    case (Do_Claim job_id lane now)
    with assms(1) valid show thesis
      by (intro claim) (auto simp: answer_def claim_transaction_def Let_def d_def split: if_split_asm option.split_asm)
  next
    case (Do_Bind job_id token epoch now)
    have "d ''ledger_run_epoch'' = None \<or> (\<exists>e. d ''ledger_run_epoch'' = Some (PInt e))" using assms(2) by (simp add: wf_ledger_def d_def)
    with Do_Bind assms(1) valid show thesis
      by (intro bind) (auto simp: answer_def bind_run_token_transaction_def Let_def d_def dget_def split: if_split_asm)
  next
    case (Do_Mark tag "value" now job_id token epoch)
    with assms(1) obtain tf where "map_of SIDE_EFFECT_FIELDS tag = Some tf"
      by (auto simp: answer_def side_effect_transaction_def split: option.split_asm)
    with Do_Mark assms(1) show thesis
      by (intro mark) (auto simp: answer_def side_effect_transaction_def Let_def d_def split: if_split_asm)
  next
    case (Do_Checkpoint partial now job_id token epoch)
    with assms(1) show thesis
      by (intro checkpoint) (auto simp: answer_def checkpoint_partial_result_transaction_def d_def split: if_split_asm)
  next
    case (Do_Segment segment_id now job_id token epoch)
    with assms(1) show thesis
      by (intro segment) (auto simp: answer_def processed_segment_transaction_def Let_def d_def res_bind_def split: sum.split_asm if_split_asm)
  next
    case (Do_Complete result now job_id token epoch)
    with assms(1) show thesis
      by (intro complete) (auto simp: answer_def mark_completed_transaction_def d_def res_bind_def split: sum.split_asm if_split_asm)
  next
    case (Do_Release now job_id token epoch)
    with assms(1) show thesis
      by (intro release) (auto simp: answer_def release_claim_transaction_def Let_def d_def split: if_split_asm)
  next
    case (Do_Retire job_id now)
    with assms(1) show thesis
      by (intro retire) (auto simp: answer_def release_claim_after_job_retired_transaction_def Let_def d_def split: if_split_asm)
  qed
qed

lemma owner_processing: "ledger_owner_matches d job_id token epoch \<Longrightarrow> dget d ''status'' = PStr ''processing''"
  by (simp add: ledger_owner_matches_def split: if_split_asm)

lemma dget_Some: "dget d k = v \<Longrightarrow> v \<noteq> PNone \<Longrightarrow> d k = Some v"
  by (auto simp: dget_def split: option.splits)

lemma segment_fresh:
  assumes "wf_ledger d" "py_contains s (py_or (dget d ''processed_segment_ids'') (PList [])) = Inr False"
  obtains vs where "array_union (d ''processed_segment_ids'') [PStr s] = PList (vs @ [PStr s])" "distinct (vs @ [PStr s])"
    "d ''processed_segment_ids'' = None \<and> vs = [] \<or> d ''processed_segment_ids'' = Some (PList vs)"
proof -
  from assms(1) consider "d ''processed_segment_ids'' = None"
    | vs where "d ''processed_segment_ids'' = Some (PList vs)" "distinct vs" by (auto simp: wf_ledger_def)
  then show thesis
  proof cases
    case 1
    then show thesis using that [of "[]"] by (simp add: array_union_def)
  next
    case 2
    then have "PStr s \<notin> set vs" using assms(2) by (auto simp: py_contains_def py_or_def dget_def split: if_split_asm)
    then show thesis using 2 that [of vs] by (simp add: array_union_def)
  qed
qed

lemma ledger_step_writes:
  "existing_doc (snd (ledger_step ref op rd)) ref = existing_doc rd ref \<and> snd (ledger_exec ref op rd) = []
   \<or> (\<exists>b fs. ledger_exec ref op rd = (b, [SetMerge ref fs]) \<and> existing_doc (snd (ledger_step ref op rd)) ref = upd_fields (existing_doc rd ref) fs)"
proof -
  obtain b ws where e: "ledger_exec ref op rd = (b, ws)" by fastforce
  with ledger_exec_shape [OF this] show ?thesis by (auto simp: ledger_step_def)
qed

lemma wf_ledger_step:
  assumes wf: "wf_ledger (existing_doc rd ref)" and ok: "op_ok op"
  shows "wf_ledger (existing_doc (snd (ledger_step ref op rd)) ref)"
proof -
  let ?d = "existing_doc rd ref"
  from ledger_step_writes [of ref op rd] show ?thesis
  proof (elim disjE exE conjE)
    fix b fs
    assume ex: "ledger_exec ref op rd = (b, [SetMerge ref fs])" and d': "existing_doc (snd (ledger_step ref op rd)) ref = upd_fields ?d fs"
    have "wf_ledger (upd_fields ?d fs)"
      using ex wf
    proof (cases rule: ledger_exec_cases)
      case (claim job_id lane now)
      then show ?thesis using wf by (simp add: wf_ledger_def dget_def claim_updates_reads)
    next
      case (bind job_id token epoch now)
      then show ?thesis using wf by (simp add: wf_ledger_def dget_def)
    next
      case (mark tag v now job_id token epoch tf)
      have "tf \<in> {''metered_at'', ''usage_recorded_at'', ''dg_recorded_at''}" "tag \<in> {''speech_ms'', ''usage'', ''dg_ms''}"
        using mark(3) by (auto simp: SIDE_EFFECT_FIELDS_def split: if_split_asm)
      then show ?thesis
        using wf owner_processing [OF mark(6)] by (elim insertE emptyE; simp add: mark(4) wf_ledger_def dget_def)
    next
      case (checkpoint partial now job_id token epoch)
      then show ?thesis using wf owner_processing [OF checkpoint(3)] by (simp add: wf_ledger_def dget_def)
    next
      case (segment segment_id now job_id token epoch)
      from wf segment(4) show ?thesis
        by (rule segment_fresh) (use wf in \<open>auto simp: segment(3) wf_ledger_def dget_def\<close>)
    next
      case (complete result now job_id token epoch)
      have "?d ''result'' = None" using wf owner_processing [OF complete(4)] by (simp add: wf_ledger_def)
      moreover have "is_valid_completed_sync_content_result (merge_value None (PDict result)) = Inr True"
        using complete ok by (intro merged_result_valid) simp_all
      ultimately show ?thesis using wf by (simp add: complete(2) wf_ledger_def dget_def del: merge_value.simps)
    next
      case (release now job_id token epoch)
      then show ?thesis using wf owner_processing [OF release(3)] by (simp add: wf_ledger_def dget_def released_updates_def)
    next
      case (retire job_id now)
      then show ?thesis using wf by (simp add: wf_ledger_def dget_def released_updates_def)
    qed
    then show ?thesis by (simp add: d')
  qed (use wf in simp)
qed

subsection \<open>What happens once\<close>

fun marks_tag :: "string \<Rightarrow> ledger_op \<Rightarrow> bool" where
  "marks_tag t (Do_Mark tag value now job_id token epoch) = (tag = t)"
| "marks_tag t _ = False"

fun adds_segment :: "string \<Rightarrow> ledger_op \<Rightarrow> bool" where
  "adds_segment s (Do_Segment segment_id now job_id token epoch) = (segment_id = s)"
| "adds_segment s _ = False"

definition tag_marked :: "string \<Rightarrow> doc \<Rightarrow> bool" where
  "tag_marked tag d \<longleftrightarrow> (\<forall>tf. map_of SIDE_EFFECT_FIELDS tag = Some tf \<longrightarrow> dget d tf \<noteq> PNone)"

definition segment_done :: "string \<Rightarrow> doc \<Rightarrow> bool" where
  "segment_done s d \<longleftrightarrow> (\<exists>vs. d ''processed_segment_ids'' = Some (PList vs) \<and> PStr s \<in> set vs)"

lemma side_effect_field_cases:
  assumes "map_of SIDE_EFFECT_FIELDS tag = Some tf"
  shows "(tag, tf) \<in> {(''speech_ms'', ''metered_at''), (''usage'', ''usage_recorded_at''), (''dg_ms'', ''dg_recorded_at'')}"
  using assms by (simp add: SIDE_EFFECT_FIELDS_def split: if_split_asm)

lemma tag_marked_step:
  assumes wf: "wf_ledger (existing_doc rd ref)" and m: "tag_marked tag (existing_doc rd ref)"
  shows "tag_marked tag (existing_doc (snd (ledger_step ref op rd)) ref)"
proof -
  let ?d = "existing_doc rd ref"
  have "upd_fields ?d fs tf = ?d tf \<or> (\<exists>t. upd_fields ?d fs tf = Some (PTime t))"
    if ex: "ledger_exec ref op rd = (b, [SetMerge ref fs])" and tf: "map_of SIDE_EFFECT_FIELDS tag = Some tf" for b fs tf
    using ex wf
  proof (cases rule: ledger_exec_cases)
    case (claim job_id lane now)
    with side_effect_field_cases [OF tf] show ?thesis by (elim insertE emptyE; simp add: claim_updates_reads)
  next
    case (mark tag' v now job_id token epoch tf')
    from side_effect_field_cases [OF tf] side_effect_field_cases [OF mark(3)] show ?thesis
      by (elim insertE emptyE; simp add: mark(4))
  qed (use side_effect_field_cases [OF tf] in \<open>elim insertE emptyE; simp add: released_updates_def\<close>)+
  then show ?thesis
    using ledger_step_writes [of ref op rd] m unfolding tag_marked_def by (fastforce simp: dget_def split: option.split_asm)
qed

lemma segment_done_step:
  assumes wf: "wf_ledger (existing_doc rd ref)" and m: "segment_done s (existing_doc rd ref)"
  shows "segment_done s (existing_doc (snd (ledger_step ref op rd)) ref)"
proof -
  let ?d = "existing_doc rd ref"
  have "segment_done s (upd_fields ?d fs)" if ex: "ledger_exec ref op rd = (b, [SetMerge ref fs])" for b fs
    using ex wf
  proof (cases rule: ledger_exec_cases)
    case (claim job_id lane now)
    with m show ?thesis by (simp add: segment_done_def claim_updates_reads)
  next
    case (mark tag v now job_id token epoch tf)
    from side_effect_field_cases [OF mark(3)] m show ?thesis by (elim insertE emptyE; simp add: mark(4) segment_done_def)
  next
    case (segment segment_id now job_id token epoch)
    from wf segment(4) show ?thesis
      by (rule segment_fresh) (use m in \<open>auto simp: segment(3) segment_done_def\<close>)
  qed (use m in \<open>simp add: segment_done_def released_updates_def\<close>)+
  then show ?thesis using ledger_step_writes [of ref op rd] m by auto
qed

interpretation side_effect_once: once_only "ledger_step ref" op_ok "\<lambda>rd. wf_ledger (existing_doc rd ref)" "marks_tag tag"
    "\<lambda>rd. tag_marked tag (existing_doc rd ref)" for ref tag
proof
  fix rd op
  assume "wf_ledger (existing_doc rd ref)" "marks_tag tag op" "fst (ledger_step ref op rd)"
  then show "\<not> tag_marked tag (existing_doc rd ref) \<and> tag_marked tag (existing_doc (snd (ledger_step ref op rd)) ref)"
    by (cases op) (auto simp: ledger_step_def answer_def side_effect_transaction_def Let_def tag_marked_def dget_def
        split: sum.split_asm option.split_asm if_split_asm)
qed (simp_all add: wf_ledger_step tag_marked_step)

interpretation segment_once: once_only "ledger_step ref" op_ok "\<lambda>rd. wf_ledger (existing_doc rd ref)" "adds_segment s"
    "\<lambda>rd. segment_done s (existing_doc rd ref)" for ref s
proof
  fix rd op
  assume wf: "wf_ledger (existing_doc rd ref)" and "adds_segment s op" "fst (ledger_step ref op rd)"
  then obtain now job_id token epoch where op: "op = Do_Segment s now job_id token epoch"
    and ok: "py_contains s (py_or (dget (existing_doc rd ref) ''processed_segment_ids'') (PList [])) = Inr False"
      "ledger_owner_matches (existing_doc rd ref) job_id token epoch"
    by (cases op) (auto simp: ledger_step_def answer_def processed_segment_transaction_def Let_def res_bind_def
        split: sum.split_asm if_split_asm)
  from wf ok(1) show "\<not> segment_done s (existing_doc rd ref) \<and> segment_done s (existing_doc (snd (ledger_step ref op rd)) ref)"
    by (rule segment_fresh)
      (use ok in \<open>auto simp: op ledger_step_def answer_def processed_segment_transaction_def Let_def segment_done_def\<close>)
qed (simp_all add: wf_ledger_step segment_done_step)

subsection \<open>Superseded runs\<close>

text \<open>
  A run of a job is locked out when the claim is no longer the job's, or is bound to a later
  epoch than the run's. Only a new claim by the same job could undo this.
\<close>

definition locked_out :: "string \<Rightarrow> int \<Rightarrow> doc \<Rightarrow> bool" where
  "locked_out job_id epoch d \<longleftrightarrow>
     (dget d ''status'' = PStr ''processing'' \<and> dget d ''job_id'' = PStr job_id \<longrightarrow>
      (\<exists>e > epoch. d ''ledger_run_epoch'' = Some (PInt e)))"

fun reclaims :: "string \<Rightarrow> ledger_op \<Rightarrow> bool" where
  "reclaims j (Do_Claim job_id lane now) = (job_id = j)"
| "reclaims j _ = False"

fun worker_op :: "string \<Rightarrow> string \<Rightarrow> int \<Rightarrow> ledger_op \<Rightarrow> bool" where
  "worker_op j t e (Do_Bind job_id token epoch now) = (job_id = j \<and> token = t \<and> epoch = e)"
| "worker_op j t e (Do_Mark tag value now job_id token epoch) = (job_id = j \<and> token = Some t \<and> epoch = Some e)"
| "worker_op j t e (Do_Checkpoint partial now job_id token epoch) = (job_id = j \<and> token = Some t \<and> epoch = Some e)"
| "worker_op j t e (Do_Segment segment_id now job_id token epoch) = (job_id = j \<and> token = Some t \<and> epoch = Some e)"
| "worker_op j t e (Do_Complete result now job_id token epoch) = (job_id = j \<and> token = Some t \<and> epoch = Some e)"
| "worker_op j t e (Do_Release now job_id token epoch) = (job_id = j \<and> token = Some t \<and> epoch = Some e)"
| "worker_op j t e _ = False"

lemma locked_out_step:
  assumes wf: "wf_ledger (existing_doc rd ref)" and l: "locked_out job_id epoch (existing_doc rd ref)" and "\<not> reclaims job_id op"
  shows "locked_out job_id epoch (existing_doc (snd (ledger_step ref op rd)) ref)"
proof -
  let ?d = "existing_doc rd ref"
  have "locked_out job_id epoch (upd_fields ?d fs)" if ex: "ledger_exec ref op rd = (b, [SetMerge ref fs])" for b fs
    using ex wf
  proof (cases rule: ledger_exec_cases)
    case (claim j lane now)
    with assms(3) show ?thesis by (simp add: locked_out_def claim_updates_reads dget_def)
  next
    case (bind j token e now)
    with l show ?thesis by (fastforce simp: locked_out_def dget_def)
  next
    case (mark tag v now j token e tf)
    from side_effect_field_cases [OF mark(3)] l show ?thesis
      by (elim insertE emptyE; simp add: mark(4) locked_out_def dget_def)
  qed (use l in \<open>simp add: locked_out_def dget_def released_updates_def\<close>)+
  then show ?thesis using ledger_step_writes [of ref op rd] l by auto
qed

lemma not_owner_locked_out:
  assumes "locked_out job_id e (existing_doc rd ref)" "e1 \<le> e"
  shows "\<not> ledger_owner_matches (existing_doc rd ref) job_id (Some token) (Some e1)"
  using assms by (auto simp: ledger_owner_matches_def locked_out_def opt_int_def dget_def)

lemma locked_out_silent:
  assumes wf: "wf_ledger (existing_doc rd ref)" and l: "locked_out job_id e (existing_doc rd ref)"
    and w: "worker_op job_id token e1 op" "e1 \<le> e"
  shows "ledger_exec ref op rd = (False, [])"
proof -
  have no: "\<not> ledger_owner_matches (existing_doc rd ref) job_id (Some token) (Some e1)"
    using l w(2) by (rule not_owner_locked_out)
  have quiet: "answer id r = (False, [])" if "r = Inl x \<or> r = Inr (False, [])" for r and x :: pyerr
    using that by (auto simp: answer_def)
  show ?thesis
  proof (cases op)
    case (Do_Bind j t e' now)
    then have "e' \<le> e" "j = job_id" using w by simp_all
    moreover have "is_valid_completed_sync_content_result (dget (existing_doc rd ref) ''result'') = Inr True"
      if "dget (existing_doc rd ref) ''status'' = PStr ''completed''" using wf that by (simp add: wf_ledger_def)
    ultimately show ?thesis
      using l by (auto simp: Do_Bind answer_def bind_run_token_transaction_def Let_def locked_out_def dget_def)
  qed (use w no in \<open>auto simp: answer_def side_effect_transaction_def checkpoint_partial_result_transaction_def
      processed_segment_transaction_def mark_completed_transaction_def release_claim_transaction_def Let_def res_bind_def
      split: option.split sum.split\<close>)
qed

lemma bound_locks_out:
  assumes "ledger_exec ref (Do_Bind job_id token e2 now) rd = (True, ws)" "wf_ledger (existing_doc rd ref)" "e1 < e2"
  shows "locked_out job_id e1 (existing_doc (after_view ws rd) ref)"
proof -
  have "d ''ledger_run_epoch'' = Some (PInt e)" if "dget d ''ledger_run_epoch'' = PInt e" for d e using that by (rule dget_Some) simp
  moreover have "is_valid_completed_sync_content_result (dget (existing_doc rd ref) ''result'') = Inr True"
    if "dget (existing_doc rd ref) ''status'' = PStr ''completed''" using assms(2) that by (simp add: wf_ledger_def)
  ultimately show ?thesis
    using assms(1,3)
    by (auto simp: answer_def bind_run_token_transaction_def Let_def locked_out_def res_bind_def
        split: if_split_asm pyval.split_asm sum.split_asm)
qed

text \<open>
  Once a run with a later epoch has bound the entry, no call of an earlier run of the job changes
  anything or succeeds, however the calls of all workers are interleaved, unless the job claims
  the content anew.
\<close>

lemma superseded_run_locked_out:
  assumes "wf_ledger (existing_doc rd ref)" "ledger_exec ref (Do_Bind job_id token2 e2 now) rd = (True, ws)" "e1 < e2"
    and "\<forall>op \<in> set ops. op_ok op \<and> \<not> reclaims job_id op" "run_ops (ledger_step ref) ops (after_view ws rd) = (answers, rd')"
    and "worker_op job_id token1 e1 op"
  shows "ledger_exec ref op rd' = (False, [])"
proof -
  let ?I = "\<lambda>s. wf_ledger (existing_doc s ref) \<and> locked_out job_id e1 (existing_doc s ref)"
  have "wf_ledger (existing_doc (snd (ledger_step ref (Do_Bind job_id token2 e2 now) rd)) ref)"
    using assms(1) by (rule wf_ledger_step) simp
  then have "wf_ledger (existing_doc (after_view ws rd) ref)" by (simp add: ledger_step_def assms(2) del: ledger_exec.simps)
  moreover have "locked_out job_id e1 (existing_doc (after_view ws rd) ref)" using assms(2,1,3) by (rule bound_locks_out)
  ultimately have "?I (snd (run_ops (ledger_step ref) ops (after_view ws rd)))"
    using assms(4) run_ops_invariant [of ?I "\<lambda>op. op_ok op \<and> \<not> reclaims job_id op" "ledger_step ref" "after_view ws rd" ops]
    by (simp add: wf_ledger_step locked_out_step)
  then have "wf_ledger (existing_doc rd' ref)" "locked_out job_id e1 (existing_doc rd' ref)" using assms(5) by simp_all
  from locked_out_silent [OF this assms(6) order_refl] show ?thesis .
qed

subsection \<open>Properties\<close>

text \<open>
  C26. Content is processed once: an entry that is completed with a valid result is never
  written again, whatever calls follow, and every later upload of the content and every later
  run of the job is answered with that result.
\<close>

theorem ledger_completion_permanent:
  assumes "dget (existing_doc rd ref) ''status'' = PStr ''completed''" "dget (existing_doc rd ref) ''result'' = result"
    and "is_valid_completed_sync_content_result result = Inr True" "run_ops (ledger_step ref) ops rd = (answers, rd')"
  shows "rd' = rd \<and> claim_transaction ref job_id lane now rd' = Inr (Claim_Completed result, [])
    \<and> bind_run_token_transaction ref job_id token epoch now rd' = Inr (COMPLETED_BINDING result, [])"
proof -
  have "snd (ledger_step ref op rd) = rd" for op
    using completed_silent [of rd ref op] assms(1-3) by (cases "ledger_exec ref op rd") (simp add: ledger_step_def)
  then have "snd (run_ops (ledger_step ref) ops rd) = rd" for ops
    using run_ops_invariant [of "\<lambda>s. s = rd" "\<lambda>_. True" "ledger_step ref" rd ops] by simp
  then have "rd' = rd" using assms(4) by (metis snd_conv)
  then show ?thesis using assms(1-3) by (simp add: claim_transaction_def bind_run_token_transaction_def Let_def)
qed

text \<open>An entry that job \<open>J\<close> has claimed and bound at epoch one, a valid result, and the entry after it.\<close>

definition ex_result :: dict where
  "ex_result = [(''failed_segments'', PInt 0), (''total_segments'', PInt 2), (''errors'', PList []), (''outcome'', PStr ''success'')]"

definition ex_claimed :: doc where
  "ex_claimed = [''status'' \<mapsto> PStr ''processing'', ''job_id'' \<mapsto> PStr ''J'', ''ledger_run_token'' \<mapsto> PStr ''1:a'',
     ''ledger_run_epoch'' \<mapsto> PInt 1]"

lemma ex_result_valid: "is_valid_completed_sync_content_result (PDict ex_result) = Inr True"
  by (simp add: is_valid_completed_sync_content_result_def ex_result_def dict_get_def accepted_outcome_def)

theorem ledger_completion_permanent_witness:
  "claim_transaction [''c''] ''K'' ''fresh'' 9 [[''c''] \<mapsto> [''status'' \<mapsto> PStr ''completed'', ''result'' \<mapsto> PDict ex_result]]
     = Inr (Claim_Completed (PDict ex_result), [])"
  using ledger_completion_permanent [of "[[''c''] \<mapsto> [''status'' \<mapsto> PStr ''completed'', ''result'' \<mapsto> PDict ex_result]]" "[''c'']"
      "PDict ex_result" "[]" "[]" "[[''c''] \<mapsto> [''status'' \<mapsto> PStr ''completed'', ''result'' \<mapsto> PDict ex_result]]" "''K''" "''fresh''" 9] ex_result_valid
  by (simp add: existing_doc_def dget_def)

text \<open>
  C34. A completed entry can be trusted: whatever calls were made on an entry since it was
  created, if its status is completed its result is an all-success result, and if it is not it
  has none.
\<close>

theorem ledger_entries_valid:
  assumes "rd ref = None" "\<forall>op \<in> set ops. op_ok op" "run_ops (ledger_step ref) ops rd = (answers, rd')"
  shows "if dget (existing_doc rd' ref) ''status'' = PStr ''completed''
    then is_valid_completed_sync_content_result (dget (existing_doc rd' ref) ''result'') = Inr True
    else existing_doc rd' ref ''result'' = None"
proof -
  have "wf_ledger (existing_doc rd ref)" using assms(1) by (simp add: existing_doc_def wf_ledger_def dget_def)
  then have "wf_ledger (existing_doc (snd (run_ops (ledger_step ref) ops rd)) ref)"
    using assms(2) run_ops_invariant [of "\<lambda>s. wf_ledger (existing_doc s ref)" op_ok "ledger_step ref" rd ops]
    by (simp add: wf_ledger_step)
  then show ?thesis using assms(3) by (simp add: wf_ledger_def)
qed

definition ex_calls :: "ledger_op list" where
  "ex_calls = [Do_Claim ''J'' ''fresh'' 1, Do_Bind ''J'' ''1:a'' 1 2, Do_Mark ''usage'' 5 3 ''J'' (Some ''1:a'') (Some 1),
     Do_Mark ''usage'' 5 4 ''J'' (Some ''1:a'') (Some 1), Do_Complete ex_result 5 ''J'' (Some ''1:a'') (Some 1)]"

lemma ex_calls_ok: "\<forall>op \<in> set ex_calls. op_ok op"
  by (simp add: ex_calls_def ex_result_def)

theorem ledger_entries_valid_witness:
  "if dget (existing_doc (snd (run_ops (ledger_step [''c'']) ex_calls Map.empty)) [''c'']) ''status'' = PStr ''completed''
   then is_valid_completed_sync_content_result (dget (existing_doc (snd (run_ops (ledger_step [''c'']) ex_calls Map.empty)) [''c'']) ''result'') = Inr True
   else existing_doc (snd (run_ops (ledger_step [''c'']) ex_calls Map.empty)) [''c''] ''result'' = None"
  by (rule ledger_entries_valid [OF refl ex_calls_ok prod.collapse [symmetric]])

text \<open>
  C27. Side effects are metered once: over the whole life of an entry, for every kind of side
  effect at most one call is told to perform it, by whichever worker and under whichever job.
\<close>

theorem side_effect_metered_once:
  assumes "rd ref = None" "\<forall>op \<in> set ops. op_ok op" "run_ops (ledger_step ref) ops rd = (answers, rd')"
  shows "length (filter (\<lambda>(op, b). marks_tag tag op \<and> b) answers) \<le> 1"
proof -
  have "wf_ledger (existing_doc rd ref)" using assms(1) by (simp add: existing_doc_def wf_ledger_def dget_def)
  from side_effect_once.at_most_once [OF assms(3) this assms(2), of tag] show ?thesis by (simp add: side_effect_once.hits_def)
qed

theorem side_effect_metered_once_witness:
  "length (filter (\<lambda>(op, b). marks_tag ''usage'' op \<and> b) (fst (run_ops (ledger_step [''c'']) ex_calls Map.empty))) \<le> 1"
  by (rule side_effect_metered_once [OF refl ex_calls_ok prod.collapse [symmetric]])

end
