(* ===== verification/Sync_Clients.thy ===== *)
theory Sync_Clients
  imports Sync_Job Sync_Ledger
begin

text \<open>
  The sync jobs under any number of clients. Every script and command that \<open>database/sync_jobs.py\<close>
  sends is one atomic action on the service, and the lapse of a time to live is one more; a
  history is a list of actions. The retry loops are shown to perform only actions whose
  compared text is no finished job, and from that follow: a finished job stays finished, a held
  lock is not granted again, and lock epochs only grow.
\<close>

subsection \<open>Actions\<close>

text \<open>Each action names the job; \<open>Late_Write\<close> is the unconditional write of a read that found its job stale.\<close>

datatype sync_act =
    Create dict
  | Drop
  | Cas payload payload
  | Fenced_Cas string payload payload
  | Late_Write dict real
  | Acquire string
  | Acquire_Plain string
  | Renew string
  | Release string
  | Segment string
  | Fenced_Segment string string
  | Mark string
  | Drop_Epoch
  | Lapse string

definition acted :: "('s \<Rightarrow> string \<Rightarrow> rval option) \<Rightarrow> ('s \<Rightarrow> rwrite list \<Rightarrow> 's) \<Rightarrow> rwrite list \<Rightarrow> 's \<Rightarrow> 's" where
  "acted get exec ws st = snd (redis_call get exec True (\<lambda>rd. ((), ws)) st)"

text \<open>The answer is the token an acquisition grants.\<close>

fun act_step :: "('s \<Rightarrow> string \<Rightarrow> rval option) \<Rightarrow> ('s \<Rightarrow> rwrite list \<Rightarrow> 's) \<Rightarrow> string \<times> sync_act \<Rightarrow> 's \<Rightarrow> string option \<times> 's" where
  "act_step get exec (j, Create job) st =
     (None, acted get exec [R_Set (job_key j) (R_Payload (Json_Dict Spaced job)) (Some JOB_TTL_SECONDS)] st)"
| "act_step get exec (j, Drop) st = (None, snd (delete_sync_job get exec True st j))"
| "act_step get exec (j, Cas current next) st =
     (None, snd (redis_call get exec True (legacy_mutation_script (job_key j) current next) st))"
| "act_step get exec (j, Fenced_Cas token current next) st =
     (None, snd (redis_call get exec True (fenced_mutation_script (lock_key j) (job_key j) token current next) st))"
| "act_step get exec (j, Late_Write job now) st =
     (None, acted get exec [R_Set (job_key j) (R_Payload (Json_Dict Spaced (timed_out_job job now))) (Some JOB_TTL_SECONDS)] st)"
| "act_step get exec (j, Acquire uuid) st =
     (case try_acquire_sync_job_run_lock get exec True st j uuid of
        (Inr (Some token), st') \<Rightarrow> (Some token, st') | (_, st') \<Rightarrow> (None, st'))"
| "act_step get exec (j, Acquire_Plain uuid) st = (None, snd (try_acquire_job_run_lock get exec True st j uuid))"
| "act_step get exec (j, Renew token) st = (None, snd (renew_job_run_lock get exec True st j token))"
| "act_step get exec (j, Release token) st = (None, release_job_run_lock get exec True st j token)"
| "act_step get exec (j, Segment s) st = (None, add_processed_segment get exec True True st j s)"
| "act_step get exec (j, Fenced_Segment token s) st =
     (None, snd (add_processed_segment_if_run_owner get exec True st j token s))"
| "act_step get exec (j, Mark tag) st = (None, snd (try_mark_once get exec True st j tag))"
| "act_step get exec (j, Drop_Epoch) st = (None, delete_sync_job_run_lock_epoch get exec True st j)"
| "act_step get exec (j, Lapse k) st = (None, acted get exec [R_Del k] st)"

fun granted :: "string \<Rightarrow> ((string \<times> sync_act) \<times> string option) list \<Rightarrow> string list" where
  "granted j [] = []"
| "granted j (((i, a), ans) # rest) = (case ans of Some token \<Rightarrow> (if i = j then [token] else []) | None \<Rightarrow> []) @ granted j rest"

subsection \<open>What one action does to the keys of a job\<close>

definition finished_payload :: "payload \<Rightarrow> bool" where
  "finished_payload p \<longleftrightarrow> (case json_loads p of Inr (Some d) \<Rightarrow> is_terminal_status (dict_get d ''status'') | _ \<Rightarrow> False)"

fun guarded :: "string \<times> sync_act \<Rightarrow> bool" where
  "guarded (j, Cas current next) = (\<not> finished_payload current)"
| "guarded (j, Fenced_Cas token current next) = (\<not> finished_payload current)"
| "guarded _ = True"

fun replaces_job :: "string \<Rightarrow> string \<times> sync_act \<Rightarrow> bool" where
  "replaces_job j (i, Create job) = (i = j)"
| "replaces_job j (i, Drop) = (i = j)"
| "replaces_job j (i, Late_Write job now) = (i = j)"
| "replaces_job j (i, Lapse k) = (k = job_key j)"
| "replaces_job j _ = False"

fun frees_lock :: "string \<Rightarrow> string \<Rightarrow> string \<times> sync_act \<Rightarrow> bool" where
  "frees_lock j token (i, Release t) = (i = j \<and> t = token)"
| "frees_lock j token (i, Lapse k) = (k = lock_key j)"
| "frees_lock j token _ = False"

fun drops_epoch :: "string \<Rightarrow> string \<times> sync_act \<Rightarrow> bool" where
  "drops_epoch j (i, Drop_Epoch) = (i = j)"
| "drops_epoch j (i, Lapse k) = (k = epoch_key j)"
| "drops_epoch j _ = False"

text \<open>The counter behind a job's lock; once it exists it is a number that is not negative.\<close>

definition epoch_typed :: "(string \<Rightarrow> rval option) \<Rightarrow> string \<Rightarrow> bool" where
  "epoch_typed rd j \<longleftrightarrow> (case rd (epoch_key j) of None \<Rightarrow> True | Some (R_Counter n) \<Rightarrow> 0 \<le> n | _ \<Rightarrow> False)"

definition epoch_now :: "(string \<Rightarrow> rval option) \<Rightarrow> string \<Rightarrow> int" where
  "epoch_now rd j = (case rd (epoch_key j) of Some (R_Counter n) \<Rightarrow> n | _ \<Rightarrow> 0)"

lemma run_lock_epoch_roundtrip:
  assumes "0 < e"
  shows "get_sync_job_run_lock_epoch (dec_int e @ CHR '':'' # uuid) = e"
proof -
  have "c \<noteq> CHR '':''" if "c \<in> set (dec_int e)" for c
    using that assms dec_nat_digits [of c "nat e"] by (auto simp: dec_int_def digit_of_def)
  then have "takeWhile (\<lambda>c. c \<noteq> CHR '':'') (dec_int e @ CHR '':'' # uuid) = dec_int e"
    by (simp add: takeWhile_tail)
  with assms show ?thesis by (simp add: get_sync_job_run_lock_epoch_def)
qed

lemmas act_defs = acted_def redis_call_def delete_sync_job_def legacy_mutation_script_def fenced_mutation_script_def
  try_acquire_sync_job_run_lock_def acquire_lock_with_epoch_script_def try_acquire_job_run_lock_def renew_job_run_lock_def
  release_job_run_lock_def add_processed_segment_def add_processed_segment_if_run_owner_def fenced_add_segment_script_def
  try_mark_once_def delete_sync_job_run_lock_epoch_def

context redis
begin

lemma finished_job_act:
  assumes "get st (job_key j) = Some (R_Payload p)" "finished_payload p" "guarded act" "\<not> replaces_job j act"
  shows "get (snd (act_step get exec act st)) (job_key j) = get st (job_key j)"
proof -
  obtain i a where [simp]: "act = (i, a)" by (cases act)
  show ?thesis using assms
    by (cases a) (auto simp: act_defs get_exec stored_payload_def Let_def split: option.split prod.split)
qed

lemma held_lock_act:
  assumes "get st (lock_key j) = Some (R_Text token)" "\<not> frees_lock j token act"
  shows "get (snd (act_step get exec act st)) (lock_key j) = Some (R_Text token)"
proof -
  obtain i a where [simp]: "act = (i, a)" by (cases act)
  show ?thesis using assms
    by (cases a) (auto simp: act_defs get_exec Let_def split: option.split prod.split)
qed

lemma epoch_act:
  assumes "epoch_typed (get st) j" "\<not> drops_epoch j act" "act_step get exec act st = (ans, st')"
  shows "epoch_typed (get st') j
    \<and> (case ans of
         Some token \<Rightarrow>
           if fst act = j
           then get_sync_job_run_lock_epoch token = epoch_now (get st) j + 1 \<and> epoch_now (get st') j = epoch_now (get st) j + 1
           else epoch_now (get st') j = epoch_now (get st) j
       | None \<Rightarrow> epoch_now (get st') j = epoch_now (get st) j)"
proof (cases "\<exists>i uuid. act = (i, Acquire uuid)")
  case True
  then obtain i uuid where [simp]: "act = (i, Acquire uuid)" by blast
  have pos: "get_sync_job_run_lock_epoch (dec_int (case get st (epoch_key j) of Some (R_Counter n) \<Rightarrow> n + 1 | _ \<Rightarrow> 1) @ '':'' @ uuid)
      = epoch_now (get st) j + 1"
    using assms(1) by (auto simp: run_lock_epoch_roundtrip epoch_typed_def epoch_now_def split: option.split rval.split)
  show ?thesis
  proof (cases "i = j \<and> get st (lock_key j) = None")
    case True
    with assms(1,3) pos show ?thesis
      by (auto simp: act_defs get_exec Let_def epoch_typed_def epoch_now_def split: option.split_asm rval.split_asm)
  next
    case False
    with assms(1,3) show ?thesis
      by (auto simp: act_defs get_exec Let_def epoch_typed_def epoch_now_def split: if_split_asm)
  qed
next
  case False
  obtain i a where [simp]: "act = (i, a)" by (cases act)
  have "get st' (epoch_key j) = get st (epoch_key j) \<and> ans = None" using False assms(2,3)
    by (cases a) (auto simp: act_defs get_exec Let_def split: option.split_asm prod.split_asm if_split_asm)
  with assms(1) show ?thesis by (simp add: epoch_typed_def epoch_now_def)
qed

lemma epochs_grow:
  assumes "epoch_typed (get st) j" "\<forall>act \<in> set acts. \<not> drops_epoch j act" "run_ops (act_step get exec) acts st = (answers, st')"
  shows "sorted_wrt (<) (epoch_now (get st) j # map get_sync_job_run_lock_epoch (granted j answers))"
  using assms
proof (induction acts arbitrary: st answers)
  case (Cons act acts)
  obtain ans st1 rest where e: "act_step get exec act st = (ans, st1)" "run_ops (act_step get exec) acts st1 = (rest, st')"
    "answers = (act, ans) # rest" using Cons.prems(3) by (rule run_ops_Cons)
  note one = epoch_act [OF Cons.prems(1) _ e(1)]
  have "epoch_typed (get st1) j" using one Cons.prems(2) by simp
  with Cons.IH [OF _ _ e(2)] Cons.prems(2)
  have "sorted_wrt (<) (epoch_now (get st1) j # map get_sync_job_run_lock_epoch (granted j rest))" by simp
  with one Cons.prems(2) show ?case by (cases act; cases ans) (auto simp: e(3) split: if_split_asm)
qed simp

lemma held_lock_history:
  assumes "get st (lock_key j) = Some (R_Text token)" "\<forall>act \<in> set acts. \<not> frees_lock j token act"
    and "run_ops (act_step get exec) acts st = (answers, st')"
  shows "get st' (lock_key j) = Some (R_Text token) \<and> granted j answers = []"
  using assms
proof (induction acts arbitrary: st answers)
  case (Cons act acts)
  obtain ans st1 rest where e: "act_step get exec act st = (ans, st1)" "run_ops (act_step get exec) acts st1 = (rest, st')"
    "answers = (act, ans) # rest" using Cons.prems(3) by (rule run_ops_Cons)
  have "get st1 (lock_key j) = Some (R_Text token)" using held_lock_act [OF Cons.prems(1), of act] Cons.prems(2) e(1) by simp
  with Cons.IH [OF _ _ e(2)] Cons.prems(2) have "get st' (lock_key j) = Some (R_Text token) \<and> granted j rest = []" by simp
  moreover have "ans = None" if "fst act = j" using that e(1) Cons.prems(1)
    by (cases act; cases "snd act") (auto simp: act_defs split: prod.split_asm)
  ultimately show ?case by (cases act) (auto simp: e(3) split: option.split)
qed simp

lemma finished_history:
  assumes "get st (job_key j) = Some (R_Payload p)" "finished_payload p" "\<forall>act \<in> set acts. guarded act \<and> \<not> replaces_job j act"
  shows "get (snd (run_ops (act_step get exec) acts st)) (job_key j) = Some (R_Payload p)"
  using assms run_ops_invariant [of "\<lambda>s. get s (job_key j) = Some (R_Payload p)" "\<lambda>act. guarded act \<and> \<not> replaces_job j act"
      "act_step get exec" st acts] finished_job_act by simp

end

subsection \<open>Calls as histories\<close>

text \<open>A state another one leads to by a history of actions of the given kind.\<close>

definition leads_to ::
  "('s \<Rightarrow> string \<Rightarrow> rval option) \<Rightarrow> ('s \<Rightarrow> rwrite list \<Rightarrow> 's) \<Rightarrow> (string \<times> sync_act \<Rightarrow> bool) \<Rightarrow> 's \<Rightarrow> 's \<Rightarrow> bool" where
  "leads_to get exec P st s \<longleftrightarrow> (\<exists>acts. (\<forall>act \<in> set acts. P act) \<and> s = snd (run_ops (act_step get exec) acts st))"

lemma leads_to_refl: "leads_to get exec P st st"
  unfolding leads_to_def by (rule exI [of _ "[]"]) simp

lemma leads_to_trans: "leads_to get exec P st s \<Longrightarrow> leads_to get exec P s u \<Longrightarrow> leads_to get exec P st u"
proof -
  assume "leads_to get exec P st s" "leads_to get exec P s u"
  then obtain xs ys where "\<forall>act \<in> set (xs @ ys). P act" "u = snd (run_ops (act_step get exec) (xs @ ys) st)"
    by (auto simp: leads_to_def run_ops_append)
  then show ?thesis unfolding leads_to_def by blast
qed

lemma leads_to_act: "P act \<Longrightarrow> leads_to get exec P st (snd (act_step get exec act st))"
  unfolding leads_to_def by (rule exI [of _ "[act]"]) (simp add: case_prod_beta)

lemma interfered_leads_to: "interfered mid st s \<Longrightarrow> (\<And>i s. leads_to get exec P s (mid i s)) \<Longrightarrow> leads_to get exec P st s"
  by (induction rule: interfered.induct) (auto intro: leads_to_refl leads_to_trans)

lemma commit_by_cas:
  assumes "stored_payload (get s) (job_key j) = Some raw"
  shows "snd (act_step get exec (j, Cas raw next) s) = exec s [R_Set (job_key j) (R_Payload next) (Some JOB_TTL_SECONDS)]"
    and "lock_owner (get s) (lock_key j) = Some token \<Longrightarrow>
      snd (act_step get exec (j, Fenced_Cas token raw next) s) = exec s [R_Set (job_key j) (R_Payload next) (Some JOB_TTL_SECONDS)]"
  using assms by (simp_all add: act_defs)

lemma unfinished_payload:
  "json_loads raw = Inr (Some job) \<Longrightarrow> \<not> is_terminal_status (dict_get job ''status'') \<Longrightarrow> \<not> finished_payload raw"
  by (simp add: finished_payload_def)

lemma commits_leads_to:
  assumes "commits get exec mid (job_key j) updates ok st job' st'" "\<And>i s. leads_to get exec P s (mid i s)"
    and "\<And>job s raw next. stored_payload (get s) (job_key j) = Some raw \<Longrightarrow> \<not> finished_payload raw \<Longrightarrow> ok job s \<Longrightarrow>
      leads_to get exec P s (exec s [R_Set (job_key j) (R_Payload next) (Some JOB_TTL_SECONDS)])"
  shows "leads_to get exec P st st'"
proof -
  obtain s raw job where c: "interfered mid st s" "stored_payload (get s) (job_key j) = Some raw" "json_loads raw = Inr (Some job)"
    "\<not> is_terminal_status (dict_get job ''status'')" "ok job s"
    "st' = exec s [R_Set (job_key j) (R_Payload (Json_Dict Compact job')) (Some JOB_TTL_SECONDS)]"
    using assms(1) by (auto simp: commits_def)
  have "leads_to get exec P s st'" unfolding c(6) using c(2) unfinished_payload [OF c(3,4)] c(5) by (rule assms(3))
  with interfered_leads_to [OF c(1) assms(2)] show ?thesis by (rule leads_to_trans)
qed

subsection \<open>Properties\<close>

text \<open>
  C30. The updates of a job, with all their retries, are histories of atomic actions that never
  compare against a finished job, whatever such histories other clients interleave between the
  calls and wherever the service fails.
\<close>

theorem updates_are_guarded_histories:
  assumes env: "\<forall>i s. leads_to get exec guarded s (mid i s)"
    and call: "update_sync_job get exec up mid st j updates now = (r, st')
      \<or> fenced_update_sync_job get exec up mid st j token updates now allowed = (m, st')"
  shows "leads_to get exec guarded st st'"
proof -
  have env': "leads_to get exec guarded s (mid i s)" for i s using env by blast
  have cas: "leads_to get exec guarded s (exec s [R_Set (job_key j) (R_Payload next) (Some JOB_TTL_SECONDS)])"
    if "stored_payload (get s) (job_key j) = Some raw" "\<not> finished_payload raw" for s raw "next"
    using leads_to_act [of guarded "(j, Cas raw next)" get exec s] that
    by (simp only: commit_by_cas(1) [where get = get, OF that(1)] guarded.simps simp_thms)
  have go: "leads_to get exec guarded st st'" if "commits get exec mid (job_key j) u ok st job' st'" for u ok job'
    using that env' cas by (rule commits_leads_to)
  have idle: "leads_to get exec guarded st st'" if "interfered mid st st'" using that env' by (rule interfered_leads_to)
  from call show ?thesis
  proof
    assume "update_sync_job get exec up mid st j updates now = (r, st')"
    from update_sync_job_effect [OF this] show ?thesis using go idle by (auto split: sum.split_asm option.split_asm)
  next
    assume "fenced_update_sync_job get exec up mid st j token updates now allowed = (m, st')"
    from fenced_update_effect [OF this] show ?thesis
    proof
      assume "fenced_effect get exec mid (lock_key j) (job_key j) token allowed (stamped updates now) st m st'"
      then show ?thesis using go idle by (auto simp: fenced_effect_def split: sum.split_asm if_split_asm)
    next
      assume "m = Inr (mutation INVALID_JOB) \<and> probed get exec mid (job_key j) st st'"
      then have p: "stored_payload (get (mid 1 st)) (job_key j) = Some (Not_Json [])"
        "st' = exec (mid 1 st) [R_Set (job_key j) (R_Payload (Not_Json [])) (Some JOB_TTL_SECONDS)]" by (simp_all add: probed_def)
      have "leads_to get exec guarded (mid 1 st) st'"
        unfolding p(2) by (rule cas [OF p(1)]) (simp add: finished_payload_def json_loads_def)
      with env' show ?thesis by (rule leads_to_trans)
    qed
  qed
qed

text \<open>A processing job \<open>J\<close> whose lock the token of epoch one holds, and a service that holds it.\<close>

definition ex_job :: dict where
  "ex_job = [(''status'', PStr ''processing''), (''updated_at'', PFloat 10)]"

definition ex_redis :: mem_redis where
  "ex_redis = [job_key ''J'' \<mapsto> R_Payload (Json_Dict Compact ex_job), lock_key ''J'' \<mapsto> R_Text ''1:a'', epoch_key ''J'' \<mapsto> R_Counter 1]"

definition ex_done :: mem_redis where
  "ex_done = [job_key ''J'' \<mapsto> R_Payload (Json_Dict Compact [(''status'', PStr ''completed'')]), epoch_key ''J'' \<mapsto> R_Counter 1]"

theorem updates_are_guarded_histories_witness:
  "leads_to mem_get mem_exec guarded ex_redis
     (snd (update_sync_job mem_get mem_exec (\<lambda>i. True) (\<lambda>i s. s) ex_redis ''J'' [(''stage'', PStr ''vad'')] 5))"
  by (rule updates_are_guarded_histories [where mid = "\<lambda>i s. s" and m = "Inl RedisError", OF _ disjI1 [OF prod.collapse [symmetric]]])
    (simp add: leads_to_refl)

text \<open>
  C29. A finished job stays as it finished: its text is kept through any history of guarded
  actions of any clients in which none deletes, expires or re-creates the job, and none is the late
  write of a read that had found it stale.
\<close>

theorem finished_job_permanent:
  assumes "redis get exec" "get st (job_key j) = Some (R_Payload p)" "finished_payload p"
    and "leads_to get exec (\<lambda>act. guarded act \<and> \<not> replaces_job j act) st st'"
  shows "get st' (job_key j) = Some (R_Payload p)"
  using redis.finished_history [OF assms(1-3)] assms(4) by (auto simp: leads_to_def)

theorem finished_job_permanent_witness:
  "snd (run_ops (act_step mem_get mem_exec)
      [(''J'', Acquire ''b''), (''J'', Cas (Json_Dict Compact ex_job) (Json_Dict Compact [])), (''J'', Release ''2:b'')] ex_done) (job_key ''J'')
    = Some (R_Payload (Json_Dict Compact [(''status'', PStr ''completed'')]))"
proof -
  let ?st = "snd (run_ops (act_step mem_get mem_exec)
      [(''J'', Acquire ''b''), (''J'', Cas (Json_Dict Compact ex_job) (Json_Dict Compact [])), (''J'', Release ''2:b'')] ex_done)"
  let ?acts = "[(''J'', Acquire ''b''), (''J'', Cas (Json_Dict Compact ex_job) (Json_Dict Compact [])), (''J'', Release ''2:b'')]"
  have "leads_to mem_get mem_exec (\<lambda>act. guarded act \<and> \<not> replaces_job ''J'' act) ex_done ?st"
    unfolding leads_to_def
    by (rule exI [of _ ?acts]) (simp add: finished_payload_def json_loads_def ex_job_def dict_get_def is_terminal_status_def TERMINAL_STATUSES_def image_iff)
  then have "mem_get ?st (job_key ''J'') = Some (R_Payload (Json_Dict Compact [(''status'', PStr ''completed'')]))"
    by (rule finished_job_permanent [OF mem_r.redis_axioms, rotated 2])
      (simp_all add: mem_get_def ex_done_def finished_payload_def json_loads_def dict_get_def is_terminal_status_def TERMINAL_STATUSES_def)
  then show ?thesis by (simp only: mem_get_def)
qed

text \<open>
  C28. The run lock is exclusive and its epochs only grow: while a token holds it, no other
  token is granted, and over any history that keeps the counter the tokens granted for a job
  carry strictly increasing epochs.
\<close>

theorem run_lock_exclusive_increasing:
  assumes "redis get exec" "epoch_typed (get st) j" "\<forall>act \<in> set acts. \<not> drops_epoch j act"
    and "run_ops (act_step get exec) acts st = (answers, st')"
  shows "sorted_wrt (<) (epoch_now (get st) j # map get_sync_job_run_lock_epoch (granted j answers))
    \<and> (\<forall>token. get st (lock_key j) = Some (R_Text token) \<and> (\<forall>act \<in> set acts. \<not> frees_lock j token act) \<longrightarrow>
         get st' (lock_key j) = Some (R_Text token) \<and> granted j answers = [])"
  using redis.epochs_grow [OF assms] redis.held_lock_history [OF assms(1) _ _ assms(4)] by blast

definition ex_lock_acts :: "(string \<times> sync_act) list" where
  "ex_lock_acts = [(''J'', Acquire ''b''), (''J'', Release ''1:a''), (''J'', Acquire ''b''), (''J'', Acquire ''c''),
     (''J'', Lapse (lock_key ''J'')), (''J'', Acquire ''c'')]"

lemma ex_tokens:
  "dec_int 2 = ''2''" "dec_int 3 = ''3''" "get_sync_job_run_lock_epoch ''2:b'' = 2" "get_sync_job_run_lock_epoch ''3:c'' = 3"
  by code_simp+

lemma ex_lock_grants:
  "granted ''J'' (fst (run_ops (act_step mem_get mem_exec) ex_lock_acts ex_redis)) = [''2:b'', ''3:c'']"
  by (simp add: ex_lock_acts_def ex_redis_def act_defs mem_get_def mem_exec_def rafter_view_def ex_tokens Let_def)

theorem run_lock_exclusive_increasing_witness:
  "sorted_wrt (<) (epoch_now ex_redis ''J'' #
      map get_sync_job_run_lock_epoch (granted ''J'' (fst (run_ops (act_step mem_get mem_exec) ex_lock_acts ex_redis))))
   \<and> granted ''J'' (fst (run_ops (act_step mem_get mem_exec) ex_lock_acts ex_redis)) = [''2:b'', ''3:c'']"
proof
  have "epoch_typed (mem_get ex_redis) ''J''" by (simp add: epoch_typed_def mem_get_def ex_redis_def)
  moreover have "\<forall>act \<in> set ex_lock_acts. \<not> drops_epoch ''J'' act" by (simp add: ex_lock_acts_def)
  ultimately show "sorted_wrt (<) (epoch_now ex_redis ''J'' #
      map get_sync_job_run_lock_epoch (granted ''J'' (fst (run_ops (act_step mem_get mem_exec) ex_lock_acts ex_redis))))"
    using run_lock_exclusive_increasing [OF mem_r.redis_axioms _ _ prod.collapse [symmetric]] unfolding mem_get_def by blast
  show "granted ''J'' (fst (run_ops (act_step mem_get mem_exec) ex_lock_acts ex_redis)) = [''2:b'', ''3:c'']" by (rule ex_lock_grants)
qed

text \<open>
  Only the holder of the run lock publishes: a fenced update that reports success replaced
  the text of a job at a moment when the lock held exactly its token and the job was unfinished
  and in an allowed status; its answer is that job with the updates and the time stamp, the
  store holds it, and no other key was touched by it.
\<close>

lemma fenced_update_needs_lock:
  assumes "redis get exec" "fenced_update_sync_job get exec up mid st j token updates now allowed = (Inr m, st')" "applied m"
  shows "\<exists>s raw job. interfered mid st s \<and> lock_owner (get s) (lock_key j) = Some token
    \<and> stored_payload (get s) (job_key j) = Some raw \<and> json_loads raw = Inr (Some job)
    \<and> \<not> is_terminal_status (dict_get job ''status'') \<and> status_allowed allowed (dict_get job ''status'') = Inr True
    \<and> fm_job m = Some (py_update job (stamped updates now))
    \<and> get st' = (get s)(job_key j \<mapsto> R_Payload (Json_Dict Compact (py_update job (stamped updates now))))"
proof -
  have "m \<noteq> mutation INVALID_JOB" using assms(3) by (auto simp: applied_def mutation_def)
  then obtain job' where m: "fm_job m = Some job'"
    "commits get exec mid (job_key j) (stamped updates now) (held get (lock_key j) token allowed) st job' st'"
    using fenced_update_effect [OF assms(2)] assms(3) by (auto simp: fenced_effect_def)
  have "get (exec s [R_Set k v t]) = (get s)(k \<mapsto> v)" for s k v t
    by (auto simp: fun_eq_iff redis.get_exec [OF assms(1)])
  with m show ?thesis by (fastforce simp: commits_def held_def)
qed

text \<open>
  A read of a stale job is not fenced: whatever happened to the job since it was read,
  even its completion, the read replaces it by its own outdated copy marked as failed.
\<close>

lemma stale_read_overwrites_completion:
  assumes "redis get exec" "up 0" "up 1" "stored_payload (get st) (job_key j) = Some raw" "json_loads raw = Inr (Some job)"
    and "is_sync_job_stale job now" "get (mid 1 st) (job_key j) = Some (R_Payload p)" "finished_payload p"
    and "get_sync_job get exec up mid st j now = (r, st')"
  shows "r = Inr (Some (timed_out_job job now))
    \<and> get st' (job_key j) = Some (R_Payload (Json_Dict Spaced (timed_out_job job now)))
    \<and> dict_get (timed_out_job job now) ''status'' = PStr ''failed''"
proof -
  have "map_of (timed_out_job job now) ''status'' = Some (PStr ''failed'')" by (simp add: timed_out_job_def map_of_py_update)
  with assms show ?thesis
    by (auto simp: get_sync_job_def redis_call_def dict_get_def redis.get_exec [OF assms(1)] split: prod.split_asm)
qed

text \<open>
  A finished job says what happened: its status is completed exactly when no segment
  failed, failed exactly when there were segments and all failed, and a partial failure
  otherwise; its counters add up, an error is recorded exactly for a failed job, and the status
  is terminal.
\<close>

lemma finalization_truthful:
  assumes "sync_job_finalization_updates result now = Inr fz"
    and "get_default result ''failed_segments'' (PInt 0) = PInt f" "get_default result ''total_segments'' (PInt 0) = PInt t" "0 \<le> f" "f \<le> t"
  shows "fz_status fz = (if f = 0 then ''completed'' else if f = t then ''failed'' else ''partial_failure'')
    \<and> map_of (fz_updates fz) ''status'' = Some (PStr (fz_status fz)) \<and> is_terminal_status (PStr (fz_status fz))
    \<and> map_of (fz_updates fz) ''successful_segments'' = Some (PInt (t - f)) \<and> map_of (fz_updates fz) ''failed_segments'' = Some (PInt f)
    \<and> map_of (fz_updates fz) ''processed_segments'' = Some (PInt t)
    \<and> (map_of (fz_updates fz) ''error'' \<noteq> Some PNone \<longleftrightarrow> fz_status fz = ''failed'')"
proof -
  have s: "is_terminal_status (PStr s) \<longleftrightarrow> s = ''completed'' \<or> s = ''partial_failure'' \<or> s = ''failed''" for s
    by (auto simp: is_terminal_status_def TERMINAL_STATUSES_def)
  show ?thesis using assms
    by (auto simp: sync_job_finalization_updates_def Let_def py_max_sub_def res_bind_def s split: if_split_asm sum.split_asm option.split_asm)
qed

end
