(* ===== verification/Sync_Run.thy ===== *)
theory Sync_Run
  imports Sync_Clients
begin

text \<open>
  The part of \<open>utils/sync/pipeline.py\<close> through which a worker reports: every status write under
  its run token or, without one, under the older protocol; binding the content ledger to the
  run or converging to a result it already holds; and publishing a failure before the retry
  claim is released. The jobs live in the key-value service (\<open>get\<close>, \<open>exec\<close>), the ledger in the
  document store (\<open>fetch\<close>, \<open>commit\<close>); a state is the pair of both. Metrics and log lines are
  left out.
\<close>

subsection \<open>Status writes of a run\<close>

definition require_run_owner :: "fenced_mutation \<Rightarrow> dict option res" where
  "require_run_owner m = (if applied m then Inr (fm_job m) else Inl SyncJobRunLeaseLost)"

text \<open>The two ways a reply ends: a fenced one must be applied, an older one must have a job.\<close>

definition owned_reply :: "fenced_mutation res \<times> 's \<Rightarrow> dict option res \<times> 's" where
  "owned_reply r = (case r of (Inl e, st') \<Rightarrow> (Inl e, st') | (Inr m, st') \<Rightarrow> (require_run_owner m, st'))"

definition mutable_reply :: "dict option res \<times> 's \<Rightarrow> dict option res \<times> 's" where
  "mutable_reply r =
     (case r of (Inl e, st') \<Rightarrow> (Inl e, st') | (Inr None, st') \<Rightarrow> (Inl SyncJobRunLeaseLost, st') | (Inr (Some job), st') \<Rightarrow> (Inr (Some job), st'))"

definition update_sync_job_for_run where
  "update_sync_job_for_run get exec up mid st job_id run_lock_token updates now =
     (case run_lock_token of
        None \<Rightarrow> mutable_reply (update_sync_job get exec up mid st job_id updates now)
      | Some token \<Rightarrow> owned_reply (fenced_update_sync_job get exec up mid st job_id token updates now (Some [''processing''])))"

definition mark_job_processing_for_run where
  "mark_job_processing_for_run get exec up mid st job_id run_lock_token now =
     (case run_lock_token of
        None \<Rightarrow> mutable_reply (mark_job_processing get exec up mid st job_id now)
      | Some token \<Rightarrow> owned_reply (fenced_mark_job_processing get exec up mid st job_id token now))"

definition finalize_sync_job_for_run where
  "finalize_sync_job_for_run get exec up mid st job_id run_lock_token result now completed_at =
     (case run_lock_token of
        None \<Rightarrow> mutable_reply (finalize_sync_job get exec up mid st job_id result now completed_at)
      | Some token \<Rightarrow> owned_reply (fenced_finalize_sync_job get exec up mid st job_id token result completed_at))"

definition mark_job_failed_for_run where
  "mark_job_failed_for_run get exec up mid st job_id run_lock_token error reason_code retry_after now completed_at =
     (case run_lock_token of
        None \<Rightarrow> mutable_reply (mark_job_failed get exec up mid st job_id error reason_code retry_after now completed_at)
      | Some token \<Rightarrow> owned_reply (fenced_mark_job_failed get exec up mid st job_id token error reason_code retry_after completed_at))"

definition add_processed_segment_for_run where
  "add_processed_segment_for_run get exec up st job_id run_lock_token segment_path =
     (case run_lock_token of
        None \<Rightarrow> (Inr None, add_processed_segment get exec (up 0) (up (1 :: nat)) st job_id segment_path)
      | Some token \<Rightarrow> owned_reply (add_processed_segment_if_run_owner get exec (up 0) st job_id token segment_path))"

subsection \<open>Binding the ledger or converging\<close>

definition absent_text :: "string option \<Rightarrow> bool" where
  "absent_text v \<longleftrightarrow> v = None \<or> v = Some []"

text \<open>A call of the document store that does not get through raises and changes nothing.\<close>

definition ledger_call :: "bool \<Rightarrow> ('f \<Rightarrow> 'r res \<times> 'f) \<Rightarrow> 'f \<Rightarrow> 'r res \<times> 'f" where
  "ledger_call fup call fs = (if fup then call fs else (Inl Aborted, fs))"

text \<open>\<open>now\<close> is the time the ledger stamps, \<open>clock\<close> the time the job is stamped with.\<close>

definition bind_or_converge_sync_ledger_completion where
  "bind_or_converge_sync_ledger_completion fetch commit fup get exec up mid w job_id uid content_id run_lock_token now clock =
     (case (content_id, run_lock_token) of
        (Some (c # cs), Some token) \<Rightarrow>
          (case ledger_call fup (\<lambda>fs. bind_sync_content_run_token fetch commit fs uid (c # cs) job_id token
                  (get_sync_job_run_lock_epoch token) now) (snd w) of
             (Inl e, fs) \<Rightarrow> (Inl e, (fst w, fs))
           | (Inr BOUND, fs) \<Rightarrow> (Inr None, (fst w, fs))
           | (Inr LOST, fs) \<Rightarrow> (Inl SyncJobRunLeaseLost, (fst w, fs))
           | (Inr (COMPLETED_BINDING result), fs) \<Rightarrow>
               (case is_valid_completed_sync_content_result result of
                  Inl e \<Rightarrow> (Inl e, (fst w, fs))
                | Inr False \<Rightarrow> (Inl SyncJobRunLeaseLost, (fst w, fs))
                | Inr True \<Rightarrow>
                    (case owned_reply (fenced_finalize_sync_job_from_durable_ledger get exec up mid (fst w) job_id token
                             (case result of PDict kvs \<Rightarrow> kvs | _ \<Rightarrow> []) clock) of
                       (Inl e, st') \<Rightarrow> (Inl e, (st', fs))
                     | (Inr finalized, st') \<Rightarrow> (Inr finalized, (delete_sync_job_run_lock_epoch get exec (up 9) st' job_id, fs)))))
      | _ \<Rightarrow> (Inr None, w))"

definition superseded_result :: "string \<Rightarrow> string \<Rightarrow> string \<Rightarrow> dict" where
  "superseded_result provider model lane =
     [(''failed_segments'', PInt 0), (''total_segments'', PInt 0), (''errors'', PList []), (''outcome'', PStr ''superseded''),
      (''provider'', PStr provider), (''model'', PStr model), (''lane'', PStr lane)]"

definition finalize_sync_job_superseded where
  "finalize_sync_job_superseded get exec up mid st job_id run_lock_token lane provider model now completed_at =
     (case finalize_sync_job_for_run get exec up mid st job_id run_lock_token (superseded_result provider model lane) now completed_at of
        (Inl e, st') \<Rightarrow> (Inl e, st')
      | (Inr None, st') \<Rightarrow> (Inl SyncJobRunLeaseLost, st')
      | (Inr (Some job), st') \<Rightarrow> (Inr (), st'))"

subsection \<open>Publishing a failure\<close>

text \<open>
  The job is failed first; only when that succeeded is the retry claim released, and only then
  the epoch counter deleted. \<open>fmid\<close> is what happened to the ledger meanwhile, and \<open>reason\<close> the
  reason code with the error code as default.
\<close>

definition finalize_sync_job_failure_now where
  "finalize_sync_job_failure_now fetch commit fup get exec up mid fmid w job_id uid content_id error_code reason_code retry_after
       run_lock_token now clock completed_at =
     (let reason = (if absent_text reason_code then Some error_code else reason_code);
          failed = (case run_lock_token of
              None \<Rightarrow> mark_job_failed get exec up mid (fst w) job_id error_code reason retry_after clock completed_at
            | Some token \<Rightarrow>
                (case mark_job_failed_for_run get exec up mid (fst w) job_id (Some token) error_code reason retry_after clock completed_at of
                   (Inl e, st') \<Rightarrow> if e = SyncJobRunLeaseLost then (Inr None, st') else (Inl e, st')
                 | (Inr job, st') \<Rightarrow> (Inr job, st')))
      in case failed of
        (Inl e, st') \<Rightarrow> (Inl e, (st', fmid (snd w)))
      | (Inr None, st') \<Rightarrow> (Inr None, (st', fmid (snd w)))
      | (Inr (Some finalized), st') \<Rightarrow>
          (case (if absent_text content_id then (Inr False, fmid (snd w))
                 else ledger_call fup (\<lambda>fs. case run_lock_token of
                     None \<Rightarrow> release_sync_content_claim fetch commit fs uid (the content_id) job_id None None now
                   | Some token \<Rightarrow> release_sync_content_claim_after_job_retired fetch commit fs uid (the content_id) job_id now)
                   (fmid (snd w))) of
             (Inl e, fs) \<Rightarrow> (Inl e, (st', fs))
           | (Inr released, fs) \<Rightarrow>
               (Inr (Some finalized),
                (if run_lock_token \<noteq> None then delete_sync_job_run_lock_epoch get exec (up 9) st' job_id else st', fs))))"

subsection \<open>Who may publish, and what it costs to publish\<close>

text \<open>The moment at which a token that holds the lock replaces an unfinished job.\<close>

definition published ::
  "('s \<Rightarrow> string \<Rightarrow> rval option) \<Rightarrow> (nat \<Rightarrow> 's \<Rightarrow> 's) \<Rightarrow> string \<Rightarrow> string \<Rightarrow> dict \<Rightarrow> 's \<Rightarrow> dict \<Rightarrow> 's \<Rightarrow> bool" where
  "published get mid job_id token updates st job' st' \<longleftrightarrow>
     (\<exists>s raw job. interfered mid st s \<and> lock_owner (get s) (lock_key job_id) = Some token
        \<and> stored_payload (get s) (job_key job_id) = Some raw \<and> json_loads raw = Inr (Some job)
        \<and> \<not> is_terminal_status (dict_get job ''status'') \<and> job' = py_update job updates
        \<and> get st' = (get s)(job_key job_id \<mapsto> R_Payload (Json_Dict Compact job')))"

lemma owned_reply_published:
  assumes "redis get exec" "owned_reply (fenced_update_sync_job get exec up mid st j token updates now allowed) = (Inr r, st')"
  shows "\<exists>job'. r = Some job' \<and> published get mid j token (stamped updates now) st job' st'"
proof -
  obtain m where m: "fenced_update_sync_job get exec up mid st j token updates now allowed = (Inr m, st')" "applied m" "r = fm_job m"
    using assms(2) by (auto simp: owned_reply_def require_run_owner_def split: prod.split_asm sum.split_asm if_split_asm)
  have "m \<noteq> mutation INVALID_JOB" using m(2) by (auto simp: applied_def mutation_def)
  then obtain job' where "fm_job m = Some job'"
    "commits get exec mid (job_key j) (stamped updates now) (held get (lock_key j) token allowed) st job' st'"
    using fenced_update_effect [OF m(1)] m(2) by (auto simp: fenced_effect_def)
  moreover have "get (exec s [R_Set k v t]) = (get s)(k \<mapsto> v)" for s k v t
    by (auto simp: fun_eq_iff redis.get_exec [OF assms(1)])
  ultimately show ?thesis unfolding m(3) published_def commits_def held_def by auto
qed

lemma fenced_lost_quiet:
  assumes "owned_reply (fenced_update_sync_job get exec up mid st j token updates now allowed) = (Inl e, st')"
  shows "interfered mid st st' \<or> probed get exec mid (job_key j) st st'"
proof -
  obtain r where r: "fenced_update_sync_job get exec up mid st j token updates now allowed = (r, st')" "\<forall>m. r = Inr m \<longrightarrow> \<not> applied m"
    using assms by (cases "fenced_update_sync_job get exec up mid st j token updates now allowed")
      (auto simp: owned_reply_def require_run_owner_def split: sum.split_asm if_split_asm)
  from fenced_update_effect [OF r(1)] r(2) show ?thesis by (auto simp: fenced_effect_def split: sum.split_asm)
qed

text \<open>
  A run's failure is published before its claim is released, and only by the lock's holder:
  when the call for a run reports a failed job, the job was unfinished and the lock held by the
  run's token at the moment it was failed, the job then carries that failure, and the ledger
  changed only by the release of this job's claim. When it reports nothing, the ledger was not
  touched and no failure was written.
\<close>

lemma failure_published_by_owner:
  assumes "redis get exec"
    and "finalize_sync_job_failure_now fetch commit fup get exec up mid fmid w job_id uid (Some (c # cs)) code reason retry
           (Some token) now clock done_at = (r, (st', fs))"
  shows "case r of
      Inr (Some job) \<Rightarrow>
        (\<exists>s. published get mid job_id token
            (stamped (failed_updates code (if absent_text reason then Some code else reason) retry done_at) done_at) (fst w) job s
          \<and> st' = delete_sync_job_run_lock_epoch get exec (up 9) s job_id)
        \<and> (\<exists>released. release_sync_content_claim_after_job_retired fetch commit (fmid (snd w)) uid (c # cs) job_id now = (Inr released, fs))
    | Inr None \<Rightarrow> fs = fmid (snd w) \<and> (interfered mid (fst w) st' \<or> probed get exec mid (job_key job_id) (fst w) st')
    | Inl e \<Rightarrow> fs = fmid (snd w)"
proof -
  let ?reason = "if absent_text reason then Some code else reason"
  let ?call = "owned_reply (fenced_update_sync_job get exec up mid (fst w) job_id token
      (failed_updates code ?reason retry done_at) done_at (Some [''queued'', ''processing'']))"
  obtain q s where q: "?call = (q, s)" by (cases ?call)
  note def = assms(2) [unfolded finalize_sync_job_failure_now_def Let_def mark_job_failed_for_run_def fenced_mark_job_failed_def, simplified,
      unfolded q, simplified]
  show ?thesis
  proof (cases q)
    case (Inl e)
    with fenced_lost_quiet q have "interfered mid (fst w) s \<or> probed get exec mid (job_key job_id) (fst w) s" by metis
    with def Inl show ?thesis by (auto split: if_split_asm)
  next
    case (Inr x)
    then obtain job' where j: "x = Some job'"
      "published get mid job_id token (stamped (failed_updates code ?reason retry done_at) done_at) (fst w) job' s"
      using owned_reply_published [OF assms(1)] q by blast
    let ?release = "\<lambda>fs. release_sync_content_claim_after_job_retired fetch commit fs uid (c # cs) job_id now"
    have no: "\<not> absent_text (Some (c # cs))" by (simp add: absent_text_def)
    obtain b fs1 where l: "ledger_call fup ?release (fmid (snd w)) = (b, fs1)" by (cases "ledger_call fup ?release (fmid (snd w))")
    show ?thesis
    proof (cases b)
      case (Inl e)
      then have "fs1 = fmid (snd w)"
        using l by (auto simp: ledger_call_def release_sync_content_claim_after_job_retired_def run_txn_def split: if_split_asm sum.split_asm)
      moreover have "r = Inl e" "fs = fs1" using def \<open>q = Inr x\<close> j(1) no l Inl by simp_all
      ultimately show ?thesis by simp
    next
      case (Inr y)
      then have "?release (fmid (snd w)) = (Inr y, fs1)" using l by (simp add: ledger_call_def split: if_split_asm)
      moreover have "r = Inr (Some job')" "fs = fs1" "st' = delete_sync_job_run_lock_epoch get exec (up 9) s job_id"
        using def \<open>q = Inr x\<close> j(1) no l Inr by simp_all
      ultimately show ?thesis using j(2) by auto
    qed
  qed
qed

text \<open>The ledger entry job \<open>J\<close> holds, in a store; and the simplification rules that run a fenced call on the examples.\<close>

definition ex_ledger :: mem_store where
  "ex_ledger = [ledger_ref ''u'' ''c'' \<mapsto> ex_claimed]"

lemmas run_eval = fenced_update_sync_job_def numeral_3_eq_3 redis_call_def fenced_mutation_script_def stored_payload_def lock_owner_def
  mem_get_def mem_exec_def rafter_view_def ex_redis_def ex_job_def json_loads_def is_terminal_status_def TERMINAL_STATUSES_def
  dict_get_def status_allowed_def stamped_def py_update_def owned_reply_def require_run_owner_def applied_def

subsection \<open>Converging to the ledger\<close>

lemma completed_bound:
  assumes "fetch (snd w) (ledger_ref uid (c # cs)) = Some entry" "dget entry ''status'' = PStr ''completed''" "dget entry ''result'' = PDict result"
    "is_valid_completed_sync_content_result (PDict result) = Inr True"
  shows "bind_sync_content_run_token fetch commit (snd w) uid (c # cs) job_id token e now = (Inr (COMPLETED_BINDING (PDict result)), commit (snd w) [])"
  using assms by (simp add: bind_sync_content_run_token_def bind_run_token_transaction_def existing_doc_def Let_def)

lemma valid_result_completes:
  assumes "is_valid_completed_sync_content_result (PDict result) = Inr True"
  obtains fz where "sync_job_finalization_updates result clock = Inr fz" "fz_status fz = ''completed''" "map fst (fz_updates fz) =
      [''status'', ''completed_at'', ''result'', ''successful_segments'', ''failed_segments'', ''processed_segments'', ''error'']"
    "map_of (fz_updates fz) ''status'' = Some (PStr ''completed'')" "map_of (fz_updates fz) ''result'' = Some (PDict result)"
proof -
  obtain n where f: "dict_get result ''failed_segments'' = PInt 0" "dict_get result ''total_segments'' = PInt n" "0 \<le> n"
    using assms by (auto simp: is_valid_completed_sync_content_result_def split: pyval.split_asm if_split_asm)
  then have g: "get_default result ''failed_segments'' (PInt 0) = PInt 0" "get_default result ''total_segments'' (PInt 0) = PInt n"
    by (auto simp: dict_get_def get_default_def split: option.split_asm)
  show thesis
    by (rule that [of "\<lparr>fz_status = ''completed'', fz_total = PInt n, fz_failed = PInt 0, fz_updates =
        [(''status'', PStr ''completed''), (''completed_at'', PFloat clock), (''result'', PDict result), (''successful_segments'', PInt n),
         (''failed_segments'', PInt 0), (''processed_segments'', PInt n), (''error'', PNone)]\<rparr>"])
      (use f(3) in \<open>auto simp: sync_job_finalization_updates_def g py_max_sub_def Let_def\<close>)
qed

text \<open>
  Proven work is not reported as failed: when the ledger holds a valid completed result, a
  later run of the job that reaches the point of publishing reports the job as completed with
  exactly that result, and does so only while its token holds the lock; otherwise it stops with
  a lost lease or a service error and publishes nothing.
\<close>

lemma ledger_completion_converges:
  assumes "redis get exec" "fetch (snd w) (ledger_ref uid (c # cs)) = Some entry" "dget entry ''status'' = PStr ''completed''"
    and "dget entry ''result'' = PDict result" "is_valid_completed_sync_content_result (PDict result) = Inr True"
    and "bind_or_converge_sync_ledger_completion fetch commit fup get exec up mid w job_id uid (Some (c # cs)) (Some token) now clock
           = (r, (st', fs))"
  shows "case r of
      Inr None \<Rightarrow> False
    | Inr (Some job) \<Rightarrow> dict_get job ''status'' = PStr ''completed'' \<and> dict_get job ''result'' = PDict result
        \<and> (\<exists>updates s. published get mid job_id token updates (fst w) job s
             \<and> st' = delete_sync_job_run_lock_epoch get exec (up 9) s job_id)
    | Inl e \<Rightarrow> interfered mid (fst w) st' \<or> probed get exec mid (job_key job_id) (fst w) st'"
proof (cases fup)
  case False
  then have "r = Inl Aborted" "st' = fst w" using assms(6) by (auto simp: bind_or_converge_sync_ledger_completion_def ledger_call_def)
  then show ?thesis by (simp add: interfered.still)
next
  case True
  obtain fz where fz: "sync_job_finalization_updates result clock = Inr fz" "map fst (fz_updates fz) =
      [''status'', ''completed_at'', ''result'', ''successful_segments'', ''failed_segments'', ''processed_segments'', ''error'']"
    "map_of (fz_updates fz) ''status'' = Some (PStr ''completed'')" "map_of (fz_updates fz) ''result'' = Some (PDict result)"
    using assms(5) by (rule valid_result_completes)
  let ?call = "owned_reply (fenced_update_sync_job get exec up mid (fst w) job_id token (fz_updates fz) clock (Some [''queued'', ''processing'']))"
  obtain q s where q: "?call = (q, s)" by (cases ?call)
  note def = assms(6) [unfolded bind_or_converge_sync_ledger_completion_def, simplified, unfolded ledger_call_def
      completed_bound [where fetch = fetch and w = w, OF assms(2-5)], simplified True assms(5) if_True prod.case sum.case run_binding.case bool.case pyval.case
      fenced_finalize_sync_job_from_durable_ledger_def fenced_finalize_def fz(1) q]
  show ?thesis
  proof (cases q)
    case (Inl e)
    with fenced_lost_quiet q have "interfered mid (fst w) s \<or> probed get exec mid (job_key job_id) (fst w) s" by metis
    with def Inl show ?thesis by auto
  next
    case (Inr x)
    then obtain job where j: "x = Some job" "published get mid job_id token (stamped (fz_updates fz) clock) (fst w) job s"
      using owned_reply_published [OF assms(1)] q by blast
    then obtain old where old: "job = py_update old (stamped (fz_updates fz) clock)" by (auto simp: published_def)
    have "distinct (map fst (stamped (fz_updates fz) clock))" "map_of (stamped (fz_updates fz) clock) k = (if k = ''updated_at'' then Some (PFloat clock) else map_of (fz_updates fz) k)" for k
      using fz(2) by (auto simp: stamped_def py_update_def update_conv' distinct_update)
    then have "dict_get job ''status'' = PStr ''completed''" "dict_get job ''result'' = PDict result"
      using fz(3,4) by (simp_all add: old dict_get_def map_of_py_update)
    with def Inr j show ?thesis by clarsimp blast
  qed
qed

subsection \<open>A later run shuts out the earlier one\<close>

lemma bound_by_run:
  assumes "bind_or_converge_sync_ledger_completion fetch commit fup get exec up mid w job_id uid (Some (c # cs)) (Some token) now clock
           = (Inr None, w')" and "redis get exec"
  obtains ws where "ledger_exec (ledger_ref uid (c # cs)) (Do_Bind job_id token (get_sync_job_run_lock_epoch token) now) (fetch (snd w)) = (True, ws)"
    "snd w' = commit (snd w) ws"
proof -
  let ?b = "bind_run_token_transaction (ledger_ref uid (c # cs)) job_id token (get_sync_job_run_lock_epoch token) now (fetch (snd w))"
  have "\<exists>ws. ?b = Inr (BOUND, ws) \<and> snd w' = commit (snd w) ws"
  proof (cases ?b)
    case (Inl e)
    with assms(1) show ?thesis
      by (auto simp: bind_or_converge_sync_ledger_completion_def ledger_call_def bind_sync_content_run_token_def run_txn_def split: if_split_asm)
  next
    case (Inr x)
    obtain b ws where x: "x = (b, ws)" by (cases x)
    show ?thesis
    proof (cases b)
      case (COMPLETED_BINDING result)
      with Inr x assms(1) have False
        using owned_reply_published [OF assms(2)]
        by (auto simp: bind_or_converge_sync_ledger_completion_def ledger_call_def bind_sync_content_run_token_def
            fenced_finalize_sync_job_from_durable_ledger_def fenced_finalize_def owned_reply_def [of "(Inl _, _)"]
            split: if_split_asm sum.split_asm bool.split_asm prod.split_asm) blast+
      then show ?thesis ..
    qed (use Inr x assms(1) in \<open>auto simp: bind_or_converge_sync_ledger_completion_def ledger_call_def bind_sync_content_run_token_def split: if_split_asm\<close>)
  qed
  with that show thesis by (auto simp: answer_def)
qed

lemma bind_commit_view:
  assumes "firestore fetch commit" "ledger_exec ref (Do_Bind job_id token e now) (fetch fs) = (b, ws)"
  shows "fetch (commit fs ws) = after_view ws (fetch fs)"
proof -
  have "writes_ok (fetch fs) ws" using assms(2)
    by (auto simp: answer_def bind_run_token_transaction_def processing_claim_updates_def deletions_def Let_def res_bind_def
        split: if_split_asm sum.split_asm pyval.split_asm prod.split_asm)
  then show ?thesis by (simp add: fun_eq_iff after_view_def firestore.fetch_commit [OF assms(1)])
qed

text \<open>
  C10. A worker that lost its lock cannot disturb its successor: if over any history of all
  clients two tokens were granted for a job, one after the other, and the later run has bound
  the ledger entry, then no call of the earlier run on that entry succeeds or changes anything
  afterwards, whatever calls of all workers come in between, unless the job claims the content
  anew.
\<close>

theorem later_run_shuts_out_earlier:
  assumes "redis get exec" "firestore fetch commit"
    and "epoch_typed (get st) j" "\<forall>act \<in> set acts. \<not> drops_epoch j act" "run_ops (act_step get exec) acts st = (answers, st1)"
    and "granted j answers = xs @ t1 # ys @ t2 # zs"
    and "wf_ledger (existing_doc (fetch (snd w)) (ledger_ref uid (c # cs)))"
    and "bind_or_converge_sync_ledger_completion fetch commit fup get exec up mid w j uid (Some (c # cs)) (Some t2) now clock = (Inr None, w')"
    and "\<forall>op \<in> set ops. op_ok op \<and> \<not> reclaims j op" "run_ops (ledger_step (ledger_ref uid (c # cs))) ops (fetch (snd w')) = (replies, rd')"
    and "worker_op j t1 (get_sync_job_run_lock_epoch t1) op"
  shows "ledger_exec (ledger_ref uid (c # cs)) op rd' = (False, [])"
proof -
  let ?ref = "ledger_ref uid (c # cs)"
  have "get_sync_job_run_lock_epoch t1 < get_sync_job_run_lock_epoch t2"
    using redis.epochs_grow [OF assms(1,3-5)] by (simp add: assms(6) sorted_wrt_append)
  moreover obtain ws where b: "ledger_exec ?ref (Do_Bind j t2 (get_sync_job_run_lock_epoch t2) now) (fetch (snd w)) = (True, ws)"
    "snd w' = commit (snd w) ws" using assms(8,1) by (rule bound_by_run)
  moreover have "fetch (snd w') = after_view ws (fetch (snd w))" unfolding b(2) using assms(2) b(1) by (rule bind_commit_view)
  ultimately show ?thesis using superseded_run_locked_out [OF assms(7) b(1) _ assms(9) _ assms(11)] assms(10) by simp
qed

theorem later_run_shuts_out_earlier_witness:
  "ledger_exec (ledger_ref ''u'' ''c'') (Do_Mark ''usage'' 5 9 ''J'' (Some ''2:b'') (Some (get_sync_job_run_lock_epoch ''2:b'')))
     (mem_fetch (snd (snd (bind_or_converge_sync_ledger_completion mem_fetch mem_commit True mem_get mem_exec (\<lambda>i. True) (\<lambda>i s. s)
        (ex_redis, ex_ledger) ''J'' ''u'' (Some ''c'') (Some ''3:c'') 7 8)))) = (False, [])"
proof (rule later_run_shuts_out_earlier [OF mem_r.redis_axioms mem.firestore_axioms, where xs = "[]" and ys = "[]" and zs = "[]"
      and acts = ex_lock_acts and st = ex_redis and ops = "[]" and w = "(ex_redis, ex_ledger)" and ?t2.0 = "''3:c''" and ?t1.0 = "''2:b''"])
  show "epoch_typed (mem_get ex_redis) ''J''" by (simp add: epoch_typed_def mem_get_def ex_redis_def)
  show "\<forall>act \<in> set ex_lock_acts. \<not> drops_epoch ''J'' act" by (simp add: ex_lock_acts_def)
  show "run_ops (act_step mem_get mem_exec) ex_lock_acts ex_redis =
      (fst (run_ops (act_step mem_get mem_exec) ex_lock_acts ex_redis), snd (run_ops (act_step mem_get mem_exec) ex_lock_acts ex_redis))" by simp
  show "granted ''J'' (fst (run_ops (act_step mem_get mem_exec) ex_lock_acts ex_redis)) = [] @ ''2:b'' # [] @ ''3:c'' # []"
    by (simp add: ex_lock_grants)
  show "wf_ledger (existing_doc (mem_fetch (snd (ex_redis, ex_ledger))) (ledger_ref ''u'' ''c''))"
    by (simp add: wf_ledger_def existing_doc_def mem_fetch_def ex_ledger_def ex_claimed_def dget_def)
  show "bind_or_converge_sync_ledger_completion mem_fetch mem_commit True mem_get mem_exec (\<lambda>i. True) (\<lambda>i s. s)
      (ex_redis, ex_ledger) ''J'' ''u'' (Some ''c'') (Some ''3:c'') 7 8 = (Inr None, snd (bind_or_converge_sync_ledger_completion
      mem_fetch mem_commit True mem_get mem_exec (\<lambda>i. True) (\<lambda>i s. s) (ex_redis, ex_ledger) ''J'' ''u'' (Some ''c'') (Some ''3:c'') 7 8))"
    by (simp add: bind_or_converge_sync_ledger_completion_def ledger_call_def bind_sync_content_run_token_def run_txn_def
        bind_run_token_transaction_def existing_doc_def mem_fetch_def ex_ledger_def ex_claimed_def dget_def ex_tokens Let_def)
qed simp_all

end
