(* ===== verification/Sync_Poll.thy ===== *)
theory Sync_Poll
  imports Sync_Run
begin

text \<open>
  \<open>get_sync_job_status\<close> of \<open>routers/sync.py\<close>: a client polls its job. The handler makes a series
  of calls on both stores; before call number \<open>k\<close> other clients act (\<open>gap k\<close>), inside it they
  act between its steps (\<open>mid k\<close>), \<open>up k\<close> and \<open>fup k\<close> say which of its requests get through,
  \<open>clk k\<close> and \<open>stamp k\<close> are the times it sees. Also the in-flight slot of
  \<open>utils/sync/backfill.py\<close> that finishing a job gives back.
\<close>

definition slot_key :: "string \<Rightarrow> string" where
  "slot_key uid = ''sync_backfill:inflight:'' @ uid"

definition release_backfill_slot where
  "release_backfill_slot get exec up st uid job_id =
     redis_call get exec up (\<lambda>rd. ((), if rd (slot_key uid) = Some (R_Text job_id) then [R_Del (slot_key uid)] else [])) st"

datatype poll_reply = Answer dict | Http_Error nat

text \<open>A job's content id is text or absent.\<close>

definition job_content_id :: "dict \<Rightarrow> string option" where
  "job_content_id job = (case dict_get job ''content_id'' of PStr s \<Rightarrow> Some s | _ \<Rightarrow> None)"

definition status_response :: "dict \<Rightarrow> dict res" where
  "status_response job =
     (case (map_of job ''job_id'', map_of job ''status'') of
        (Some job_id, Some status) \<Rightarrow>
          Inr ([(''job_id'', job_id), (''status'', status),
             (''total_segments'', get_default job ''total_segments'' (PInt 0)),
             (''processed_segments'', get_default job ''processed_segments'' (PInt 0)),
             (''successful_segments'', get_default job ''successful_segments'' (PInt 0)),
             (''failed_segments'', get_default job ''failed_segments'' (PInt 0)),
             (''lane'', get_default job ''lane'' (PStr ''fresh'')),
             (''reason_code'', dict_get job ''reason_code''),
             (''retry_after'', dict_get job ''retry_after''),
             (''recording_age_seconds'', dict_get job ''recording_age_seconds'')]
            @ (if is_terminal_status status \<and> truthy (dict_get job ''result'') then [(''result'', dict_get job ''result'')] else [])
            @ (if is_terminal_status status \<and> truthy (dict_get job ''error'') then [(''error'', dict_get job ''error'')] else []))
      | _ \<Rightarrow> Inl KeyError)"

text \<open>The body under the stale lock: re-read, converge or fail, give the slot back. The job to report, if it finished one.\<close>

definition stale_finalizer where
  "stale_finalizer fetch commit fup get exec up mid gap clk stamp w job_id uid token =
     (let w3 = gap (3 :: nat) w in
      case get_sync_job get exec (up (3 :: nat)) (mid (3 :: nat)) (fst w3) job_id (clk (3 :: nat)) of
        (Inl e, st) \<Rightarrow> (Inl e, (st, snd w3))
      | (Inr found, st) \<Rightarrow>
          (case found of
             None \<Rightarrow> (Inr None, (st, snd w3))
           | Some locked_job \<Rightarrow>
               if \<not> (locked_job \<noteq> [] \<and> dict_get locked_job ''uid'' = PStr uid
                    \<and> dict_get locked_job ''dispatch_mode'' = PStr ''cloud_tasks'' \<and> is_sync_job_stale locked_job (clk 4))
               then (Inr None, (st, snd w3))
               else
                 let fenced = sync_job_uses_ledger_fence locked_job;
                     content_id = job_content_id locked_job;
                     bound = (if fenced
                       then bind_or_converge_sync_ledger_completion fetch commit (fup (4 :: nat)) get exec (up 4) (mid 4) (gap 4 (st, snd w3))
                              job_id uid content_id (Some token) (stamp (4 :: nat)) (clk 4)
                       else (Inr None, (st, snd w3)));
                     outcome = (case bound of
                         (Inl e, w4) \<Rightarrow> (Inl e, w4)
                       | (Inr (Some job), w4) \<Rightarrow> (Inr (Some job), w4)
                       | (Inr None, w4) \<Rightarrow>
                           finalize_sync_job_failure_now fetch commit (fup 5) get exec (up 5) (mid 5) id (gap 5 w4) job_id uid content_id
                             (if dict_get locked_job ''status'' = PStr ''queued'' then ''sync_dispatch_lost'' else ''sync_worker_stale'')
                             None None (if fenced then Some token else None) (stamp 5) (clk 5) (clk 5))
                 in (case outcome of
                       (Inr (Some job), w5) \<Rightarrow>
                         (Inr (Some job),
                          if dict_get locked_job ''lane'' = PStr ''backfill''
                          then let w6 = gap 6 w5 in (snd (release_backfill_slot get exec (up 6 0) (fst w6) uid job_id), snd w6)
                          else w5)
                     | (r, w5) \<Rightarrow> (r, w5))))"

definition may_finalize_stale :: "ledger_fence_mode \<Rightarrow> dict \<Rightarrow> real \<Rightarrow> bool" where
  "may_finalize_stale mode job now \<longleftrightarrow>
     mode \<noteq> STANDBY \<and> \<not> (sync_job_uses_ledger_fence job \<and> mode \<noteq> ACTIVE) \<and> is_sync_job_stale job now
     \<and> dict_get job ''dispatch_mode'' = PStr ''cloud_tasks''"

text \<open>
  The lock is taken with or without an epoch; it is given back whatever happened, and a lost
  lease is swallowed.
\<close>

definition finalize_stale where
  "finalize_stale fetch commit fup get exec up mid gap clk stamp w job_id uid uuid job =
     (let w2 = gap 2 w;
          taken = (if sync_job_uses_ledger_fence job then try_acquire_sync_job_run_lock get exec (up 2 0) (fst w2) job_id uuid
            else try_acquire_job_run_lock get exec (up 2 0) (fst w2) job_id uuid)
      in case taken of
        (Inl e, st) \<Rightarrow> (Inl e, (st, snd w2))
      | (Inr None, st) \<Rightarrow> (Inr job, (st, snd w2))
      | (Inr (Some token), st) \<Rightarrow>
          (case stale_finalizer fetch commit fup get exec up mid gap clk stamp (st, snd w2) job_id uid token of
             (r, w6) \<Rightarrow>
               let w7 = gap 7 w6; w8 = (release_job_run_lock get exec (up 7 0) (fst w7) job_id token, snd w7)
               in (case r of
                     Inl e \<Rightarrow> (if e = SyncJobRunLeaseLost then Inr job else Inl e, w8)
                   | Inr None \<Rightarrow> (Inr job, w8)
                   | Inr (Some finalized) \<Rightarrow> (Inr finalized, w8))))"

text \<open>A failed job of the fenced protocol is reported only once its claim is released.\<close>

definition poll_answer where
  "poll_answer fetch commit fup get exec up gap stamp w8 job_id uid job =
     (let answer = (\<lambda>w. case status_response job of Inl e \<Rightarrow> (Inl e, w) | Inr d \<Rightarrow> (Inr (Answer d), w)) in
      if dict_get job ''status'' \<in> {PStr ''failed'', PStr ''partial_failure''} \<and> sync_job_uses_ledger_fence job \<and> job_content_id job \<noteq> None
      then let w9 = gap (8 :: nat) w8 in
        (case ledger_call (fup (8 :: nat)) (\<lambda>fs. release_sync_content_claim_after_job_retired fetch commit fs uid
                 (the (job_content_id job)) job_id (stamp (8 :: nat))) (snd w9) of
           (Inl e, fs) \<Rightarrow> (Inr (Http_Error 503), (fst w9, fs))
         | (Inr released, fs) \<Rightarrow> answer (delete_sync_job_run_lock_epoch get exec (up (9 :: nat) (0 :: nat)) (fst w9) job_id, fs))
      else answer w8)"

text \<open>The job the handler reports, or the status of the error it raises.\<close>

definition poll_job where
  "poll_job env fetch commit fup get exec up mid gap clk stamp w job_id uid uuid =
     (case get_sync_job get exec (up 1) (mid 1) (fst w) job_id (clk 1) of
        (Inl e, st) \<Rightarrow> (Inl e, (st, snd w))
      | (Inr found, st) \<Rightarrow>
          (case found of
             None \<Rightarrow> (Inr (Inl (404 :: nat)), (st, snd w))
           | Some job \<Rightarrow>
               if job = [] then (Inr (Inl 404), (st, snd w))
               else (case map_of job ''uid'' of
                  None \<Rightarrow> (Inl KeyError, (st, snd w))
                | Some owner \<Rightarrow>
                    if owner \<noteq> PStr uid then (Inr (Inl 403), (st, snd w))
                    else if may_finalize_stale (get_sync_ledger_fence_mode env) job (clk 2)
                    then (case finalize_stale fetch commit fup get exec up mid gap clk stamp (st, snd w) job_id uid uuid job of
                            (Inl e, w8) \<Rightarrow> (Inl e, w8)
                          | (Inr reported, w8) \<Rightarrow> (Inr (Inr reported), w8))
                    else (Inr (Inr job), (st, snd w)))))"

definition get_sync_job_status where
  "get_sync_job_status env fetch commit fup get exec up mid gap clk stamp w job_id uid uuid =
     (case poll_job env fetch commit fup get exec up mid gap clk stamp w job_id uid uuid of
        (Inl e, w8) \<Rightarrow> (Inl e, w8)
      | (Inr (Inl code), w8) \<Rightarrow> (Inr (Http_Error code), w8)
      | (Inr (Inr job), w8) \<Rightarrow> poll_answer fetch commit fup get exec up gap stamp w8 job_id uid job)"

subsection \<open>Properties\<close>

lemma timed_out_reads:
  "map_of (timed_out_job job now) k =
     (if k = ''status'' then Some (PStr ''failed'') else if k = ''error'' then Some (PStr ''Job timed out (background worker likely died)'')
      else if k = ''completed_at'' then Some (PFloat now) else map_of job k)"
  by (simp add: timed_out_job_def map_of_py_update)

lemma timed_out_not_stale: "\<not> is_sync_job_stale (timed_out_job job now) later"
  by (simp add: is_sync_job_stale_def dict_get_def timed_out_reads Let_def)

text \<open>
  A poll fails a silent job without the run lock: when the polled job is stale, the read at
  the start of the handler has already stored it as failed, so the finalizer that would take
  the lock and converge to the ledger is never entered; the client is told failed while the
  lock still belongs to whoever holds it.
\<close>

lemma stale_poll_bypasses_lock:
  assumes "redis get exec" "stored_payload (get st) (job_key j) = Some raw" "json_loads raw = Inr (Some job)"
    and "is_sync_job_stale job (clk 1)" "map_of job ''uid'' = Some (PStr uid)" "map_of job ''job_id'' = Some v"
    and "lock_owner (get st) (lock_key j) = Some worker"
    and "get_sync_job_status env fetch commit (\<lambda>k. True) get exec (\<lambda>k i. True) (\<lambda>k i s. s) (\<lambda>k w. w) clk stamp (st, fs) j uid uuid
           = (r, (st', fs'))"
  shows "(\<exists>d. r = Inr (Answer d) \<and> map_of d ''status'' = Some (PStr ''failed''))
    \<and> lock_owner (get st') (lock_key j) = Some worker
    \<and> get st' (job_key j) = Some (R_Payload (Json_Dict Spaced (timed_out_job job (clk 1))))"
proof -
  let ?late = "timed_out_job job (clk 1)"
  let ?s = "exec st [R_Set (job_key j) (R_Payload (Json_Dict Spaced ?late)) (Some JOB_TTL_SECONDS)]"
  have read: "get_sync_job get exec (\<lambda>i. True) (\<lambda>i s. s) st j (clk 1) = (Inr (Some ?late), ?s)"
    using assms(2-4) by (simp add: get_sync_job_def redis_call_def)
  have ne: "?late \<noteq> []" using timed_out_reads [of job "clk 1" "''status''"] by auto
  have resp: "\<exists>d. status_response ?late = Inr d \<and> map_of d ''status'' = Some (PStr ''failed'')"
    using assms(6) by (simp add: status_response_def timed_out_reads)
  have keep: "get ?s (job_key j) = Some (R_Payload (Json_Dict Spaced ?late))" "get ?s (lock_key j) = get st (lock_key j)"
    by (simp_all add: redis.get_exec [OF assms(1)])
  have del: "get (delete_sync_job_run_lock_epoch get exec True ?s j) k = get ?s k" if "k \<noteq> epoch_key j" for k
    using that by (simp add: delete_sync_job_run_lock_epoch_def redis_call_def redis.get_exec [OF assms(1)])
  have "st' = ?s \<or> st' = delete_sync_job_run_lock_epoch get exec True ?s j" "\<exists>d. r = Inr (Answer d) \<and> map_of d ''status'' = Some (PStr ''failed'')"
    using assms(8) resp
    by (auto simp: get_sync_job_status_def poll_job_def read ne timed_out_reads assms(5) may_finalize_stale_def timed_out_not_stale poll_answer_def Let_def ledger_call_def
        release_sync_content_claim_after_job_retired_def run_txn_def release_claim_after_job_retired_transaction_def
        simp del: One_nat_def split: if_split_asm)
  then show ?thesis using keep del assms(7) by (auto simp: lock_owner_def)
qed

lemma retired_release_frees:
  assumes "firestore fetch commit" "release_sync_content_claim_after_job_retired fetch commit fs uid c j now = (Inr b, fs')"
  shows "\<not> (dget (existing_doc (fetch fs') (ledger_ref uid c)) ''status'' = PStr ''processing''
           \<and> dget (existing_doc (fetch fs') (ledger_ref uid c)) ''job_id'' = PStr j)"
proof -
  let ?ref = "ledger_ref uid c"
  have "writes_ok (fetch fs) [SetMerge ?ref (released_updates now)]" by (simp add: released_updates_def)
  then have "fetch (commit fs [SetMerge ?ref (released_updates now)]) = after_view [SetMerge ?ref (released_updates now)] (fetch fs)"
    "fetch (commit fs []) = fetch fs"
    by (auto simp: fun_eq_iff after_view_def firestore.fetch_commit [OF assms(1)])
  moreover have "dget (upd_fields e (released_updates now)) ''status'' = PStr ''retryable''" for e
    by (simp add: released_updates_def dget_def)
  ultimately show ?thesis using assms(2)
    by (auto simp: release_sync_content_claim_after_job_retired_def run_txn_def release_claim_after_job_retired_transaction_def Let_def
        split: if_split_asm)
qed

lemma answered_claim_free:
  assumes "firestore fetch commit" "poll_answer fetch commit fup get exec up gap stamp w8 j uid job = (Inr (Answer d), w')"
  shows "status_response job = Inr d
    \<and> (\<forall>c. dict_get job ''status'' \<in> {PStr ''failed'', PStr ''partial_failure''} \<and> sync_job_uses_ledger_fence job \<and> job_content_id job = Some c \<longrightarrow>
         \<not> (dget (existing_doc (fetch (snd w')) (ledger_ref uid c)) ''status'' = PStr ''processing''
            \<and> dget (existing_doc (fetch (snd w')) (ledger_ref uid c)) ''job_id'' = PStr j))"
proof (cases "dict_get job ''status'' \<in> {PStr ''failed'', PStr ''partial_failure''} \<and> sync_job_uses_ledger_fence job \<and> job_content_id job \<noteq> None")
  case True
  then obtain c where c: "job_content_id job = Some c" by blast
  have "status_response job = Inr d" "\<exists>b. release_sync_content_claim_after_job_retired fetch commit (snd (gap 8 w8)) uid c j (stamp 8) = (Inr b, snd w')"
    using assms(2) True c by (auto simp: poll_answer_def ledger_call_def Let_def split: prod.split_asm sum.split_asm if_split_asm)
  with retired_release_frees [OF assms(1)] c show ?thesis by fastforce
next
  case False
  then show ?thesis using assms(2) by (auto simp: poll_answer_def Let_def split: sum.split_asm)
qed

text \<open>
  A failure the client may act on is recoverable: whenever a poll answers with a failed or
  partly failed job of the fenced protocol, the job no longer holds the claim on its content, so
  a new upload of it is not turned away because of that job; if the release could not be made
  the poll answers with an error instead.
\<close>

lemma failed_answer_recoverable:
  assumes "firestore fetch commit"
    and "poll_job env fetch commit fup get exec up mid gap clk stamp w j uid uuid = (Inr (Inr job), w8)"
    and "dict_get job ''status'' \<in> {PStr ''failed'', PStr ''partial_failure''}" "sync_job_uses_ledger_fence job" "job_content_id job = Some c"
    and "get_sync_job_status env fetch commit fup get exec up mid gap clk stamp w j uid uuid = (r, w')"
  shows "(\<not> fup 8 \<longrightarrow> r = Inr (Http_Error 503))
    \<and> (\<forall>d. r = Inr (Answer d) \<longrightarrow> status_response job = Inr d
         \<and> \<not> (dget (existing_doc (fetch (snd w')) (ledger_ref uid c)) ''status'' = PStr ''processing''
              \<and> dget (existing_doc (fetch (snd w')) (ledger_ref uid c)) ''job_id'' = PStr j))"
proof -
  have tail: "poll_answer fetch commit fup get exec up gap stamp w8 j uid job = (r, w')"
    using assms(2,6) by (simp add: get_sync_job_status_def)
  then have "r = Inr (Http_Error 503)" if "\<not> fup 8" using that assms(3-5) by (auto simp: poll_answer_def Let_def ledger_call_def)
  moreover note answered_claim_free [OF assms(1)]
  ultimately show ?thesis using tail assms(3-5) by blast
qed

definition ex_failed_job :: dict where
  "ex_failed_job = [(''uid'', PStr ''u''), (''job_id'', PStr ''J''), (''status'', PStr ''failed''), (''ledger_fence_mode'', PStr ''active''),
     (''content_id'', PStr ''c'')]"

end
