(* ===== verification/Sync_Task.thy ===== *)
theory Sync_Task
  imports Sync_Poll
begin

text \<open>
  \<open>run_sync_job\<close> of \<open>routers/sync.py\<close>: the handler of one delivery of a queued sync job. Its
  response drives the queue: a success consumes the task, anything else makes the queue deliver
  it again. The staged audio is the only copy the server has, so the handler deletes it only
  when the task is over.

  \<open>services\<close> bundles the two stores and what the environment decides for call number \<open>k\<close>:
  whether it gets through, what other clients do before and inside it, and the time. The state
  is the two stores with the staged blobs that exist; \<open>sv_blob i\<close> says whether the deletion of the
  \<open>i\<close>-th blob of the task gets through. The run of the pipeline,
  the account check and the download are arguments; what is proved holds for all of them. A
  cancelled request, which leaves the lock to expire, and the reading of the request are left out.
\<close>

record ('s, 'f) services =
  sv_fetch :: "'f \<Rightarrow> path \<Rightarrow> doc option"
  sv_commit :: "'f \<Rightarrow> write list \<Rightarrow> 'f"
  sv_get :: "'s \<Rightarrow> string \<Rightarrow> rval option"
  sv_exec :: "'s \<Rightarrow> rwrite list \<Rightarrow> 's"
  sv_fup :: "nat \<Rightarrow> bool"
  sv_up :: "nat \<Rightarrow> nat \<Rightarrow> bool"
  sv_mid :: "nat \<Rightarrow> nat \<Rightarrow> 's \<Rightarrow> 's"
  sv_gap :: "nat \<Rightarrow> 's \<times> 'f \<Rightarrow> 's \<times> 'f"
  sv_clk :: "nat \<Rightarrow> real"
  sv_stamp :: "nat \<Rightarrow> int"
  sv_blob :: "nat \<Rightarrow> bool"

type_synonym ('s, 'f) task_state = "('s \<times> 'f) \<times> string set"

type_synonym ('s, 'f, 'a) task = "('s, 'f) task_state \<Rightarrow> 'a res \<times> ('s, 'f) task_state"

definition tret :: "'a \<Rightarrow> ('s, 'f, 'a) task" where
  "tret x = (\<lambda>w. (Inr x, w))"

definition traise :: "pyerr \<Rightarrow> ('s, 'f, 'a) task" where
  "traise e = (\<lambda>w. (Inl e, w))"

definition tbind :: "('s, 'f, 'a) task \<Rightarrow> ('a \<Rightarrow> ('s, 'f, 'b) task) \<Rightarrow> ('s, 'f, 'b) task" where
  "tbind m f = (\<lambda>w. case m w of (Inl e, w') \<Rightarrow> (Inl e, w') | (Inr x, w') \<Rightarrow> f x w')"

definition tcatch :: "('s, 'f, 'a) task \<Rightarrow> (pyerr \<Rightarrow> ('s, 'f, 'a) task) \<Rightarrow> ('s, 'f, 'a) task" where
  "tcatch m h = (\<lambda>w. case m w of (Inl e, w') \<Rightarrow> h e w' | (Inr x, w') \<Rightarrow> (Inr x, w'))"

text \<open>A call on one store or both, after what other clients did.\<close>

definition on_redis :: "('s, 'f) services \<Rightarrow> nat \<Rightarrow> ('s \<Rightarrow> 'a res \<times> 's) \<Rightarrow> ('s, 'f, 'a) task" where
  "on_redis sv k call = (\<lambda>w. let v = sv_gap sv k (fst w) in case call (fst v) of (r, st) \<Rightarrow> (r, ((st, snd v), snd w)))"

definition on_ledger :: "('s, 'f) services \<Rightarrow> nat \<Rightarrow> ('f \<Rightarrow> 'a res \<times> 'f) \<Rightarrow> ('s, 'f, 'a) task" where
  "on_ledger sv k call = (\<lambda>w. let v = sv_gap sv k (fst w) in case ledger_call (sv_fup sv k) call (snd v) of (r, fs) \<Rightarrow> (r, ((fst v, fs), snd w)))"

definition on_both :: "('s, 'f) services \<Rightarrow> nat \<Rightarrow> ('s \<times> 'f \<Rightarrow> 'a res \<times> ('s \<times> 'f)) \<Rightarrow> ('s, 'f, 'a) task" where
  "on_both sv k call = (\<lambda>w. case call (sv_gap sv k (fst w)) of (r, v) \<Rightarrow> (r, (v, snd w)))"

subsection \<open>The calls of the handler\<close>

record task_payload =
  tp_job_id :: string
  tp_uid :: string
  tp_lane :: string
  tp_content_id :: "string option"
  tp_uses_fence :: bool
  tp_blob_paths :: "string list"

text \<open>
  The staged blobs are deleted one by one; a deletion that fails is logged and the blob stays.
\<close>

definition delete_staged_blobs :: "('s, 'f) services \<Rightarrow> task_payload \<Rightarrow> ('s, 'f, unit) task" where
  "delete_staged_blobs sv p =
     (\<lambda>w. (Inr (), (fst w, foldl (\<lambda>blobs (i, path). if sv_blob sv i then blobs - {path} else blobs) (snd w)
        (enumerate 0 (tp_blob_paths p)))))"

datatype task_reply = Task_Reply (reply_code: nat) (reply_status: string)

definition read_job :: "('s, 'f) services \<Rightarrow> nat \<Rightarrow> task_payload \<Rightarrow> ('s, 'f, dict option) task" where
  "read_job sv k p = on_redis sv k (\<lambda>st. get_sync_job (sv_get sv) (sv_exec sv) (sv_up sv k) (sv_mid sv k) st (tp_job_id p) (sv_clk sv k))"

text \<open>\<open>get_sync_job(job_id) or job\<close>\<close>

definition latest_job :: "('s, 'f) services \<Rightarrow> nat \<Rightarrow> task_payload \<Rightarrow> dict \<Rightarrow> ('s, 'f, dict) task" where
  "latest_job sv k p job = tbind (read_job sv k p) (\<lambda>r. tret (case r of Some (kv # kvs) \<Rightarrow> kv # kvs | _ \<Rightarrow> job))"

definition return_slot :: "('s, 'f) services \<Rightarrow> nat \<Rightarrow> task_payload \<Rightarrow> ('s, 'f, unit) task" where
  "return_slot sv k p =
     (if tp_lane p = ''backfill''
      then on_redis sv k (\<lambda>st. release_backfill_slot (sv_get sv) (sv_exec sv) (sv_up sv k 0) st (tp_uid p) (tp_job_id p))
      else tret ())"

definition release_claim :: "('s, 'f) services \<Rightarrow> nat \<Rightarrow> task_payload \<Rightarrow> bool \<Rightarrow> ('s, 'f, unit) task" where
  "release_claim sv k p fenced =
     (if absent_text (tp_content_id p) then tret ()
      else tbind (on_ledger sv k (\<lambda>fs.
          if fenced then release_sync_content_claim_after_job_retired (sv_fetch sv) (sv_commit sv) fs (tp_uid p) (the (tp_content_id p)) (tp_job_id p) (sv_stamp sv k)
          else release_sync_content_claim (sv_fetch sv) (sv_commit sv) fs (tp_uid p) (the (tp_content_id p)) (tp_job_id p) None None (sv_stamp sv k)))
        (\<lambda>b. tret ()))"

definition drop_epoch :: "('s, 'f) services \<Rightarrow> nat \<Rightarrow> task_payload \<Rightarrow> bool \<Rightarrow> ('s, 'f, unit) task" where
  "drop_epoch sv k p fenced =
     (if fenced then on_redis sv k (\<lambda>st. (Inr (), delete_sync_job_run_lock_epoch (sv_get sv) (sv_exec sv) (sv_up sv k 0) st (tp_job_id p))) else tret ())"

definition converge :: "('s, 'f) services \<Rightarrow> nat \<Rightarrow> task_payload \<Rightarrow> string \<Rightarrow> ('s, 'f, dict option) task" where
  "converge sv k p token =
     on_both sv k (\<lambda>v. bind_or_converge_sync_ledger_completion (sv_fetch sv) (sv_commit sv) (sv_fup sv k) (sv_get sv) (sv_exec sv) (sv_up sv k) (sv_mid sv k) v
       (tp_job_id p) (tp_uid p) (tp_content_id p) (Some token) (sv_stamp sv k) (sv_clk sv k))"

text \<open>\<open>_finalize_sync_job_failure\<close>: a failure that was not published stops the worker.\<close>

definition finalize_sync_job_failure ::
  "('s, 'f) services \<Rightarrow> nat \<Rightarrow> task_payload \<Rightarrow> string option \<Rightarrow> string \<Rightarrow> ('s, 'f, unit) task" where
  "finalize_sync_job_failure sv k p run_token error_code =
     tbind (on_both sv k (\<lambda>v. finalize_sync_job_failure_now (sv_fetch sv) (sv_commit sv) (sv_fup sv k) (sv_get sv) (sv_exec sv) (sv_up sv k) (sv_mid sv k) id v
         (tp_job_id p) (tp_uid p) (tp_content_id p) error_code None None run_token (sv_stamp sv k) (sv_clk sv k) (sv_clk sv k)))
       (\<lambda>r. case r of None \<Rightarrow> traise SyncJobRunLeaseLost | Some job \<Rightarrow> tret ())"

definition finished :: "('s, 'f) services \<Rightarrow> nat \<Rightarrow> task_payload \<Rightarrow> string \<Rightarrow> ('s, 'f, task_reply \<times> bool) task" where
  "finished sv k p status = tbind (delete_staged_blobs sv p) (\<lambda>_. tbind (return_slot sv k p) (\<lambda>_. tret (Task_Reply 200 status, True)))"

definition has_terminal_status :: "dict \<Rightarrow> bool" where
  "has_terminal_status job \<longleftrightarrow> is_terminal_status (dict_get job ''status'')"

definition terminal_retry :: "task_reply \<times> bool" where
  "terminal_retry = (Task_Reply 500 ''terminal_cleanup_retry'', True)"

definition lease_lost_reply :: "task_reply \<times> bool" where
  "lease_lost_reply = (Task_Reply 409 ''locked'', False)"

subsection \<open>The handler\<close>

text \<open>
  The second component of a reply says whether the lock is given back. How the pipeline ended:
  it returned, the conversation had moved on, the lease was lost, or an exception the failure
  table maps to an error code and whether to retry.
\<close>

datatype pipeline_end = Returned | Persistence_Fenced | Lease_Lost | Raised string bool

definition after_failure ::
  "env \<Rightarrow> ('s, 'f) services \<Rightarrow> task_payload \<Rightarrow> nat \<Rightarrow> string \<Rightarrow> bool \<Rightarrow> dict \<Rightarrow> string \<Rightarrow> bool \<Rightarrow> ('s, 'f, task_reply \<times> bool) task" where
  "after_failure env sv p retry_count token fenced job error_code retryable =
     (case py_int_of_str (getenv env ''SYNC_TASKS_MAX_ATTEMPTS'' ''5'') of
        None \<Rightarrow> traise ValueError
      | Some max_attempts \<Rightarrow>
          let final = (int retry_count \<ge> max_attempts - 1); run_token = (if fenced then Some token else None) in
          tbind (latest_job sv 20 p job) (\<lambda>latest.
            if has_terminal_status latest then tret terminal_retry
            else tbind
              (if fenced \<and> final
               then tcatch (tbind (converge sv 21 p token) (\<lambda>r. tret (Inr r)))
                      (\<lambda>e. if e = SyncJobRunLeaseLost then tret (Inl ()) else traise e)
               else tret (Inr None))
              (\<lambda>converged. case converged of
                 Inl _ \<Rightarrow> tret lease_lost_reply
               | Inr (Some _) \<Rightarrow> finished sv 22 p ''done''
               | Inr None \<Rightarrow>
                   if \<not> retryable \<or> final
                   then tbind (finalize_sync_job_failure sv 23 p run_token error_code) (\<lambda>_. finished sv 24 p ''failed_final'')
                   else if fenced
                   then tbind (on_redis sv 25 (\<lambda>st. fenced_mark_job_queued_for_retry (sv_get sv) (sv_exec sv) (sv_up sv 25) (sv_mid sv 25) st
                            (tp_job_id p) token (int retry_count + 1) error_code (sv_clk sv 25)))
                     (\<lambda>m. if applied m then tret (Task_Reply 500 ''retry'', True)
                          else tbind (latest_job sv 26 p job) (\<lambda>latest.
                            tret (if has_terminal_status latest then terminal_retry else lease_lost_reply)))
                   else tbind (on_redis sv 25 (\<lambda>st. mark_job_queued_for_retry (sv_get sv) (sv_exec sv) (sv_up sv 25) (sv_mid sv 25) st
                            (tp_job_id p) (int retry_count + 1) error_code (sv_clk sv 25)))
                     (\<lambda>r. tret (Task_Reply 500 ''retry'', True)))))"

text \<open>A lost lease, from the pipeline or from a report: a finished job is cleaned up by the next delivery.\<close>

definition after_lease_lost :: "('s, 'f) services \<Rightarrow> nat \<Rightarrow> task_payload \<Rightarrow> ('s, 'f, task_reply \<times> bool) task" where
  "after_lease_lost sv k p =
     tbind (read_job sv k p) (\<lambda>r. tret (case r of
        Some job \<Rightarrow> (if has_terminal_status job then terminal_retry else lease_lost_reply) | None \<Rightarrow> lease_lost_reply))"

definition after_pipeline ::
  "env \<Rightarrow> ('s, 'f) services \<Rightarrow> task_payload \<Rightarrow> nat \<Rightarrow> string \<Rightarrow> bool \<Rightarrow> dict \<Rightarrow> pipeline_end \<Rightarrow> ('s, 'f, task_reply \<times> bool) task" where
  "after_pipeline env sv p retry_count token fenced job ending =
     (case ending of
        Returned \<Rightarrow> finished sv 15 p ''done''
      | Persistence_Fenced \<Rightarrow>
          tbind (latest_job sv 16 p job) (\<lambda>latest.
          tbind (on_redis sv 17 (\<lambda>st. finalize_sync_job_superseded (sv_get sv) (sv_exec sv) (sv_up sv 17) (sv_mid sv 17) st (tp_job_id p)
                   (if fenced then Some token else None) (tp_lane p)
                   (py_str (py_or (dict_get latest ''stt_provider'') (PStr ''unknown'')))
                   (py_str (py_or (dict_get latest ''stt_model'') (PStr ''unknown''))) (sv_clk sv 17) (sv_clk sv 17))) (\<lambda>_.
          tbind (return_slot sv 18 p) (\<lambda>_.
          tbind (release_claim sv 19 p fenced) (\<lambda>_.
          tbind (delete_staged_blobs sv p) (\<lambda>_. tret (Task_Reply 200 ''superseded'', True))))))
      | Lease_Lost \<Rightarrow> after_lease_lost sv 16 p
      | Raised error_code retryable \<Rightarrow> after_failure env sv p retry_count token fenced job error_code retryable)"

text \<open>A job that expired before its delivery, and one that is already finished, are only cleaned up.\<close>

definition drop_expired_job :: "('s, 'f) services \<Rightarrow> task_payload \<Rightarrow> bool \<Rightarrow> ('s, 'f, task_reply \<times> bool) task" where
  "drop_expired_job sv p fenced =
     tbind (delete_staged_blobs sv p) (\<lambda>_.
     tbind (return_slot sv 4 p) (\<lambda>_.
     tbind (release_claim sv 5 p fenced) (\<lambda>_.
     tbind (drop_epoch sv 6 p fenced) (\<lambda>_. tret (Task_Reply 200 ''dropped'', True)))))"

definition ack_terminal_job :: "('s, 'f) services \<Rightarrow> task_payload \<Rightarrow> bool \<Rightarrow> pyval \<Rightarrow> ('s, 'f, task_reply \<times> bool) task" where
  "ack_terminal_job sv p fenced status =
     tbind (delete_staged_blobs sv p) (\<lambda>_.
     tbind (return_slot sv 4 p) (\<lambda>_.
     tbind (if status \<in> {PStr ''failed'', PStr ''partial_failure''} then release_claim sv 5 p fenced else tret ()) (\<lambda>_.
     tbind (drop_epoch sv 6 p fenced) (\<lambda>_. tret (Task_Reply 200 ''acked'', True)))))"

text \<open>The run of a live job. \<open>skip\<close> is the account check, \<open>download\<close> whether the staged audio is still there.\<close>

definition run_live_job ::
  "env \<Rightarrow> ('s, 'f) services \<Rightarrow> task_payload \<Rightarrow> nat \<Rightarrow> bool \<Rightarrow> bool \<Rightarrow> (string option \<Rightarrow> 's \<times> 'f \<Rightarrow> pipeline_end \<times> ('s \<times> 'f)) \<Rightarrow>
   string \<Rightarrow> bool \<Rightarrow> dict \<Rightarrow> ('s, 'f, task_reply \<times> bool) task" where
  "run_live_job env sv p retry_count skip download pipeline token fenced job =
     (let run_token = (if fenced then Some token else None) in
      tbind (if fenced then converge sv 7 p token else tret None) (\<lambda>converged.
        if converged \<noteq> None then finished sv 8 p ''done''
        else if skip then
          tbind (finalize_sync_job_failure sv 9 p run_token ''account_cutover'') (\<lambda>_.
          tbind (delete_staged_blobs sv p) (\<lambda>_.
          tbind (return_slot sv 10 p) (\<lambda>_.
          tbind (release_claim sv 11 p fenced) (\<lambda>_. tret (Task_Reply 200 ''skipped'', True)))))
        else if \<not> download then
          tbind (finalize_sync_job_failure sv 12 p run_token ''sync_staged_audio_expired'') (\<lambda>_. finished sv 13 p ''dropped'')
        else tbind (\<lambda>w. case pipeline run_token (sv_gap sv 14 (fst w)) of (ending, v) \<Rightarrow> (Inr ending, (v, snd w)))
          (\<lambda>ending. after_pipeline env sv p retry_count token fenced job ending)))"

text \<open>The body under the lock.\<close>

definition locked_run ::
  "env \<Rightarrow> ('s, 'f) services \<Rightarrow> task_payload \<Rightarrow> nat \<Rightarrow> bool \<Rightarrow> bool \<Rightarrow> (string option \<Rightarrow> 's \<times> 'f \<Rightarrow> pipeline_end \<times> ('s \<times> 'f)) \<Rightarrow>
   string \<Rightarrow> bool \<Rightarrow> ('s, 'f, task_reply \<times> bool) task" where
  "locked_run env sv p retry_count skip download pipeline token fenced0 =
     tbind (read_job sv 3 p) (\<lambda>found.
       let job = (case found of None \<Rightarrow> [] | Some d \<Rightarrow> d); fenced = sync_job_uses_ledger_fence job in
       if job = [] then drop_expired_job sv p fenced0
       else if fenced \<and> get_sync_ledger_fence_mode env \<noteq> ACTIVE then tret (Task_Reply 503 ''fence_mode_mismatch'', True)
       else (case map_of job ''status'' of
           None \<Rightarrow> traise KeyError
         | Some status \<Rightarrow>
             if is_terminal_status status then ack_terminal_job sv p fenced status
             else run_live_job env sv p retry_count skip download pipeline token fenced job))"

definition release_lock_after :: "('s, 'f) services \<Rightarrow> task_payload \<Rightarrow> string \<Rightarrow> ('s, 'f) task_state \<Rightarrow> ('s, 'f) task_state" where
  "release_lock_after sv p token w =
     (let v = sv_gap sv 30 (fst w) in ((release_job_run_lock (sv_get sv) (sv_exec sv) (sv_up sv 30 0) (fst v) (tp_job_id p) token, snd v), snd w))"

definition run_sync_job ::
  "env \<Rightarrow> ('s, 'f) services \<Rightarrow> task_payload option \<Rightarrow> nat \<Rightarrow> string \<Rightarrow> bool \<Rightarrow> bool \<Rightarrow>
   (string option \<Rightarrow> 's \<times> 'f \<Rightarrow> pipeline_end \<times> ('s \<times> 'f)) \<Rightarrow> ('s, 'f, task_reply) task" where
  "run_sync_job env sv parsed retry_count uuid skip download pipeline =
     (if get_sync_ledger_fence_mode env = STANDBY then tret (Task_Reply 503 ''cutover_standby'')
      else case parsed of
        None \<Rightarrow> tret (Task_Reply 200 ''dropped'')
      | Some p \<Rightarrow>
          tbind (read_job sv 1 p) (\<lambda>initial.
            let fenced0 = (case initial of Some (kv # kvs) \<Rightarrow> sync_job_uses_ledger_fence (kv # kvs) | _ \<Rightarrow> tp_uses_fence p) in
            if fenced0 \<and> get_sync_ledger_fence_mode env \<noteq> ACTIVE then tret (Task_Reply 503 ''fence_mode_mismatch'')
            else tbind (on_redis sv 2 (\<lambda>st. if fenced0 then try_acquire_sync_job_run_lock (sv_get sv) (sv_exec sv) (sv_up sv 2 0) st (tp_job_id p) uuid
                     else try_acquire_job_run_lock (sv_get sv) (sv_exec sv) (sv_up sv 2 0) st (tp_job_id p) uuid))
              (\<lambda>lock. case lock of
                 None \<Rightarrow> tret (Task_Reply 409 ''locked'')
               | Some token \<Rightarrow> (\<lambda>w.
                   case tcatch (locked_run env sv p retry_count skip download pipeline token fenced0)
                          (\<lambda>e. if e = SyncJobRunLeaseLost then after_lease_lost sv 27 p else traise e) w of
                     (Inl e, w') \<Rightarrow> (Inl e, release_lock_after sv p token w')
                   | (Inr (reply, release), w') \<Rightarrow> (Inr reply, if release then release_lock_after sv p token w' else w')))))"

subsection \<open>Properties\<close>

text \<open>
  The blobs of the task whose deletion gets through, and what is left of the staged ones once they
  are deleted.
\<close>

definition deleted_blobs :: "('s, 'f) services \<Rightarrow> task_payload \<Rightarrow> string set" where
  "deleted_blobs sv p = {tp_blob_paths p ! i |i. i < length (tp_blob_paths p) \<and> sv_blob sv i}"

definition left_blobs :: "('s, 'f) services \<Rightarrow> task_payload \<Rightarrow> string set \<Rightarrow> bool \<Rightarrow> string set" where
  "left_blobs sv p B b = (if b then B - deleted_blobs sv p else B)"

lemma delete_loop:
  "foldl (\<lambda>blobs (i, path). if up i then blobs - {path} else blobs) B paths = B - {path. \<exists>i. (i, path) \<in> set paths \<and> up i}"
  by (induction paths arbitrary: B) (auto split: if_split_asm)

lemma delete_staged_blobs_left:
  "delete_staged_blobs sv p (v, left_blobs sv p B b) = (Inr (), (v, left_blobs sv p B True))"
proof -
  have "{path. \<exists>i. (i, path) \<in> set (enumerate 0 (tp_blob_paths p)) \<and> sv_blob sv i} = deleted_blobs sv p"
    by (auto simp: deleted_blobs_def in_set_enumerate_eq)
  then show ?thesis by (auto simp: delete_staged_blobs_def left_blobs_def delete_loop)
qed

text \<open>
  Whether a computation that starts with the audio in place, or deleted as flagged, ends with it
  in place or deleted, keeps the promise \<open>Q\<close> between its answer and the deletion, and loses its
  lease only while the audio is in place.
\<close>

definition audio_promise ::
  "('s, 'f) services \<Rightarrow> task_payload \<Rightarrow> string set \<Rightarrow> ('a \<Rightarrow> bool \<Rightarrow> bool) \<Rightarrow> ('s, 'f, 'a) task \<Rightarrow> bool \<Rightarrow> bool" where
  "audio_promise sv p B Q m b \<longleftrightarrow>
     (\<forall>v r w'. m (v, left_blobs sv p B b) = (r, w') \<longrightarrow>
        (\<exists>b'. snd w' = left_blobs sv p B b' \<and> (case r of Inr x \<Rightarrow> Q x b' | Inl e \<Rightarrow> e = SyncJobRunLeaseLost \<longrightarrow> \<not> b')))"

definition calm :: "('s, 'f, 'a) task \<Rightarrow> bool" where
  "calm m \<longleftrightarrow> (\<forall>w. fst (m w) \<noteq> Inl SyncJobRunLeaseLost)"

definition keeps_audio :: "('s, 'f, 'a) task \<Rightarrow> bool" where
  "keeps_audio m \<longleftrightarrow> (\<forall>w. snd (snd (m w)) = snd w)"

lemma keeps_audio_simps [simp]:
  "keeps_audio (tret x)" "keeps_audio (traise e)" "keeps_audio (on_redis sv k f)" "keeps_audio (on_ledger sv k g)" "keeps_audio (on_both sv k h)"
  by (simp_all add: keeps_audio_def tret_def traise_def on_redis_def on_ledger_def on_both_def Let_def split: prod.split)

lemma keeps_audio_bind [intro]: "keeps_audio m \<Longrightarrow> (\<And>x. keeps_audio (f x)) \<Longrightarrow> keeps_audio (tbind m f)"
  by (simp add: keeps_audio_def tbind_def split: prod.split sum.split) (metis snd_conv)

lemma keeps_audio_catch [intro]: "keeps_audio m \<Longrightarrow> (\<And>e. keeps_audio (h e)) \<Longrightarrow> keeps_audio (tcatch m h)"
  by (simp add: keeps_audio_def tcatch_def split: prod.split sum.split) (metis snd_conv)

lemma keeps_audio_calls [simp]:
  "keeps_audio (read_job sv k p)" "keeps_audio (latest_job sv k p job)" "keeps_audio (return_slot sv k p)"
  "keeps_audio (release_claim sv k p fenced)" "keeps_audio (drop_epoch sv k p fenced)" "keeps_audio (converge sv k p token)"
  "keeps_audio (finalize_sync_job_failure sv k p t code)" "keeps_audio (after_lease_lost sv k p)"
  by (auto simp: read_job_def latest_job_def return_slot_def release_claim_def drop_epoch_def converge_def finalize_sync_job_failure_def
      after_lease_lost_def split: option.split)

lemma calm_calls [simp]:
  "calm (tret x)" "calm (return_slot sv k p)" "calm (release_claim sv k p fenced)" "calm (drop_epoch sv k p fenced)"
  by (auto simp: calm_def tret_def return_slot_def release_claim_def drop_epoch_def on_redis_def on_ledger_def tbind_def ledger_call_def
      release_backfill_slot_def redis_call_def release_sync_content_claim_after_job_retired_def release_sync_content_claim_def run_txn_def
      release_claim_after_job_retired_transaction_def release_claim_transaction_def Let_def split: prod.split sum.split)

lemma calmD: "calm m \<Longrightarrow> m w = (r, w') \<Longrightarrow> r \<noteq> Inl SyncJobRunLeaseLost"
  by (metis calm_def fst_conv)

lemma audio_promiseD:
  "audio_promise sv p B Q m b \<Longrightarrow> m (v, left_blobs sv p B b) = (r, w') \<Longrightarrow>
   \<exists>b'. snd w' = left_blobs sv p B b' \<and> (case r of Inr x \<Rightarrow> Q x b' | Inl e \<Rightarrow> e = SyncJobRunLeaseLost \<longrightarrow> \<not> b')"
  unfolding audio_promise_def by blast

lemma audio_promise_tret [intro]: "Q x b \<Longrightarrow> audio_promise sv p B Q (tret x) b"
  by (auto simp: audio_promise_def tret_def)

lemma audio_promise_traise [intro]: "(e = SyncJobRunLeaseLost \<longrightarrow> \<not> b) \<Longrightarrow> audio_promise sv p B Q (traise e) b"
  by (auto simp: audio_promise_def traise_def)

lemma audio_promise_bind:
  assumes "keeps_audio m" "b \<longrightarrow> calm m" "\<And>x. audio_promise sv p B Q (f x) b"
  shows "audio_promise sv p B Q (tbind m f) b"
  unfolding audio_promise_def
proof (intro allI impI)
  fix v r w'
  assume t: "tbind m f (v, left_blobs sv p B b) = (r, w')"
  obtain q v1 b1 where m: "m (v, left_blobs sv p B b) = (q, (v1, b1))" by (metis prod.collapse)
  have b1: "b1 = left_blobs sv p B b" using assms(1) m by (metis keeps_audio_def snd_conv)
  show "\<exists>b'. snd w' = left_blobs sv p B b' \<and> (case r of Inr x \<Rightarrow> Q x b' | Inl e \<Rightarrow> e = SyncJobRunLeaseLost \<longrightarrow> \<not> b')"
  proof (cases q)
    case (Inl e)
    then have "r = Inl e" "w' = (v1, b1)" using t m by (simp_all add: tbind_def)
    moreover have "b \<longrightarrow> e \<noteq> SyncJobRunLeaseLost" using assms(2) m Inl by (auto dest: calmD)
    ultimately show ?thesis using b1 by (intro exI [of _ b]) auto
  next
    case (Inr x)
    then have "f x (v1, left_blobs sv p B b) = (r, w')" using t m b1 by (simp add: tbind_def)
    then show ?thesis by (rule audio_promiseD [OF assms(3)])
  qed
qed

lemma audio_promise_delete:
  "(\<And>x. audio_promise sv p B Q (f x) True) \<Longrightarrow> audio_promise sv p B Q (tbind (delete_staged_blobs sv p) f) b"
  by (simp add: audio_promise_def tbind_def delete_staged_blobs_left)

lemma audio_promise_catch:
  assumes "audio_promise sv p B Q m b" "audio_promise sv p B Q h False"
  shows "audio_promise sv p B Q (tcatch m (\<lambda>e. if e = SyncJobRunLeaseLost then h else traise e)) b"
  unfolding audio_promise_def
proof (intro allI impI)
  fix v r w'
  assume t: "tcatch m (\<lambda>e. if e = SyncJobRunLeaseLost then h else traise e) (v, left_blobs sv p B b) = (r, w')"
  obtain q v1 b1 where m: "m (v, left_blobs sv p B b) = (q, (v1, b1))" by (metis prod.collapse)
  obtain b' where q: "b1 = left_blobs sv p B b'" "case q of Inr x \<Rightarrow> Q x b' | Inl e \<Rightarrow> e = SyncJobRunLeaseLost \<longrightarrow> \<not> b'"
    using audio_promiseD [OF assms(1) m] by auto
  show "\<exists>b'. snd w' = left_blobs sv p B b' \<and> (case r of Inr x \<Rightarrow> Q x b' | Inl e \<Rightarrow> e = SyncJobRunLeaseLost \<longrightarrow> \<not> b')"
  proof (cases "q = Inl SyncJobRunLeaseLost")
    case True
    then have "h (v1, left_blobs sv p B False) = (r, w')" using t m q by (simp add: tcatch_def)
    then show ?thesis by (rule audio_promiseD [OF assms(2)])
  next
    case False
    then have "r = q" "w' = (v1, b1)" using t m by (auto simp: tcatch_def traise_def split: sum.split_asm)
    with q show ?thesis by auto
  qed
qed

lemmas audio_rules = audio_promise_delete audio_promise_bind audio_promise_tret audio_promise_traise

lemma keeps_audio_pipeline [simp]: "keeps_audio (\<lambda>w. case pipeline t (sv_gap sv k (fst w)) of (ending, v) \<Rightarrow> (Inr ending, (v, snd w)))"
  by (simp add: keeps_audio_def split: prod.split)

text \<open>
  The contract of a promise about replies: it holds for a success with the audio gone, for any
  other reply with the audio in place, and for the request to try again only while attempts
  remain.
\<close>

definition attempts_remain :: "env \<Rightarrow> nat \<Rightarrow> bool" where
  "attempts_remain env n \<longleftrightarrow> (\<exists>m. py_int_of_str (getenv env ''SYNC_TASKS_MAX_ATTEMPTS'' ''5'') = Some m \<and> int n < m - 1)"

locale reply_promise =
  fixes env :: env and n :: nat and Q :: "task_reply \<Rightarrow> bool \<Rightarrow> bool"
  assumes consumed: "Q (Task_Reply 200 s) True"
    and again: "c \<noteq> 200 \<Longrightarrow> s \<noteq> ''retry'' \<Longrightarrow> Q (Task_Reply c s) False"
    and retry: "attempts_remain env n \<Longrightarrow> Q (Task_Reply 500 ''retry'') False"
begin

abbreviation promise :: "('s, 'f) services \<Rightarrow> task_payload \<Rightarrow> string set \<Rightarrow> ('s, 'f, task_reply \<times> bool) task \<Rightarrow> bool \<Rightarrow> bool" where
  "promise sv p B \<equiv> audio_promise sv p B (\<lambda>r. Q (fst r))"

lemma finished_promise [intro!]: "promise sv p B (finished sv k p s) b"
  unfolding finished_def by (intro audio_rules) (simp_all add: consumed)

lemma retry_replies [simp]: "Q (fst terminal_retry) False" "Q (fst lease_lost_reply) False"
  by (simp_all add: terminal_retry_def lease_lost_reply_def again)

lemma lease_lost_promise [intro!]: "promise sv p B (after_lease_lost sv k p) False"
  unfolding after_lease_lost_def by (intro audio_rules) (auto split: option.split)

lemma failure_promise [intro!]: "promise sv p B (after_failure env sv p n token fenced job code retryable) False"
  unfolding after_failure_def Let_def
  by (auto simp: retry attempts_remain_def split: option.split sum.split intro!: audio_rules keeps_audio_catch keeps_audio_bind)

lemma pipeline_promise [intro!]: "promise sv p B (after_pipeline env sv p n token fenced job ending) False"
  by (cases ending) (auto simp: after_pipeline_def consumed intro!: audio_rules)

lemma locked_run_promise: "promise sv p B (locked_run env sv p n skip download pipeline token fenced0) False"
proof -
  have "promise sv p B (drop_expired_job sv p fenced) False" "promise sv p B (ack_terminal_job sv p fenced status) False" for fenced status
    unfolding drop_expired_job_def ack_terminal_job_def by (auto simp: consumed intro!: audio_rules)
  moreover have "promise sv p B (run_live_job env sv p n skip download pipeline token fenced job) False" for fenced job
    unfolding run_live_job_def Let_def by (auto simp: consumed intro!: audio_rules)
  ultimately show ?thesis unfolding locked_run_def Let_def by (auto simp: again split: option.split intro!: audio_promise_bind audio_promise_tret audio_promise_traise)
qed

lemma promise_finally:
  assumes "promise sv p B m b"
  shows "audio_promise sv p B Q (\<lambda>w. case m w of (Inl e, w') \<Rightarrow> (Inl e, release_lock_after sv p token w')
      | (Inr (reply, release), w') \<Rightarrow> (Inr reply, if release then release_lock_after sv p token w' else w')) b"
  unfolding audio_promise_def
proof (intro allI impI)
  fix v r w'
  assume t: "(case m (v, left_blobs sv p B b) of (Inl e, w') \<Rightarrow> (Inl e, release_lock_after sv p token w')
      | (Inr (reply, release), w') \<Rightarrow> (Inr reply, if release then release_lock_after sv p token w' else w')) = (r, w')"
  have keep: "snd (release_lock_after sv p token w) = snd w" for w by (simp add: release_lock_after_def Let_def)
  obtain q w1 where m: "m (v, left_blobs sv p B b) = (q, w1)" by (cases "m (v, left_blobs sv p B b)")
  show "\<exists>b'. snd w' = left_blobs sv p B b' \<and> (case r of Inr x \<Rightarrow> Q x b' | Inl e \<Rightarrow> e = SyncJobRunLeaseLost \<longrightarrow> \<not> b')"
  proof (cases q)
    case (Inl e)
    then have "r = Inl e" "snd w' = snd w1" using t m by (auto simp: keep)
    then show ?thesis using audio_promiseD [OF assms m] Inl by simp
  next
    case (Inr x)
    then have "r = Inr (fst x)" "snd w' = snd w1" using t m by (auto simp: keep split: prod.split_asm if_split_asm)
    then show ?thesis using audio_promiseD [OF assms m] Inr by simp
  qed
qed

lemma delivery_kept: "audio_promise sv p B Q (run_sync_job env sv (Some p) n uuid skip download pipeline) False"
proof -
  have "promise sv p B (tcatch (locked_run env sv p n skip download pipeline token fenced0)
      (\<lambda>e. if e = SyncJobRunLeaseLost then after_lease_lost sv 27 p else traise e)) False" for token fenced0
    using locked_run_promise lease_lost_promise by (rule audio_promise_catch)
  note lift = promise_finally [OF this]
  show ?thesis
    unfolding run_sync_job_def Let_def by (auto simp: again split: option.split intro!: audio_promise_bind audio_promise_tret lift)
qed

lemma reply_kept:
  assumes "run_sync_job env sv (Some p) n uuid skip download pipeline (v, B) = (r, w')"
  shows "\<exists>b. snd w' = left_blobs sv p B b \<and> (case r of Inr reply \<Rightarrow> Q reply b | Inl e \<Rightarrow> True)"
proof -
  have "run_sync_job env sv (Some p) n uuid skip download pipeline (v, left_blobs sv p B False) = (r, w')"
    using assms by (simp add: left_blobs_def)
  from audio_promiseD [OF delivery_kept this] show ?thesis by (cases r) auto
qed

end

interpretation audio_kept: reply_promise env n "\<lambda>r deleted. (reply_code r = 200) = deleted" for env n
  by unfold_locales simp_all

interpretation retry_bounded: reply_promise env n "\<lambda>r deleted. r = Task_Reply 500 ''retry'' \<longrightarrow> attempts_remain env n" for env n
  by unfold_locales simp_all

text \<open>
  C25. A task that will be delivered again keeps its audio. For every delivery, whatever the
  pipeline does, whichever calls fail and however other clients interfere: if it is answered with
  anything but a success, no staged blob is deleted; if a well-formed task is answered with a
  success, which makes the queue forget it, exactly those of its blobs are deleted whose deletion
  gets through. A delivery whose payload cannot be read deletes nothing, and one that ends in an
  exception has deleted either nothing or those blobs.
\<close>

theorem redelivery_keeps_audio:
  assumes "run_sync_job env sv parsed retry_count uuid skip download pipeline (v, B) = (r, w')"
  shows "case parsed of
      None \<Rightarrow> snd w' = B
    | Some p \<Rightarrow> (case r of
          Inr reply \<Rightarrow> snd w' = (if reply_code reply = 200 then B - deleted_blobs sv p else B)
        | Inl e \<Rightarrow> snd w' = B \<or> snd w' = B - deleted_blobs sv p)"
proof (cases parsed)
  case None
  with assms show ?thesis by (auto simp: run_sync_job_def tret_def split: if_split_asm)
next
  case (Some p)
  obtain b where b: "snd w' = left_blobs sv p B b" "case r of Inr reply \<Rightarrow> (reply_code reply = 200) = b | Inl e \<Rightarrow> True"
    using audio_kept.reply_kept [OF assms [unfolded Some]] by blast
  show ?thesis
  proof (cases r)
    case (Inl e)
    with b(1) show ?thesis by (cases b) (simp_all add: Some left_blobs_def)
  next
    case (Inr reply)
    with b show ?thesis by (simp add: Some left_blobs_def)
  qed
qed

text \<open>A service of the two in-memory stores that nobody else uses and that is always up, but for the deletion of the second blob.\<close>

definition ex_services :: "(mem_redis, mem_store) services" where
  "ex_services = \<lparr>sv_fetch = mem_fetch, sv_commit = mem_commit, sv_get = mem_get, sv_exec = mem_exec, sv_fup = \<lambda>k. True, sv_up = \<lambda>k i. True,
     sv_mid = \<lambda>k i s. s, sv_gap = \<lambda>k v. v, sv_clk = \<lambda>k. 20, sv_stamp = \<lambda>k. 7, sv_blob = \<lambda>i. i = 0\<rparr>"

definition ex_payload :: task_payload where
  "ex_payload = \<lparr>tp_job_id = ''J'', tp_uid = ''u'', tp_lane = ''fresh'', tp_content_id = None, tp_uses_fence = False,
     tp_blob_paths = [''a.bin'', ''b.bin'']\<rparr>"

definition ex_waiting :: mem_redis where
  "ex_waiting = [job_key ''J'' \<mapsto> R_Payload (Json_Dict Compact ex_job)]"

lemmas task_eval = run_sync_job_def locked_run_def run_live_job_def after_pipeline_def after_failure_def finished_def read_job_def latest_job_def
  return_slot_def delete_staged_blobs_def on_redis_def tbind_def tcatch_def tret_def release_lock_after_def ex_services_def ex_payload_def
  ex_waiting_def get_sync_job_def getenv_def sync_job_uses_ledger_fence_def try_acquire_job_run_lock_def
  redis_call_def stored_payload_def mem_get_def mem_exec_def rafter_view_def json_loads_def ex_job_def dict_get_def is_sync_job_stale_def
  is_terminal_status_def TERMINAL_STATUSES_def has_terminal_status_def mark_job_queued_for_retry_def update_sync_job_def numeral_3_eq_3
  legacy_mutation_script_def queued_updates_def stamped_def py_update_def

theorem redelivery_keeps_audio_witness:
  "case run_sync_job (\<lambda>k. None) ex_services (Some ex_payload) 0 ''t'' False True (\<lambda>t v. (Returned, v)) ((ex_waiting, Map.empty), {''a.bin'', ''b.bin''}) of
     (Inr reply, w') \<Rightarrow> reply_code reply = 200 \<and> snd w' = {''b.bin''} | _ \<Rightarrow> False"
proof -
  let ?call = "run_sync_job (\<lambda>k. None) ex_services (Some ex_payload) 0 ''t'' False True (\<lambda>t v. (Returned, v)) ((ex_waiting, Map.empty), {''a.bin'', ''b.bin''})"
  have m: "get_sync_ledger_fence_mode (\<lambda>k. None) = LEGACY" by code_simp
  have "fst ?call = Inr (Task_Reply 200 ''done'')"
    using m by (simp add: task_eval Let_def py_or_def STALE_THRESHOLD_SECONDS_def image_iff)
  then obtain w' where c: "?call = (Inr (Task_Reply 200 ''done''), w')" by (metis prod.collapse)
  have "deleted_blobs ex_services ex_payload = {''a.bin''}" by (auto simp: deleted_blobs_def ex_services_def ex_payload_def)
  with redelivery_keeps_audio [OF c] c show ?thesis by auto
qed

text \<open>
  The queue is asked to try again only while it will: a delivery answers with a retry only
  if, by the configured number of attempts, another delivery is to come, so the last delivery
  of a task always ends its job, converges it, or reports why it cannot.
\<close>

lemma retry_only_while_attempts_remain:
  assumes "run_sync_job env sv (Some p) retry_count uuid skip download pipeline (v, B) = (Inr (Task_Reply 500 ''retry''), w')"
  shows "\<exists>m. py_int_of_str (getenv env ''SYNC_TASKS_MAX_ATTEMPTS'' ''5'') = Some m \<and> int retry_count < m - 1"
  using retry_bounded.reply_kept [OF assms] by (auto simp: attempts_remain_def)

end
