(* ===== verification/Sync_Segments.thy ===== *)
theory Sync_Segments
  imports Py_Value "HOL-Library.Sublist" "HOL-Library.Multiset" "HOL-Library.Product_Lexorder" "HOL-Library.List_Lexorder"
begin

text \<open>
  Cutting and merging the speech of an uploaded recording: the merging and capping of voice
  activity in \<open>utils/sync/pipeline.py\<close>, the turnstile that hands segments to the conversation
  assignment in order, the removal of lines a conversation already has
  (\<open>utils/sync/merge_dedupe.py\<close>) and the merge of a batch into a recording
  (\<open>utils/sync/assignment.py\<close>). Times are seconds as reals.
\<close>

subsection \<open>Voice activity\<close>

record vad_segment =
  v_start :: real
  v_end :: real

definition merge_vad :: "real \<Rightarrow> vad_segment list \<Rightarrow> vad_segment \<Rightarrow> vad_segment list" where
  "merge_vad cap merged segment =
     (if merged \<noteq> [] \<and> v_start segment - v_end (last merged) < 120 \<and> v_end segment - v_start (last merged) \<le> cap
      then butlast merged @ [(last merged)\<lparr>v_end := v_end segment\<rparr>]
      else merged @ [segment])"

text \<open>The loop that cuts a long segment; with a cap that is not positive it does not end.\<close>

partial_function (option) vad_chunks :: "real \<Rightarrow> real \<Rightarrow> real \<Rightarrow> vad_segment list option" where
  "vad_chunks cap chunk_start finish =
     (if chunk_start < finish
      then (let chunk_end = min (chunk_start + cap) finish
            in Option.bind (vad_chunks cap chunk_end finish) (\<lambda>rest.
                 Some (\<lparr>v_start = chunk_start, v_end = chunk_end\<rparr> # rest)))
      else Some [])"

fun cap_vad :: "real \<Rightarrow> vad_segment list \<Rightarrow> vad_segment list option" where
  "cap_vad cap [] = Some []"
| "cap_vad cap (segment # merged) =
     Option.bind (if v_end segment - v_start segment \<le> cap then Some [segment]
                  else vad_chunks cap (v_start segment) (v_end segment)) (\<lambda>xs.
       Option.bind (cap_vad cap merged) (\<lambda>ys. Some (xs @ ys)))"

definition merge_and_cap_vad_segments :: "real \<Rightarrow> vad_segment list \<Rightarrow> vad_segment list option" where
  "merge_and_cap_vad_segments cap voice_segments = cap_vad cap (foldl (merge_vad cap) [] voice_segments)"

text \<open>The detector's output: segments in order that do not overlap. What a list of segments covers.\<close>

definition in_order :: "vad_segment list \<Rightarrow> bool" where
  "in_order xs \<longleftrightarrow> sorted_wrt (\<lambda>a b. v_end a \<le> v_start b) xs \<and> (\<forall>s \<in> set xs. v_start s \<le> v_end s)"

definition covers :: "vad_segment list \<Rightarrow> real \<Rightarrow> bool" where
  "covers xs t \<longleftrightarrow> (\<exists>s \<in> set xs. v_start s \<le> t \<and> t < v_end s)"

lemma covers_simps [simp]:
  "\<not> covers [] t" "covers (s # xs) t \<longleftrightarrow> (v_start s \<le> t \<and> t < v_end s) \<or> covers xs t"
  "covers (xs @ ys) t \<longleftrightarrow> covers xs t \<or> covers ys t"
  by (auto simp: covers_def)

lemma in_order_append:
  "in_order (xs @ ys) \<longleftrightarrow> in_order xs \<and> in_order ys \<and> (\<forall>a \<in> set xs. \<forall>b \<in> set ys. v_end a \<le> v_start b)"
  by (auto simp: in_order_def sorted_wrt_append)

lemma in_order_Nil [simp]: "in_order []"
  by (simp add: in_order_def)

lemma in_order_Cons: "in_order (s # xs) \<longleftrightarrow> v_start s \<le> v_end s \<and> (\<forall>b \<in> set xs. v_end s \<le> v_start b) \<and> in_order xs"
  by (auto simp: in_order_def)

lemma merge_vad_step:
  assumes "in_order (merged @ [segment])"
  shows "in_order (merge_vad cap merged segment)" "covers (merged @ [segment]) t \<Longrightarrow> covers (merge_vad cap merged segment) t"
    "\<forall>b. (\<forall>a \<in> set (merged @ [segment]). v_end a \<le> b) \<longrightarrow> (\<forall>a \<in> set (merge_vad cap merged segment). v_end a \<le> b)"
proof -
  show "in_order (merge_vad cap merged segment)" using assms
    by (cases merged rule: rev_cases) (fastforce simp: merge_vad_def in_order_append in_order_Cons)+
  show "covers (merged @ [segment]) t \<Longrightarrow> covers (merge_vad cap merged segment) t" using assms
    by (cases merged rule: rev_cases) (auto simp: merge_vad_def in_order_append in_order_Cons)
  show "\<forall>b. (\<forall>a \<in> set (merged @ [segment]). v_end a \<le> b) \<longrightarrow> (\<forall>a \<in> set (merge_vad cap merged segment). v_end a \<le> b)"
    by (cases merged rule: rev_cases) (auto simp: merge_vad_def)
qed

lemma merge_vad_fold:
  assumes "in_order (merged @ xs)"
  shows "in_order (foldl (merge_vad cap) merged xs) \<and> (covers (merged @ xs) t \<longrightarrow> covers (foldl (merge_vad cap) merged xs) t)"
  using assms
proof (induction xs arbitrary: merged)
  case (Cons x xs)
  have step: "in_order (merged @ [x])" using Cons.prems by (auto simp: in_order_append in_order_Cons)
  have "in_order (merge_vad cap merged x @ xs)"
    unfolding in_order_append
  proof (intro conjI ballI)
    fix a b assume a: "a \<in> set (merge_vad cap merged x)" and b: "b \<in> set xs"
    have "\<forall>a \<in> set (merged @ [x]). v_end a \<le> v_start b" using Cons.prems b by (auto simp: in_order_append in_order_Cons)
    then show "v_end a \<le> v_start b" using merge_vad_step(3) [OF step, of cap] a by blast
  qed (use merge_vad_step(1) [OF step] Cons.prems in \<open>auto simp: in_order_append in_order_Cons\<close>)
  from Cons.IH [OF this] show ?case using merge_vad_step(2) [OF step, of t cap] by auto
qed simp

lemma vad_chunks_total:
  assumes "0 < cap" "finish - start \<le> real n * cap"
  shows "\<exists>out. vad_chunks cap start finish = Some out \<and> in_order out
    \<and> (\<forall>s \<in> set out. start \<le> v_start s \<and> v_end s \<le> finish \<and> v_end s - v_start s \<le> cap) \<and> (\<forall>t. start \<le> t \<and> t < finish \<longrightarrow> covers out t)"
  using assms(2)
proof (induction n arbitrary: start)
  case 0
  then show ?case by (subst vad_chunks.simps) (auto simp: in_order_def)
next
  case (Suc n)
  show ?case
  proof (cases "start < finish")
    case True
    let ?e = "min (start + cap) finish"
    have "finish - ?e \<le> real n * cap" using Suc.prems assms(1) by (auto simp: algebra_simps min_def)
    from Suc.IH [OF this] obtain out where out: "vad_chunks cap ?e finish = Some out" "in_order out"
      "\<forall>s \<in> set out. ?e \<le> v_start s \<and> v_end s \<le> finish \<and> v_end s - v_start s \<le> cap" "\<forall>t. ?e \<le> t \<and> t < finish \<longrightarrow> covers out t" by blast
    have "vad_chunks cap start finish = Some (\<lparr>v_start = start, v_end = ?e\<rparr> # out)"
      using True out(1) by (subst vad_chunks.simps) (simp add: Let_def)
    moreover have "in_order (\<lparr>v_start = start, v_end = ?e\<rparr> # out)" using out(2,3) True assms(1) by (auto simp: in_order_Cons)
    moreover have "\<forall>s \<in> set (\<lparr>v_start = start, v_end = ?e\<rparr> # out). start \<le> v_start s \<and> v_end s \<le> finish \<and> v_end s - v_start s \<le> cap"
      using out(3) True assms(1) by fastforce
    moreover have "\<forall>t. start \<le> t \<and> t < finish \<longrightarrow> covers (\<lparr>v_start = start, v_end = ?e\<rparr> # out) t"
      using out(4) by (metis covers_simps(2) linorder_not_less vad_segment.select_convs)
    ultimately show ?thesis by blast
  next
    case False
    then show ?thesis by (subst vad_chunks.simps) (auto simp: in_order_def)
  qed
qed

lemma cap_vad_total:
  assumes "0 < cap" "in_order xs"
  shows "\<exists>out. cap_vad cap xs = Some out \<and> in_order out \<and> (\<forall>s \<in> set out. v_end s - v_start s \<le> cap \<and> (\<exists>x \<in> set xs. v_start x \<le> v_start s \<and> v_end s \<le> v_end x))
    \<and> (\<forall>t. covers xs t \<longrightarrow> covers out t)"
  using assms(2)
proof (induction xs)
  case (Cons x xs)
  then obtain ys where ys: "cap_vad cap xs = Some ys" "in_order ys"
    "\<forall>s \<in> set ys. v_end s - v_start s \<le> cap \<and> (\<exists>x \<in> set xs. v_start x \<le> v_start s \<and> v_end s \<le> v_end x)" "\<forall>t. covers xs t \<longrightarrow> covers ys t"
    by (auto simp: in_order_Cons)
  obtain n where "v_end x - v_start x \<le> real n * cap" using assms(1) reals_Archimedean3 less_imp_le by blast
  then obtain zs where "vad_chunks cap (v_start x) (v_end x) = Some zs" "in_order zs"
    "\<forall>s \<in> set zs. v_start x \<le> v_start s \<and> v_end s \<le> v_end x \<and> v_end s - v_start s \<le> cap"
    "\<forall>t. v_start x \<le> t \<and> t < v_end x \<longrightarrow> covers zs t" using vad_chunks_total [OF assms(1)] by blast
  then obtain ws where ws: "(if v_end x - v_start x \<le> cap then Some [x] else vad_chunks cap (v_start x) (v_end x)) = Some ws" "in_order ws"
    "\<forall>s \<in> set ws. v_start x \<le> v_start s \<and> v_end s \<le> v_end x \<and> v_end s - v_start s \<le> cap"
    "\<forall>t. v_start x \<le> t \<and> t < v_end x \<longrightarrow> covers ws t"
    using Cons.prems by (cases "v_end x - v_start x \<le> cap") (auto simp: in_order_Cons)
  have "v_end a \<le> v_start b" if "a \<in> set ws" "b \<in> set ys" for a b
    using that ws(3) ys(3) Cons.prems by (fastforce simp: in_order_Cons)
  with ws ys show ?case by (fastforce simp: in_order_append)
qed simp

lemma vad_chunks_diverges:
  assumes "cap \<le> 0" "start < finish"
  shows "vad_chunks cap start finish = None"
proof -
  have "\<not> (cap \<le> 0 \<and> start < finish)" if "vad_chunks cap start finish = Some out" for out
    using _ that
  proof (rule vad_chunks.raw_induct [where P = "\<lambda>cap start finish out. \<not> (cap \<le> 0 \<and> start < finish)"])
    fix f cap s finish out
    assume "\<And>cap s finish out. f cap s finish = Some out \<Longrightarrow> \<not> (cap \<le> 0 \<and> s < finish)"
      "(if s < finish then let e = min (s + cap) finish in Option.bind (f cap e finish) (\<lambda>rest. Some (\<lparr>v_start = s, v_end = e\<rparr> # rest)) else Some []) = Some out"
    then show "\<not> (cap \<le> 0 \<and> s < finish)" by (fastforce simp: Let_def min_def split: if_split_asm Option.bind_splits)
  qed
  with assms show ?thesis by (cases "vad_chunks cap start finish") auto
qed

lemma vad_chunks_flat: "finish \<le> start \<Longrightarrow> vad_chunks cap start finish = Some []"
  by (subst vad_chunks.simps) simp

text \<open>Without a positive cap the cutting ends on empty segments only, and merging makes none longer.\<close>

lemma merge_vad_flat:
  assumes "cap \<le> 0" "\<forall>s \<in> set (merged @ xs). v_end s \<le> v_start s"
  shows "\<forall>s \<in> set (foldl (merge_vad cap) merged xs). v_end s \<le> v_start s"
  using assms(2)
proof (induction xs arbitrary: merged)
  case (Cons x xs)
  have "\<forall>s \<in> set (merge_vad cap merged x). v_end s \<le> v_start s"
    using Cons.prems assms(1) by (cases merged rule: rev_cases) (auto simp: merge_vad_def)
  with Cons.IH [of "merge_vad cap merged x"] Cons.prems show ?case by auto
qed simp

lemma cap_vad_uncapped: "cap \<le> 0 \<Longrightarrow> cap_vad cap xs = None \<longleftrightarrow> (\<exists>s \<in> set xs. v_start s < v_end s)"
proof (induction xs)
  case (Cons x xs)
  then show ?case
    by (cases "v_start x < v_end x") (auto simp: vad_chunks_diverges vad_chunks_flat bind_eq_None_conv split: option.splits)
qed simp

subsection \<open>Removing lines a conversation already has\<close>

record line =
  l_timestamp :: real
  l_start :: real
  l_end :: real
  l_text :: "string option"

definition MERGE_TEXT_DUP_SLOP_SECONDS :: real where "MERGE_TEXT_DUP_SLOP_SECONDS = 600"
definition MERGE_TEXT_DUP_DURATION_RATIO :: real where "MERGE_TEXT_DUP_DURATION_RATIO = 1 / 4"
definition MERGE_TEXT_DUP_MIN_CHARS :: nat where "MERGE_TEXT_DUP_MIN_CHARS = 20"
definition MERGE_TEXT_DUP_MIN_WORDS :: nat where "MERGE_TEXT_DUP_MIN_WORDS = 4"

text \<open>\<open>s.split()\<close>, and \<open>round(x, 2)\<close> in hundredths, which rounds halves to even.\<close>

function py_split :: "string \<Rightarrow> string list" where
  "py_split [] = []"
| "py_split (c # cs) =
     (if py_space c then py_split cs
      else (c # takeWhile (\<lambda>x. \<not> py_space x) cs) # py_split (dropWhile (\<lambda>x. \<not> py_space x) cs))"
  by pat_completeness auto

termination
  by (relation "measure length") (auto simp: less_Suc_eq_le length_dropWhile_le)

fun py_join :: "string \<Rightarrow> string list \<Rightarrow> string" where
  "py_join sep [] = []"
| "py_join sep [w] = w"
| "py_join sep (w # v # ws) = w @ sep @ py_join sep (v # ws)"

definition py_round2 :: "real \<Rightarrow> int" where
  "py_round2 x = round_half_even (100 * x)"

definition normalize_merge_segment_text :: "string option \<Rightarrow> string" where
  "normalize_merge_segment_text text =
     py_join '' '' (py_split (ascii_lower (py_strip (case text of None \<Rightarrow> [] | Some s \<Rightarrow> s))))"

definition text_eligible_for_slop_dedupe :: "string \<Rightarrow> bool" where
  "text_eligible_for_slop_dedupe text \<longleftrightarrow>
     length text \<ge> MERGE_TEXT_DUP_MIN_CHARS \<or> length (py_split text) \<ge> MERGE_TEXT_DUP_MIN_WORDS"

definition segment_abs_range :: "line \<Rightarrow> real \<times> real" where
  "segment_abs_range segment = (l_timestamp segment, l_timestamp segment + (l_end segment - l_start segment))"

definition range_key :: "real \<times> real \<Rightarrow> int \<times> int" where
  "range_key r = (py_round2 (fst r), py_round2 (snd r))"

record text_entry =
  t_text :: string
  t_abs_start :: real
  t_duration :: real

definition text_entry_of :: "line \<Rightarrow> text_entry" where
  "text_entry_of segment =
     (let (abs_start, abs_end) = segment_abs_range segment
      in \<lparr>t_text = normalize_merge_segment_text (l_text segment), t_abs_start = abs_start, t_duration = max 0 (abs_end - abs_start)\<rparr>)"

definition is_text_clock_offset_duplicate :: "text_entry \<Rightarrow> text_entry list \<Rightarrow> real \<Rightarrow> real \<Rightarrow> bool" where
  "is_text_clock_offset_duplicate e existing_text_index slop ratio \<longleftrightarrow>
     text_eligible_for_slop_dedupe (t_text e)
     \<and> (\<exists>existing \<in> set existing_text_index.
          t_text existing = t_text e
          \<and> \<not> \<bar>t_duration e - t_duration existing\<bar> / max (max (t_duration e) (t_duration existing)) (1 / 1000) > ratio
          \<and> \<bar>t_abs_start e - t_abs_start existing\<bar> \<le> slop)"

definition existing_text_index :: "line list \<Rightarrow> text_entry list" where
  "existing_text_index segments = filter (\<lambda>e. t_text e \<noteq> []) (map text_entry_of segments)"

text \<open>The first two tests: the same wall-clock range, or the same place on the conversation's timeline.\<close>

definition same_range :: "real \<Rightarrow> line list \<Rightarrow> line \<Rightarrow> bool" where
  "same_range started_at existing segment \<longleftrightarrow>
     (let (abs_start, abs_end) = segment_abs_range segment in
      range_key (abs_start, abs_end) \<in> (\<lambda>s. range_key (segment_abs_range s)) ` set existing
      \<or> range_key (abs_start - started_at, abs_end - started_at) \<in> (\<lambda>s. range_key (l_start s, l_end s)) ` set existing)"

definition dedupe_segments_for_merge :: "real \<Rightarrow> line list \<Rightarrow> line list \<Rightarrow> real \<Rightarrow> real \<Rightarrow> line list" where
  "dedupe_segments_for_merge started_at existing incoming slop ratio =
     (let survivors = filter (\<lambda>s. \<not> same_range started_at existing s) incoming;
          index = existing_text_index existing
      in if survivors = [] \<or> index = [] then survivors
      else
        let dup = (\<lambda>s. is_text_clock_offset_duplicate (text_entry_of s) index slop ratio);
            text_dup_count = length (filter dup survivors)
        in if text_dup_count \<ge> 2 \<or> (text_dup_count = length survivors \<and> text_dup_count \<ge> 1)
           then filter (\<lambda>s. \<not> dup s) survivors else survivors)"

lemma dedupe_subset: "set (dedupe_segments_for_merge a ex inc slop ratio) \<subseteq> set inc"
  by (auto simp: dedupe_segments_for_merge_def Let_def)

lemma dedupe_dropped:
  assumes "s \<in> set inc" "s \<notin> set (dedupe_segments_for_merge a ex inc slop ratio)"
  shows "same_range a ex s \<or> is_text_clock_offset_duplicate (text_entry_of s) (existing_text_index ex) slop ratio"
  using assms by (auto simp: dedupe_segments_for_merge_def Let_def split: if_split_asm)

lemma text_dup_mono:
  "is_text_clock_offset_duplicate e xs slop ratio \<Longrightarrow> set xs \<subseteq> set ys \<Longrightarrow> is_text_clock_offset_duplicate e ys slop ratio"
  by (auto simp: is_text_clock_offset_duplicate_def)

lemma same_range_mono: "same_range a ex s \<Longrightarrow> set ex \<subseteq> set ex' \<Longrightarrow> same_range a ex' s"
  by (auto simp: same_range_def Let_def split: prod.split_asm)

lemma same_range_refl: "s \<in> set ex \<Longrightarrow> same_range a ex s"
  unfolding same_range_def by (cases "segment_abs_range s") (auto simp: image_iff intro!: bexI [of _ s])

lemma dedupe_all_duplicates:
  assumes "\<And>s. s \<in> set inc \<Longrightarrow> \<not> same_range a ex s \<Longrightarrow> is_text_clock_offset_duplicate (text_entry_of s) (existing_text_index ex) slop ratio"
  shows "dedupe_segments_for_merge a ex inc slop ratio = []"
proof -
  let ?dup = "\<lambda>s. is_text_clock_offset_duplicate (text_entry_of s) (existing_text_index ex) slop ratio"
  let ?new = "filter (\<lambda>s. \<not> same_range a ex s) inc"
  have all: "\<forall>s \<in> set ?new. ?dup s" using assms by auto
  then have "filter ?dup ?new = ?new" "filter (\<lambda>s. \<not> ?dup s) ?new = []" by (simp_all only: filter_id_conv filter_empty_conv, simp)
  moreover have "existing_text_index ex \<noteq> []" if "?new \<noteq> []"
    using that all by (cases ?new) (auto simp: is_text_clock_offset_duplicate_def)
  moreover have "length ?new \<ge> 1" if "?new \<noteq> []" using that by (cases ?new) auto
  ultimately show ?thesis unfolding dedupe_segments_for_merge_def Let_def by (cases "?new = []") simp_all
qed

subsection \<open>The merge of a batch into a recording\<close>

text \<open>
  The batch joins the one recording it is assigned to: the lines of the recording and of the batch
  get wall-clock times, the survivors are appended, the whole is sorted and put on the timeline of
  the joint start. The wall-clock field is recomputed from the timeline whenever a row is read.
  The text test is wide only for a target that live capture wrote and no batch has reached yet;
  \<open>revision\<close> is the target's \<open>sync_content_revision\<close>, and there is none without a target.
\<close>

definition merge_slop :: "nat option \<Rightarrow> real" where
  "merge_slop revision = (case revision of Some r \<Rightarrow> if r = 0 then MERGE_TEXT_DUP_SLOP_SECONDS else 0 | None \<Rightarrow> 0)"

definition on_clock :: "real \<Rightarrow> line \<Rightarrow> line" where
  "on_clock started_at segment = segment\<lparr>l_timestamp := started_at + l_start segment\<rparr>"

definition on_timeline :: "real \<Rightarrow> line \<Rightarrow> line" where
  "on_timeline origin segment =
     segment\<lparr>l_start := l_timestamp segment - origin, l_end := l_timestamp segment - origin + (l_end segment - l_start segment)\<rparr>"

definition line_order :: "line \<Rightarrow> real \<times> real \<times> string" where
  "line_order s = (l_timestamp s, l_end s - l_start s, case l_text s of None \<Rightarrow> [] | Some text \<Rightarrow> text)"

definition merge_batch :: "real \<Rightarrow> line list \<Rightarrow> real \<Rightarrow> line list \<Rightarrow> real \<Rightarrow> real \<times> line list" where
  "merge_batch row_started row batch_started batch slop =
     (let origin = min batch_started row_started;
          lines = map (\<lambda>s. on_timeline origin (on_clock row_started s)) row;
          existing = dedupe_segments_for_merge origin [] lines 0 MERGE_TEXT_DUP_DURATION_RATIO;
          survivors = dedupe_segments_for_merge origin existing (map (on_clock batch_started) batch) slop MERGE_TEXT_DUP_DURATION_RATIO
      in (origin, map (on_timeline origin) (sort_key line_order (existing @ survivors))))"

lemma dedupe_into_empty [simp]: "dedupe_segments_for_merge a [] inc slop ratio = inc"
  by (simp add: dedupe_segments_for_merge_def existing_text_index_def same_range_def case_prod_beta Let_def)

lemma on_timeline_keeps [simp]:
  "l_timestamp (on_timeline origin s) = l_timestamp s" "l_start (on_timeline origin s) = l_timestamp s - origin"
  "l_text (on_timeline origin s) = l_text s" "segment_abs_range (on_timeline origin s) = segment_abs_range s"
  "text_entry_of (on_timeline origin s) = text_entry_of s" "line_order (on_timeline origin s) = line_order s"
  by (simp_all add: on_timeline_def segment_abs_range_def text_entry_of_def line_order_def)

lemma on_timeline_again [simp]: "on_timeline origin (on_timeline origin s) = on_timeline origin s"
  by (simp add: on_timeline_def)

lemma on_clock_again [simp]: "on_clock origin (on_timeline origin s) = on_timeline origin s"
  by (simp add: on_clock_def on_timeline_def)

text \<open>What a merge compares does not change when the lines are put on the timeline it compares on.\<close>

lemma text_index_on_timeline: "existing_text_index (map (on_timeline origin) ex) = existing_text_index ex"
  by (simp add: existing_text_index_def comp_def)

lemma sort_on_timeline: "sort_key line_order (map (on_timeline origin) (sort_key line_order xs)) = map (on_timeline origin) (sort_key line_order xs)"
  by (rule sort_key_id_if_sorted) (simp add: comp_def)

definition on_row :: "real \<Rightarrow> real \<Rightarrow> line list \<Rightarrow> line list" where
  "on_row row_started batch_started row = map (\<lambda>s. on_timeline (min batch_started row_started) (on_clock row_started s)) row"

definition new_lines :: "real \<Rightarrow> line list \<Rightarrow> real \<Rightarrow> line list \<Rightarrow> real \<Rightarrow> line list" where
  "new_lines row_started row batch_started batch slop =
     dedupe_segments_for_merge (min batch_started row_started) (on_row row_started batch_started row)
       (map (on_clock batch_started) batch) slop MERGE_TEXT_DUP_DURATION_RATIO"

lemma merge_batch_eq:
  "merge_batch row_started row batch_started batch slop =
     (min batch_started row_started, map (on_timeline (min batch_started row_started))
        (sort_key line_order (on_row row_started batch_started row @ new_lines row_started row batch_started batch slop)))"
  by (simp add: merge_batch_def new_lines_def on_row_def Let_def)

lemma on_row_merged:
  assumes "merge_batch row_started row batch_started batch slop = (started, lines)"
  shows "on_row started batch_started lines = lines" "started = min batch_started row_started" "min batch_started started = started"
  using assms by (auto simp: merge_batch_eq on_row_def comp_def intro!: map_idI)

text \<open>A line that the same batch would add a second time was left out the first time as a repeated text.\<close>

lemma added_again:
  assumes "merge_batch row_started row batch_started batch slop = (started, lines)" "s \<in> set (map (on_clock batch_started) batch)"
    and "\<not> same_range started lines s"
  shows "s \<notin> set (new_lines row_started row batch_started batch slop)"
    "is_text_clock_offset_duplicate (text_entry_of s) (existing_text_index (on_row row_started batch_started row)) slop MERGE_TEXT_DUP_DURATION_RATIO"
proof -
  let ?old = "on_row row_started batch_started row" and ?new = "new_lines row_started row batch_started batch slop"
  have lines: "set lines = on_timeline started ` (set ?old \<union> set ?new)" using assms(1) by (auto simp: merge_batch_eq)
  have "same_range started lines x" if "x \<in> set ?new" for x
    using that unfolding same_range_def lines by (auto simp: case_prod_beta Let_def image_iff intro!: bexI [of _ x])
  then show new: "s \<notin> set ?new" using assms(3) by blast
  have "on_timeline started x = x" if "x \<in> set ?old" for x
    using that assms(1) by (auto simp: merge_batch_eq on_row_def)
  then have "set ?old \<subseteq> set lines" unfolding lines by force
  then have "\<not> same_range (min batch_started row_started) ?old s"
    using assms(3) same_range_mono [of "min batch_started row_started" ?old s lines] on_row_merged(2) [OF assms(1)] by auto
  with dedupe_dropped [OF assms(2), of "min batch_started row_started" ?old slop MERGE_TEXT_DUP_DURATION_RATIO] new
  show "is_text_clock_offset_duplicate (text_entry_of s) (existing_text_index ?old) slop MERGE_TEXT_DUP_DURATION_RATIO"
    by (auto simp: new_lines_def)
qed

subsection \<open>Properties of voice activity\<close>

text \<open>
  C35. Speech is cut without loss: for segments in order and a positive cap the merging and
  cutting ends, no result is longer than the cap, the results are in order and do not overlap,
  and every moment of speech lies in one of them. With a cap that is not positive and segments
  in order, the cutting ends exactly when no segment has a positive length.
\<close>

theorem vad_segments_capped:
  assumes "in_order voice_segments"
  shows "if 0 < cap
    then \<exists>out. merge_and_cap_vad_segments cap voice_segments = Some out \<and> in_order out \<and> (\<forall>s \<in> set out. v_end s - v_start s \<le> cap)
      \<and> (\<forall>t. covers voice_segments t \<longrightarrow> covers out t)
    else merge_and_cap_vad_segments cap voice_segments = None \<longleftrightarrow> (\<exists>s \<in> set voice_segments. v_start s < v_end s)"
proof (cases "0 < cap")
  let ?merged = "foldl (merge_vad cap) [] voice_segments"
  have m: "in_order ?merged" "\<And>t. covers voice_segments t \<Longrightarrow> covers ?merged t"
    using merge_vad_fold [of "[]" voice_segments cap] assms by auto
  {
    case True
    from cap_vad_total [OF True m(1)] m(2) True show ?thesis by (auto simp: merge_and_cap_vad_segments_def)
  next
    case False
    have "(\<exists>s \<in> set ?merged. v_start s < v_end s) \<longleftrightarrow> (\<exists>s \<in> set voice_segments. v_start s < v_end s)"
    proof
      assume "\<exists>s \<in> set voice_segments. v_start s < v_end s"
      then obtain t where "covers voice_segments t" by (auto simp: covers_def)
      from m(2) [OF this] show "\<exists>s \<in> set ?merged. v_start s < v_end s" by (force simp: covers_def)
    qed (use merge_vad_flat [of cap "[]" voice_segments] False in force)
    with False cap_vad_uncapped [of cap ?merged] show ?thesis by (simp add: merge_and_cap_vad_segments_def)
  }
qed

theorem vad_segments_capped_witness:
  "(\<exists>out. merge_and_cap_vad_segments 300 [\<lparr>v_start = 0, v_end = 100\<rparr>, \<lparr>v_start = 150, v_end = 800\<rparr>] = Some out \<and> in_order out
     \<and> (\<forall>s \<in> set out. v_end s - v_start s \<le> 300) \<and> covers out 700)
   \<and> merge_and_cap_vad_segments 0 [\<lparr>v_start = 0, v_end = 100\<rparr>] = None \<and> merge_and_cap_vad_segments 0 [] \<noteq> None"
  using vad_segments_capped [of "[\<lparr>v_start = 0, v_end = 100\<rparr>, \<lparr>v_start = 150, v_end = 800\<rparr>]" 300]
    vad_segments_capped [of "[\<lparr>v_start = 0, v_end = 100\<rparr>]" 0] vad_segments_capped [of "[]" 0]
  by (auto simp: in_order_def)

subsection \<open>Properties of the merge\<close>

text \<open>
  C36. Merging a batch again changes nothing that the first merge stored: after a batch has been
  merged into a recording, with any slop, and is merged into the result with any other, the start
  stays, the recording keeps every line, and the lines it gains are only such lines of the batch as
  the first merge left out for repeating the text of a line that was there before, within its slop.
  If the slop did not shrink, nothing is gained: the recording is the same.
\<close>

theorem merge_retry_keeps_recording:
  assumes "merge_batch row_started row batch_started batch slop = (started, lines)"
  shows "\<exists>again. merge_batch started lines batch_started batch slop' = (started, map (on_timeline started) (sort_key line_order (lines @ again)))
    \<and> (\<forall>s \<in> set again. s \<in> set (map (on_clock batch_started) batch)
         \<and> s \<notin> set (new_lines row_started row batch_started batch slop)
         \<and> is_text_clock_offset_duplicate (text_entry_of s)
             (existing_text_index (on_row row_started batch_started row)) slop MERGE_TEXT_DUP_DURATION_RATIO)
    \<and> (slop \<le> slop' \<longrightarrow> again = [] \<and> merge_batch started lines batch_started batch slop' = (started, lines))"
proof -
  let ?batch = "map (on_clock batch_started) batch"
  note row = on_row_merged [OF assms]
  define again where "again = dedupe_segments_for_merge started lines ?batch slop' MERGE_TEXT_DUP_DURATION_RATIO"
  have second: "merge_batch started lines batch_started batch slop' = (started, map (on_timeline started) (sort_key line_order (lines @ again)))"
    unfolding merge_batch_eq new_lines_def again_def row(1,3) ..
  have lines: "\<And>s. s \<in> set again \<Longrightarrow> s \<in> set ?batch \<and> \<not> same_range started lines s"
    unfolding again_def dedupe_segments_for_merge_def Let_def by (auto split: if_split_asm)
  have none: "again = []" if le: "slop \<le> slop'"
    unfolding again_def
  proof (rule dedupe_all_duplicates)
    fix s
    assume "s \<in> set ?batch" "\<not> same_range started lines s"
    from added_again(2) [OF assms this]
    have "is_text_clock_offset_duplicate (text_entry_of s) (existing_text_index (on_row row_started batch_started row)) slop' MERGE_TEXT_DUP_DURATION_RATIO"
      using le by (fastforce simp: is_text_clock_offset_duplicate_def)
    then show "is_text_clock_offset_duplicate (text_entry_of s) (existing_text_index lines) slop' MERGE_TEXT_DUP_DURATION_RATIO"
      by (rule text_dup_mono) (use assms in \<open>auto simp: merge_batch_eq existing_text_index_def image_image\<close>)
  qed
  have "map (on_timeline started) (sort_key line_order lines) = lines"
    using assms by (auto simp: merge_batch_eq sort_on_timeline)
  with second lines none added_again [OF assms] show ?thesis by (intro exI [of _ again]) auto
qed

text \<open>A live line at the start, and a batch with the same words thirty seconds later and a line of its own.\<close>

definition ex_live_row :: "line list" where
  "ex_live_row = [\<lparr>l_timestamp = 0, l_start = 0, l_end = 10, l_text = Some ''call me back tomorrow morning''\<rparr>]"

definition ex_batch :: "line list" where
  "ex_batch = [\<lparr>l_timestamp = 0, l_start = 0, l_end = 10, l_text = Some ''call me back tomorrow morning''\<rparr>]"

theorem merge_retry_keeps_recording_witness:
  "merge_batch 0 (snd (merge_batch 0 ex_live_row 30 ex_batch 600)) 30 ex_batch 600 = merge_batch 0 ex_live_row 30 ex_batch 600"
  using merge_retry_keeps_recording [of 0 ex_live_row 30 ex_batch 600 0 "snd (merge_batch 0 ex_live_row 30 ex_batch 600)" 600]
  by (auto simp: merge_batch_eq)

text \<open>
  In the code the slop does shrink: it is wide for the first batch that reaches a live recording and
  zero from then on. So a line that the first merge left out as a repeated text is added when the
  same batch comes again.
\<close>

lemma merge_retry_repeats_text:
  "length (snd (merge_batch 0 ex_live_row 30 ex_batch (merge_slop (Some 0)))) = 1
   \<and> length (snd (merge_batch 0 (snd (merge_batch 0 ex_live_row 30 ex_batch (merge_slop (Some 0)))) 30 ex_batch (merge_slop (Some 1)))) = 2"
proof -
  let ?text = "''call me back tomorrow morning''"
  let ?late = "\<lparr>l_timestamp = 30, l_start = 0, l_end = 10, l_text = Some ?text\<rparr>"
  have words: "normalize_merge_segment_text (Some ?text) = ?text" "text_eligible_for_slop_dedupe ?text" by code_simp+
  have old: "on_row 0 30 ex_live_row = ex_live_row" by (simp add: on_row_def ex_live_row_def on_clock_def on_timeline_def)
  have batch: "map (on_clock 30) ex_batch = [?late]" by (simp add: ex_batch_def on_clock_def)
  have index: "existing_text_index ex_live_row = [\<lparr>t_text = ?text, t_abs_start = 0, t_duration = 10\<rparr>]"
    by (simp add: existing_text_index_def ex_live_row_def text_entry_of_def segment_abs_range_def words)
  have fresh: "\<not> same_range 0 ex_live_row ?late"
    by (simp add: same_range_def ex_live_row_def segment_abs_range_def range_key_def py_round2_def round_half_even_def)
  have dup: "is_text_clock_offset_duplicate (text_entry_of ?late) (existing_text_index ex_live_row) slop MERGE_TEXT_DUP_DURATION_RATIO \<longleftrightarrow> 30 \<le> slop" for slop
    unfolding index by (simp add: is_text_clock_offset_duplicate_def text_entry_of_def segment_abs_range_def words MERGE_TEXT_DUP_DURATION_RATIO_def)
  have "new_lines 0 ex_live_row 30 ex_batch slop = (if 30 \<le> slop then [] else [?late])" for slop
    by (simp add: new_lines_def old batch fresh dedupe_segments_for_merge_def dup [unfolded index] Let_def index)
  note merges = this
  have first: "merge_batch 0 ex_live_row 30 ex_batch 600 = (0, ex_live_row)"
    using old by (simp add: merge_batch_eq merges) (simp add: ex_live_row_def on_timeline_def)
  show ?thesis by (simp add: merge_slop_def MERGE_TEXT_DUP_SLOP_SECONDS_def first) (simp add: merge_batch_eq merges old, simp add: ex_live_row_def)
qed

text \<open>
  Only duplicates are dropped: the survivors are the batch with some lines left out, in
  order; each line left out has the range of an existing line, or repeats the text of an
  existing line of similar length within the slop, and then its text is long enough.
\<close>

lemma merge_drops_only_duplicates:
  "subseq (dedupe_segments_for_merge started_at existing incoming slop ratio) incoming
   \<and> (\<forall>s \<in> set incoming - set (dedupe_segments_for_merge started_at existing incoming slop ratio).
        same_range started_at existing s
        \<or> (is_text_clock_offset_duplicate (text_entry_of s) (existing_text_index existing) slop ratio
           \<and> text_eligible_for_slop_dedupe (normalize_merge_segment_text (l_text s))))"
proof (intro conjI ballI)
  show "subseq (dedupe_segments_for_merge started_at existing incoming slop ratio) incoming"
    unfolding dedupe_segments_for_merge_def Let_def by (auto simp del: filter_filter intro: subseq_order.trans [OF subseq_filter_left subseq_filter_left])
next
  fix s
  assume "s \<in> set incoming - set (dedupe_segments_for_merge started_at existing incoming slop ratio)"
  with dedupe_dropped show "same_range started_at existing s
        \<or> (is_text_clock_offset_duplicate (text_entry_of s) (existing_text_index existing) slop ratio
           \<and> text_eligible_for_slop_dedupe (normalize_merge_segment_text (l_text s)))"
    by (fastforce simp: is_text_clock_offset_duplicate_def text_entry_of_def split: prod.split_asm)
qed

subsection \<open>The turnstile\<close>

text \<open>
  Segments are transcribed concurrently; each waits until all earlier ones are done. The
  condition of \<open>wait_turn\<close> advances the queue before it looks at it. A wait that lasts too long gives
  up and the segment proceeds out of turn; that is the caller's choice and not part of the queue.
\<close>

record turnstile =
  ts_pending :: "string list"
  ts_done :: "string set"

definition new_turnstile :: "string list \<Rightarrow> turnstile" where
  "new_turnstile ordered_keys = \<lparr>ts_pending = ordered_keys, ts_done = {}\<rparr>"

definition advance :: "turnstile \<Rightarrow> turnstile" where
  "advance t = t\<lparr>ts_pending := dropWhile (\<lambda>k. k \<in> ts_done t) (ts_pending t)\<rparr>"

definition wait_turn_check :: "string \<Rightarrow> turnstile \<Rightarrow> bool \<times> turnstile" where
  "wait_turn_check key t =
     (let t' = advance t in (ts_pending t' = [] \<or> hd (ts_pending t') = key, t'))"

definition complete_key :: "string \<Rightarrow> turnstile \<Rightarrow> turnstile" where
  "complete_key key t = advance (t\<lparr>ts_done := insert key (ts_done t)\<rparr>)"

text \<open>The states after any order of completions and looks.\<close>

inductive turns :: "string list \<Rightarrow> turnstile \<Rightarrow> bool" for keys where
  fresh: "turns keys (new_turnstile keys)"
| look: "turns keys t \<Longrightarrow> turns keys (snd (wait_turn_check key t))"
| finish: "turns keys t \<Longrightarrow> turns keys (complete_key key t)"

lemma dropWhile_split: "\<exists>pre. ys = pre @ dropWhile P ys \<and> (\<forall>x \<in> set pre. P x)"
  by (rule exI [of _ "takeWhile P ys"]) (auto dest: set_takeWhileD)

lemma turns_queue: "turns keys t \<Longrightarrow> \<exists>pre. keys = pre @ ts_pending t \<and> set pre \<subseteq> ts_done t"
proof (induction rule: turns.induct)
  case (look t key)
  then obtain pre where pre: "keys = pre @ ts_pending t" "set pre \<subseteq> ts_done t" by blast
  obtain mid where "ts_pending t = mid @ dropWhile (\<lambda>k. k \<in> ts_done t) (ts_pending t)" "\<forall>x \<in> set mid. x \<in> ts_done t"
    using dropWhile_split by metis
  with pre show ?case by (intro exI [of _ "pre @ mid"]) (auto simp: wait_turn_check_def advance_def Let_def)
next
  case (finish t key)
  then obtain pre where pre: "keys = pre @ ts_pending t" "set pre \<subseteq> ts_done t" by blast
  obtain mid where "ts_pending t = mid @ dropWhile (\<lambda>k. k \<in> insert key (ts_done t)) (ts_pending t)" "\<forall>x \<in> set mid. x \<in> insert key (ts_done t)"
    using dropWhile_split by metis
  with pre show ?case by (intro exI [of _ "pre @ mid"]) (auto simp: complete_key_def advance_def)
qed (simp add: new_turnstile_def)

text \<open>
  Segments are assigned in order and none waits forever: in every state, a segment that is
  not done is let through exactly when every segment before it is done.
\<close>

lemma turnstile_in_order:
  assumes "turns keys t" "distinct keys" "keys = before @ key # behind" "key \<notin> ts_done t"
  shows "fst (wait_turn_check key t) \<longleftrightarrow> set before \<subseteq> ts_done t"
proof -
  obtain pre where pre: "keys = pre @ ts_pending t" "set pre \<subseteq> ts_done t" using turns_queue [OF assms(1)] by blast
  obtain mid where mid: "ts_pending t = mid @ dropWhile (\<lambda>k. k \<in> ts_done t) (ts_pending t)" "\<forall>x \<in> set mid. x \<in> ts_done t"
    using dropWhile_split by metis
  let ?rest = "dropWhile (\<lambda>k. k \<in> ts_done t) (ts_pending t)"
  have keys: "before @ key # behind = (pre @ mid) @ ?rest" using pre(1) mid(1) assms(3) by simp
  have dn: "set (pre @ mid) \<subseteq> ts_done t" using pre(2) mid(2) by auto
  have "key \<in> set ?rest"
  proof -
    have "key \<in> set ((pre @ mid) @ ?rest)" unfolding keys [symmetric] by simp
    then show ?thesis using dn assms(4) by auto
  qed
  then obtain k rest where k: "?rest = k # rest" by (cases ?rest) auto
  have "k \<notin> ts_done t" using k by (metis (no_types) hd_dropWhile list.sel(1) list.discI)
  have "fst (wait_turn_check key t) \<longleftrightarrow> k = key" by (simp add: wait_turn_check_def advance_def Let_def k)
  also have "k = key \<longleftrightarrow> set before \<subseteq> ts_done t"
  proof
    assume "k = key"
    moreover have "key \<notin> set before" "key \<notin> set behind" using assms(2,3) by auto
    ultimately have "before = pre @ mid" using keys k append_Cons_eq_iff [of key before behind "pre @ mid" rest] by simp
    then show "set before \<subseteq> ts_done t" using dn by simp
  next
    assume b: "set before \<subseteq> ts_done t"
    show "k = key"
    proof (rule ccontr)
      assume "k \<noteq> key"
      have "before @ key # behind = (pre @ mid) @ k # rest" using keys k by simp
      then have "k \<in> set before \<or> key \<in> set (pre @ mid)"
        using \<open>k \<noteq> key\<close> by (auto simp: append_eq_append_conv2 append_eq_Cons_conv Cons_eq_append_conv)
      then show False using b dn \<open>k \<notin> ts_done t\<close> assms(4) by auto
    qed
  qed
  finally show ?thesis .
qed

end
