(* ===== verification/Sync_Lanes.thy ===== *)
theory Sync_Lanes
  imports Py_Value
begin

text \<open>
  \<open>utils/sync/lanes.py\<close>: whether an upload is processed as fresh or as backfill, from the capture
  times in its file names (\<open>parse_sync_filename_timestamp\<close> of \<open>utils/request_validation.py\<close>).
  Times are seconds as reals; \<open>clock\<close> is the time the parser reads, \<open>now\<close> the time of the
  classification.
\<close>

subsection \<open>Reading a capture time\<close>

text \<open>\<open>Decimal(text)\<close>: the value of a finite literal, or not finite.\<close>

datatype py_decimal = Finite real | Not_Finite

definition digits_text :: "string \<Rightarrow> int option" where
  "digits_text s = (if s \<noteq> [] \<and> (\<forall>c \<in> set s. digit_of c \<noteq> None) then Some (foldl (\<lambda>n c. n * 10 + the (digit_of c)) 0 s) else None)"

definition unsigned_decimal :: "string \<Rightarrow> py_decimal option" where
  "unsigned_decimal s =
     (let mantissa = takeWhile (\<lambda>c. c \<noteq> CHR ''e'') s; tail = dropWhile (\<lambda>c. c \<noteq> CHR ''e'') s;
          whole = takeWhile (\<lambda>c. c \<noteq> CHR ''.'') mantissa; fraction = tl (dropWhile (\<lambda>c. c \<noteq> CHR ''.'') mantissa);
          exponent = (case tl tail of CHR ''-'' # ds \<Rightarrow> map_option uminus (digits_text ds) | CHR ''+'' # ds \<Rightarrow> digits_text ds | ds \<Rightarrow> digits_text ds)
      in if s \<in> {''inf'', ''infinity''} then Some Not_Finite
         else if take 3 s = ''nan'' \<and> (drop 3 s = [] \<or> digits_text (drop 3 s) \<noteq> None) then Some Not_Finite
         else if take 4 s = ''snan'' \<and> (drop 4 s = [] \<or> digits_text (drop 4 s) \<noteq> None) then Some Not_Finite
         else (case (digits_text (whole @ fraction), if tail = [] then Some 0 else exponent) of
                 (Some n, Some e) \<Rightarrow> Some (Finite (of_int n * 10 powi (e - int (length fraction))))
               | _ \<Rightarrow> None))"

definition decimal_of_text :: "string \<Rightarrow> py_decimal option" where
  "decimal_of_text text =
     (case ascii_lower (filter (\<lambda>c. c \<noteq> CHR ''_'') (py_strip text)) of
        CHR ''-'' # s \<Rightarrow> map_option (\<lambda>d. case d of Finite x \<Rightarrow> Finite (- x) | Not_Finite \<Rightarrow> Not_Finite) (unsigned_decimal s)
      | CHR ''+'' # s \<Rightarrow> unsigned_decimal s
      | s \<Rightarrow> unsigned_decimal s)"

text \<open>\<open>path.split(c)[-1]\<close> and \<open>s.rsplit(c, 1)[0]\<close>.\<close>

definition after_last :: "char \<Rightarrow> string \<Rightarrow> string" where
  "after_last c s = rev (takeWhile (\<lambda>x. x \<noteq> c) (rev s))"

definition before_last :: "char \<Rightarrow> string \<Rightarrow> string" where
  "before_last c s = (if c \<in> set s then rev (tl (dropWhile (\<lambda>x. x \<noteq> c) (rev s))) else s)"

text \<open>
  An instant is kept in microseconds; the first instant of 2024 and the first of the year 10000,
  from which on no instant exists, in seconds.
\<close>

definition to_micros :: "real \<Rightarrow> int" where
  "to_micros t = round_half_even (1000000 * t)"

definition parse_sync_filename_timestamp :: "real \<Rightarrow> string \<Rightarrow> real res" where
  "parse_sync_filename_timestamp clock path =
     (case decimal_of_text (before_last CHR ''.'' (after_last CHR ''_'' (after_last CHR ''/'' path))) of
        None \<Rightarrow> Inl ValueError
      | Some Not_Finite \<Rightarrow> Inl ValueError
      | Some (Finite raw) \<Rightarrow>
          if raw \<le> 0 then Inl ValueError
          else let timestamp = (if raw > 10000000000 then raw / 1000 else raw) in
            if timestamp \<ge> 253402300800 then Inl ValueError
            else if to_micros timestamp > to_micros clock \<or> to_micros timestamp < to_micros 1704067200 then Inl ValueError
            else Inr timestamp)"

subsection \<open>The lane\<close>

datatype sync_lane = FRESH | BACKFILL

datatype capture_time_trust = DEVICE_BOUND | CAPTURE_LEGACY | UNTRUSTED

record lane_decision =
  ld_lane :: sync_lane
  ld_trust :: capture_time_trust
  ld_reason :: string
  ld_oldest_capture_at :: "real option"
  ld_newest_capture_at :: "real option"
  ld_maximum_age_seconds :: "int option"
  ld_automatic_recovery_allowed :: bool

text \<open>\<open>int(os.getenv(k, default))\<close> without a fallback.\<close>

definition env_int_strict :: "env \<Rightarrow> string \<Rightarrow> string \<Rightarrow> int res" where
  "env_int_strict env k d = (case py_int_of_str (getenv env k d) of None \<Rightarrow> Inl ValueError | Some n \<Rightarrow> Inr n)"

definition fresh_cutoff_seconds :: "env \<Rightarrow> int res" where
  "fresh_cutoff_seconds env = res_bind (env_int_strict env ''SYNC_FRESH_MAX_AGE_SECONDS'' (dec_int (6 * 60 * 60))) (\<lambda>n. Inr (max 60 n))"

definition maximum_backfill_age_seconds :: "env \<Rightarrow> int res" where
  "maximum_backfill_age_seconds env =
     res_bind (fresh_cutoff_seconds env) (\<lambda>cutoff.
       res_bind (env_int_strict env ''SYNC_BACKFILL_MAX_AGE_SECONDS'' (dec_int (30 * 24 * 60 * 60))) (\<lambda>n. Inr (max cutoff n)))"

definition maximum_future_skew_seconds :: "env \<Rightarrow> int res" where
  "maximum_future_skew_seconds env = res_bind (env_int_strict env ''SYNC_CAPTURE_MAX_FUTURE_SKEW_SECONDS'' ''300'') (\<lambda>n. Inr (max 0 n))"

fun capture_times :: "real \<Rightarrow> string list \<Rightarrow> real list option" where
  "capture_times clock [] = Some []"
| "capture_times clock (f # fs) =
     (case parse_sync_filename_timestamp clock f of
        Inl e \<Rightarrow> None
      | Inr t \<Rightarrow> map_option ((#) t) (capture_times clock fs))"

definition capture_times_within_window :: "real \<Rightarrow> string list \<Rightarrow> real \<Rightarrow> real \<Rightarrow> bool" where
  "capture_times_within_window clock filenames lower upper \<longleftrightarrow>
     (case capture_times clock filenames of
        None \<Rightarrow> False
      | Some ts \<Rightarrow> ts \<noteq> [] \<and> (\<forall>t \<in> set ts. lower \<le> t \<and> t \<le> upper))"

definition untrusted :: "string \<Rightarrow> lane_decision" where
  "untrusted reason =
     \<lparr>ld_lane = BACKFILL, ld_trust = UNTRUSTED, ld_reason = reason, ld_oldest_capture_at = None, ld_newest_capture_at = None,
      ld_maximum_age_seconds = None, ld_automatic_recovery_allowed = True\<rparr>"

definition classify_sync_lane :: "env \<Rightarrow> real \<Rightarrow> string list \<Rightarrow> string option \<Rightarrow> real \<Rightarrow> lane_decision res" where
  "classify_sync_lane env clock filenames client_device_id now =
     (case capture_times clock filenames of
        None \<Rightarrow> Inr (untrusted ''invalid_capture_time'')
      | Some [] \<Rightarrow> Inr (untrusted ''missing_capture_time'')
      | Some (t # ts) \<Rightarrow>
          let oldest = Min (set (t # ts)); newest = Max (set (t # ts)); maximum_age = max 0 (py_trunc (now - oldest));
              bound = (client_device_id \<noteq> None \<and> client_device_id \<noteq> Some []);
              trust = (if bound then DEVICE_BOUND else CAPTURE_LEGACY);
              decision = (\<lambda>lane trust reason allowed.
                \<lparr>ld_lane = lane, ld_trust = trust, ld_reason = reason, ld_oldest_capture_at = Some oldest, ld_newest_capture_at = Some newest,
                 ld_maximum_age_seconds = Some maximum_age, ld_automatic_recovery_allowed = allowed\<rparr>)
          in res_bind (maximum_future_skew_seconds env) (\<lambda>skew.
               if newest > now + of_int skew then Inr (decision BACKFILL UNTRUSTED ''future_capture_time'' True)
               else res_bind (maximum_backfill_age_seconds env) (\<lambda>limit.
                 if maximum_age > limit then Inr (decision BACKFILL trust ''lookback_exceeded'' False)
                 else if \<not> bound then Inr (decision BACKFILL CAPTURE_LEGACY ''unbound_capture_time'' True)
                 else res_bind (fresh_cutoff_seconds env) (\<lambda>cutoff.
                   if maximum_age > cutoff then Inr (decision BACKFILL trust ''historical_capture'' True)
                   else Inr (decision FRESH trust ''recent_capture'' True)))))"

subsection \<open>Properties\<close>

lemma capture_times_set:
  "capture_times clock fs = Some ts \<Longrightarrow> length ts = length fs \<and> (\<forall>t \<in> set ts. \<exists>f \<in> set fs. parse_sync_filename_timestamp clock f = Inr t)"
  by (induction fs arbitrary: ts) (fastforce split: sum.split_asm)+

lemma trunc_bound: "0 \<le> m \<Longrightarrow> max 0 (py_trunc x) \<le> m \<longleftrightarrow> x < of_int m + 1"
  by (auto simp: py_trunc_def floor_le_iff ceiling_le_iff)

text \<open>
  The fresh lane admits exactly what it should: an upload with a readable configuration is
  fresh if and only if it has files, every name carries a valid capture time, the device is
  bound, none is later than the tolerated skew, and the oldest is within the cutoff. The lane
  is decided by the whole batch: one file outside makes all of it backfill.
\<close>

lemma lane_fresh_iff:
  assumes "fresh_cutoff_seconds env = Inr cutoff" "maximum_backfill_age_seconds env = Inr limit" "maximum_future_skew_seconds env = Inr skew"
    and "classify_sync_lane env clock filenames device now = Inr d"
  shows "ld_lane d = FRESH \<longleftrightarrow>
    filenames \<noteq> [] \<and> device \<noteq> None \<and> device \<noteq> Some []
    \<and> (\<exists>ts. capture_times clock filenames = Some ts
         \<and> (\<forall>t \<in> set ts. t \<le> now + of_int skew \<and> now - t < of_int cutoff + 1))"
proof (cases "capture_times clock filenames")
  case None
  then show ?thesis using assms(4) by (auto simp: classify_sync_lane_def untrusted_def)
next
  case (Some ts)
  have len: "length ts = length filenames" using capture_times_set [OF Some] by simp
  have le: "0 \<le> cutoff" "cutoff \<le> limit"
    using assms(1,2) by (auto simp: fresh_cutoff_seconds_def maximum_backfill_age_seconds_def res_bind_def split: sum.split_asm)
  show ?thesis
  proof (cases ts)
    case Nil
    then show ?thesis using assms(4) Some len by (auto simp: classify_sync_lane_def untrusted_def)
  next
    case (Cons t us)
    define oldest newest where "oldest = Min (set (t # us))" and "newest = Max (set (t # us))"
    let ?age = "max 0 (py_trunc (now - oldest))"
    have "ld_lane d = FRESH \<longleftrightarrow> (device \<noteq> None \<and> device \<noteq> Some []) \<and> newest \<le> now + of_int skew \<and> ?age \<le> cutoff"
      using assms(4) le
      unfolding classify_sync_lane_def Some Cons option.case list.case Let_def assms(1-3) res_bind_def oldest_def [symmetric] newest_def [symmetric]
      by (auto split: if_split_asm)
    also have "?age \<le> cutoff \<longleftrightarrow> now - oldest < of_int cutoff + 1" using le(1) by (rule trunc_bound)
    also have "now - oldest < of_int cutoff + 1 \<longleftrightarrow> now - of_int cutoff - 1 < oldest" by linarith
    also have "\<dots> \<longleftrightarrow> (\<forall>t \<in> set ts. now - of_int cutoff - 1 < t)" by (simp add: oldest_def Cons)
    also have "newest \<le> now + of_int skew \<longleftrightarrow> (\<forall>t \<in> set ts. t \<le> now + of_int skew)" by (simp add: newest_def Cons)
    finally have "ld_lane d = FRESH \<longleftrightarrow> (device \<noteq> None \<and> device \<noteq> Some [])
        \<and> (\<forall>t \<in> set ts. t \<le> now + of_int skew \<and> now - of_int cutoff - 1 < t)" by blast
    moreover have "now - of_int cutoff - 1 < t \<longleftrightarrow> now - t < of_int cutoff + 1" for t by linarith
    ultimately show ?thesis using Some Cons len by auto
  qed
qed

lemma round_half_even_bounds: "x - 1 / 2 \<le> of_int (round_half_even x)" "of_int (round_half_even x) \<le> x + 1 / 2"
  unfolding round_half_even_def Let_def by (auto, linarith+)

lemma micros_bound: "to_micros t \<le> to_micros clock \<Longrightarrow> t \<le> clock + 1 / 1000000"
proof -
  assume "to_micros t \<le> to_micros clock"
  then have "real_of_int (to_micros t) \<le> real_of_int (to_micros clock)" by simp
  then show ?thesis
    using round_half_even_bounds(1) [of "1000000 * t"] round_half_even_bounds(2) [of "1000000 * clock"] by (simp add: to_micros_def)
qed

lemma parsed_not_future: "parse_sync_filename_timestamp clock f = Inr t \<Longrightarrow> t \<le> clock + 1 / 1000000"
  by (rule micros_bound)
    (auto simp: parse_sync_filename_timestamp_def Let_def split: option.split_asm py_decimal.split_asm if_split_asm)

text \<open>
  The tolerance for fast clocks has no effect: the parser rejects any capture time later
  than its own clock, so an upload is never classified as captured in the future, and one whose
  device is ahead by less than the tolerance is still taken to have no valid capture time.
\<close>

lemma future_skew_unreachable:
  assumes "clock \<le> now" "maximum_future_skew_seconds env = Inr skew" "0 < skew" "classify_sync_lane env clock filenames device now = Inr d"
  shows "ld_reason d \<noteq> ''future_capture_time''
    \<and> ((\<exists>f \<in> set filenames. \<exists>raw. decimal_of_text (before_last CHR ''.'' (after_last CHR ''_'' (after_last CHR ''/'' f))) = Some (Finite raw)
          \<and> clock + 1 / 1000000 < raw \<and> raw \<le> clock + of_int skew \<and> raw \<le> 10000000000) \<longrightarrow> d = untrusted ''invalid_capture_time'')"
proof
  show "ld_reason d \<noteq> ''future_capture_time''"
  proof (cases "capture_times clock filenames")
    case (Some ts)
    have ts: "t \<le> now + of_int skew" if "t \<in> set ts" for t
      using capture_times_set [OF Some] that parsed_not_future [of clock _ t] assms(1,3) by fastforce
    then have "\<not> Max (set (t # us)) > now + of_int skew" if "ts = t # us" for t us using ts that by (simp add: not_less del: Max_insert)
    then show ?thesis using assms(4) Some
      by (auto simp: classify_sync_lane_def untrusted_def Let_def assms(2) res_bind_def
          simp del: Max_insert Min_insert split: list.split_asm if_split_asm sum.split_asm)
  qed (use assms(4) in \<open>auto simp: classify_sync_lane_def untrusted_def\<close>)
  have none: "capture_times clock fs = None" if "f \<in> set fs" "\<And>t. parse_sync_filename_timestamp clock f \<noteq> Inr t" for f fs
    using that by (induction fs) (auto split: sum.split)
  have late: "parse_sync_filename_timestamp clock f \<noteq> Inr t"
    if "decimal_of_text (before_last CHR ''.'' (after_last CHR ''_'' (after_last CHR ''/'' f))) = Some (Finite raw)"
      "clock + 1 / 1000000 < raw" "raw \<le> 10000000000" for f raw t
    using that parsed_not_future [of clock f t] by (auto simp: parse_sync_filename_timestamp_def Let_def split: if_split_asm)
  show "(\<exists>f \<in> set filenames. \<exists>raw. decimal_of_text (before_last CHR ''.'' (after_last CHR ''_'' (after_last CHR ''/'' f))) = Some (Finite raw)
          \<and> clock + 1 / 1000000 < raw \<and> raw \<le> clock + of_int skew \<and> raw \<le> 10000000000) \<longrightarrow> d = untrusted ''invalid_capture_time''"
    using none late assms(4) by (fastforce simp: classify_sync_lane_def)
qed

end
