(* ===== verification/Legal_Holds.thy ===== *)
theory Legal_Holds
  imports Projection_Binding Op_Runs
begin

text \<open>
  \<^verbatim>\<open>database/legal_holds.py\<close> and \<^verbatim>\<open>database/account_deletion_policy.py\<close>: the per-account gate on
  which every destructive operation and the writer of legal holds contend. The theory has the
  validation of the two authority documents, the transactions that place a hold, acquire and
  finish the gate, the fences other writers run, and the context manager around a destructive
  operation; then what the gate guarantees over every history of these operations. A document
  id is taken to be a single path segment, and stored timestamps carry a time zone.
\<close>

subsection \<open>Account deletion policy\<close>

definition ACCOUNT_DELETION_ACCESS_ALLOWED_STATUSES :: "string list" where
  "ACCOUNT_DELETION_ACCESS_ALLOWED_STATUSES = [''cancelled'', ''billing_failed'']"

definition ACCOUNT_DELETION_INVALID_STATUS :: string where
  "ACCOUNT_DELETION_INVALID_STATUS = ''__invalid_account_deletion_status__''"

definition normalize_account_deletion_status :: "bool \<Rightarrow> pyval \<Rightarrow> string option" where
  "normalize_account_deletion_status marker_exists raw_status =
     (if \<not> marker_exists then None
      else case raw_status of
        PStr s \<Rightarrow> Some (if py_strip s \<noteq> [] then py_strip s else ACCOUNT_DELETION_INVALID_STATUS)
      | _ \<Rightarrow> Some ACCOUNT_DELETION_INVALID_STATUS)"

definition account_deletion_blocks_access :: "string option \<Rightarrow> bool" where
  "account_deletion_blocks_access status =
     (case status of None \<Rightarrow> False | Some s \<Rightarrow> s \<notin> set ACCOUNT_DELETION_ACCESS_ALLOWED_STATUSES)"

text \<open>The marker's state as every fence reads it: \<open>payload.get("wipe_status")\<close> of the document.\<close>

definition deletion_ref :: "string \<Rightarrow> path" where
  "deletion_ref uid = [''account_deletions'', uid]"

definition deletion_blocks :: "(path \<Rightarrow> doc option) \<Rightarrow> string \<Rightarrow> bool" where
  "deletion_blocks rd uid =
     account_deletion_blocks_access
       (case rd (deletion_ref uid) of
          None \<Rightarrow> normalize_account_deletion_status False PNone
        | Some d \<Rightarrow> normalize_account_deletion_status True (dget d ''wipe_status''))"

subsection \<open>Authority documents\<close>

abbreviation LegalHoldAuthorityUnavailable :: pyerr where
  "LegalHoldAuthorityUnavailable \<equiv> OtherError ''LegalHoldAuthorityUnavailable''"

abbreviation LegalHoldActive :: pyerr where
  "LegalHoldActive \<equiv> OtherError ''LegalHoldActive''"

abbreviation DestructiveOperationInProgress :: pyerr where
  "DestructiveOperationInProgress \<equiv> OtherError ''DestructiveOperationInProgress''"

definition LEGAL_HOLD_SCHEMA_VERSION :: string where
  "LEGAL_HOLD_SCHEMA_VERSION = ''legal_hold.v1''"

definition LEGAL_HOLD_DELETION_GATE_SCHEMA_VERSION :: string where
  "LEGAL_HOLD_DELETION_GATE_SCHEMA_VERSION = ''legal_hold_deletion_gate.v1''"

definition AUTHORIZED_ISSUERS :: "string list" where
  "AUTHORIZED_ISSUERS = [''admin'', ''legal_hold_service'']"

definition GATE_STATES :: "string list" where
  "GATE_STATES = [''running'', ''failed'', ''completed'']"

definition GATE_STALE_AFTER_SECONDS :: int where
  "GATE_STALE_AFTER_SECONDS = 6 * 60 * 60"

definition OBSOLETE_WRITER_GATE_KIND :: string where
  "OBSOLETE_WRITER_GATE_KIND = ''external_data_write''"

definition hold_ref :: "string \<Rightarrow> path" where
  "hold_ref uid = [''legal_holds'', uid]"

definition gate_ref :: "string \<Rightarrow> path" where
  "gate_ref uid = [''legal_hold_deletion_gates'', uid]"

text \<open>\<open>v in frozenset(names)\<close> raises for a list or a mapping, which cannot be hashed.\<close>

definition in_names :: "string list \<Rightarrow> pyval \<Rightarrow> bool res" where
  "in_names names v =
     (case v of PList xs \<Rightarrow> Inl TypeError | PDict kvs \<Rightarrow> Inl TypeError
      | PStr s \<Rightarrow> Inr (s \<in> set names) | _ \<Rightarrow> Inr False)"

definition require :: "bool \<Rightarrow> pyerr \<Rightarrow> unit res" where
  "require b e = (if b then Inr () else Inl e)"

definition validated_hold :: "doc option \<Rightarrow> doc option res" where
  "validated_hold snapshot =
     (case snapshot of
        None \<Rightarrow> Inr None
      | Some payload \<Rightarrow>
          res_bind (require (dget payload ''schema_version'' = PStr LEGAL_HOLD_SCHEMA_VERSION)
                      LegalHoldAuthorityUnavailable) (\<lambda>_.
          res_bind (in_names AUTHORIZED_ISSUERS (dget payload ''issuer'')) (\<lambda>trusted.
          res_bind (require trusted LegalHoldAuthorityUnavailable) (\<lambda>_.
          case dget payload ''active'' of PBool b \<Rightarrow> Inr (Some payload) | _ \<Rightarrow> Inl LegalHoldAuthorityUnavailable))))"

definition nonblank :: "pyval \<Rightarrow> bool" where
  "nonblank v = (case v of PStr s \<Rightarrow> py_strip s \<noteq> [] | _ \<Rightarrow> False)"

definition validated_gate :: "doc option \<Rightarrow> doc option res" where
  "validated_gate snapshot =
     (case snapshot of
        None \<Rightarrow> Inr None
      | Some payload \<Rightarrow>
          res_bind (require (dget payload ''schema_version'' = PStr LEGAL_HOLD_DELETION_GATE_SCHEMA_VERSION)
                      LegalHoldAuthorityUnavailable) (\<lambda>_.
          res_bind (in_names GATE_STATES (dget payload ''state'')) (\<lambda>known.
          res_bind (require (known \<and> (\<forall>key \<in> set [''uid'', ''kind'', ''token'']. nonblank (dget payload key)))
                      LegalHoldAuthorityUnavailable) (\<lambda>_.
          case dget payload ''started_at'' of PTime t \<Rightarrow> Inr (Some payload) | _ \<Rightarrow> Inl LegalHoldAuthorityUnavailable))))"

definition gate_blocks :: "doc option \<Rightarrow> int \<Rightarrow> bool" where
  "gate_blocks gate now =
     (case gate of
        None \<Rightarrow> False
      | Some g \<Rightarrow>
          dget g ''state'' = PStr ''running''
          \<and> dget g ''kind'' \<noteq> PStr OBSOLETE_WRITER_GATE_KIND
          \<and> (case dget g ''started_at'' of
               PTime t \<Rightarrow> now - t < td_seconds GATE_STALE_AFTER_SECONDS | _ \<Rightarrow> False))"

definition assert_hold_inactive :: "doc option \<Rightarrow> unit res" where
  "assert_hold_inactive snapshot =
     res_bind (validated_hold snapshot) (\<lambda>hold.
       case hold of
         None \<Rightarrow> Inr ()
       | Some h \<Rightarrow> if dget h ''active'' = PBool True then Inl LegalHoldActive else Inr ())"

definition assert_account_deletion_permitted :: "(path \<Rightarrow> doc option) \<Rightarrow> string \<Rightarrow> unit res" where
  "assert_account_deletion_permitted rd uid =
     (if uid = [] then Inl LegalHoldAuthorityUnavailable
      else case assert_hold_inactive (rd (hold_ref uid)) of
        Inr u \<Rightarrow> Inr u
      | Inl e \<Rightarrow> if e = LegalHoldActive then Inl LegalHoldActive else Inl LegalHoldAuthorityUnavailable)"

subsection \<open>Placing a hold\<close>

definition place_legal_hold_transaction ::
  "string \<Rightarrow> string \<Rightarrow> bool \<Rightarrow> int \<Rightarrow> (path \<Rightarrow> doc option) \<Rightarrow> (unit \<times> write list) res" where
  "place_legal_hold_transaction uid issuer active now rd =
     res_bind (validated_gate (rd (gate_ref uid))) (\<lambda>gate.
     let account_running = (case rd (deletion_ref uid) of
           None \<Rightarrow> False | Some account \<Rightarrow> dget account ''wipe_status'' = PStr ''running'') in
     if active \<and> (gate_blocks gate now \<or> account_running) then Inl DestructiveOperationInProgress
     else Inr ((), [SetMerge (hold_ref uid)
       [(''schema_version'', Put (PStr LEGAL_HOLD_SCHEMA_VERSION)), (''issuer'', Put (PStr issuer)),
        (''active'', Put (PBool active)), (''updated_at'', Put (PTime now))]]))"

definition place_legal_hold where
  "place_legal_hold fetch commit uid issuer active now st =
     (if uid = [] \<or> issuer \<notin> set AUTHORIZED_ISSUERS then (Inl LegalHoldAuthorityUnavailable, st)
      else run_txn fetch commit (place_legal_hold_transaction uid issuer active now) st)"

subsection \<open>The gate of a destructive operation\<close>

definition gate_of :: "doc \<Rightarrow> string \<Rightarrow> string \<Rightarrow> string \<Rightarrow> bool" where
  "gate_of g uid kind token \<longleftrightarrow>
     dget g ''uid'' = PStr uid \<and> dget g ''kind'' = PStr kind \<and> dget g ''token'' = PStr token"

definition running_gate :: "string \<Rightarrow> string \<Rightarrow> string \<Rightarrow> int \<Rightarrow> fields" where
  "running_gate uid kind token now =
     [(''schema_version'', Put (PStr LEGAL_HOLD_DELETION_GATE_SCHEMA_VERSION)), (''uid'', Put (PStr uid)),
      (''kind'', Put (PStr kind)), (''token'', Put (PStr token)), (''state'', Put (PStr ''running'')),
      (''started_at'', Put (PTime now)), (''finished_at'', Put PNone)]"

definition acquire_destructive_operation_transaction ::
  "string \<Rightarrow> string \<Rightarrow> string \<Rightarrow> int \<Rightarrow> (path \<Rightarrow> doc option) \<Rightarrow> (unit \<times> write list) res" where
  "acquire_destructive_operation_transaction uid kind token now rd =
     res_bind (if kind = ''external_data_write''
               then require (\<not> deletion_blocks rd uid) DestructiveOperationInProgress
               else assert_hold_inactive (rd (hold_ref uid))) (\<lambda>_.
     res_bind (validated_gate (rd (gate_ref uid))) (\<lambda>gate.
     let running = (case gate of None \<Rightarrow> False | Some g \<Rightarrow> dget g ''state'' = PStr ''running'') in
     if running \<and> gate_of (the gate) uid kind token then Inr ((), [])
     else if running \<and> gate_blocks gate now then Inl DestructiveOperationInProgress
     else Inr ((), [SetDoc (gate_ref uid) (running_gate uid kind token now)])))"

definition acquire_destructive_operation where
  "acquire_destructive_operation fetch commit uid kind token now st =
     (if uid = [] \<or> py_strip kind = [] \<or> py_strip token = [] then (Inl LegalHoldAuthorityUnavailable, st)
      else run_txn fetch commit (acquire_destructive_operation_transaction uid kind token now) st)"

text \<open>
  The transaction writes back the document it read with two fields replaced, which within one
  transaction is the merge of the two fields.
\<close>

definition finish_destructive_operation_transaction ::
  "string \<Rightarrow> string \<Rightarrow> string \<Rightarrow> string \<Rightarrow> int \<Rightarrow> (path \<Rightarrow> doc option) \<Rightarrow> (unit \<times> write list) res" where
  "finish_destructive_operation_transaction uid kind token outcome now rd =
     res_bind (validated_gate (rd (gate_ref uid))) (\<lambda>gate.
     case gate of
       None \<Rightarrow> Inl LegalHoldAuthorityUnavailable
     | Some g \<Rightarrow>
         if \<not> gate_of g uid kind token then Inl LegalHoldAuthorityUnavailable
         else if dget g ''state'' \<noteq> PStr ''running'' then
           (if dget g ''state'' = PStr outcome then Inr ((), []) else Inl LegalHoldAuthorityUnavailable)
         else Inr ((), [SetMerge (gate_ref uid) [(''state'', Put (PStr outcome)), (''finished_at'', Put (PTime now))]]))"

definition finish_destructive_operation where
  "finish_destructive_operation fetch commit uid kind token outcome now st =
     (if outcome \<notin> {''failed'', ''completed''} then (Inl ValueError, st)
      else run_txn fetch commit (finish_destructive_operation_transaction uid kind token outcome now) st)"

subsection \<open>Fences\<close>

definition assert_destructive_operation_transaction ::
  "string \<Rightarrow> string \<Rightarrow> string \<Rightarrow> (path \<Rightarrow> doc option) \<Rightarrow> unit res" where
  "assert_destructive_operation_transaction uid kind token rd =
     res_bind (assert_hold_inactive (rd (hold_ref uid))) (\<lambda>_.
     res_bind (validated_gate (rd (gate_ref uid))) (\<lambda>gate.
     case gate of
       None \<Rightarrow> Inl LegalHoldAuthorityUnavailable
     | Some g \<Rightarrow> require (dget g ''state'' = PStr ''running'' \<and> gate_of g uid kind token) LegalHoldAuthorityUnavailable))"

definition assert_no_destructive_operation_transaction :: "string \<Rightarrow> int \<Rightarrow> (path \<Rightarrow> doc option) \<Rightarrow> unit res" where
  "assert_no_destructive_operation_transaction uid now rd =
     res_bind (validated_gate (rd (gate_ref uid))) (\<lambda>gate.
     if gate_blocks gate now then Inl DestructiveOperationInProgress else Inr ())"

definition external_write_fence :: "string \<Rightarrow> int \<Rightarrow> (path \<Rightarrow> doc option) \<Rightarrow> unit res" where
  "external_write_fence uid now rd =
     (if uid = [] then Inl LegalHoldAuthorityUnavailable
      else if deletion_blocks rd uid then Inl DestructiveOperationInProgress
      else assert_no_destructive_operation_transaction uid now rd)"

text \<open>
  The context manager. \<open>active\<close> is the context variable of the running thread, \<open>token\<close> the fresh
  token, \<open>body\<close> the block under the manager, which sees the variable as it is set around it.
\<close>

type_synonym active_gate = "(string \<times> string \<times> string) option"

definition destructive_operation_gate where
  "destructive_operation_gate fetch commit active uid kind token started finished body st =
     (case active of
        Some (active_uid, active_kind, active_token) \<Rightarrow>
          if active_uid \<noteq> uid \<or> active_kind \<noteq> kind then (Inl DestructiveOperationInProgress, st)
          else body active active_token st
      | None \<Rightarrow>
          (case acquire_destructive_operation fetch commit uid kind token started st of
             (Inl e, st1) \<Rightarrow> (Inl e, st1)
           | (Inr _, st1) \<Rightarrow>
               (case body (Some (uid, kind, token)) token st1 of
                  (Inl e, st2) \<Rightarrow>
                    (Inl e, snd (finish_destructive_operation fetch commit uid kind token ''failed'' finished st2))
                | (Inr r, st2) \<Rightarrow>
                    (case finish_destructive_operation fetch commit uid kind token ''completed'' finished st2 of
                       (Inl e, st3) \<Rightarrow> (Inl e, st3)
                     | (Inr _, st3) \<Rightarrow> (Inr r, st3)))))"

definition current_destructive_operation_token :: "active_gate \<Rightarrow> string \<Rightarrow> string \<Rightarrow> string res" where
  "current_destructive_operation_token active uid kind =
     (case active of
        None \<Rightarrow> Inl LegalHoldAuthorityUnavailable
      | Some (u, k, t) \<Rightarrow> if u \<noteq> uid \<or> k \<noteq> kind then Inl LegalHoldAuthorityUnavailable else Inr t)"

subsection \<open>Reading the authority documents\<close>

lemma require_Inr [simp]: "require b e = Inr u \<longleftrightarrow> b"
  by (cases u) (simp add: require_def)

lemma in_names_PStr [simp]: "in_names names (PStr s) = Inr (s \<in> set names)"
  by (simp add: in_names_def)

lemma ref_neq [simp]:
  "hold_ref u \<noteq> gate_ref v" "gate_ref v \<noteq> hold_ref u" "deletion_ref u \<noteq> gate_ref v" "deletion_ref u \<noteq> hold_ref v"
  "hold_ref u \<noteq> deletion_ref v" "gate_ref u \<noteq> deletion_ref v"
  "hold_ref u = hold_ref v \<longleftrightarrow> u = v" "gate_ref u = gate_ref v \<longleftrightarrow> u = v"
  by (simp_all add: hold_ref_def gate_ref_def deletion_ref_def)

lemma validated_gate_Inr:
  "validated_gate s = Inr r \<Longrightarrow> r = s"
  by (auto simp: validated_gate_def split: option.split_asm pyval.split_asm)

lemma validated_hold_Inr:
  "validated_hold s = Inr r \<Longrightarrow> r = s"
  by (auto simp: validated_hold_def split: option.split_asm pyval.split_asm)

lemma finish_writes:
  assumes "finish_destructive_operation_transaction uid kind token outcome now rd = Inr (u, ws)"
  shows "ws = [] \<or> (\<exists>g. rd (gate_ref uid) = Some g
    \<and> ws = [SetMerge (gate_ref uid) [(''state'', Put (PStr outcome)), (''finished_at'', Put (PTime now))]])"
  using assms
  by (auto simp: finish_destructive_operation_transaction_def split: if_split_asm option.split_asm dest!: validated_gate_Inr)

text \<open>A gate whose identity and start are well formed is valid in each of the three states.\<close>

definition sound_gate :: "doc \<Rightarrow> string \<Rightarrow> string \<Rightarrow> string \<Rightarrow> int \<Rightarrow> string \<Rightarrow> bool" where
  "sound_gate g uid kind token t0 state \<longleftrightarrow>
     dget g ''schema_version'' = PStr LEGAL_HOLD_DELETION_GATE_SCHEMA_VERSION \<and> gate_of g uid kind token
     \<and> py_strip uid \<noteq> [] \<and> py_strip kind \<noteq> [] \<and> py_strip token \<noteq> []
     \<and> dget g ''started_at'' = PTime t0 \<and> dget g ''state'' = PStr state \<and> state \<in> set GATE_STATES"

lemma sound_gate_valid: "sound_gate g uid kind token t0 state \<Longrightarrow> validated_gate (Some g) = Inr (Some g)"
  by (simp add: sound_gate_def validated_gate_def gate_of_def nonblank_def require_def)

lemma validated_gate_sound:
  assumes "validated_gate (Some g) = Inr r" "gate_of g uid kind token"
  obtains t0 state where "sound_gate g uid kind token t0 state"
  using assms
  by (auto simp: sound_gate_def validated_gate_def gate_of_def nonblank_def in_names_def split: pyval.split_asm)

definition owns :: "(path \<Rightarrow> doc option) \<Rightarrow> string \<Rightarrow> string \<Rightarrow> string \<Rightarrow> int \<Rightarrow> bool" where
  "owns rd uid kind token t0 \<longleftrightarrow>
     (\<exists>g. rd (gate_ref uid) = Some g \<and> sound_gate g uid kind token t0 ''running'')
     \<and> assert_hold_inactive (rd (hold_ref uid)) = Inr ()"

lemma owns_gate:
  assumes "owns rd uid kind token t0"
  obtains g where "rd (gate_ref uid) = Some g" "sound_gate g uid kind token t0 ''running''" "validated_gate (Some g) = Inr (Some g)"
  using assms sound_gate_valid by (auto simp: owns_def)

lemma owns_asserts: "owns rd uid kind token t0 \<Longrightarrow> assert_destructive_operation_transaction uid kind token rd = Inr ()"
  using sound_gate_valid by (fastforce simp: owns_def assert_destructive_operation_transaction_def sound_gate_def)

lemma owns_blocks:
  assumes "owns rd uid kind token t0" "kind \<noteq> ''external_data_write''" "now - t0 < td_seconds GATE_STALE_AFTER_SECONDS"
  shows "gate_blocks (rd (gate_ref uid)) now"
  using assms by (auto simp: owns_def sound_gate_def gate_blocks_def gate_of_def OBSOLETE_WRITER_GATE_KIND_def)

lemma owns_fences_writers:
  assumes "owns rd uid kind token t0" "kind \<noteq> ''external_data_write''" "now - t0 < td_seconds GATE_STALE_AFTER_SECONDS"
  shows "assert_no_destructive_operation_transaction uid now rd = Inl DestructiveOperationInProgress"
  using assms(1) by (rule owns_gate) (use owns_blocks [OF assms] in \<open>simp add: assert_no_destructive_operation_transaction_def\<close>)

subsection \<open>Histories\<close>

text \<open>
  The operations on one account's authority documents. \<open>Elsewhere\<close> is any write set of other
  code; the service rejects one that is not well formed.
\<close>

datatype hold_op =
    Place_Hold string bool int
  | Acquire_Gate string string int
  | Finish_Gate string string string int
  | Elsewhere "write list"

fun hold_step ::
  "('s \<Rightarrow> path \<Rightarrow> doc option) \<Rightarrow> ('s \<Rightarrow> write list \<Rightarrow> 's) \<Rightarrow> string \<Rightarrow> hold_op \<Rightarrow> 's \<Rightarrow> unit res \<times> 's" where
  "hold_step fetch commit uid (Place_Hold issuer active now) st = place_legal_hold fetch commit uid issuer active now st"
| "hold_step fetch commit uid (Acquire_Gate kind token now) st = acquire_destructive_operation fetch commit uid kind token now st"
| "hold_step fetch commit uid (Finish_Gate kind token outcome now) st =
     finish_destructive_operation fetch commit uid kind token outcome now st"
| "hold_step fetch commit uid (Elsewhere ws) st =
     (if writes_ok (fetch st) ws then (Inr (), commit st ws) else (Inl (OtherError ''google_api''), st))"

text \<open>What somebody other than the owner of the gate may do while the gate is live.\<close>

fun rival :: "string \<Rightarrow> string \<Rightarrow> string \<Rightarrow> int \<Rightarrow> hold_op \<Rightarrow> bool" where
  "rival uid kind token t0 (Place_Hold issuer active now) = (now - t0 < td_seconds GATE_STALE_AFTER_SECONDS)"
| "rival uid kind token t0 (Acquire_Gate k t now) = ((k, t) \<noteq> (kind, token) \<and> now - t0 < td_seconds GATE_STALE_AFTER_SECONDS)"
| "rival uid kind token t0 (Finish_Gate k t outcome now) = ((k, t) \<noteq> (kind, token))"
| "rival uid kind token t0 (Elsewhere ws) = ({hold_ref uid, gate_ref uid} \<inter> wpath ` set ws = {})"

fun contends :: "hold_op \<Rightarrow> bool" where
  "contends (Place_Hold issuer active now) = active"
| "contends (Acquire_Gate kind token now) = True"
| "contends _ = False"

fun lifts :: "string \<Rightarrow> hold_op \<Rightarrow> bool" where
  "lifts uid (Place_Hold issuer active now) = (\<not> active)"
| "lifts uid (Elsewhere ws) = (hold_ref uid \<in> wpath ` set ws)"
| "lifts uid _ = False"

definition under_hold :: "(path \<Rightarrow> doc option) \<Rightarrow> string \<Rightarrow> bool" where
  "under_hold rd uid \<longleftrightarrow> assert_hold_inactive (rd (hold_ref uid)) = Inl LegalHoldActive"

text \<open>An operation that has lost the gate: the gate is there and names somebody else.\<close>

definition lost_gate :: "(path \<Rightarrow> doc option) \<Rightarrow> string \<Rightarrow> string \<Rightarrow> string \<Rightarrow> bool" where
  "lost_gate rd uid kind token \<longleftrightarrow> (\<exists>g. rd (gate_ref uid) = Some g \<and> \<not> gate_of g uid kind token)"

fun regains :: "string \<Rightarrow> string \<Rightarrow> string \<Rightarrow> hold_op \<Rightarrow> bool" where
  "regains uid kind token (Acquire_Gate k t now) = (k = kind \<and> t = token)"
| "regains uid kind token (Elsewhere ws) = (gate_ref uid \<in> wpath ` set ws)"
| "regains uid kind token _ = False"

text \<open>A call either changes nothing or commits the writes of its transaction.\<close>

context firestore
begin

lemma hold_step_rival:
  assumes own: "owns (fetch st) uid kind token t0" and kind: "kind \<noteq> ''external_data_write''" and r: "rival uid kind token t0 op"
  shows "owns (fetch (snd (hold_step fetch commit uid op st))) uid kind token t0
    \<and> (contends op \<longrightarrow> (\<exists>e. fst (hold_step fetch commit uid op st) = Inl e))"
proof -
  obtain g where g: "fetch st (gate_ref uid) = Some g" "sound_gate g uid kind token t0 ''running''" "validated_gate (Some g) = Inr (Some g)"
    using own by (rule owns_gate)
  have blocks: "gate_blocks (Some g) now" if "now - t0 < td_seconds GATE_STALE_AFTER_SECONDS" for now
    using owns_blocks [OF own kind that] g(1) by simp
  have running: "dget g ''state'' = PStr ''running''" and ident: "gate_of g uid k t \<longleftrightarrow> k = kind \<and> t = token" for k t
    using g(2) by (auto simp: sound_gate_def gate_of_def)
  show ?thesis
  proof (cases op)
    case (Place_Hold issuer active now)
    let ?ws = "[SetMerge (hold_ref uid) [(''schema_version'', Put (PStr LEGAL_HOLD_SCHEMA_VERSION)), (''issuer'', Put (PStr issuer)),
        (''active'', Put (PBool active)), (''updated_at'', Put (PTime now))]]"
    have "owns (fetch (commit st ?ws)) uid kind token t0" if "\<not> active" "issuer \<in> set AUTHORIZED_ISSUERS"
    proof -
      have "writes_ok (fetch st) ?ws" by simp
      then show ?thesis
        using own that by (cases "fetch st (hold_ref uid)")
          (simp_all add: owns_def fetch_commit assert_hold_inactive_def validated_hold_def dget_def require_def)
    qed
    then show ?thesis
      using own r blocks
      by (auto simp: Place_Hold place_legal_hold_def run_txn_def place_legal_hold_transaction_def g(1,3) Let_def)
  next
    case (Acquire_Gate k t now)
    have "\<exists>e. acquire_destructive_operation_transaction uid k t now (fetch st) = Inl e"
      using own r blocks running ident
      by (auto simp: Acquire_Gate acquire_destructive_operation_transaction_def g(1,3) Let_def owns_def require_def)
    then show ?thesis
      using own by (auto simp: Acquire_Gate acquire_destructive_operation_def)
  next
    case (Finish_Gate k t outcome now)
    have "finish_destructive_operation_transaction uid k t outcome now (fetch st) = Inl LegalHoldAuthorityUnavailable"
      using r ident by (auto simp: Finish_Gate finish_destructive_operation_transaction_def g(1,3))
    then show ?thesis
      using own by (auto simp: Finish_Gate finish_destructive_operation_def)
  next
    case (Elsewhere ws)
    then show ?thesis using own r by (auto simp: owns_def fetch_commit_other)
  qed
qed

lemma acquire_owns:
  assumes "acquire_destructive_operation fetch commit uid kind token now st = (Inr (), st1)"
    and kind: "kind \<noteq> ''external_data_write''" and uid: "py_strip uid \<noteq> []"
  shows "\<exists>t0. owns (fetch st1) uid kind token t0 \<and> (t0 = now \<or> owns (fetch st) uid kind token t0)"
proof -
  obtain gate ws where hold: "assert_hold_inactive (fetch st (hold_ref uid)) = Inr ()"
    and gate: "validated_gate (fetch st (gate_ref uid)) = Inr gate"
    and ids: "py_strip kind \<noteq> []" "py_strip token \<noteq> []"
    and ws: "acquire_destructive_operation_transaction uid kind token now (fetch st) = Inr ((), ws)" "st1 = commit st ws"
    using assms(1) kind
    by (auto simp: acquire_destructive_operation_def run_txn_def acquire_destructive_operation_transaction_def
        split: if_split_asm sum.split_asm prod.split_asm)
  note g = validated_gate_Inr [OF gate]
  let ?w = "SetDoc (gate_ref uid) (running_gate uid kind token now)"
  show ?thesis
  proof (cases "ws = []")
    case True
    then obtain d where d: "gate = Some d" "gate_of d uid kind token" "dget d ''state'' = PStr ''running''"
      using ws(1) kind by (auto simp: acquire_destructive_operation_transaction_def gate hold Let_def split: if_split_asm option.split_asm)
    have "\<exists>t0 state. sound_gate d uid kind token t0 state"
      using gate d by (metis g validated_gate_sound)
    then have "\<exists>t0. owns (fetch st) uid kind token t0"
      using d(1,3) g hold by (auto simp: owns_def sound_gate_def)
    moreover have "fetch st1 = fetch st" by (rule ext) (simp add: ws(2) True fetch_commit)
    ultimately show ?thesis by auto
  next
    case False
    then have "ws = [?w]"
      using ws(1) kind by (auto simp: acquire_destructive_operation_transaction_def gate hold Let_def split: if_split_asm)
    moreover have "writes_ok (fetch st) [?w]" by simp
    ultimately have "owns (fetch st1) uid kind token now"
      using hold ids uid by (simp add: ws(2) owns_def fetch_commit running_gate_def sound_gate_def gate_of_def dget_def GATE_STATES_def)
    then show ?thesis by blast
  qed
qed

lemma hold_step_cases:
  obtains (quiet) "fetch (snd (hold_step fetch commit uid op st)) = fetch st"
  | (placed) issuer active now where "op = Place_Hold issuer active now" "issuer \<in> set AUTHORIZED_ISSUERS"
      "fetch (snd (hold_step fetch commit uid op st)) = (fetch st)(hold_ref uid \<mapsto>
         upd_fields (case fetch st (hold_ref uid) of None \<Rightarrow> Map.empty | Some d \<Rightarrow> d)
           [(''schema_version'', Put (PStr LEGAL_HOLD_SCHEMA_VERSION)), (''issuer'', Put (PStr issuer)),
            (''active'', Put (PBool active)), (''updated_at'', Put (PTime now))])"
  | (acquired) kind token now where "op = Acquire_Gate kind token now"
      "fetch (snd (hold_step fetch commit uid op st)) =
         (fetch st)(gate_ref uid \<mapsto> upd_fields Map.empty (running_gate uid kind token now))"
  | (finished) g outcome now where "fetch st (gate_ref uid) = Some g"
      "fetch (snd (hold_step fetch commit uid op st)) =
         (fetch st)(gate_ref uid \<mapsto> upd_fields g [(''state'', Put (PStr outcome)), (''finished_at'', Put (PTime now))])"
  | (elsewhere) ws where "op = Elsewhere ws" "\<forall>p. p \<notin> wpath ` set ws \<longrightarrow> fetch (snd (hold_step fetch commit uid op st)) p = fetch st p"
proof (cases "fetch (snd (hold_step fetch commit uid op st)) = fetch st")
  case False
  have nil: "fetch (commit st []) = fetch st" by (rule ext) (simp add: fetch_commit)
  have one: "fetch (commit st [w]) = (fetch st)(wpath w := wdoc w (fetch st (wpath w)))" if "write_ok (fetch st) w" for w
    using fetch_commit [of st "[w]"] that by (auto simp: fun_eq_iff)
  show thesis
  proof (cases op)
    case (Place_Hold issuer active now)
    with False show thesis
      by (intro placed [OF Place_Hold])
        (auto simp: place_legal_hold_def run_txn_def place_legal_hold_transaction_def Let_def one split: if_split_asm sum.split_asm option.split)
  next
    case (Acquire_Gate kind token now)
    with False show thesis
      by (intro acquired [OF Acquire_Gate])
        (auto simp: acquire_destructive_operation_def run_txn_def acquire_destructive_operation_transaction_def Let_def one nil
          split: if_split_asm sum.split_asm)
  next
    case (Finish_Gate kind token outcome now)
    with False obtain u ws where ws: "finish_destructive_operation_transaction uid kind token outcome now (fetch st) = Inr (u, ws)"
      "fetch (commit st ws) \<noteq> fetch st" "snd (hold_step fetch commit uid op st) = commit st ws"
      by (auto simp: finish_destructive_operation_def run_txn_def split: if_split_asm sum.split_asm)
    from finish_writes [OF ws(1)] ws(2) obtain g where "fetch st (gate_ref uid) = Some g"
      "fetch (snd (hold_step fetch commit uid op st)) =
         (fetch st)(gate_ref uid \<mapsto> upd_fields g [(''state'', Put (PStr outcome)), (''finished_at'', Put (PTime now))])"
      by (auto simp: ws(3) one nil)
    then show thesis by (rule finished)
  next
    case (Elsewhere ws)
    with False show thesis by (intro elsewhere [OF Elsewhere]) (auto simp: fetch_commit_other split: if_split_asm)
  qed
qed (rule quiet)

lemma hold_step_held:
  assumes "under_hold (fetch st) uid" "\<not> lifts uid op"
  shows "under_hold (fetch (snd (hold_step fetch commit uid op st))) uid
    \<and> (\<forall>kind token now. op = Acquire_Gate kind token now \<longrightarrow> kind \<noteq> ''external_data_write'' \<longrightarrow>
         (\<exists>e. fst (hold_step fetch commit uid op st) = Inl e))"
proof
  show "under_hold (fetch (snd (hold_step fetch commit uid op st))) uid"
    using assms
    by (cases rule: hold_step_cases [of uid op st])
      (auto simp: under_hold_def assert_hold_inactive_def validated_hold_def dget_def require_def)
  show "\<forall>kind token now. op = Acquire_Gate kind token now \<longrightarrow> kind \<noteq> ''external_data_write'' \<longrightarrow>
         (\<exists>e. fst (hold_step fetch commit uid op st) = Inl e)"
    using assms(1)
    by (auto simp: under_hold_def acquire_destructive_operation_def run_txn_def acquire_destructive_operation_transaction_def)
qed

lemma hold_step_lost:
  assumes "lost_gate (fetch st) uid kind token" "\<not> regains uid kind token op"
  shows "lost_gate (fetch (snd (hold_step fetch commit uid op st))) uid kind token"
  using assms
  by (cases rule: hold_step_cases [of uid op st])
    (auto simp: lost_gate_def gate_of_def running_gate_def dget_def)

lemma placed_held:
  assumes "hold_step fetch commit uid (Place_Hold issuer True now) st = (Inr (), st1)"
  shows "under_hold (fetch st1) uid"
  using assms
  by (cases "fetch st (hold_ref uid)")
    (auto simp: place_legal_hold_def run_txn_def place_legal_hold_transaction_def Let_def under_hold_def fetch_commit
      assert_hold_inactive_def validated_hold_def dget_def require_def
      split: if_split_asm sum.split_asm)

lemma acquired_lost:
  assumes acq: "acquire_destructive_operation fetch commit uid kind2 token2 now st = (Inr (), st1)"
    and neq: "(kind2, token2) \<noteq> (kind, token)"
  shows "lost_gate (fetch st1) uid kind token"
proof -
  obtain ws where ws: "acquire_destructive_operation_transaction uid kind2 token2 now (fetch st) = Inr ((), ws)" "st1 = commit st ws"
    using acq by (auto simp: acquire_destructive_operation_def run_txn_def split: if_split_asm sum.split_asm)
  then consider "ws = []" | "ws = [SetDoc (gate_ref uid) (running_gate uid kind2 token2 now)]"
    by (auto simp: acquire_destructive_operation_transaction_def Let_def split: if_split_asm)
  then show ?thesis
  proof cases
    case 1
    with ws(1) obtain g where "fetch st (gate_ref uid) = Some g" "gate_of g uid kind2 token2"
      by (auto simp: acquire_destructive_operation_transaction_def Let_def split: if_split_asm option.split_asm dest: validated_gate_Inr)
    with neq show ?thesis by (auto simp: lost_gate_def gate_of_def ws(2) 1 fetch_commit)
  next
    case 2
    then have "fetch st1 (gate_ref uid) = Some (upd_fields Map.empty (running_gate uid kind2 token2 now))"
      by (simp add: ws(2) fetch_commit)
    with neq show ?thesis by (auto simp: lost_gate_def gate_of_def running_gate_def dget_def)
  qed
qed

end

text \<open>The definitions concrete runs unfold.\<close>

lemmas hold_eval = acquire_destructive_operation_def acquire_destructive_operation_transaction_def place_legal_hold_def
  place_legal_hold_transaction_def finish_destructive_operation_def finish_destructive_operation_transaction_def
  run_txn_def running_gate_def validated_gate_def validated_hold_def assert_hold_inactive_def gate_blocks_def gate_of_def
  in_names_def require_def nonblank_def py_strip_def py_space_def dget_def td_seconds_def mem_fetch_def mem_commit_def Let_def
  AUTHORIZED_ISSUERS_def GATE_STATES_def GATE_STALE_AFTER_SECONDS_def OBSOLETE_WRITER_GATE_KIND_def

subsection \<open>The gate excludes rivals\<close>

text \<open>
  C11. Once a destructive operation has acquired its account's gate, and for six hours from the
  start the gate records, whatever other code does to the account in whatever order: no other
  operation acquires the gate, no legal hold is placed on the account, every fenced writer is
  refused, and the owner's irreversible transactions still find the gate theirs and no hold.
\<close>

theorem gate_excludes_rivals:
  assumes "firestore fetch commit"
    and "acquire_destructive_operation fetch commit uid kind token now st = (Inr (), st1)"
    and "kind \<noteq> ''external_data_write''" "py_strip uid \<noteq> []"
    and "dget (the (fetch st1 (gate_ref uid))) ''started_at'' = PTime t0"
    and "\<forall>op \<in> set ops. rival uid kind token t0 op"
    and "run_ops (hold_step fetch commit uid) ops st1 = (answers, st2)"
  shows "(\<forall>(op, r) \<in> set answers. contends op \<longrightarrow> (\<exists>e. r = Inl e))
    \<and> assert_destructive_operation_transaction uid kind token (fetch st2) = Inr ()
    \<and> (\<forall>t. t - t0 < td_seconds GATE_STALE_AFTER_SECONDS \<longrightarrow>
         assert_no_destructive_operation_transaction uid t (fetch st2) = Inl DestructiveOperationInProgress)"
proof -
  obtain t1 where "owns (fetch st1) uid kind token t1"
    using firestore.acquire_owns [OF assms(1-4)] by blast
  with assms(5) have own: "owns (fetch st1) uid kind token t0" by (auto simp: owns_def sound_gate_def)
  have "owns (fetch st2) uid kind token t0 \<and> (\<forall>(op, r) \<in> set answers. contends op \<longrightarrow> (\<exists>e. r = Inl e))"
    by (rule run_ops_answers [where I = "\<lambda>st. owns (fetch st) uid kind token t0", OF _ assms(7) own assms(6)])
      (rule firestore.hold_step_rival [OF assms(1) _ assms(3)])
  then show ?thesis using owns_asserts owns_fences_writers [OF _ assms(3)] by blast
qed

theorem gate_excludes_rivals_witness:
  "\<exists>st2. assert_destructive_operation_transaction ''u'' ''wipe'' ''t'' (mem_fetch st2) = Inr ()
    \<and> fst (run_ops (hold_step mem_fetch mem_commit ''u'') [Place_Hold ''admin'' True 7, Acquire_Gate ''other'' ''t2'' 9]
         (mem_commit (\<lambda>p. None) [SetDoc (gate_ref ''u'') (running_gate ''u'' ''wipe'' ''t'' 5)]))
       = [(Place_Hold ''admin'' True 7, Inl DestructiveOperationInProgress),
          (Acquire_Gate ''other'' ''t2'' 9, Inl DestructiveOperationInProgress)]"
proof -
  let ?st1 = "mem_commit (\<lambda>p. None) [SetDoc (gate_ref ''u'') (running_gate ''u'' ''wipe'' ''t'' 5)]"
  let ?ops = "[Place_Hold ''admin'' True 7, Acquire_Gate ''other'' ''t2'' 9]"
  have gate: "mem_fetch ?st1 (gate_ref ''u'') = Some (upd_fields Map.empty (running_gate ''u'' ''wipe'' ''t'' 5))"
    by (simp add: mem_fetch_def mem_commit_def)
  have run: "run_ops (hold_step mem_fetch mem_commit ''u'') ?ops ?st1 =
      ([(Place_Hold ''admin'' True 7, Inl DestructiveOperationInProgress),
        (Acquire_Gate ''other'' ''t2'' 9, Inl DestructiveOperationInProgress)], ?st1)"
    by (simp add: place_legal_hold_def AUTHORIZED_ISSUERS_def run_txn_def place_legal_hold_transaction_def gate hold_eval)
  have "assert_destructive_operation_transaction ''u'' ''wipe'' ''t'' (mem_fetch ?st1) = Inr ()"
    using gate_excludes_rivals [OF mem.firestore_axioms _ _ _ _ _ run, of "''wipe''" "''t''" 5 "\<lambda>p. None" 5]
    by (simp add: gate hold_eval)
  with run show ?thesis by auto
qed

subsection \<open>Holds and superseded operations\<close>

text \<open>
  C12. Once a legal hold is placed on an account, and until one is placed that is not active,
  in whatever order the account's operations run: no destructive operation acquires the gate,
  and no irreversible transaction passes its check, not even one of an operation that had
  acquired the gate before the hold was placed on a stale gate.
\<close>

theorem active_hold_bars_deletion:
  assumes "firestore fetch commit"
    and "place_legal_hold fetch commit uid issuer True now st = (Inr (), st1)"
    and "\<forall>op \<in> set ops. \<not> lifts uid op"
    and "run_ops (hold_step fetch commit uid) ops st1 = (answers, st2)"
  shows "(\<forall>(op, r) \<in> set answers. \<forall>kind token t. op = Acquire_Gate kind token t \<longrightarrow> kind \<noteq> ''external_data_write'' \<longrightarrow> (\<exists>e. r = Inl e))
    \<and> (\<forall>kind token. assert_destructive_operation_transaction uid kind token (fetch st2) = Inl LegalHoldActive)
    \<and> assert_account_deletion_permitted (fetch st2) uid = Inl LegalHoldActive"
proof -
  have uid: "uid \<noteq> []" and step: "hold_step fetch commit uid (Place_Hold issuer True now) st = (Inr (), st1)"
    using assms(2) by (auto simp: place_legal_hold_def split: if_split_asm)
  have "under_hold (fetch st1) uid"
    using firestore.placed_held [OF assms(1)] step by simp
  then have "under_hold (fetch st2) uid \<and> (\<forall>(op, r) \<in> set answers. \<forall>kind token t. op = Acquire_Gate kind token t \<longrightarrow>
      kind \<noteq> ''external_data_write'' \<longrightarrow> (\<exists>e. r = Inl e))"
    by (intro run_ops_answers [where I = "\<lambda>st. under_hold (fetch st) uid", OF _ assms(4) _ assms(3)])
      (rule firestore.hold_step_held [OF assms(1)])
  with uid show ?thesis
    by (auto simp: under_hold_def assert_destructive_operation_transaction_def assert_account_deletion_permitted_def)
qed

theorem active_hold_bars_deletion_witness:
  "\<exists>st2. assert_account_deletion_permitted (mem_fetch st2) ''u'' = Inl LegalHoldActive"
proof -
  let ?st1 = "mem_commit (\<lambda>p. None) [SetMerge (hold_ref ''u'')
       [(''schema_version'', Put (PStr LEGAL_HOLD_SCHEMA_VERSION)), (''issuer'', Put (PStr ''admin'')),
        (''active'', Put (PBool True)), (''updated_at'', Put (PTime 3))]]"
  have p: "place_legal_hold mem_fetch mem_commit ''u'' ''admin'' True 3 (\<lambda>p. None) = (Inr (), ?st1)"
    by (simp add: hold_eval)
  obtain answers st2 where run: "run_ops (hold_step mem_fetch mem_commit ''u'') [Acquire_Gate ''wipe'' ''t'' 9] ?st1 = (answers, st2)"
    by fastforce
  show ?thesis
    using active_hold_bars_deletion [OF mem.firestore_axioms p _ run] by auto
qed

text \<open>
  A destructive operation that was superseded is fenced: once another operation acquires
  the gate (after six hours, when the first is taken for abandoned), the first can neither pass
  the check of its irreversible transactions nor finish the gate, whatever else happens, unless
  it acquires the gate again.
\<close>

lemma superseded_operation_fenced:
  assumes "firestore fetch commit"
    and "acquire_destructive_operation fetch commit uid kind2 token2 now st = (Inr (), st1)" "(kind2, token2) \<noteq> (kind, token)"
    and "\<forall>op \<in> set ops. \<not> regains uid kind token op"
    and "run_ops (hold_step fetch commit uid) ops st1 = (answers, st2)"
  shows "(\<exists>e. assert_destructive_operation_transaction uid kind token (fetch st2) = Inl e)
    \<and> (\<exists>e. finish_destructive_operation fetch commit uid kind token outcome t st2 = (Inl e, st2))"
proof -
  have "lost_gate (fetch st1) uid kind token"
    using firestore.acquired_lost [OF assms(1,2,3)] .
  then have "lost_gate (fetch st2) uid kind token"
    using run_ops_invariant [of "\<lambda>st. lost_gate (fetch st) uid kind token" "\<lambda>op. \<not> regains uid kind token op" "hold_step fetch commit uid" st1 ops]
      firestore.hold_step_lost [OF assms(1)] assms(4,5) by simp
  then obtain g where g: "fetch st2 (gate_ref uid) = Some g" "\<not> gate_of g uid kind token" by (auto simp: lost_gate_def)
  then have "\<exists>e. finish_destructive_operation_transaction uid kind token outcome t (fetch st2) = Inl e"
    by (cases "validated_gate (Some g)") (auto simp: finish_destructive_operation_transaction_def dest: validated_gate_Inr)
  moreover have "\<exists>e. assert_destructive_operation_transaction uid kind token (fetch st2) = Inl e"
    using g by (cases "assert_hold_inactive (fetch st2 (hold_ref uid))"; cases "validated_gate (Some g)")
      (auto simp: assert_destructive_operation_transaction_def require_def dest: validated_gate_Inr)
  ultimately show ?thesis by (auto simp: finish_destructive_operation_def)
qed

subsection \<open>The context manager\<close>

lemma finish_owned:
  assumes "firestore fetch commit" "owns (fetch st) uid kind token t0" "outcome \<in> {''failed'', ''completed''}"
  obtains st' g where "finish_destructive_operation fetch commit uid kind token outcome now st = (Inr (), st')"
    "fetch st' (gate_ref uid) = Some g" "sound_gate g uid kind token t0 outcome"
proof -
  obtain g where g: "fetch st (gate_ref uid) = Some g" "sound_gate g uid kind token t0 ''running''" "validated_gate (Some g) = Inr (Some g)"
    using assms(2) by (rule owns_gate)
  let ?fs = "[(''state'', Put (PStr outcome)), (''finished_at'', Put (PTime now))]"
  have "finish_destructive_operation fetch commit uid kind token outcome now st = (Inr (), commit st [SetMerge (gate_ref uid) ?fs])"
    using g assms(3) by (auto simp: finish_destructive_operation_def run_txn_def finish_destructive_operation_transaction_def sound_gate_def)
  moreover have "fetch (commit st [SetMerge (gate_ref uid) ?fs]) (gate_ref uid) = Some (upd_fields g ?fs)"
    using firestore.fetch_commit [OF assms(1), of st "[SetMerge (gate_ref uid) ?fs]"] by (simp add: g(1))
  moreover have "sound_gate (upd_fields g ?fs) uid kind token t0 outcome"
    using g(2) assms(3) by (auto simp: sound_gate_def gate_of_def dget_def GATE_STATES_def)
  ultimately show thesis by (rule that)
qed

lemma finished_gate_open:
  assumes "rd (gate_ref uid) = Some g" "sound_gate g uid kind token t0 state" "state \<noteq> ''running''"
  shows "assert_no_destructive_operation_transaction uid t rd = Inr ()"
  using assms sound_gate_valid [OF assms(2)]
  by (simp add: assert_no_destructive_operation_transaction_def gate_blocks_def sound_gate_def)

text \<open>
  The context manager gives the block's own answer, an exception included, and leaves the
  gate released on both exits, recorded as completed after a normal exit and as failed after an
  exception: fenced writers are admitted again at once.
\<close>

lemma gate_manager_releases:
  assumes "firestore fetch commit"
    and "acquire_destructive_operation fetch commit uid kind token started st = (Inr (), st1)"
    and "body (Some (uid, kind, token)) token st1 = (r, st2)" "owns (fetch st2) uid kind token t0"
  shows "\<exists>st3 g. destructive_operation_gate fetch commit None uid kind token started finished body st = (r, st3)
    \<and> fetch st3 (gate_ref uid) = Some g
    \<and> dget g ''state'' = PStr (case r of Inl e \<Rightarrow> ''failed'' | Inr x \<Rightarrow> ''completed'')
    \<and> (\<forall>t. assert_no_destructive_operation_transaction uid t (fetch st3) = Inr ())"
proof -
  let ?o = "case r of Inl e \<Rightarrow> ''failed'' | Inr x \<Rightarrow> ''completed''"
  have o: "?o \<in> {''failed'', ''completed''}" "?o \<noteq> ''running''" by (auto split: sum.split)
  obtain st3 g where f: "finish_destructive_operation fetch commit uid kind token ?o finished st2 = (Inr (), st3)"
    "fetch st3 (gate_ref uid) = Some g" "sound_gate g uid kind token t0 ?o"
    using assms(1,4) o(1) by (rule finish_owned)
  have "destructive_operation_gate fetch commit None uid kind token started finished body st = (r, st3)"
    using f(1) assms(2,3) by (cases r) (simp_all add: destructive_operation_gate_def)
  with f(2,3) finished_gate_open [where rd = "fetch st3", OF f(2,3) o(2)] show ?thesis by (auto simp: sound_gate_def)
qed

text \<open>
  A gate that is older than six hours does not keep a hold off, although its operation may
  still be running; from then on the operation is refused.
\<close>

lemma stale_gate_admits_hold:
  assumes "owns rd uid kind token t0" "now - t0 \<ge> td_seconds GATE_STALE_AFTER_SECONDS" "rd (deletion_ref uid) = None"
  shows "\<exists>ws. place_legal_hold_transaction uid issuer True now rd = Inr ((), ws)"
proof -
  obtain g where g: "rd (gate_ref uid) = Some g" "sound_gate g uid kind token t0 ''running''" "validated_gate (Some g) = Inr (Some g)"
    using assms(1) by (rule owns_gate)
  then have "\<not> gate_blocks (Some g) now" using assms(2) by (simp add: gate_blocks_def sound_gate_def)
  with g assms(3) show ?thesis by (simp add: place_legal_hold_transaction_def Let_def)
qed

subsection \<open>Writers behind the fence\<close>

text \<open>
  The contract of a transaction that runs \<open>assert_no_destructive_operation_transaction\<close> before it
  stages a write: where the fence raises, it raises or writes nothing.
\<close>

locale fenced_writer =
  fixes body :: "string \<Rightarrow> int \<Rightarrow> (path \<Rightarrow> doc option) \<Rightarrow> ('r \<times> write list) res"
  assumes fenced: "assert_no_destructive_operation_transaction uid now rd = Inl e \<Longrightarrow>
    (\<exists>e'. body uid now rd = Inl e') \<or> (\<exists>r. body uid now rd = Inr (r, []))"
begin

lemma owned_quiet:
  assumes "firestore fetch commit" "owns (fetch st) uid kind token t0" "kind \<noteq> ''external_data_write''"
    and "now - t0 < td_seconds GATE_STALE_AFTER_SECONDS"
  shows "fetch (snd (run_txn fetch commit (body uid now) st)) = fetch st"
  using fenced [OF owns_fences_writers [OF assms(2-4)]] firestore.fetch_commit [OF assms(1), of st "[]"]
  by (auto simp: run_txn_def fun_eq_iff)

end

end
