(* ===== verification/Memory_Ledger.thy ===== *)
theory Memory_Ledger
  imports Legal_Holds
begin

text \<open>
  \<^verbatim>\<open>database/memory_ledger.py\<close>: the append-only ledger of a user's memory, a chain of commits
  whose head the document \<^verbatim>\<open>memory_state/head\<close> names. A commit's id is a digest of its parent and
  its mutations (the parameter \<open>digest\<close> stands for SHA-256 of the canonical JSON of the payload
  it is given). The theory has the construction of commits, the two transactions that append
  one, the in-memory reference \<open>append_commit_to_history\<close>, the privacy fences, and the trusted
  fields of the head document (\<^verbatim>\<open>models/memory_state_head.py\<close>).
\<close>

subsection \<open>Documents\<close>

definition commit_ref :: "string \<Rightarrow> string \<Rightarrow> path" where
  "commit_ref uid commit_id = [''users'', uid, ''memory_commits'', commit_id]"

definition state_ref :: "string \<Rightarrow> path" where
  "state_ref uid = [''users'', uid, ''memory_state'', ''head'']"

definition control_ref :: "string \<Rightarrow> path" where
  "control_ref uid = [''users'', uid, ''memory_state'', ''apply_control'']"

definition item_ref :: "string \<Rightarrow> string \<Rightarrow> path" where
  "item_ref uid memory_id = [''users'', uid, ''memory_items'', memory_id]"

definition override_ref :: "string \<Rightarrow> string \<Rightarrow> path" where
  "override_ref uid memory_id = [''users'', uid, ''memory_historical_overrides'', memory_id]"

lemma ledger_refs [simp]:
  "commit_ref u c = commit_ref v d \<longleftrightarrow> u = v \<and> c = d"
  "commit_ref u c \<noteq> state_ref v" "state_ref v \<noteq> commit_ref u c"
  "gate_ref w \<noteq> commit_ref u c" "gate_ref w \<noteq> state_ref v" "hold_ref w \<noteq> commit_ref u c" "hold_ref w \<noteq> state_ref v"
  "commit_ref u c \<noteq> gate_ref w" "state_ref v \<noteq> gate_ref w" "commit_ref u c \<noteq> hold_ref w" "state_ref v \<noteq> hold_ref w"
  by (simp_all add: commit_ref_def state_ref_def gate_ref_def hold_ref_def)

definition stored :: "(path \<Rightarrow> doc option) \<Rightarrow> path \<Rightarrow> doc" where
  "stored rd ref = (case rd ref of None \<Rightarrow> Map.empty | Some d \<Rightarrow> d)"

declare upd_put_all [simp]

subsection \<open>The trusted fields of the head\<close>

definition MEMORY_STATE_HEAD_SCHEMA_VERSION :: int where
  "MEMORY_STATE_HEAD_SCHEMA_VERSION = 1"

definition MEMORY_STATE_HEAD_SOURCE :: string where
  "MEMORY_STATE_HEAD_SOURCE = ''memory_state_head''"

definition trusted_memory_state_head_fields :: "string \<Rightarrow> pyval \<Rightarrow> pyval \<Rightarrow> pyval \<Rightarrow> dict option" where
  "trusted_memory_state_head_fields uid account_generation head_commit_id commit_sequence =
     (case (account_generation, head_commit_id, commit_sequence) of
        (PInt g, PStr h, PInt s) \<Rightarrow>
          if uid = [] \<or> g < 0 \<or> h = [] \<or> s < 0 then None
          else Some [(''schema_version'', PInt MEMORY_STATE_HEAD_SCHEMA_VERSION), (''uid'', PStr uid),
                     (''source'', PStr MEMORY_STATE_HEAD_SOURCE), (''account_generation'', PInt g),
                     (''head_commit_id'', PStr h), (''commit_sequence'', PInt s)]
      | _ \<Rightarrow> None)"

definition trusted_memory_state_head_fields_from_state :: "doc \<Rightarrow> string \<Rightarrow> dict option" where
  "trusted_memory_state_head_fields_from_state state uid =
     (if \<not> py_eq (dget state ''schema_version'') (PInt MEMORY_STATE_HEAD_SCHEMA_VERSION)
         \<or> dget state ''uid'' \<noteq> PStr uid \<or> dget state ''source'' \<noteq> PStr MEMORY_STATE_HEAD_SOURCE then None
      else trusted_memory_state_head_fields uid (dget state ''account_generation'') (dget state ''head_commit_id'')
             (dget state ''commit_sequence''))"

definition trusted_memory_state_head_fields_from_control :: "doc \<Rightarrow> string \<Rightarrow> dict option" where
  "trusted_memory_state_head_fields_from_control control uid =
     (if dget control ''uid'' \<noteq> PStr uid then None
      else trusted_memory_state_head_fields uid (dget control ''account_generation'') (dget control ''head_commit_id'')
             (dget control ''commit_sequence''))"

subsection \<open>Commits\<close>

definition commit_id_for :: "(pyval \<Rightarrow> string) \<Rightarrow> pyval \<Rightarrow> dict list \<Rightarrow> string" where
  "commit_id_for digest parent_commit_id mutations =
     digest (PDict [(''parent_commit_id'', parent_commit_id), (''mutations'', PList (map PDict mutations))])"

definition build_commit :: "(pyval \<Rightarrow> string) \<Rightarrow> pyval \<Rightarrow> dict list \<Rightarrow> pyval \<Rightarrow> int \<Rightarrow> dict" where
  "build_commit digest parent_commit_id mutations run_id commit_time =
     [(''commit_id'', PStr (commit_id_for digest parent_commit_id mutations)), (''parent_commit_id'', parent_commit_id),
      (''commit_time'', PTime commit_time), (''run_id'', run_id), (''mutations'', PList (map PDict mutations))]"

lemma build_commit_reads [simp]:
  "map_of (build_commit digest p ms r t) ''commit_id'' = Some (PStr (commit_id_for digest p ms))"
  "map_of (build_commit digest p ms r t) ''parent_commit_id'' = Some p"
  "map_of (build_commit digest p ms r t) ''commit_time'' = Some (PTime t)"
  "map_of (build_commit digest p ms r t) ''mutations'' = Some (PList (map PDict ms))"
  by (simp_all add: build_commit_def)

text \<open>A result \<open>{'commit': c, 'applied': b}\<close> is the pair of the commit document and the flag.\<close>

type_synonym append_result = "doc \<times> bool"

abbreviation HeadConflict :: pyerr where
  "HeadConflict \<equiv> OtherError ''HeadConflict''"

abbreviation LegacyCommitPrivacyFence :: pyerr where
  "LegacyCommitPrivacyFence \<equiv> OtherError ''LegacyCommitPrivacyFence''"

text \<open>The in-memory reference: the state document and the commits by id.\<close>

definition append_commit_to_history ::
  "(pyval \<Rightarrow> string) \<Rightarrow> pyval \<Rightarrow> dict list \<Rightarrow> pyval \<Rightarrow> int \<Rightarrow> bool \<Rightarrow> doc \<times> (string \<Rightarrow> doc option)
   \<Rightarrow> append_result res \<times> doc \<times> (string \<Rightarrow> doc option)" where
  "append_commit_to_history digest parent_commit_id mutations run_id commit_time use_current_head sc =
     (let (state, commits) = sc;
          current_head = dget state ''current_head_commit_id'';
          expected_parent = (if use_current_head then current_head else parent_commit_id);
          commit = build_commit digest expected_parent mutations run_id commit_time;
          cid = commit_id_for digest expected_parent mutations in
      case commits cid of
        Some stored_commit \<Rightarrow> (Inr (stored_commit, False), sc)
      | None \<Rightarrow>
          if current_head \<noteq> expected_parent then (Inl HeadConflict, sc)
          else (Inr (map_of commit, True),
                (state(''current_head_commit_id'' \<mapsto> PStr cid, ''projection_version'' \<mapsto> PInt 1,
                       ''updated_at'' \<mapsto> PTime commit_time),
                 commits(cid \<mapsto> map_of commit))))"

subsection \<open>Privacy fences\<close>

definition entry_memory_ids :: "dict \<Rightarrow> string list" where
  "entry_memory_ids entry =
     (case dict_get entry ''fact'' of
        PDict known \<Rightarrow> (case dict_get known ''id'' of PStr s \<Rightarrow> if s \<noteq> [] then [s] else [] | _ \<Rightarrow> [])
      | _ \<Rightarrow> [])
     @ concat (map (\<lambda>key. case dict_get entry key of PStr s \<Rightarrow> if s \<noteq> [] then [s] else [] | _ \<Rightarrow> [])
         [''fact_id'', ''target_fact_id'', ''by''])"

definition mutation_memory_ids :: "dict list \<Rightarrow> string list" where
  "mutation_memory_ids mutations = remdups (concat (map entry_memory_ids mutations))"

text \<open>
  Every refusal is the same exception, so the order in which the ids are visited does not
  matter; a stored document is always a mapping, so the branches for unreadable ones are not
  reached.
\<close>

definition privacy_deleted :: "(path \<Rightarrow> doc option) \<Rightarrow> string \<Rightarrow> string \<Rightarrow> bool" where
  "privacy_deleted rd uid memory_id \<longleftrightarrow>
     (case rd (item_ref uid memory_id) of None \<Rightarrow> False | Some d \<Rightarrow> dget d ''status'' = PStr ''tombstoned'')
     \<or> (case rd (override_ref uid memory_id) of None \<Rightarrow> False | Some d \<Rightarrow> dget d ''status'' = PStr ''tombstoned'')"

definition assert_legacy_commit_privacy_fences :: "string \<Rightarrow> dict list \<Rightarrow> int \<Rightarrow> (path \<Rightarrow> doc option) \<Rightarrow> unit res" where
  "assert_legacy_commit_privacy_fences uid mutations now rd =
     res_bind (assert_no_destructive_operation_transaction uid now rd) (\<lambda>_.
     if deletion_blocks rd uid then Inl LegacyCommitPrivacyFence
     else let memory_ids = mutation_memory_ids mutations in
       if length memory_ids > 200 then Inl LegacyCommitPrivacyFence
       else if list_ex (privacy_deleted rd uid) memory_ids then Inl LegacyCommitPrivacyFence
       else Inr ())"

subsection \<open>Appending\<close>

definition state_head_write_payload :: "string \<Rightarrow> doc \<Rightarrow> string \<Rightarrow> int \<Rightarrow> (path \<Rightarrow> doc option) \<Rightarrow> dict" where
  "state_head_write_payload uid state cid commit_time rd =
     (let trusted = (case trusted_memory_state_head_fields_from_state state uid of
            Some t \<Rightarrow> Some t
          | None \<Rightarrow> trusted_memory_state_head_fields_from_control (stored rd (control_ref uid)) uid);
          payload = [(''current_head_commit_id'', PStr cid), (''projection_version'', PInt 1), (''updated_at'', PTime commit_time)]
      in case trusted of None \<Rightarrow> payload | Some t \<Rightarrow> dict_update payload t)"

text \<open>A projection writer reads the snapshot and stages further writes, or raises.\<close>

type_synonym projection_writer = "(path \<Rightarrow> doc option) \<Rightarrow> write list res"

definition project :: "projection_writer option \<Rightarrow> (path \<Rightarrow> doc option) \<Rightarrow> write list res" where
  "project w rd = (case w of None \<Rightarrow> Inr [] | Some f \<Rightarrow> f rd)"

definition append_writes :: "string \<Rightarrow> doc \<Rightarrow> dict \<Rightarrow> string \<Rightarrow> int \<Rightarrow> (path \<Rightarrow> doc option) \<Rightarrow> write list" where
  "append_writes uid state commit cid commit_time rd =
     [SetDoc (commit_ref uid cid) (put_all commit),
      SetDoc (state_ref uid) (put_all (state_head_write_payload uid state cid commit_time rd))]"

definition append_commit_transaction ::
  "(pyval \<Rightarrow> string) \<Rightarrow> pyval \<Rightarrow> dict list \<Rightarrow> pyval \<Rightarrow> int \<Rightarrow> projection_writer option \<Rightarrow> bool
   \<Rightarrow> string \<Rightarrow> int \<Rightarrow> (path \<Rightarrow> doc option) \<Rightarrow> (append_result \<times> write list) res" where
  "append_commit_transaction digest parent_commit_id mutations run_id commit_time writer use_current_head uid now rd =
     (let state = stored rd (state_ref uid);
          current_head = dget state ''current_head_commit_id'';
          expected_parent = (if use_current_head then current_head else parent_commit_id);
          commit = build_commit digest expected_parent mutations run_id commit_time;
          cid = commit_id_for digest expected_parent mutations in
      case rd (commit_ref uid cid) of
        Some stored_commit \<Rightarrow> Inr ((stored_commit, False), [])
      | None \<Rightarrow>
          if current_head \<noteq> expected_parent then Inl HeadConflict
          else res_bind (assert_legacy_commit_privacy_fences uid mutations now rd) (\<lambda>_.
               res_bind (project writer rd) (\<lambda>staged.
               Inr ((map_of commit, True), staged @ append_writes uid state commit cid commit_time rd))))"

text \<open>A mutation builder reads the snapshot and gives the mutations and a projection writer.\<close>

type_synonym mutation_builder = "(path \<Rightarrow> doc option) \<Rightarrow> (dict list \<times> projection_writer option) res"

definition append_commit_with_builder_transaction ::
  "(pyval \<Rightarrow> string) \<Rightarrow> pyval \<Rightarrow> mutation_builder \<Rightarrow> pyval \<Rightarrow> int \<Rightarrow> bool
   \<Rightarrow> string \<Rightarrow> int \<Rightarrow> (path \<Rightarrow> doc option) \<Rightarrow> (append_result \<times> write list) res" where
  "append_commit_with_builder_transaction digest parent_commit_id builder run_id commit_time use_current_head uid now rd =
     (let state = stored rd (state_ref uid);
          current_head = dget state ''current_head_commit_id'';
          expected_parent = (if use_current_head then current_head else parent_commit_id) in
      if current_head \<noteq> expected_parent then Inl HeadConflict
      else res_bind (builder rd) (\<lambda>(mutations, writer).
           res_bind (assert_legacy_commit_privacy_fences uid mutations now rd) (\<lambda>_.
           let commit = build_commit digest expected_parent mutations run_id commit_time;
               cid = commit_id_for digest expected_parent mutations in
           case rd (commit_ref uid cid) of
             Some stored_commit \<Rightarrow> Inr ((stored_commit, False), [])
           | None \<Rightarrow>
               res_bind (project writer rd) (\<lambda>staged.
               Inr ((map_of commit, True), staged @ append_writes uid state commit cid commit_time rd)))))"

definition read_head :: "(path \<Rightarrow> doc option) \<Rightarrow> string \<Rightarrow> pyval" where
  "read_head rd uid = (case rd (state_ref uid) of None \<Rightarrow> PNone | Some state \<Rightarrow> dget state ''current_head_commit_id'')"

interpretation append_fenced: fenced_writer "append_commit_transaction digest p ms run_id t w use_head" for digest p ms run_id t w use_head
  by unfold_locales
    (auto simp: append_commit_transaction_def assert_legacy_commit_privacy_fences_def Let_def split: option.split)

interpretation builder_fenced: fenced_writer "append_commit_with_builder_transaction digest p b run_id t use_head" for digest p b run_id t use_head
  by unfold_locales
    (auto simp: append_commit_with_builder_transaction_def assert_legacy_commit_privacy_fences_def Let_def res_bind_def
      split: option.split sum.split)

lemma head_stored: "dget (stored rd (state_ref uid)) ''current_head_commit_id'' = read_head rd uid"
  by (simp add: read_head_def stored_def dget_def split: option.split)

subsection \<open>Runs of appends\<close>

datatype ledger_append =
    Append pyval "dict list" pyval int "projection_writer option" bool int
  | Append_Built pyval mutation_builder pyval int bool int

fun append_body ::
  "(pyval \<Rightarrow> string) \<Rightarrow> string \<Rightarrow> ledger_append \<Rightarrow> (path \<Rightarrow> doc option) \<Rightarrow> (append_result \<times> write list) res" where
  "append_body digest uid (Append parent mutations run_id commit_time writer use_current_head now) =
     append_commit_transaction digest parent mutations run_id commit_time writer use_current_head uid now"
| "append_body digest uid (Append_Built parent builder run_id commit_time use_current_head now) =
     append_commit_with_builder_transaction digest parent builder run_id commit_time use_current_head uid now"

fun append_clock :: "ledger_append \<Rightarrow> int" where
  "append_clock (Append parent mutations run_id commit_time writer use_current_head now) = now"
| "append_clock (Append_Built parent builder run_id commit_time use_current_head now) = now"

definition append_step where
  "append_step fetch commit digest uid op st = run_txn fetch commit (append_body digest uid op) st"

text \<open>
  What is asked of the projection writers: their writes are well formed and touch neither the
  head nor a commit.
\<close>

definition sidelined :: "string \<Rightarrow> projection_writer option \<Rightarrow> bool" where
  "sidelined uid w \<longleftrightarrow> (\<forall>rd staged. project w rd = Inr staged \<longrightarrow> writes_ok rd staged
     \<and> state_ref uid \<notin> wpath ` set staged \<and> (\<forall>c. commit_ref uid c \<notin> wpath ` set staged))"

fun op_writers :: "(projection_writer option \<Rightarrow> bool) \<Rightarrow> ledger_append \<Rightarrow> bool" where
  "op_writers Q (Append parent mutations run_id commit_time writer use_current_head now) = Q writer"
| "op_writers Q (Append_Built parent builder run_id commit_time use_current_head now) =
     (\<forall>rd mutations writer. builder rd = Inr (mutations, writer) \<longrightarrow> Q writer)"

abbreviation op_tidy :: "string \<Rightarrow> ledger_append \<Rightarrow> bool" where
  "op_tidy uid \<equiv> op_writers (sidelined uid)"

definition spares :: "path set \<Rightarrow> projection_writer option \<Rightarrow> bool" where
  "spares ps w \<longleftrightarrow> (\<forall>rd staged. project w rd = Inr staged \<longrightarrow> ps \<inter> wpath ` set staged = {})"

text \<open>The parent, mutations, run and time an append stands for in the in-memory reference.\<close>

fun reference_call ::
  "(pyval \<Rightarrow> string) \<Rightarrow> (path \<Rightarrow> doc option) \<Rightarrow> ledger_append \<Rightarrow> doc \<times> (string \<Rightarrow> doc option)
   \<Rightarrow> append_result res \<times> doc \<times> (string \<Rightarrow> doc option)" where
  "reference_call digest rd (Append parent mutations run_id commit_time writer use_current_head now) sc =
     append_commit_to_history digest parent mutations run_id commit_time use_current_head sc"
| "reference_call digest rd (Append_Built parent builder run_id commit_time use_current_head now) sc =
     (case builder rd of
        Inl e \<Rightarrow> (Inl e, sc)
      | Inr (mutations, writer) \<Rightarrow> append_commit_to_history digest parent mutations run_id commit_time use_current_head sc)"

definition history :: "(path \<Rightarrow> doc option) \<Rightarrow> string \<Rightarrow> doc \<times> (string \<Rightarrow> doc option)" where
  "history rd uid = (stored rd (state_ref uid), \<lambda>c. rd (commit_ref uid c))"

definition same_history :: "doc \<times> (string \<Rightarrow> doc option) \<Rightarrow> doc \<times> (string \<Rightarrow> doc option) \<Rightarrow> bool" where
  "same_history h h' \<longleftrightarrow>
     dget (fst h) ''current_head_commit_id'' = dget (fst h') ''current_head_commit_id'' \<and> snd h = snd h'"

text \<open>Both transactions have the same outcomes.\<close>

lemma append_body_outcomes:
  assumes "append_body digest uid op rd = Inr ((c, b), ws)"
  obtains (stored) cid where "\<not> b" "ws = []" "rd (commit_ref uid cid) = Some c"
      "fst (reference_call digest rd op (history rd uid)) = Inr (c, b)"
      "snd (reference_call digest rd op (history rd uid)) = history rd uid"
  | (applied) mutations run_id t writer staged where "b"
      "c = map_of (build_commit digest (dget (Memory_Ledger.stored rd (state_ref uid)) ''current_head_commit_id'') mutations run_id t)"
      "rd (commit_ref uid (commit_id_for digest (dget (Memory_Ledger.stored rd (state_ref uid)) ''current_head_commit_id'') mutations)) = None"
      "assert_legacy_commit_privacy_fences uid mutations (append_clock op) rd = Inr ()"
      "project writer rd = Inr staged" "\<And>Q. op_writers Q op \<Longrightarrow> Q writer"
      "ws = staged @ append_writes uid (stored rd (state_ref uid))
         (build_commit digest (dget (Memory_Ledger.stored rd (state_ref uid)) ''current_head_commit_id'') mutations run_id t)
         (commit_id_for digest (dget (Memory_Ledger.stored rd (state_ref uid)) ''current_head_commit_id'') mutations) t rd"
      "reference_call digest rd op (history rd uid) =
         append_commit_to_history digest (dget (Memory_Ledger.stored rd (state_ref uid)) ''current_head_commit_id'') mutations run_id t True (history rd uid)"
proof (cases op)
  case (Append parent mutations run_id t writer use now)
  show thesis
  proof (cases b)
    case True
    obtain staged where staged: "project writer rd = Inr staged"
      using assms True by (auto simp: Append append_commit_transaction_def Let_def split: option.split_asm if_split_asm)
    show thesis
      by (rule applied [OF True, of mutations run_id t writer staged])
        (use assms True staged in \<open>auto simp: Append append_commit_transaction_def append_commit_to_history_def history_def Let_def
          split: option.split_asm if_split_asm\<close>)
  next
    case False
    show thesis
      by (rule stored [OF False, of "commit_id_for digest (if use then dget (Memory_Ledger.stored rd (state_ref uid)) ''current_head_commit_id'' else parent) mutations"])
        (use assms False in \<open>auto simp: Append append_commit_transaction_def append_commit_to_history_def history_def Let_def
          split: option.split_asm if_split_asm\<close>)
  qed
next
  case (Append_Built parent builder run_id t use now)
  obtain mutations writer where built: "builder rd = Inr (mutations, writer)"
    using assms by (auto simp: Append_Built append_commit_with_builder_transaction_def Let_def split: if_split_asm)
  show thesis
  proof (cases b)
    case True
    obtain staged where staged: "project writer rd = Inr staged"
      using assms True built by (auto simp: Append_Built append_commit_with_builder_transaction_def Let_def split: option.split_asm if_split_asm)
    show thesis
      by (rule applied [OF True, of mutations run_id t writer staged])
        (use assms True staged built in \<open>auto simp: Append_Built append_commit_with_builder_transaction_def append_commit_to_history_def history_def Let_def
          split: option.split_asm if_split_asm\<close>)
  next
    case False
    show thesis
      by (rule stored [OF False, of "commit_id_for digest (dget (Memory_Ledger.stored rd (state_ref uid)) ''current_head_commit_id'') mutations"])
        (use assms False built in \<open>auto simp: Append_Built append_commit_with_builder_transaction_def append_commit_to_history_def history_def Let_def
          split: option.split_asm if_split_asm\<close>)
  qed
qed

lemmas append_body_Inr = append_body_outcomes [unfolded head_stored, consumes 1, case_names stored applied]

text \<open>What an applied append did: the snapshot before, the snapshot after, and the commit.\<close>

definition advanced ::
  "(pyval \<Rightarrow> string) \<Rightarrow> string \<Rightarrow> int \<Rightarrow> (path \<Rightarrow> doc option) \<Rightarrow> (path \<Rightarrow> doc option) \<Rightarrow> dict list \<Rightarrow> pyval \<Rightarrow> int \<Rightarrow> bool" where
  "advanced digest uid now rd rd' mutations run_id t \<longleftrightarrow>
     (let h = read_head rd uid; cid = commit_id_for digest h mutations in
      rd (commit_ref uid cid) = None
      \<and> assert_legacy_commit_privacy_fences uid mutations now rd = Inr ()
      \<and> rd' (state_ref uid) = Some (map_of (state_head_write_payload uid (stored rd (state_ref uid)) cid t rd))
      \<and> (\<forall>c. rd' (commit_ref uid c) =
            (if c = cid then Some (map_of (build_commit digest h mutations run_id t)) else rd (commit_ref uid c))))"

lemma trusted_fields_form:
  assumes "trusted_memory_state_head_fields uid g h n = Some fs"
  obtains g' h' n' where "g = PInt g'" "h = PStr h'" "n = PInt n'" "uid \<noteq> []" "0 \<le> g'" "h' \<noteq> []" "0 \<le> n'"
    "fs = [(''schema_version'', PInt MEMORY_STATE_HEAD_SCHEMA_VERSION), (''uid'', PStr uid),
           (''source'', PStr MEMORY_STATE_HEAD_SOURCE), (''account_generation'', g),
           (''head_commit_id'', h), (''commit_sequence'', n)]"
  using assms by (auto simp: trusted_memory_state_head_fields_def split: pyval.split_asm if_split_asm)

lemma trusted_from_form:
  "trusted_memory_state_head_fields_from_state d uid = Some fs \<Longrightarrow> \<exists>g h n. trusted_memory_state_head_fields uid g h n = Some fs"
  "trusted_memory_state_head_fields_from_control d uid = Some fs \<Longrightarrow> \<exists>g h n. trusted_memory_state_head_fields uid g h n = Some fs"
  by (auto simp: trusted_memory_state_head_fields_from_state_def trusted_memory_state_head_fields_from_control_def split: if_split_asm)

lemma payload_cases:
  obtains (plain) "trusted_memory_state_head_fields_from_state state uid = None"
      "map_of (state_head_write_payload uid state cid t rd) =
        [''current_head_commit_id'' \<mapsto> PStr cid, ''projection_version'' \<mapsto> PInt 1, ''updated_at'' \<mapsto> PTime t]"
  | (trusted) fs g h n where "trusted_memory_state_head_fields uid g h n = Some fs"
      "trusted_memory_state_head_fields_from_state state uid = None \<or> trusted_memory_state_head_fields_from_state state uid = Some fs"
      "map_of (state_head_write_payload uid state cid t rd) =
        [''current_head_commit_id'' \<mapsto> PStr cid, ''projection_version'' \<mapsto> PInt 1, ''updated_at'' \<mapsto> PTime t] ++ map_of fs"
proof (cases "case trusted_memory_state_head_fields_from_state state uid of
            Some t \<Rightarrow> Some t
          | None \<Rightarrow> trusted_memory_state_head_fields_from_control (stored rd (control_ref uid)) uid")
  case None
  then show thesis
    by (intro plain) (auto simp: state_head_write_payload_def Let_def fun_eq_iff split: option.split_asm)
next
  case (Some fs)
  then obtain g h n where "trusted_memory_state_head_fields uid g h n = Some fs"
    using trusted_from_form(1) [of state uid fs] trusted_from_form(2) [of "stored rd (control_ref uid)" uid fs]
    by (auto split: option.split_asm)
  with Some show thesis
    by (intro trusted [of g h n fs]) (auto simp: state_head_write_payload_def Let_def fun_eq_iff map_add_def split: option.split_asm option.split)
qed

lemma head_written [simp]: "dget (map_of (state_head_write_payload uid state cid t rd)) ''current_head_commit_id'' = PStr cid"
proof (cases rule: payload_cases [of state uid cid t rd])
  case (trusted fs g h n)
  from trusted(1) show ?thesis by (rule trusted_fields_form) (simp add: trusted(3) dget_def map_add_def)
qed (simp add: dget_def)

lemma advanced_head:
  assumes "advanced digest uid now rd rd' mutations run_id t"
  shows "read_head rd' uid = PStr (commit_id_for digest (read_head rd uid) mutations)"
proof -
  have st: "stored rd' (state_ref uid) = map_of (state_head_write_payload uid (stored rd (state_ref uid))
      (commit_id_for digest (read_head rd uid) mutations) t rd)"
    using assms by (simp add: advanced_def Let_def stored_def)
  show ?thesis unfolding head_stored [symmetric, of rd'] st by (rule head_written)
qed

lemma advanced_history:
  assumes "advanced digest uid now rd rd' mutations run_id t"
  shows "fst (append_commit_to_history digest (read_head rd uid) mutations run_id t True (history rd uid)) =
      Inr (map_of (build_commit digest (read_head rd uid) mutations run_id t), True)"
    and "same_history (history rd' uid)
      (snd (append_commit_to_history digest (read_head rd uid) mutations run_id t True (history rd uid)))"
proof -
  note head = advanced_head [OF assms]
  show "fst (append_commit_to_history digest (read_head rd uid) mutations run_id t True (history rd uid)) =
      Inr (map_of (build_commit digest (read_head rd uid) mutations run_id t), True)"
    using assms by (simp add: advanced_def append_commit_to_history_def history_def Let_def head_stored)
  show "same_history (history rd' uid)
      (snd (append_commit_to_history digest (read_head rd uid) mutations run_id t True (history rd uid)))"
    using assms head
    by (simp add: advanced_def append_commit_to_history_def history_def same_history_def Let_def head_stored fun_eq_iff)
      (simp add: dget_def)
qed

lemma trusted_payload:
  assumes "trusted_memory_state_head_fields_from_state state uid = Some fs"
  shows "trusted_memory_state_head_fields_from_state (map_of (state_head_write_payload uid state cid t rd)) uid = Some fs"
proof (cases rule: payload_cases [of state uid cid t rd])
  case (trusted fs' g h n)
  from trusted(1) show ?thesis
    by (rule trusted_fields_form)
      (use trusted assms in \<open>auto simp: trusted_memory_state_head_fields_from_state_def dget_def map_add_def\<close>)
qed (use assms in simp)

context firestore
begin

lemma append_applied:
  assumes "append_body digest uid op (fetch st) = Inr ((c, True), ws)" "op_tidy uid op"
  obtains mutations run_id t where
    "c = map_of (build_commit digest (read_head (fetch st) uid) mutations run_id t)"
    "advanced digest uid (append_clock op) (fetch st) (fetch (commit st ws)) mutations run_id t"
    "reference_call digest (fetch st) op (history (fetch st) uid) =
       append_commit_to_history digest (read_head (fetch st) uid) mutations run_id t True (history (fetch st) uid)"
  using assms(1)
proof (cases rule: append_body_Inr)
  case (applied mutations run_id t writer staged)
  let ?aw = "append_writes uid (stored (fetch st) (state_ref uid)) (build_commit digest (read_head (fetch st) uid) mutations run_id t)
    (commit_id_for digest (read_head (fetch st) uid) mutations) t (fetch st)"
  have side: "writes_ok (fetch st) staged" "state_ref uid \<notin> wpath ` set staged" "\<And>c. commit_ref uid c \<notin> wpath ` set staged"
    using applied(5) applied(6) [OF assms(2)] by (auto simp: sidelined_def)
  have "writes_ok (fetch st) ws"
    using side by (auto simp: applied(7) writes_ok_def append_writes_def)
  then have after: "fetch (commit st ws) p = after ?aw p (fetch st p)" if "p \<notin> wpath ` set staged" for p
    using that by (simp add: fetch_commit applied(7) after_append_other)
  have full: "upd_fields Map.empty (put_all kvs) = map_of kvs" for kvs
    by (auto simp: fun_eq_iff split: option.split)
  have "advanced digest uid (append_clock op) (fetch st) (fetch (commit st ws)) mutations run_id t"
    using applied(3,4) by (auto simp: advanced_def Let_def after side append_writes_def full)
  then show thesis using that applied(2,8) by blast
qed simp

lemma append_step_Inr:
  assumes "append_step fetch commit digest uid op st = (Inr (c, b), st')"
  obtains ws where "append_body digest uid op (fetch st) = Inr ((c, b), ws)" "st' = commit st ws"
  using assms by (auto simp: append_step_def run_txn_def split: sum.split_asm)

lemma append_step_history:
  assumes "append_step fetch commit digest uid op st = (Inr (c, b), st')" "op_tidy uid op"
  shows "fst (reference_call digest (fetch st) op (history (fetch st) uid)) = Inr (c, b)
    \<and> same_history (history (fetch st') uid) (snd (reference_call digest (fetch st) op (history (fetch st) uid)))"
proof -
  obtain ws where ws: "append_body digest uid op (fetch st) = Inr ((c, b), ws)" "st' = commit st ws"
    using assms(1) by (rule append_step_Inr)
  show ?thesis
  proof (cases b)
    case True
    with ws(1) have "append_body digest uid op (fetch st) = Inr ((c, True), ws)" by simp
    then show ?thesis using assms(2)
      by (rule append_applied) (use True advanced_history in \<open>simp add: ws(2)\<close>)
  next
    case False
    have "fetch (commit st []) = fetch st" by (simp add: fun_eq_iff fetch_commit)
    with ws(1) False show ?thesis
      by (cases rule: append_body_Inr) (simp_all add: ws(2) same_history_def)
  qed
qed

lemma append_step_cases:
  assumes "op_tidy uid op"
  obtains (quiet) "fetch (snd (append_step fetch commit digest uid op st)) = fetch st"
      "\<And>c. fst (append_step fetch commit digest uid op st) \<noteq> Inr (c, True)"
  | (advanced) mutations run_id t where
      "fst (append_step fetch commit digest uid op st) =
         Inr (map_of (build_commit digest (read_head (fetch st) uid) mutations run_id t), True)"
      "advanced digest uid (append_clock op) (fetch st) (fetch (snd (append_step fetch commit digest uid op st))) mutations run_id t"
proof (cases "\<exists>c ws. append_body digest uid op (fetch st) = Inr ((c, True), ws)")
  case True
  then obtain c ws where ws: "append_body digest uid op (fetch st) = Inr ((c, True), ws)" by blast
  then have step: "append_step fetch commit digest uid op st = (Inr (c, True), commit st ws)"
    by (simp add: append_step_def run_txn_def)
  from ws assms obtain mutations run_id t where
    "c = map_of (build_commit digest (read_head (fetch st) uid) mutations run_id t)"
    "advanced digest uid (append_clock op) (fetch st) (fetch (commit st ws)) mutations run_id t"
    by (rule append_applied)
  then show thesis by (intro advanced [of mutations run_id t]) (simp_all add: step)
next
  case False
  have nil: "fetch (commit st []) = fetch st" by (simp add: fun_eq_iff fetch_commit)
  show thesis
  proof (rule quiet)
    show "fetch (snd (append_step fetch commit digest uid op st)) = fetch st"
    proof (cases "append_body digest uid op (fetch st)")
      case (Inr r)
      then obtain c ws where r: "append_body digest uid op (fetch st) = Inr ((c, False), ws)"
        using False by (metis (full_types) prod.exhaust)
      then have "ws = []" by (cases rule: append_body_Inr) simp_all
      with r show ?thesis by (simp add: append_step_def run_txn_def nil)
    qed (simp add: append_step_def run_txn_def)
    show "fst (append_step fetch commit digest uid op st) \<noteq> Inr (c, True)" for c
      using False by (auto simp: append_step_def run_txn_def split: sum.split)
  qed
qed

end

subsection \<open>The ledger is a chain\<close>

primrec chain :: "(string \<Rightarrow> doc option) \<Rightarrow> pyval \<Rightarrow> string list \<Rightarrow> bool" where
  "chain commits h [] \<longleftrightarrow> h = PNone"
| "chain commits h (c # cs) \<longleftrightarrow> h = PStr c \<and> (\<exists>d ms. commits c = Some d \<and> dget d ''commit_id'' = PStr c
     \<and> dget d ''mutations'' = PList (map PDict ms) \<and> chain commits (dget d ''parent_commit_id'') cs)"

text \<open>
  The commits of a linear ledger are exactly the nodes of one path from the head to the root,
  none of them twice.
\<close>

definition linear :: "doc \<times> (string \<Rightarrow> doc option) \<Rightarrow> bool" where
  "linear h \<longleftrightarrow> (\<exists>ids. distinct ids \<and> chain (snd h) (dget (fst h) ''current_head_commit_id'') ids \<and> dom (snd h) = set ids)"

lemma chain_upd [simp]: "c \<notin> set ids \<Longrightarrow> chain (commits(c \<mapsto> d)) h ids \<longleftrightarrow> chain commits h ids"
  by (induction ids arbitrary: h) auto

lemma chain_det: "chain commits h ids \<Longrightarrow> chain commits h ids' \<Longrightarrow> ids = ids'"
proof (induction ids arbitrary: h ids')
  case Nil
  then show ?case by (cases ids') auto
next
  case (Cons c cs)
  then show ?case by (cases ids') auto
qed

lemma history_linear_step:
  assumes "linear h"
  shows "linear (snd (append_commit_to_history digest p ms run_id t use h))"
proof -
  obtain state commits where h: "h = (state, commits)" by (cases h)
  obtain ids where ids: "distinct ids" "chain commits (dget state ''current_head_commit_id'') ids" "dom commits = set ids"
    using assms by (auto simp: linear_def h)
  define parent where "parent = (if use then dget state ''current_head_commit_id'' else p)"
  define cid where "cid = commit_id_for digest parent ms"
  define d where "d = map_of (build_commit digest parent ms run_id t)"
  have call: "append_commit_to_history digest p ms run_id t use h =
    (case commits cid of Some c \<Rightarrow> (Inr (c, False), h)
     | None \<Rightarrow> if dget state ''current_head_commit_id'' \<noteq> parent then (Inl HeadConflict, h)
        else (Inr (d, True), (state(''current_head_commit_id'' \<mapsto> PStr cid, ''projection_version'' \<mapsto> PInt 1,
                       ''updated_at'' \<mapsto> PTime t), commits(cid \<mapsto> d))))"
    unfolding append_commit_to_history_def h Let_def prod.case parent_def [symmetric] cid_def [symmetric] d_def [symmetric]
    by (rule refl)
  have d: "dget d ''commit_id'' = PStr cid" "dget d ''parent_commit_id'' = parent" "dget d ''mutations'' = PList (map PDict ms)"
    by (simp_all add: d_def cid_def dget_def)
  show ?thesis
  proof (cases "commits cid = None \<and> dget state ''current_head_commit_id'' = parent")
    case True
    then have "cid \<notin> set ids" using ids(3) by (metis domIff)
    then have "distinct (cid # ids)" "chain (commits(cid \<mapsto> d)) (PStr cid) (cid # ids)" "dom (commits(cid \<mapsto> d)) = set (cid # ids)"
      using ids True d by auto
    moreover have "snd (append_commit_to_history digest p ms run_id t use h) =
        (state(''current_head_commit_id'' \<mapsto> PStr cid, ''projection_version'' \<mapsto> PInt 1, ''updated_at'' \<mapsto> PTime t), commits(cid \<mapsto> d))"
      using True by (simp add: call)
    moreover have "dget (state(''current_head_commit_id'' \<mapsto> PStr cid, ''projection_version'' \<mapsto> PInt 1, ''updated_at'' \<mapsto> PTime t))
        ''current_head_commit_id'' = PStr cid" by (simp add: dget_def)
    ultimately show ?thesis unfolding linear_def by (metis fst_conv snd_conv)
  next
    case False
    with assms show ?thesis by (auto simp: call split: option.split)
  qed
qed

lemma same_history_linear: "same_history h h' \<Longrightarrow> linear h' \<Longrightarrow> linear h"
  by (simp add: same_history_def linear_def)

text \<open>
  C14. The ledger transaction refines the in-memory reference: when it answers, the reference
  \<open>append_commit_to_history\<close> gives the same answer on the history read in the transaction, and
  leaves the head and the commits the transaction stored; when it raises, nothing is stored.
\<close>

theorem append_refines_history:
  assumes "firestore fetch commit" "op_tidy uid op"
    and "append_step fetch commit digest uid op st = (r, st')"
  shows "case r of
      Inl e \<Rightarrow> st' = st
    | Inr a \<Rightarrow> fst (reference_call digest (fetch st) op (history (fetch st) uid)) = Inr a
        \<and> same_history (history (fetch st') uid) (snd (reference_call digest (fetch st) op (history (fetch st) uid)))"
proof (cases r)
  case (Inl e)
  with assms(3) show ?thesis by (auto simp: append_step_def run_txn_def split: sum.split_asm)
next
  case (Inr a)
  then show ?thesis
    using firestore.append_step_history [OF assms(1) _ assms(2), of digest st "fst a" "snd a" st'] assms(3) by simp
qed

lemma ledger_linear:
  assumes "firestore fetch commit" "read_head (fetch st) uid = PNone" "\<forall>c. fetch st (commit_ref uid c) = None"
    and "\<forall>op \<in> set ops. op_tidy uid op"
  shows "linear (history (fetch (snd (run_ops (append_step fetch commit digest uid) ops st))) uid)"
proof (rule run_ops_invariant [where I = "\<lambda>st. linear (history (fetch st) uid)" and P = "op_tidy uid", OF _ _ assms(4)])
  show "linear (history (fetch st) uid)"
    using assms(2,3) by (auto simp: linear_def history_def head_stored intro!: exI [of _ "[]"])
  show "linear (history (fetch (snd (append_step fetch commit digest uid op s))) uid)"
    if "linear (history (fetch s) uid)" "op_tidy uid op" for op s
  proof (cases rule: firestore.append_step_cases [OF assms(1) that(2), of digest s, case_names quiet advanced])
    case quiet
    with that(1) show ?thesis by simp
  next
    case (advanced mutations run_id t)
    show ?thesis
      by (rule same_history_linear [OF advanced_history(2) [OF advanced(2)] history_linear_step [OF that(1)]])
  qed
qed

text \<open>
  The collection has other writers: a purge deletes commits, and the canonical apply stream stores
  commits of its own under other ids. So a run of the ledger is a sequence of appends and of
  changes by others, which are any functions of the store; only the appends have an answer.
\<close>

definition ledger_event where
  "ledger_event fetch commit digest uid ev st =
     (case ev of Inl op \<Rightarrow> map_prod Some id (append_step fetch commit digest uid op st) | Inr change \<Rightarrow> (None, change st))"

definition events_ok :: "('s \<Rightarrow> path \<Rightarrow> doc option) \<Rightarrow> string \<Rightarrow> (('s \<Rightarrow> 's) \<Rightarrow> bool) \<Rightarrow> (ledger_append + ('s \<Rightarrow> 's)) \<Rightarrow> bool" where
  "events_ok fetch uid Q ev \<longleftrightarrow> (case ev of Inl op \<Rightarrow> op_tidy uid op | Inr change \<Rightarrow> Q change)"

definition keeps_head :: "('s \<Rightarrow> path \<Rightarrow> doc option) \<Rightarrow> string \<Rightarrow> ('s \<Rightarrow> 's) \<Rightarrow> bool" where
  "keeps_head fetch uid change \<longleftrightarrow> (\<forall>s. read_head (fetch (change s)) uid = read_head (fetch s) uid)"

definition keeps_commits :: "('s \<Rightarrow> path \<Rightarrow> doc option) \<Rightarrow> string \<Rightarrow> ('s \<Rightarrow> 's) \<Rightarrow> bool" where
  "keeps_commits fetch uid change \<longleftrightarrow>
     (\<forall>s c d. fetch s (commit_ref uid c) = Some d \<longrightarrow> fetch (change s) (commit_ref uid c) = Some d)"

text \<open>The commits that a run applied, in order, and that such a list leads from one head to another.\<close>

definition applied_commits :: "('e \<times> append_result res option) list \<Rightarrow> doc list" where
  "applied_commits answers =
     concat (map (\<lambda>(ev, r). case r of Some (Inr (c, b)) \<Rightarrow> if b then [c] else [] | _ \<Rightarrow> []) answers)"

primrec links :: "pyval \<Rightarrow> doc list \<Rightarrow> pyval \<Rightarrow> bool" where
  "links h [] h' \<longleftrightarrow> h' = h"
| "links h (c # cs) h' \<longleftrightarrow> dget c ''parent_commit_id'' = h \<and> (\<exists>cid. dget c ''commit_id'' = PStr cid \<and> links (PStr cid) cs h')"

definition commit_stored :: "(path \<Rightarrow> doc option) \<Rightarrow> string \<Rightarrow> doc \<Rightarrow> bool" where
  "commit_stored rd uid c \<longleftrightarrow> (\<exists>cid. dget c ''commit_id'' = PStr cid \<and> rd (commit_ref uid cid) = Some c)"

lemma applied_commits_simps [simp]:
  "applied_commits [] = []"
  "applied_commits ((ev, r) # answers) =
     (case r of Some (Inr (c, b)) \<Rightarrow> if b then [c] else [] | _ \<Rightarrow> []) @ applied_commits answers"
  by (simp_all add: applied_commits_def)

context firestore
begin

lemma commit_kept:
  assumes "op_tidy uid op" "fetch st (commit_ref uid c) = Some d"
  shows "fetch (snd (append_step fetch commit digest uid op st)) (commit_ref uid c) = Some d"
  using assms(1)
proof (cases rule: append_step_cases [of uid op digest st, case_names quiet advanced])
  case (advanced mutations run_id t)
  then show ?thesis using assms(2) by (auto simp: advanced_def Let_def)
qed (use assms(2) in simp)

text \<open>One event either applies nothing and keeps the head, or links one stored commit to it.\<close>

lemma event_head:
  assumes "events_ok fetch uid (keeps_head fetch uid) ev" "ledger_event fetch commit digest uid ev st = (r, st')"
  obtains (none) "applied_commits [(ev, r)] = []" "read_head (fetch st') uid = read_head (fetch st) uid"
  | (one) c cid where "applied_commits [(ev, r)] = [c]" "dget c ''parent_commit_id'' = read_head (fetch st) uid"
      "dget c ''commit_id'' = PStr cid" "read_head (fetch st') uid = PStr cid" "fetch st' (commit_ref uid cid) = Some c"
proof (cases ev)
  case (Inl op)
  then have tidy: "op_tidy uid op" and r: "r = Some (fst (append_step fetch commit digest uid op st))"
    and st': "st' = snd (append_step fetch commit digest uid op st)"
    using assms by (auto simp: events_ok_def ledger_event_def map_prod_def split: prod.split_asm)
  show thesis
  proof (cases rule: append_step_cases [OF tidy, of digest st, case_names quiet advanced])
    case quiet
    then show thesis by (intro none) (auto simp: r st' split: sum.split)
  next
    case (advanced ms run_id t)
    show thesis
      by (rule one [of "map_of (build_commit digest (read_head (fetch st) uid) ms run_id t)" "commit_id_for digest (read_head (fetch st) uid) ms"])
        (use advanced advanced_head [OF advanced(2)] in \<open>simp_all add: r st' dget_def advanced_def Let_def\<close>)
  qed
next
  case (Inr change)
  with assms show thesis by (intro none) (auto simp: events_ok_def ledger_event_def keeps_head_def)
qed

lemma run_links:
  "run_ops (ledger_event fetch commit digest uid) evs st = (answers, st') \<Longrightarrow> \<forall>ev \<in> set evs. events_ok fetch uid (keeps_head fetch uid) ev \<Longrightarrow>
   links (read_head (fetch st) uid) (applied_commits answers) (read_head (fetch st') uid)"
proof (induction evs arbitrary: st answers)
  case (Cons ev evs)
  obtain r s1 rest where e: "ledger_event fetch commit digest uid ev st = (r, s1)"
      "run_ops (ledger_event fetch commit digest uid) evs s1 = (rest, st')" "answers = (ev, r) # rest"
    using Cons.prems(1) by (rule run_ops_Cons)
  have rest: "links (read_head (fetch s1) uid) (applied_commits rest) (read_head (fetch st') uid)"
    using Cons.IH [OF e(2)] Cons.prems(2) by simp
  have ok: "events_ok fetch uid (keeps_head fetch uid) ev" using Cons.prems(2) by simp
  have parts: "applied_commits answers = applied_commits [(ev, r)] @ applied_commits rest" by (simp add: e(3))
  from ok e(1) show ?case
    by (cases rule: event_head) (use rest in \<open>simp_all add: parts del: applied_commits_simps\<close>)
qed simp

lemma event_keeps_stored:
  assumes "events_ok fetch uid (keeps_commits fetch uid) ev" "commit_stored (fetch st) uid c"
  shows "commit_stored (fetch (snd (ledger_event fetch commit digest uid ev st))) uid c"
  using assms commit_kept [of uid _ st]
  by (auto simp: events_ok_def ledger_event_def commit_stored_def keeps_commits_def split: sum.splits)

lemma run_stores:
  "run_ops (ledger_event fetch commit digest uid) evs st = (answers, st') \<Longrightarrow>
   \<forall>ev \<in> set evs. events_ok fetch uid (keeps_head fetch uid) ev \<and> events_ok fetch uid (keeps_commits fetch uid) ev \<Longrightarrow>
   \<forall>c \<in> set (applied_commits answers). commit_stored (fetch st') uid c"
proof (induction evs arbitrary: st answers)
  case (Cons ev evs)
  obtain r s1 rest where e: "ledger_event fetch commit digest uid ev st = (r, s1)"
      "run_ops (ledger_event fetch commit digest uid) evs s1 = (rest, st')" "answers = (ev, r) # rest"
    using Cons.prems(1) by (rule run_ops_Cons)
  have keep: "commit_stored (fetch st') uid c" if "commit_stored (fetch s1) uid c" for c
    using run_ops_invariant [where I = "\<lambda>s. commit_stored (fetch s) uid c" and P = "events_ok fetch uid (keeps_commits fetch uid)"
        and exec = "ledger_event fetch commit digest uid" and ops = evs and s = s1] event_keeps_stored that Cons.prems(2) e(2) by auto
  have ok: "events_ok fetch uid (keeps_head fetch uid) ev" using Cons.prems(2) by simp
  have parts: "applied_commits answers = applied_commits [(ev, r)] @ applied_commits rest" by (simp add: e(3))
  have "\<forall>c \<in> set (applied_commits [(ev, r)]). commit_stored (fetch s1) uid c"
    using ok e(1) by (cases rule: event_head) (simp_all add: commit_stored_def del: applied_commits_simps)
  with Cons.IH [OF e(2)] Cons.prems(2) keep show ?case unfolding parts by auto
qed simp

end

text \<open>
  C13. Appends do not fork: from any state of the ledger, over any sequence of appends, with
  whatever expected parents, and of changes by other writers that leave the head pointer alone
  (such as the purges), the applied commits form one line: the parent of the first is the head at
  the start, the parent of each later one is the commit applied before it, and the head at the end
  is the last. If the other writers delete and replace no commit, all of them are stored at the
  end. Other writers can delete commits of the line and store commits outside it.
\<close>

theorem appends_extend_one_line:
  assumes "firestore fetch commit" "run_ops (ledger_event fetch commit digest uid) evs st = (answers, st')"
    and "\<forall>ev \<in> set evs. events_ok fetch uid (keeps_head fetch uid) ev"
  shows "links (read_head (fetch st) uid) (applied_commits answers) (read_head (fetch st') uid)
    \<and> ((\<forall>ev \<in> set evs. events_ok fetch uid (keeps_commits fetch uid) ev) \<longrightarrow>
         (\<forall>c \<in> set (applied_commits answers). commit_stored (fetch st') uid c))"
  using firestore.run_links [OF assms] firestore.run_stores [OF assms(1,2)] assms(3) by blast

theorem appends_extend_one_line_witness:
  "\<exists>answers st'. run_ops (ledger_event mem_fetch mem_commit (\<lambda>v. ''c'') ''u'')
      [Inl (Append PNone [[(''type'', PStr ''retract_fact''), (''fact_id'', PStr ''m'')]] PNone 3 None False 4), Inr (\<lambda>st. st)] (\<lambda>p. None) = (answers, st')
    \<and> links PNone (applied_commits answers) (read_head (mem_fetch st') ''u'')
    \<and> (\<forall>c \<in> set (applied_commits answers). commit_stored (mem_fetch st') ''u'' c)"
proof -
  let ?evs = "[Inl (Append PNone [[(''type'', PStr ''retract_fact''), (''fact_id'', PStr ''m'')]] PNone 3 None False 4), Inr (\<lambda>st. st)]"
  obtain answers st' where run: "run_ops (ledger_event mem_fetch mem_commit (\<lambda>v. ''c'') ''u'') ?evs (\<lambda>p. None) = (answers, st')" by fastforce
  have "\<forall>ev \<in> set ?evs. events_ok mem_fetch ''u'' (keeps_head mem_fetch ''u'') ev"
    and kept: "\<forall>ev \<in> set ?evs. events_ok mem_fetch ''u'' (keeps_commits mem_fetch ''u'') ev"
    by (simp_all add: events_ok_def keeps_head_def keeps_commits_def sidelined_def project_def)
  from appends_extend_one_line [OF mem.firestore_axioms run this(1)] kept run show ?thesis
    by (auto simp: read_head_def mem_fetch_def)
qed

text \<open>
  The canonical apply stream is not such a writer: it replaces the shared head document by the
  trusted fields and a time, without the ledger's own pointer. The next append starts a new root.
\<close>

definition memory_state_head_from_control :: "string \<Rightarrow> pyval \<Rightarrow> pyval \<Rightarrow> pyval \<Rightarrow> pyval \<Rightarrow> dict option" where
  "memory_state_head_from_control uid account_generation head_commit_id commit_sequence updated_at =
     (case trusted_memory_state_head_fields uid account_generation head_commit_id commit_sequence of
        None \<Rightarrow> None
      | Some trusted_fields \<Rightarrow> Some (dict_update trusted_fields [(''updated_at'', updated_at)]))"

lemma canonical_apply_clears_head:
  assumes "firestore fetch commit" "memory_state_head_from_control uid g h n t = Some head"
    and "writes_ok (fetch st) ws" "state_ref uid \<notin> wpath ` set ws"
  shows "read_head (fetch (commit st (SetDoc (state_ref uid) (put_all head) # ws))) uid = PNone"
proof -
  have ok: "writes_ok (fetch st) (SetDoc (state_ref uid) (put_all head) # ws)" using assms(3,4) by (simp add: writes_ok_def)
  obtain fs where fs: "trusted_memory_state_head_fields uid g h n = Some fs" "head = dict_update fs [(''updated_at'', t)]"
    using assms(2) by (auto simp: memory_state_head_from_control_def split: option.split_asm)
  have "fetch (commit st (SetDoc (state_ref uid) (put_all head) # ws)) (state_ref uid) = Some (upd_fields Map.empty (put_all head))"
    using assms(4) by (simp add: firestore.fetch_commit [OF assms(1) ok])
  moreover from fs(1) have "dget (upd_fields Map.empty (put_all head)) ''current_head_commit_id'' = PNone"
    by (rule trusted_fields_form) (simp add: fs(2) dget_def)
  ultimately show ?thesis by (simp add: read_head_def)
qed

theorem append_refines_history_witness:
  "\<exists>c st'. append_step mem_fetch mem_commit (\<lambda>v. ''c'') ''u'' (Append PNone [] PNone 3 None False 4) (\<lambda>p. None) = (Inr c, st')
    \<and> same_history (history (mem_fetch st') ''u'')
        (snd (reference_call (\<lambda>v. ''c'') (mem_fetch (\<lambda>p. None)) (Append PNone [] PNone 3 None False 4) (history (mem_fetch (\<lambda>p. None)) ''u'')))"
proof -
  let ?op = "Append PNone [] PNone 3 None False 4"
  obtain r st' where step: "append_step mem_fetch mem_commit (\<lambda>v. ''c'') ''u'' ?op (\<lambda>p. None) = (r, st')" by fastforce
  have "\<exists>c. r = Inr c"
    using step by (auto simp: append_step_def run_txn_def append_commit_transaction_def mem_fetch_def stored_def dget_def Let_def
        project_def assert_legacy_commit_privacy_fences_def assert_no_destructive_operation_transaction_def validated_gate_def
        gate_blocks_def deletion_blocks_def account_deletion_blocks_access_def normalize_account_deletion_status_def
        mutation_memory_ids_def)
  then show ?thesis
    using append_refines_history [OF mem.firestore_axioms _ step] step by (auto simp: sidelined_def project_def)
qed

subsection \<open>Appending again, retired memories, the trusted fields\<close>

context firestore
begin

lemma append_step_other:
  assumes "op_tidy uid op" "op_writers (spares ps) op" "p \<in> ps" "p \<noteq> state_ref uid" "\<And>c. p \<noteq> commit_ref uid c"
  shows "fetch (snd (append_step fetch commit digest uid op st)) p = fetch st p"
proof (cases "append_body digest uid op (fetch st)")
  case (Inr r)
  then obtain c b ws where r: "append_body digest uid op (fetch st) = Inr ((c, b), ws)" by (metis prod.exhaust)
  then have "writes_ok (fetch st) ws \<and> p \<notin> wpath ` set ws"
  proof (cases rule: append_body_Inr)
    case (applied mutations run_id t writer staged)
    have "ps \<inter> wpath ` set staged = {}"
      using applied(6) [OF assms(2)] applied(5) by (simp add: spares_def)
    then have "p \<notin> wpath ` set staged" using assms(3) by blast
    moreover have "writes_ok (fetch st) staged" "state_ref uid \<notin> wpath ` set staged" "\<And>c. commit_ref uid c \<notin> wpath ` set staged"
      using applied(6) [OF assms(1)] applied(5) by (simp_all add: sidelined_def)
    ultimately show ?thesis
      using assms(4,5) by (auto simp: applied(7) writes_ok_def append_writes_def)
  qed simp
  then show ?thesis by (simp add: append_step_def run_txn_def r fetch_commit_other)
qed (simp add: append_step_def run_txn_def)

lemma privacy_deleted_step:
  assumes "op_tidy uid op" "op_writers (spares {item_ref uid m, override_ref uid m}) op" "privacy_deleted (fetch st) uid m"
  shows "privacy_deleted (fetch (snd (append_step fetch commit digest uid op st))) uid m
    \<and> (\<forall>c. fst (append_step fetch commit digest uid op st) = Inr (c, True) \<longrightarrow>
        (\<exists>ms. dget c ''mutations'' = PList (map PDict ms) \<and> m \<notin> set (mutation_memory_ids ms)))"
proof -
  have "fetch (snd (append_step fetch commit digest uid op st)) p = fetch st p" if "p \<in> {item_ref uid m, override_ref uid m}" for p
    using assms(1,2) that by (rule append_step_other) (use that in \<open>auto simp: item_ref_def override_ref_def state_ref_def commit_ref_def\<close>)
  then have "privacy_deleted (fetch (snd (append_step fetch commit digest uid op st))) uid m"
    using assms(3) by (simp add: privacy_deleted_def)
  moreover have "\<exists>ms. dget c ''mutations'' = PList (map PDict ms) \<and> m \<notin> set (mutation_memory_ids ms)"
    if "fst (append_step fetch commit digest uid op st) = Inr (c, True)" for c
    using assms(1)
  proof (cases rule: append_step_cases [of uid op digest st, case_names quiet advanced])
    case (advanced ms r t)
    then have "dget c ''mutations'' = PList (map PDict ms)" "m \<notin> set (mutation_memory_ids ms)"
      using that assms(3) by (auto simp: advanced_def Let_def assert_legacy_commit_privacy_fences_def list_ex_iff dget_def split: if_split_asm)
    then show ?thesis by blast
  qed (use that in blast)
  ultimately show ?thesis by blast
qed

end

text \<open>
  C18. Appending is idempotent: once an append with an explicit parent was applied, the same
  parent and mutations, appended again by any run, at any time and after any number of other
  appends, answer with the stored commit and write nothing, although the head has moved.
\<close>

theorem append_retry_idempotent:
  assumes "firestore fetch commit"
    and "append_step fetch commit digest uid (Append parent mutations run_id t writer False now) st = (Inr (c, True), st1)"
    and "sidelined uid writer" "\<forall>op \<in> set ops. op_tidy uid op"
    and "snd (run_ops (append_step fetch commit digest uid) ops st1) = st2"
  shows "\<exists>st3. append_step fetch commit digest uid (Append parent mutations run_id' t' writer' False now') st2 = (Inr (c, False), st3)
    \<and> fetch st3 = fetch st2"
proof -
  let ?op = "Append parent mutations run_id t writer False now"
  let ?cid = "commit_id_for digest parent mutations"
  have tidy: "op_tidy uid ?op" using assms(3) by simp
  have "snd (history (fetch st1) uid) ?cid = Some c"
    using firestore.append_step_history [OF assms(1,2) tidy]
    by (auto simp: same_history_def append_commit_to_history_def Let_def split: prod.split_asm option.split_asm if_split_asm)
  then have "fetch st1 (commit_ref uid ?cid) = Some c" by (simp add: history_def)
  then have "fetch (snd (run_ops (append_step fetch commit digest uid) ops st1)) (commit_ref uid ?cid) = Some c"
    using assms(4) firestore.commit_kept [OF assms(1)]
    by (intro run_ops_invariant [where I = "\<lambda>st. fetch st (commit_ref uid ?cid) = Some c" and P = "op_tidy uid"])
  then have "append_body digest uid (Append parent mutations run_id' t' writer' False now') (fetch st2) = Inr ((c, False), [])"
    by (simp add: assms(5) append_commit_transaction_def Let_def)
  then show ?thesis
    using firestore.fetch_commit [OF assms(1), of st2 "[]"] by (simp add: append_step_def run_txn_def fun_eq_iff)
qed

text \<open>Concrete appends are evaluated on a store with nothing in it.\<close>

lemmas append_eval = append_step_def run_txn_def append_commit_transaction_def mem_fetch_def stored_def dget_def Let_def
  project_def assert_legacy_commit_privacy_fences_def assert_no_destructive_operation_transaction_def validated_gate_def
  gate_blocks_def deletion_blocks_def account_deletion_blocks_access_def normalize_account_deletion_status_def
  mutation_memory_ids_def

theorem append_retry_idempotent_witness:
  "\<exists>c st1 st3. append_step mem_fetch mem_commit (\<lambda>v. ''c'') ''u'' (Append PNone [] PNone 3 None False 4) (\<lambda>p. None) = (Inr (c, True), st1)
    \<and> append_step mem_fetch mem_commit (\<lambda>v. ''c'') ''u'' (Append PNone [] (PStr ''later'') 8 None False 9) st1 = (Inr (c, False), st3)"
proof -
  have "fst (append_step mem_fetch mem_commit (\<lambda>v. ''c'') ''u'' (Append PNone [] PNone 3 None False 4) (\<lambda>p. None)) =
      Inr (map_of (build_commit (\<lambda>v. ''c'') PNone [] PNone 3), True)"
    by (simp add: append_eval)
  then obtain c st1 where step: "append_step mem_fetch mem_commit (\<lambda>v. ''c'') ''u'' (Append PNone [] PNone 3 None False 4) (\<lambda>p. None) = (Inr (c, True), st1)"
    by (metis prod.collapse)
  show ?thesis
    using append_retry_idempotent [OF mem.firestore_axioms step, of "[]" st1 "PStr ''later''" 8 None 9] step
    by (auto simp: sidelined_def project_def)
qed

text \<open>
  The trusted fields that the canonical apply stream keeps on the shared head document
  survive every append: whatever is appended, reading them back gives the same fields.
\<close>

lemma trusted_head_kept:
  assumes "firestore fetch commit" "\<forall>op \<in> set ops. op_tidy uid op"
    and "trusted_memory_state_head_fields_from_state (stored (fetch st) (state_ref uid)) uid = Some fs"
  shows "trusted_memory_state_head_fields_from_state
      (stored (fetch (snd (run_ops (append_step fetch commit digest uid) ops st))) (state_ref uid)) uid = Some fs"
proof (rule run_ops_invariant [where I = "\<lambda>st. trusted_memory_state_head_fields_from_state (stored (fetch st) (state_ref uid)) uid = Some fs"
      and P = "op_tidy uid", OF _ assms(3,2)])
  fix op s
  assume tr: "trusted_memory_state_head_fields_from_state (stored (fetch s) (state_ref uid)) uid = Some fs" and tidy: "op_tidy uid op"
  show "trusted_memory_state_head_fields_from_state
      (stored (fetch (snd (append_step fetch commit digest uid op s))) (state_ref uid)) uid = Some fs"
  proof (cases rule: firestore.append_step_cases [OF assms(1) tidy, of digest s, case_names quiet advanced])
    case quiet
    with tr show ?thesis by simp
  next
    case (advanced ms r t)
    then show ?thesis using trusted_payload [OF tr] by (simp add: advanced_def Let_def stored_def)
  qed
qed

text \<open>
  C17. While a destructive operation owns an account's gate, up to six hours from its start, no
  append changes anything of the store: between the deletion of a memory and the end of its
  cleanup no commit can bring content back.
\<close>

theorem ledger_frozen_during_deletion:
  assumes "firestore fetch commit"
    and "acquire_destructive_operation fetch commit uid kind token now st = (Inr (), st1)"
    and "kind \<noteq> ''external_data_write''" "py_strip uid \<noteq> []"
    and "dget (the (fetch st1 (gate_ref uid))) ''started_at'' = PTime t0"
    and "\<forall>op \<in> set ops. append_clock op - t0 < td_seconds GATE_STALE_AFTER_SECONDS"
  shows "fetch (snd (run_ops (append_step fetch commit digest uid) ops st1)) = fetch st1"
proof -
  obtain t1 where "owns (fetch st1) uid kind token t1"
    using firestore.acquire_owns [OF assms(1-4)] by blast
  with assms(5) have own: "owns (fetch st1) uid kind token t0" by (auto simp: owns_def sound_gate_def)
  show ?thesis
  proof (rule run_ops_invariant [where I = "\<lambda>s. fetch s = fetch st1" and
        P = "\<lambda>op. append_clock op - t0 < td_seconds GATE_STALE_AFTER_SECONDS", OF _ refl assms(6)])
    fix op s
    assume s: "fetch s = fetch st1" and now: "append_clock op - t0 < td_seconds GATE_STALE_AFTER_SECONDS"
    have own_s: "owns (fetch s) uid kind token t0" using own s by simp
    show "fetch (snd (append_step fetch commit digest uid op s)) = fetch st1"
      using append_fenced.owned_quiet [OF assms(1) own_s assms(3)] builder_fenced.owned_quiet [OF assms(1) own_s assms(3)] now s
      by (cases op) (simp_all add: append_step_def)
  qed
qed

text \<open>
  C15. A tombstone fences the appends: while the item or the override of a memory is tombstoned,
  no append is applied whose mutations carry the memory as the id of a fact, as \<open>fact_id\<close>, as
  \<open>target_fact_id\<close> or as \<open>by\<close>. This holds over any sequence of appends whose projection writers
  leave the two documents alone and of changes by others that keep the memory tombstoned, and the
  memory is still tombstoned at the end. Mentions elsewhere in a mutation are not looked at, and
  nothing is refused any more once the tombstone and the override are removed.
\<close>

theorem tombstone_fences_appends:
  assumes "firestore fetch commit" "privacy_deleted (fetch st) uid m"
    and "\<forall>ev \<in> set evs. case ev of
        Inl op \<Rightarrow> op_tidy uid op \<and> op_writers (spares {item_ref uid m, override_ref uid m}) op
      | Inr change \<Rightarrow> (\<forall>s. privacy_deleted (fetch s) uid m \<longrightarrow> privacy_deleted (fetch (change s)) uid m)"
    and "run_ops (ledger_event fetch commit digest uid) evs st = (answers, st')"
  shows "privacy_deleted (fetch st') uid m \<and> (\<forall>c \<in> set (applied_commits answers).
    \<exists>ms. dget c ''mutations'' = PList (map PDict ms) \<and> m \<notin> set (mutation_memory_ids ms))"
proof -
  let ?free = "\<lambda>c. \<exists>ms. dget c ''mutations'' = PList (map PDict ms) \<and> m \<notin> set (mutation_memory_ids ms)"
  let ?P = "\<lambda>ev. case ev of
        Inl op \<Rightarrow> op_tidy uid op \<and> op_writers (spares {item_ref uid m, override_ref uid m}) op
      | Inr change \<Rightarrow> (\<forall>s. privacy_deleted (fetch s) uid m \<longrightarrow> privacy_deleted (fetch (change s)) uid m)"
  have step: "privacy_deleted (fetch (snd (ledger_event fetch commit digest uid ev s))) uid m
    \<and> (\<forall>c. fst (ledger_event fetch commit digest uid ev s) = Some (Inr (c, True)) \<longrightarrow> ?free c)"
    if "privacy_deleted (fetch s) uid m" "?P ev" for ev s
    using firestore.privacy_deleted_step [OF assms(1)] that by (auto simp: ledger_event_def split: sum.split_asm)
  from run_ops_answers [where Q = "\<lambda>ev r. \<forall>c. r = Some (Inr (c, True)) \<longrightarrow> ?free c", OF step assms(4,2,3)]
  have run: "privacy_deleted (fetch st') uid m" "\<And>ev c. (ev, Some (Inr (c, True))) \<in> set answers \<Longrightarrow> ?free c" by blast+
  then show ?thesis by (auto simp: applied_commits_def split: option.split_asm sum.split_asm if_split_asm)
qed

theorem tombstone_fences_appends_witness:
  "\<exists>answers st'. run_ops (ledger_event mem_fetch mem_commit (\<lambda>v. ''c'') ''u'')
      [Inl (Append PNone [[(''fact_id'', PStr ''m'')]] PNone 3 None False 4), Inr (\<lambda>st. st)]
      [item_ref ''u'' ''m'' \<mapsto> [''status'' \<mapsto> PStr ''tombstoned'']] = (answers, st')
    \<and> privacy_deleted (mem_fetch st') ''u'' ''m''
    \<and> map_of (build_commit (\<lambda>v. ''c'') PNone [[(''fact_id'', PStr ''m'')]] PNone 3) \<notin> set (applied_commits answers)"
proof -
  let ?evs = "[Inl (Append PNone [[(''fact_id'', PStr ''m'')]] PNone 3 None False 4), Inr (\<lambda>st. st)]"
  let ?st = "[item_ref ''u'' ''m'' \<mapsto> [''status'' \<mapsto> PStr ''tombstoned'']]"
  let ?c = "map_of (build_commit (\<lambda>v. ''c'') PNone [[(''fact_id'', PStr ''m'')]] PNone 3)"
  obtain answers st' where run: "run_ops (ledger_event mem_fetch mem_commit (\<lambda>v. ''c'') ''u'') ?evs ?st = (answers, st')" by fastforce
  have "privacy_deleted (mem_fetch ?st) ''u'' ''m''" by (simp add: privacy_deleted_def mem_fetch_def dget_def)
  from tombstone_fences_appends [OF mem.firestore_axioms this _ run]
  have out: "privacy_deleted (mem_fetch st') ''u'' ''m''" "\<forall>c \<in> set (applied_commits answers).
    \<exists>ms. dget c ''mutations'' = PList (map PDict ms) \<and> ''m'' \<notin> set (mutation_memory_ids ms)"
    by (simp_all add: sidelined_def spares_def project_def)
  have "?c \<notin> set (applied_commits answers)"
  proof
    assume "?c \<in> set (applied_commits answers)"
    with out(2) obtain ms where "map PDict ms = [PDict [(''fact_id'', PStr ''m'')]]" "''m'' \<notin> set (mutation_memory_ids ms)"
      by (fastforce simp: dget_def)
    then show False by (auto simp: mutation_memory_ids_def entry_memory_ids_def dict_get_def)
  qed
  with run out(1) show ?thesis by blast
qed

theorem ledger_frozen_during_deletion_witness:
  "\<exists>st1. mem_fetch (snd (run_ops (append_step mem_fetch mem_commit (\<lambda>v. ''c'') ''u'') [Append PNone [] PNone 3 None False 9] st1)) = mem_fetch st1"
proof -
  let ?st1 = "mem_commit (\<lambda>p. None) [SetDoc (gate_ref ''u'') (running_gate ''u'' ''wipe'' ''t'' 5)]"
  have acq: "acquire_destructive_operation mem_fetch mem_commit ''u'' ''wipe'' ''t'' 5 (\<lambda>p. None) = (Inr (), ?st1)"
    by (simp add: hold_eval)
  have "mem_fetch (snd (run_ops (append_step mem_fetch mem_commit (\<lambda>v. ''c'') ''u'') [Append PNone [] PNone 3 None False 9] ?st1)) = mem_fetch ?st1"
    by (rule ledger_frozen_during_deletion [OF mem.firestore_axioms acq, of 5]) (simp_all add: hold_eval)
  then show ?thesis by blast
qed

end
