(* ===== verification/Memory_Confidence.thy ===== *)
theory Memory_Confidence
  imports Projection_Binding
begin

text \<open>
  The confidence a fact carries, computed from its evidence: \<^verbatim>\<open>confidence_fields_for_evidence\<close>,
  \<^verbatim>\<open>compute_veracity\<close>, \<^verbatim>\<open>uncertainty_reasons_for\<close>, \<^verbatim>\<open>merge_evidence_sets\<close> and \<^verbatim>\<open>confidence_band\<close> of
  \<^verbatim>\<open>models/memories.py\<close>, with the priors of \<^verbatim>\<open>config/memory_confidence.py\<close>. An evidence item is
  taken as the dictionary a model dumps to. Floating-point numbers are real numbers here.
\<close>

definition SOURCE_SIGNAL_CAPTURE_PRIORS :: "(string \<times> real) list" where
  "SOURCE_SIGNAL_CAPTURE_PRIORS =
     [(''typed'', 95/100), (''manual'', 95/100), (''push_to_talk'', 9/10), (''integration'', 8/10),
      (''transcription'', 65/100), (''background_transcription'', 55/100), (''ocr'', 45/100), (''legacy'', 6/10),
      (''unknown'', 5/10)]"

definition unknown_capture :: real where
  "unknown_capture = the (map_of SOURCE_SIGNAL_CAPTURE_PRIORS ''unknown'')"

definition VERACITY_BASE :: real where "VERACITY_BASE = 35/100"
definition VERACITY_SINGLE_GROUP :: real where "VERACITY_SINGLE_GROUP = 45/100"
definition VERACITY_ADDITIONAL_GROUP :: real where "VERACITY_ADDITIONAL_GROUP = 22/100"
definition VERACITY_HIGH_CAPTURE_BONUS :: real where "VERACITY_HIGH_CAPTURE_BONUS = 8/100"
definition VERACITY_LOW_CAPTURE_PENALTY :: real where "VERACITY_LOW_CAPTURE_PENALTY = 12/100"
definition VERACITY_THIRD_PARTY_PENALTY :: real where "VERACITY_THIRD_PARTY_PENALTY = 8/100"
definition VERACITY_MAXIMUM :: real where "VERACITY_MAXIMUM = 98/100"

definition LOW_CAPTURE_THRESHOLD :: real where "LOW_CAPTURE_THRESHOLD = 5/10"
definition HIGH_CAPTURE_THRESHOLD :: real where "HIGH_CAPTURE_THRESHOLD = 85/100"

lemmas veracity_priors = VERACITY_BASE_def VERACITY_SINGLE_GROUP_def VERACITY_ADDITIONAL_GROUP_def
  VERACITY_HIGH_CAPTURE_BONUS_def VERACITY_LOW_CAPTURE_PENALTY_def VERACITY_THIRD_PARTY_PENALTY_def VERACITY_MAXIMUM_def

definition capture_confidence_for_source_signal :: "string \<Rightarrow> real" where
  "capture_confidence_for_source_signal s =
     (case map_of SOURCE_SIGNAL_CAPTURE_PRIORS s of None \<Rightarrow> unknown_capture | Some c \<Rightarrow> c)"

text \<open>The bands in ascending order of their thresholds; the last one reached wins.\<close>

definition CONFIDENCE_BANDS :: "(string \<times> real) list" where
  "CONFIDENCE_BANDS = [(''low'', 0), (''medium'', 5/10), (''high'', 75/100), (''certain'', 9/10)]"

definition confidence_band :: "real \<Rightarrow> string" where
  "confidence_band v = foldl (\<lambda>band (name, threshold). if v \<ge> threshold then name else band) ''low'' CONFIDENCE_BANDS"

subsection \<open>Evidence\<close>

text \<open>\<open>item.get('redaction_status', 'active') != 'tombstoned'\<close>: only the literal text is tombstoned.\<close>

definition active_item :: "dict \<Rightarrow> bool" where
  "active_item item \<longleftrightarrow> map_of item ''redaction_status'' \<noteq> Some (PStr ''tombstoned'')"

definition group_of :: "dict \<Rightarrow> string option" where
  "group_of item =
     (case py_or (dict_get item ''independence_group'') (dict_get item ''source_id'') of
        PStr s \<Rightarrow> if s \<noteq> [] then Some s else None
      | _ \<Rightarrow> None)"

definition evidence_groups :: "dict list \<Rightarrow> string set" where
  "evidence_groups items = set (List.map_filter group_of items)"

text \<open>\<open>isinstance(v, (float, int))\<close> admits booleans, which compare as 0 and 1.\<close>

definition capture_of :: "dict \<Rightarrow> real option" where
  "capture_of item = num_of (dict_get item ''capture_confidence'')"

definition compute_veracity :: "dict list \<Rightarrow> pyval \<Rightarrow> real" where
  "compute_veracity evidence_set subject_attribution =
     (let evidence_items = filter active_item evidence_set;
          n = card (evidence_groups evidence_items) in
      if n = 0 then VERACITY_BASE
      else
        (let score = VERACITY_SINGLE_GROUP + (if n > 1 then (real n - 1) * VERACITY_ADDITIONAL_GROUP else 0);
             captures = List.map_filter capture_of evidence_items;
             max_capture = (if captures = [] then unknown_capture else Max (set captures));
             score = (if max_capture \<ge> HIGH_CAPTURE_THRESHOLD then score + VERACITY_HIGH_CAPTURE_BONUS else score);
             score = (if max_capture < LOW_CAPTURE_THRESHOLD then score - VERACITY_LOW_CAPTURE_PENALTY else score);
             score = (if subject_attribution = PStr ''third_party'' then score - VERACITY_THIRD_PARTY_PENALTY else score)
         in max 0 (min VERACITY_MAXIMUM score)))"

definition uncertainty_reasons_for :: "dict list \<Rightarrow> pyval \<Rightarrow> string list" where
  "uncertainty_reasons_for evidence_set subject_attribution =
     (let evidence_items = filter active_item evidence_set in
      (if card (evidence_groups evidence_items) \<le> 1 then [''single_source''] else [])
      @ (if \<exists>item \<in> set evidence_items. (case capture_of item of None \<Rightarrow> False | Some c \<Rightarrow> c < LOW_CAPTURE_THRESHOLD)
         then [''low_capture_signal''] else [])
      @ (if subject_attribution = PStr ''third_party'' then [''third_party_subject''] else []))"

definition confidence_fields_for_evidence :: "dict list \<Rightarrow> pyval \<Rightarrow> pyval \<Rightarrow> dict" where
  "confidence_fields_for_evidence evidence_items subject_attribution existing_capture_confidence =
     (let capture = (if existing_capture_confidence \<noteq> PNone then existing_capture_confidence
            else case evidence_items of
              [] \<Rightarrow> PNone
            | first # _ \<Rightarrow> (case capture_of first of None \<Rightarrow> PNone | Some c \<Rightarrow> PFloat c));
          capture = (if capture = PNone then PFloat unknown_capture else capture)
      in [(''capture_confidence'', capture),
          (''veracity'', PFloat (compute_veracity evidence_items subject_attribution)),
          (''uncertainty_reasons'', PList (map PStr (uncertainty_reasons_for evidence_items subject_attribution)))])"

text \<open>
  Merging two evidence lists: an item whose id was seen is dropped, unless the item seen is
  tombstoned and this one is not, which then takes its place.
\<close>

fun merge_evidence_loop :: "(string \<times> nat) list \<Rightarrow> dict list \<Rightarrow> dict list \<Rightarrow> dict list" where
  "merge_evidence_loop seen merged [] = merged"
| "merge_evidence_loop seen merged (item # items) =
     (case dict_get item ''evidence_id'' of
        PStr evidence_id \<Rightarrow>
          (case map_of seen evidence_id of
             Some existing_index \<Rightarrow>
               if \<not> active_item (merged ! existing_index) \<and> active_item item
               then merge_evidence_loop seen (merged[existing_index := item]) items
               else merge_evidence_loop seen merged items
           | None \<Rightarrow> merge_evidence_loop ((evidence_id, length merged) # seen) (merged @ [item]) items)
      | _ \<Rightarrow> merge_evidence_loop seen (merged @ [item]) items)"

definition merge_evidence_sets :: "dict list \<Rightarrow> dict list \<Rightarrow> dict list" where
  "merge_evidence_sets existing incoming = merge_evidence_loop [] [] (existing @ incoming)"

subsection \<open>Bounds and effect of tombstones\<close>

lemma veracity_bounds: "0 \<le> compute_veracity ev a \<and> compute_veracity ev a \<le> VERACITY_MAXIMUM"
proof -
  have clamp: "0 \<le> max 0 (min VERACITY_MAXIMUM x) \<and> max 0 (min VERACITY_MAXIMUM x) \<le> VERACITY_MAXIMUM" for x
    by (simp add: VERACITY_MAXIMUM_def)
  have base: "0 \<le> VERACITY_BASE \<and> VERACITY_BASE \<le> VERACITY_MAXIMUM"
    by (simp add: VERACITY_MAXIMUM_def VERACITY_BASE_def)
  show ?thesis
  proof (cases "card (evidence_groups (filter active_item ev)) = 0")
    case True
    with base show ?thesis by (simp add: compute_veracity_def)
  next
    case False
    then obtain x where "compute_veracity ev a = max 0 (min VERACITY_MAXIMUM x)"
      unfolding compute_veracity_def Let_def by (simp only: if_False)
    with clamp show ?thesis by simp
  qed
qed

lemma veracity_ignores_tombstoned: "compute_veracity ev a = compute_veracity (filter active_item ev) a"
  by (simp add: compute_veracity_def)

lemma no_evidence_base: "filter active_item ev = [] \<Longrightarrow> compute_veracity ev a = VERACITY_BASE"
  by (simp add: compute_veracity_def evidence_groups_def map_filter_simps)

end
