(* ===== verification/Memory_Fold.thy ===== *)
theory Memory_Fold
  imports Memory_Ledger Memory_Confidence "HOL-Library.Multiset"
begin

text \<open>
  The reading side of \<^verbatim>\<open>database/memory_ledger.py\<close>: the constructors of mutations, replaying
  commits into facts (\<^verbatim>\<open>fold_commits\<close>, \<^verbatim>\<open>_apply_mutation\<close>), the state at a time (\<^verbatim>\<open>replay_to\<close>,
  \<^verbatim>\<open>_fact_valid_at\<close>) and the mutations between two commits (\<^verbatim>\<open>diff\<close>, \<^verbatim>\<open>diff_commits\<close>). Facts are kept
  in insertion order, keyed by the value of their id. A commit document's mutations are a list and its time is a timestamp or
  absent, as the annotations of the source say; anything else raises.
\<close>

abbreviation AttributeError :: pyerr where
  "AttributeError \<equiv> OtherError ''AttributeError''"

definition dict_set :: "dict \<Rightarrow> string \<Rightarrow> pyval \<Rightarrow> dict" where
  "dict_set d k v = dict_update d [(k, v)]"

lemma map_of_dict_set [simp]: "map_of (dict_set d k v) k' = (if k' = k then Some v else map_of d k')"
  by (simp add: dict_set_def)

lemma dict_get_dict_set [simp]: "dict_get (dict_set d k v) k' = (if k' = k then v else dict_get d k')"
  by (simp add: dict_get_def)

text \<open>Python's \<open>==\<close> on nested values: numbers by value, dictionaries as mappings.\<close>

fun deep_eq :: "pyval \<Rightarrow> pyval \<Rightarrow> bool"
  and deep_eq_list :: "pyval list \<Rightarrow> pyval list \<Rightarrow> bool"
  and deep_eq_dict :: "(string \<times> pyval) list \<Rightarrow> (string \<times> pyval) list \<Rightarrow> bool" where
  "deep_eq (PList xs) w = (case w of PList ys \<Rightarrow> deep_eq_list xs ys | _ \<Rightarrow> False)"
| "deep_eq (PDict kvs) w = (case w of PDict b \<Rightarrow> fst ` set kvs = fst ` set b \<and> deep_eq_dict kvs b | _ \<Rightarrow> False)"
| "deep_eq v w = py_eq v w"
| "deep_eq_list [] ys = (ys = [])"
| "deep_eq_list (x # xs) ys = (case ys of [] \<Rightarrow> False | y # ys' \<Rightarrow> deep_eq x y \<and> deep_eq_list xs ys')"
| "deep_eq_dict [] b = True"
| "deep_eq_dict ((k, v) # kvs) b = ((case map_of b k of None \<Rightarrow> False | Some w \<Rightarrow> deep_eq v w) \<and> deep_eq_dict kvs b)"

subsection \<open>Mutations\<close>

definition mutation :: "string \<Rightarrow> dict \<Rightarrow> dict" where
  "mutation mutation_type payload = (''type'', PStr mutation_type) # payload"

text \<open>
  The nested update \<open>qualifiers[k] = v\<close>, where the qualifiers may be absent or not be a
  dictionary.
\<close>

definition set_in_dict :: "pyval \<Rightarrow> string \<Rightarrow> pyval \<Rightarrow> pyval res" where
  "set_in_dict q k v = (case q of PDict d \<Rightarrow> Inr (PDict (dict_set d k v)) | _ \<Rightarrow> Inl TypeError)"

definition get_in_dict :: "pyval \<Rightarrow> string \<Rightarrow> pyval res" where
  "get_in_dict q k = (case q of PDict d \<Rightarrow> Inr (dict_get d k) | _ \<Rightarrow> Inl AttributeError)"

definition default_bound :: "dict \<Rightarrow> string \<Rightarrow> pyval \<Rightarrow> string \<Rightarrow> pyval res" where
  "default_bound f field q bound =
     (if dict_get f field = PNone then Inr q
      else res_bind (get_in_dict q bound) (\<lambda>current.
        if current = PNone then set_in_dict q bound (dict_get f field) else Inr q))"

definition normalize_fact_for_ledger :: "dict \<Rightarrow> dict res" where
  "normalize_fact_for_ledger f =
     (let normalized = dict_setdefault f ''qualifiers'' (PDict []) in
      res_bind (default_bound normalized ''valid_at'' (dict_get normalized ''qualifiers'') ''valid_from'') (\<lambda>q.
      res_bind (default_bound normalized ''invalid_at'' q ''valid_to'') (\<lambda>q'.
      Inr (dict_set normalized ''qualifiers'' q'))))"

definition add_fact :: "dict \<Rightarrow> dict res" where
  "add_fact f = res_bind (normalize_fact_for_ledger f) (\<lambda>n. Inr (mutation ''add_fact'' [(''fact'', PDict n)]))"

definition supersede_fact :: "string \<Rightarrow> pyval \<Rightarrow> string \<Rightarrow> dict \<Rightarrow> dict" where
  "supersede_fact fact_id successor kind valid_interval =
     mutation ''supersede_fact'' [(''fact_id'', PStr fact_id), (''by'', successor), (''kind'', PStr kind),
       (''valid_interval'', PDict valid_interval)]"

definition refine_fact :: "string \<Rightarrow> dict \<Rightarrow> dict" where
  "refine_fact fact_id arg_changes = mutation ''refine_fact'' [(''fact_id'', PStr fact_id), (''arg_changes'', PDict arg_changes)]"

definition retract_fact :: "string \<Rightarrow> string \<Rightarrow> dict" where
  "retract_fact fact_id reason = mutation ''retract_fact'' [(''fact_id'', PStr fact_id), (''reason'', PStr reason)]"

definition add_evidence :: "string \<Rightarrow> dict \<Rightarrow> dict" where
  "add_evidence fact_id evidence = mutation ''add_evidence'' [(''fact_id'', PStr fact_id), (''evidence'', PDict evidence)]"

definition remove_evidence :: "string \<Rightarrow> string \<Rightarrow> dict" where
  "remove_evidence fact_id evidence_id =
     mutation ''remove_evidence'' [(''fact_id'', PStr fact_id), (''evidence_id'', PStr evidence_id)]"

definition tombstone_evidence :: "string \<Rightarrow> string \<Rightarrow> pyval \<Rightarrow> string \<Rightarrow> dict" where
  "tombstone_evidence fact_id evidence_id tombstoned_at reason =
     mutation ''tombstone_evidence'' [(''fact_id'', PStr fact_id), (''evidence_id'', PStr evidence_id),
       (''tombstoned_at'', tombstoned_at), (''reason'', PStr reason)]"

definition reassign_fact_subject :: "string \<Rightarrow> pyval \<Rightarrow> pyval \<Rightarrow> dict" where
  "reassign_fact_subject fact_id old new =
     mutation ''reassign_fact_subject'' [(''fact_id'', PStr fact_id), (''old'', old), (''new'', new)]"

definition merge_entities :: "string \<Rightarrow> string \<Rightarrow> dict \<Rightarrow> real \<Rightarrow> dict" where
  "merge_entities entity_a entity_b evidence confidence =
     mutation ''merge_entities'' [(''entity_a'', PStr entity_a), (''entity_b'', PStr entity_b), (''evidence'', PDict evidence),
       (''confidence'', PFloat confidence)]"

definition split_entity :: "string \<Rightarrow> dict list \<Rightarrow> string \<Rightarrow> dict" where
  "split_entity entity_id into reason =
     mutation ''split_entity'' [(''entity_id'', PStr entity_id), (''into'', PList (map PDict into)), (''reason'', PStr reason)]"

subsection \<open>Applying a mutation\<close>

type_synonym facts = "(pyval \<times> dict) list"

definition hashable :: "pyval \<Rightarrow> bool" where
  "hashable v = (case v of PList xs \<Rightarrow> False | PDict kvs \<Rightarrow> False | _ \<Rightarrow> True)"

definition resolve_arg_change :: "pyval \<Rightarrow> pyval" where
  "resolve_arg_change v =
     (case v of PDict d \<Rightarrow> (case map_of d ''to'' of None \<Rightarrow> v | Some to_v \<Rightarrow> to_v) | _ \<Rightarrow> v)"

text \<open>The arguments are read once and updated in place, so they are threaded beside the fact.\<close>

fun arg_changes_loop :: "dict \<Rightarrow> pyval \<Rightarrow> dict \<Rightarrow> (dict \<times> pyval) res" where
  "arg_changes_loop f arguments [] = Inr (f, arguments)"
| "arg_changes_loop f arguments ((key, v) # changes) =
     (if key = ''content'' then arg_changes_loop (dict_set f ''content'' (resolve_arg_change v)) arguments changes
      else res_bind (set_in_dict arguments key (resolve_arg_change v)) (\<lambda>arguments'. arg_changes_loop f arguments' changes))"

definition apply_arg_changes :: "dict \<Rightarrow> dict \<Rightarrow> dict res" where
  "apply_arg_changes f arg_changes =
     (let f' = dict_setdefault f ''arguments'' (PDict []) in
      res_bind (arg_changes_loop f' (dict_get f' ''arguments'') arg_changes) (\<lambda>(g, arguments).
      Inr (dict_set g ''arguments'' arguments)))"

definition apply_supersede :: "dict \<Rightarrow> dict \<Rightarrow> pyval \<Rightarrow> dict res" where
  "apply_supersede f item commit_time =
     res_bind (get_in_dict (py_or (dict_get item ''valid_interval'') (PDict [])) ''valid_to'') (\<lambda>valid_to.
     let invalid_at = py_or valid_to commit_time;
         f1 = dict_set (dict_set f ''superseded_by'' (dict_get item ''by'')) ''invalid_at'' invalid_at;
         f2 = dict_setdefault f1 ''qualifiers'' (PDict []) in
     res_bind (set_in_dict (dict_get f2 ''qualifiers'') ''valid_to'' invalid_at) (\<lambda>q. Inr (dict_set f2 ''qualifiers'' q)))"

definition apply_retract :: "dict \<Rightarrow> dict \<Rightarrow> pyval \<Rightarrow> dict" where
  "apply_retract f item commit_time =
     dict_update f [(''invalid_at'', commit_time), (''retraction_reason'', dict_get item ''reason''),
       (''redaction_status'', PStr ''payload_tombstoned''), (''content'', PNone), (''arguments'', PDict [])]"

definition apply_add_evidence :: "dict \<Rightarrow> dict \<Rightarrow> dict res" where
  "apply_add_evidence f item =
     (let f' = dict_setdefault f ''evidence'' (PList []); new_evidence = dict_get item ''evidence'' in
      if \<not> truthy new_evidence then Inr f'
      else case dict_get f' ''evidence'' of
        PList es \<Rightarrow> Inr (if list_ex (\<lambda>e. deep_eq e new_evidence) es then f' else dict_set f' ''evidence'' (PList (es @ [new_evidence])))
      | _ \<Rightarrow> Inl TypeError)"

text \<open>\<open>fact.get('evidence') or []\<close>, iterated over.\<close>

definition evidence_items :: "dict \<Rightarrow> pyval list res" where
  "evidence_items f = (case py_or (dict_get f ''evidence'') (PList []) of PList es \<Rightarrow> Inr es | _ \<Rightarrow> Inl TypeError)"

definition evidence_named :: "pyval \<Rightarrow> pyval \<Rightarrow> bool" where
  "evidence_named evidence_id e = (case e of PDict d \<Rightarrow> deep_eq (dict_get d ''evidence_id'') evidence_id | _ \<Rightarrow> False)"

definition apply_remove_evidence :: "dict \<Rightarrow> dict \<Rightarrow> dict res" where
  "apply_remove_evidence f item =
     res_bind (evidence_items f) (\<lambda>es.
     Inr (dict_set f ''evidence'' (PList (filter (\<lambda>e. \<not> evidence_named (dict_get item ''evidence_id'') e) es))))"

definition tombstoned_item :: "dict \<Rightarrow> pyval \<Rightarrow> pyval \<Rightarrow> pyval" where
  "tombstoned_item item commit_time e =
     (case e of
        PDict d \<Rightarrow>
          if evidence_named (dict_get item ''evidence_id'') e
          then PDict (dict_update d [(''redaction_status'', PStr ''tombstoned''),
                 (''tombstoned_at'', py_or (dict_get item ''tombstoned_at'') commit_time),
                 (''tombstone_reason'', dict_get item ''reason'')])
          else e
      | _ \<Rightarrow> e)"

definition active_dicts :: "pyval list \<Rightarrow> dict list" where
  "active_dicts es = filter active_item (List.map_filter (\<lambda>e. case e of PDict d \<Rightarrow> Some d | _ \<Rightarrow> None) es)"

definition apply_tombstone_evidence :: "dict \<Rightarrow> dict \<Rightarrow> pyval \<Rightarrow> dict res" where
  "apply_tombstone_evidence f item commit_time =
     res_bind (evidence_items f) (\<lambda>es.
     let es' = map (tombstoned_item item commit_time) es;
         f' = (if es = [] then f else dict_set f ''evidence'' (PList es'));
         attribution = (case map_of f ''subject_attribution'' of None \<Rightarrow> PStr ''unknown'' | Some a \<Rightarrow> a) in
     Inr (dict_update f' (confidence_fields_for_evidence (active_dicts es') attribution (dict_get f ''capture_confidence''))))"

definition change_fact :: "string \<Rightarrow> dict \<Rightarrow> dict \<Rightarrow> pyval \<Rightarrow> dict res" where
  "change_fact mutation_type f item commit_time =
     (if mutation_type = ''supersede_fact'' then apply_supersede f item commit_time
      else if mutation_type = ''retract_fact'' then Inr (apply_retract f item commit_time)
      else if mutation_type = ''refine_fact'' then
        (case py_or (dict_get item ''arg_changes'') (PDict []) of
           PDict changes \<Rightarrow> apply_arg_changes f changes | _ \<Rightarrow> Inl AttributeError)
      else if mutation_type = ''add_evidence'' then apply_add_evidence f item
      else if mutation_type = ''remove_evidence'' then apply_remove_evidence f item
      else if mutation_type = ''tombstone_evidence'' then apply_tombstone_evidence f item commit_time
      else if mutation_type = ''reassign_fact_subject'' then Inr (dict_set f ''subject_entity_id'' (dict_get item ''new''))
      else Inr f)"

definition apply_mutation :: "facts \<Rightarrow> dict \<Rightarrow> pyval \<Rightarrow> facts res" where
  "apply_mutation facts item commit_time =
     (if dict_get item ''type'' = PStr ''add_fact'' then
        (case py_or (dict_get item ''fact'') (PDict []) of
           PDict f \<Rightarrow>
             let fact_id = dict_get f ''id'' in
             if \<not> truthy fact_id then Inr facts
             else if \<not> hashable fact_id then Inl TypeError
             else Inr (AList.update fact_id f facts)
         | _ \<Rightarrow> Inl AttributeError)
      else
        let fact_id = dict_get item ''fact_id'' in
        if \<not> truthy fact_id then Inr facts
        else if \<not> hashable fact_id then Inl TypeError
        else case map_of facts fact_id of
          None \<Rightarrow> Inr facts
        | Some f \<Rightarrow>
            (case dict_get item ''type'' of
               PStr mutation_type \<Rightarrow> res_bind (change_fact mutation_type f item commit_time) (\<lambda>f'. Inr (AList.update fact_id f' facts))
             | _ \<Rightarrow> Inr facts))"

subsection \<open>Replaying commits\<close>

text \<open>\<open>datetime.min\<close> in UTC, in microseconds.\<close>

definition DATETIME_MIN :: int where
  "DATETIME_MIN = - 62135596800 * 1000000"

definition commit_sort_key :: "doc \<Rightarrow> int res" where
  "commit_sort_key c =
     (case dget c ''commit_time'' of
        PTime t \<Rightarrow> Inr t
      | v \<Rightarrow> if truthy v then Inl TypeError else Inr DATETIME_MIN)"

fun res_map :: "('a \<Rightarrow> 'b res) \<Rightarrow> 'a list \<Rightarrow> 'b list res" where
  "res_map f [] = Inr []"
| "res_map f (x # xs) = res_bind (f x) (\<lambda>y. res_bind (res_map f xs) (\<lambda>ys. Inr (y # ys)))"

definition mutation_values :: "doc \<Rightarrow> pyval list res" where
  "mutation_values c = (case py_or (dget c ''mutations'') (PList []) of PList xs \<Rightarrow> Inr xs | _ \<Rightarrow> Inl TypeError)"

fun apply_all :: "pyval \<Rightarrow> facts \<Rightarrow> pyval list \<Rightarrow> facts res" where
  "apply_all commit_time facts [] = Inr facts"
| "apply_all commit_time facts (item # items) =
     (case item of
        PDict d \<Rightarrow> res_bind (apply_mutation facts d commit_time) (\<lambda>facts'. apply_all commit_time facts' items)
      | _ \<Rightarrow> Inl AttributeError)"

fun apply_commits :: "facts \<Rightarrow> doc list \<Rightarrow> facts res" where
  "apply_commits facts [] = Inr facts"
| "apply_commits facts (c # cs) =
     res_bind (mutation_values c) (\<lambda>items.
     res_bind (apply_all (dget c ''commit_time'') facts items) (\<lambda>facts'. apply_commits facts' cs))"

text \<open>A bound that is not a timestamp does not restrict.\<close>

definition fact_valid_at :: "dict \<Rightarrow> int \<Rightarrow> bool res" where
  "fact_valid_at f valid_time =
     (let qualifiers = py_or (dict_get f ''qualifiers'') (PDict []) in
      res_bind (get_in_dict qualifiers ''valid_from'') (\<lambda>qf.
      res_bind (get_in_dict qualifiers ''valid_to'') (\<lambda>qt.
      Inr ((case py_or qf (dict_get f ''valid_at'') of PTime t \<Rightarrow> \<not> valid_time < t | _ \<Rightarrow> True)
         \<and> (case py_or qt (dict_get f ''invalid_at'') of PTime t \<Rightarrow> \<not> valid_time > t | _ \<Rightarrow> True)))))"

definition currently_valid :: "dict \<Rightarrow> bool" where
  "currently_valid f \<longleftrightarrow> dict_get f ''invalid_at'' = PNone"

fun res_filter :: "('a \<Rightarrow> bool res) \<Rightarrow> 'a list \<Rightarrow> 'a list res" where
  "res_filter P [] = Inr []"
| "res_filter P (x # xs) = res_bind (P x) (\<lambda>b. res_bind (res_filter P xs) (\<lambda>ys. Inr (if b then x # ys else ys)))"

definition select_facts :: "int option \<Rightarrow> facts \<Rightarrow> facts res" where
  "select_facts valid_time facts =
     (case valid_time of
        None \<Rightarrow> Inr (filter (\<lambda>(fact_id, f). currently_valid f) facts)
      | Some t \<Rightarrow> res_filter (\<lambda>(fact_id, f). fact_valid_at f t) facts)"

definition by_time :: "doc list \<Rightarrow> doc list res" where
  "by_time commits =
     res_bind (res_map commit_sort_key commits) (\<lambda>keys.
     Inr (map snd (sort_key fst (zip keys commits))))"

definition fold_commits :: "doc list \<Rightarrow> int option \<Rightarrow> facts res" where
  "fold_commits commits valid_time =
     res_bind (by_time commits) (\<lambda>ordered.
     res_bind (apply_commits [] ordered) (select_facts valid_time))"

text \<open>
  The commits are read ordered by time; those the service returns are given as a list, and a
  stored commit whose time is not a timestamp makes the comparison raise.
\<close>

definition replay_to :: "doc list \<Rightarrow> int option \<Rightarrow> int option \<Rightarrow> facts res" where
  "replay_to documents commit_time valid_time =
     (case commit_time of
        None \<Rightarrow> fold_commits documents valid_time
      | Some limit \<Rightarrow>
          if list_all (\<lambda>c. as_time (dget c ''commit_time'') \<noteq> None) documents
          then fold_commits (filter (\<lambda>c. case dget c ''commit_time'' of PTime t \<Rightarrow> t \<le> limit | _ \<Rightarrow> False) documents) valid_time
          else Inl TypeError)"

definition diff :: "doc \<Rightarrow> doc \<Rightarrow> pyval list res" where
  "diff commit_a commit_b =
     (if dget commit_b ''parent_commit_id'' = dget commit_a ''commit_id''
      then mutation_values commit_b else Inr [])"

subsection \<open>The mutations between two commits\<close>

text \<open>Of several commits with the same parent the last one of the list is kept.\<close>

definition by_parent :: "doc list \<Rightarrow> pyval \<Rightarrow> doc option" where
  "by_parent commits = map_of (rev (map (\<lambda>c. (dget c ''parent_commit_id'', c)) commits))"

partial_function (option) diff_walk ::
  "(pyval \<Rightarrow> doc option) \<Rightarrow> pyval \<Rightarrow> pyval \<Rightarrow> pyval list \<Rightarrow> (pyval list \<times> pyval) res option" where
  "diff_walk children target cursor out =
     (if cursor = target then Some (Inr (out, cursor))
      else case children cursor of
        None \<Rightarrow> Some (Inr (out, cursor))
      | Some next_commit \<Rightarrow>
          (case mutation_values next_commit of
             Inl e \<Rightarrow> Some (Inl e)
           | Inr ms \<Rightarrow> diff_walk children target (dget next_commit ''commit_id'') (out @ ms)))"

definition diff_commits :: "doc list \<Rightarrow> pyval \<Rightarrow> string \<Rightarrow> pyval list res option" where
  "diff_commits commits from_commit_id to_commit_id =
     map_option (\<lambda>r. res_bind r (\<lambda>(out, cursor). Inr (if cursor = PStr to_commit_id then out else [])))
       (diff_walk (by_parent commits) (PStr to_commit_id) from_commit_id [])"

subsection \<open>Walking a linear ledger\<close>

definition cursor_of :: "string list \<Rightarrow> pyval" where
  "cursor_of ids = (case ids of [] \<Rightarrow> PNone | c # _ \<Rightarrow> PStr c)"

lemma chain_cursor: "chain commits h ids \<Longrightarrow> h = cursor_of ids"
  by (cases ids) (auto simp: cursor_of_def)

lemma chain_node:
  assumes "chain commits h (xs @ x # ys)"
  obtains d ms where "commits x = Some d" "dget d ''commit_id'' = PStr x" "dget d ''mutations'' = PList (map PDict ms)"
    "dget d ''parent_commit_id'' = cursor_of ys"
  using assms by (induction xs arbitrary: h) (auto dest: chain_cursor)

lemma cursor_unique:
  assumes "distinct (us @ i # vs)" "us @ i # vs = xs @ x # ys" "cursor_of vs = cursor_of ys"
  shows "i = x"
proof (cases vs)
  case Nil
  then have "ys = []" using assms(3) by (auto simp: cursor_of_def split: list.split_asm)
  with Nil assms(2) show ?thesis by simp
next
  case (Cons y vs')
  then obtain ys' where ys: "ys = y # ys'" using assms(3) by (auto simp: cursor_of_def split: list.split_asm)
  have eq: "(us @ [i]) @ y # vs' = (xs @ [x]) @ y # ys'" using assms(2) Cons ys by simp
  have "y \<notin> set (us @ [i])" "y \<notin> set vs'" using assms(1) Cons by auto
  with eq have "us @ [i] = xs @ [x]" by (metis append_Cons_eq_iff)
  then show ?thesis by simp
qed

text \<open>Every cursor of the walk has exactly one child among the documents of the ledger.\<close>

lemma by_parent_child:
  assumes chain: "chain commits h (xs @ x # ys)" and dist: "distinct (xs @ x # ys)"
    and dom: "dom commits = set (xs @ x # ys)" and docs: "set docs = ran commits"
  shows "by_parent docs (cursor_of ys) = commits x"
proof -
  obtain d where d: "commits x = Some d" "dget d ''parent_commit_id'' = cursor_of ys"
    using chain by (rule chain_node)
  have uniq: "e = d" if "e \<in> set docs" "dget e ''parent_commit_id'' = cursor_of ys" for e
  proof -
    have "e \<in> ran commits" using that(1) docs by simp
    then obtain i where i: "commits i = Some e" by (auto simp: ran_def)
    then obtain us vs where uv: "xs @ x # ys = us @ i # vs" using dom by (metis domI in_set_conv_decomp)
    have parent: "dget e ''parent_commit_id'' = cursor_of vs"
      using chain unfolding uv by (rule chain_node) (use i in simp)
    have "i = x" by (rule cursor_unique [OF dist [unfolded uv] uv [symmetric]]) (use parent that(2) in simp)
    with i d(1) show ?thesis by simp
  qed
  let ?al = "rev (map (\<lambda>c. (dget c ''parent_commit_id'', c)) docs)"
  have "d \<in> set docs" unfolding docs using d(1) by (rule ranI)
  then have "(dget d ''parent_commit_id'', d) \<in> set ?al" by simp
  then have "cursor_of ys \<in> fst ` set ?al" unfolding d(2) by (rule image_eqI [rotated]) simp
  then have "map_of ?al (cursor_of ys) \<noteq> None" by (simp only: map_of_eq_None_iff not_not)
  then obtain e where e: "map_of ?al (cursor_of ys) = Some e" by blast
  then have "(cursor_of ys, e) \<in> set ?al" by (rule map_of_SomeD)
  then have "e = d" using uniq by auto
  with e d(1) show ?thesis by (simp add: by_parent_def)
qed

definition node_mutations :: "(string \<Rightarrow> doc option) \<Rightarrow> string \<Rightarrow> pyval list" where
  "node_mutations commits c = (case dget (the (commits c)) ''mutations'' of PList xs \<Rightarrow> xs | _ \<Rightarrow> [])"

lemma chain_node_values:
  assumes "chain commits h (xs @ x # ys)" "commits x = Some d"
  shows "mutation_values d = Inr (node_mutations commits x)" "dget d ''commit_id'' = PStr x"
  using assms(1) by (rule chain_node; use assms(2) in \<open>auto simp: mutation_values_def node_mutations_def py_or_def\<close>)+

lemma walk_to_head:
  assumes "chain commits h (xs @ ys)" "distinct (xs @ ys)" "dom commits = set (xs @ ys)" "set docs = ran commits"
  shows "diff_walk (by_parent docs) h (cursor_of ys) out =
    Some (Inr (out @ concat (map (node_mutations commits) (rev xs)), h))"
  using assms
proof (induction xs arbitrary: ys out rule: rev_induct)
  case Nil
  then have "h = cursor_of ys" by (simp add: chain_cursor)
  then show ?case by (simp add: diff_walk.simps)
next
  case (snoc x xs)
  have chain: "chain commits h (xs @ x # ys)" using snoc.prems(1) by simp
  obtain d where d: "commits x = Some d" using chain by (rule chain_node)
  have child: "by_parent docs (cursor_of ys) = Some d"
    using by_parent_child [OF chain _ _ snoc.prems(4)] snoc.prems(2,3) d by simp
  have "h = cursor_of (xs @ x # ys)" using chain by (rule chain_cursor)
  then have "cursor_of ys \<noteq> h"
    using snoc.prems(2) by (cases xs; cases ys) (auto simp: cursor_of_def)
  then have "diff_walk (by_parent docs) h (cursor_of ys) out =
      diff_walk (by_parent docs) h (cursor_of (x # ys)) (out @ node_mutations commits x)"
    using chain_node_values [OF chain d] by (subst diff_walk.simps) (simp add: child cursor_of_def [of "x # ys"])
  also have "\<dots> = Some (Inr ((out @ node_mutations commits x) @ concat (map (node_mutations commits) (rev xs)), h))"
    by (rule snoc.IH) (use snoc.prems in simp_all)
  finally show ?case by simp
qed

text \<open>
  C23. \<open>diff_commits\<close> loops while a commit names the cursor as its parent, so on arbitrary input it
  need not return. On the documents of a ledger that any run of appends built from nothing, read
  in any order, it returns: from the root, or from any commit of the chain, to the head it gives
  the mutations of exactly the commits between, oldest first.
\<close>

theorem ledger_diff_returns:
  assumes "firestore fetch commit" "read_head (fetch st) uid = PNone" "\<forall>c. fetch st (commit_ref uid c) = None"
    and "\<forall>op \<in> set ops. op_tidy uid op"
    and "fetch (snd (run_ops (append_step fetch commit digest uid) ops st)) = rd" "read_head rd uid = PStr h"
    and "set docs = ran (\<lambda>c. rd (commit_ref uid c))"
  shows "\<exists>ids. chain (\<lambda>c. rd (commit_ref uid c)) (PStr h) ids \<and> set ids = {c. rd (commit_ref uid c) \<noteq> None}
    \<and> (\<forall>xs ys. ids = xs @ ys \<longrightarrow> diff_commits docs (cursor_of ys) h =
         Some (Inr (concat (map (node_mutations (\<lambda>c. rd (commit_ref uid c))) (rev xs)))))"
proof -
  let ?commits = "\<lambda>c. rd (commit_ref uid c)"
  have "linear (history rd uid)" using ledger_linear [OF assms(1-4)] assms(5) by blast
  then obtain ids where ids: "distinct ids" "chain ?commits (PStr h) ids" "dom ?commits = set ids"
    by (auto simp: linear_def history_def head_stored assms(6))
  have "diff_commits docs (cursor_of ys) h = Some (Inr (concat (map (node_mutations ?commits) (rev xs))))" if "ids = xs @ ys" for xs ys
    using walk_to_head [of ?commits "PStr h" xs ys docs "[]"] ids assms(7) that by (simp add: diff_commits_def)
  moreover have "set ids = {c. rd (commit_ref uid c) \<noteq> None}" using ids(3) by (auto simp: dom_def)
  ultimately show ?thesis using ids(2) by blast
qed

subsection \<open>Replay and the order of commits\<close>

lemma res_map_Inr: "(\<And>x. x \<in> set xs \<Longrightarrow> f x = Inr (g x)) \<Longrightarrow> res_map f xs = Inr (map g xs)"
  by (induction xs) simp_all

lemma sorted_wrt_distinct_gt: "sorted_wrt (\<lambda>a b. (t a :: int) > t b) ids \<Longrightarrow> distinct ids"
  by (induction ids) auto

lemma by_time_chain:
  assumes ids: "\<And>c. c \<in> set ids \<Longrightarrow> \<exists>d. commits c = Some d \<and> dget d ''commit_time'' = PTime (t c)"
    and sorted: "sorted_wrt (\<lambda>a b. t a > t b) ids"
    and docs: "distinct docs" "set docs = (\<lambda>c. the (commits c)) ` set ids"
  shows "by_time docs = Inr (map (\<lambda>c. the (commits c)) (rev ids))"
proof -
  define key where "key d = (case dget d ''commit_time'' of PTime t \<Rightarrow> t | _ \<Rightarrow> DATETIME_MIN)" for d
  let ?doc = "\<lambda>c. the (commits c)"
  have key: "key (?doc c) = t c" "commit_sort_key (?doc c) = Inr (t c)" if "c \<in> set ids" for c
    using ids [OF that] by (auto simp: key_def commit_sort_key_def)
  have "commit_sort_key d = Inr (key d)" if "d \<in> set docs" for d using that docs(2) key by auto
  then have keys: "res_map commit_sort_key docs = Inr (map key docs)" by (rule res_map_Inr)
  have inj: "inj_on t (set ids)"
  proof (rule inj_onI)
    fix a b assume "a \<in> set ids" "b \<in> set ids" "t a = t b"
    with sorted show "a = b" by (induction ids) auto
  qed
  have inj_doc: "inj_on ?doc (set ids)"
  proof (rule inj_onI)
    fix a b assume ab: "a \<in> set ids" "b \<in> set ids" "?doc a = ?doc b"
    then have "t a = t b" using key(1) [of a] key(1) [of b] by simp
    with ab inj show "a = b" by (simp add: inj_onD)
  qed
  have dist: "distinct ids" using sorted by (rule sorted_wrt_distinct_gt)
  let ?ys = "map (\<lambda>c. (t c, ?doc c)) (rev ids)"
  let ?xs = "zip (map key docs) docs"
  have xs: "?xs = map (\<lambda>d. (key d, d)) docs" by (simp add: zip_map1 zip_same_conv_map)
  have "distinct (map ?doc ids)" using dist inj_doc by (simp add: distinct_map)
  then have "mset docs = mset (map ?doc ids)"
    using docs set_eq_iff_mset_eq_distinct [of docs "map ?doc ids"] by simp
  then have "mset ?xs = mset (map (\<lambda>d. (key d, d)) (map ?doc ids))" by (simp only: xs mset_map)
  also have "map (\<lambda>d. (key d, d)) (map ?doc ids) = map (\<lambda>c. (t c, ?doc c)) ids" using key by simp
  finally have mset: "mset ?xs = mset ?ys" by simp
  have "inj_on fst (set ?xs)"
  proof -
    have "set ?xs = (\<lambda>c. (t c, ?doc c)) ` set ids" using mset_eq_setD [OF mset] by simp
    then show ?thesis using inj by (auto simp: inj_on_def)
  qed
  moreover have "sorted (map fst ?ys)"
    using sorted_wrt_mono_rel [OF _ sorted, of "\<lambda>a b. t a \<ge> t b"] by (simp add: comp_def rev_map [symmetric] sorted_wrt_rev sorted_wrt_map)
  ultimately have "sort_key fst ?xs = ?ys" using mset by (intro sort_key_inj_key_eq)
  then show ?thesis by (simp add: by_time_def keys comp_def)
qed

text \<open>
  C24. Replay agrees with the ledger when commit times follow the chain: if every commit is later
  than its parent, then folding the stored commits, read in any order, applies them from the
  root to the head, whatever the valid time asked for.
\<close>

theorem replay_follows_chain:
  assumes "chain commits h ids" "dom commits = set ids" "distinct docs" "set docs = ran commits"
    and "\<forall>c d. commits c = Some d \<longrightarrow> dget d ''commit_time'' = PTime (t c)" "sorted_wrt (\<lambda>a b. t a > t b) ids"
  shows "fold_commits docs valid_time =
    res_bind (apply_commits [] (map (\<lambda>c. the (commits c)) (rev ids))) (select_facts valid_time)"
proof -
  have "\<exists>d. commits c = Some d \<and> dget d ''commit_time'' = PTime (t c)" if "c \<in> set ids" for c
    using that assms(2,5) by blast
  moreover have "set docs = (\<lambda>c. the (commits c)) ` set ids"
    using assms(2,4) by (force simp: ran_def)
  ultimately have "by_time docs = Inr (map (\<lambda>c. the (commits c)) (rev ids))"
    using assms(3,6) by (intro by_time_chain) auto
  then show ?thesis by (simp add: fold_commits_def)
qed

definition plain_add :: "string \<Rightarrow> string \<Rightarrow> dict" where
  "plain_add m text = mutation ''add_fact'' [(''fact'', PDict [(''id'', PStr m), (''content'', PStr text), (''qualifiers'', PDict [])])]"

lemma plain_add: "add_fact [(''id'', PStr m), (''content'', PStr text)] = Inr (plain_add m text)"
  by (simp add: add_fact_def normalize_fact_for_ledger_def default_bound_def dict_setdefault_def dict_get_def plain_add_def
      dict_set_def dict_update_def)

text \<open>
  Where times do not follow the chain, replay loses mutations. A fact is added, and then
  invalidated by the next commit of the chain, whose time is the moment the fact stopped being
  true: replaying the two commits keeps the fact, with its content, exactly when that moment is
  before the time of the commit that added it.
\<close>

lemma backdated_invalidation_lost:
  assumes "m \<noteq> []"
    and "c1 = map_of (build_commit digest PNone [plain_add m text] run t1)"
    and "c2 = map_of (build_commit digest (dget c1 ''commit_id'') [retract_fact m ''invalidated''] run t2)"
  shows "\<exists>facts. fold_commits [c1, c2] None = Inr facts
    \<and> (map_of facts (PStr m) = Some [(''id'', PStr m), (''content'', PStr text), (''qualifiers'', PDict [])] \<longleftrightarrow> t2 < t1)
    \<and> (map_of facts (PStr m) = None \<longleftrightarrow> t1 \<le> t2)"
proof -
  have times: "dget c1 ''commit_time'' = PTime t1" "dget c2 ''commit_time'' = PTime t2"
    and muts: "mutation_values c1 = Inr [PDict (plain_add m text)]" "mutation_values c2 = Inr [PDict (retract_fact m ''invalidated'')]"
    using assms(2,3) by (simp_all add: dget_def mutation_values_def py_or_def)
  have order: "by_time [c1, c2] = Inr (if t2 < t1 then [c2, c1] else [c1, c2])"
    by (simp add: by_time_def commit_sort_key_def times)
  have add: "apply_mutation facts (plain_add m text) v =
      Inr (AList.update (PStr m) [(''id'', PStr m), (''content'', PStr text), (''qualifiers'', PDict [])] facts)" for facts v
    using assms(1) by (simp add: apply_mutation_def plain_add_def mutation_def dict_get_def py_or_def hashable_def Let_def)
  have retract: "apply_mutation facts (retract_fact m ''invalidated'') v =
      Inr (case map_of facts (PStr m) of None \<Rightarrow> facts
        | Some f \<Rightarrow> AList.update (PStr m) (apply_retract f (retract_fact m ''invalidated'') v) facts)" for facts v
    using assms(1) by (simp add: apply_mutation_def retract_fact_def mutation_def dict_get_def hashable_def change_fact_def Let_def split: option.split)
  have cur: "currently_valid [(''id'', PStr m), (''content'', PStr text), (''qualifiers'', PDict [])]"
    "\<not> currently_valid (apply_retract f item (PTime t))" for f item t
    by (simp_all add: currently_valid_def dict_get_def apply_retract_def)
  show ?thesis
  proof (cases "t2 < t1")
    case True
    then show ?thesis by (simp add: fold_commits_def order times muts add retract select_facts_def cur)
  next
    case False
    then show ?thesis by (simp add: fold_commits_def order times muts add retract select_facts_def cur)
  qed
qed

theorem replay_follows_chain_witness:
  "\<exists>facts. fold_commits [map_of (build_commit (\<lambda>v. ''c'') PNone [plain_add ''m'' ''x''] PNone 10)] None = Inr facts
    \<and> PStr ''m'' \<in> fst ` set facts"
proof -
  define d where "d = map_of (build_commit (\<lambda>v. ''c'') PNone [plain_add ''m'' ''x''] PNone 10)"
  have d: "dget d ''commit_id'' = PStr ''c''" "dget d ''parent_commit_id'' = PNone" "dget d ''commit_time'' = PTime 10"
    "dget d ''mutations'' = PList (map PDict [plain_add ''m'' ''x''])"
    by (simp_all add: d_def dget_def commit_id_for_def)
  have "chain [''c'' \<mapsto> d] (PStr ''c'') [''c'']" using d by (auto intro: exI [of _ "[plain_add ''m'' ''x'']"])
  then have "fold_commits [d] None = res_bind (apply_commits [] (map (\<lambda>c. the ([''c'' \<mapsto> d] c)) (rev [''c'']))) (select_facts None)"
    by (rule replay_follows_chain [where t = "\<lambda>c. 10"]) (simp_all add: d)
  then show ?thesis
    unfolding d_def [symmetric]
    by (simp add: mutation_values_def d py_or_def apply_mutation_def plain_add_def mutation_def dict_get_def hashable_def Let_def
        select_facts_def currently_valid_def)
qed

theorem ledger_diff_returns_witness:
  "\<exists>docs ms. length docs = 1 \<and> diff_commits docs PNone ''c'' = Some (Inr ms)"
proof -
  let ?op = "Append PNone [] PNone 3 None False 4"
  let ?step = "append_step mem_fetch mem_commit (\<lambda>v. ''c'') ''u''"
  define rd where "rd = mem_fetch (snd (run_ops ?step [?op] (\<lambda>p. None)))"
  have tidy: "\<forall>op \<in> set [?op]. op_tidy ''u'' op" by (simp add: sidelined_def project_def)
  have rd: "rd = mem_fetch (snd (?step ?op (\<lambda>p. None)))" by (simp add: rd_def Let_def case_prod_beta)
  have empty: "read_head (mem_fetch (\<lambda>p. None)) ''u'' = PNone" "\<forall>c. mem_fetch (\<lambda>p. None) (commit_ref ''u'' c) = None"
    by (simp_all add: mem_fetch_def read_head_def)
  have applied: "fst (?step ?op (\<lambda>p. None)) = Inr (map_of (build_commit (\<lambda>v. ''c'') PNone [] PNone 3), True)"
    by (simp add: append_eval)
  obtain ms r t where adv: "advanced (\<lambda>v. ''c'') ''u'' 4 (mem_fetch (\<lambda>p. None)) rd ms r t"
    using mem.append_step_cases [of "''u''" ?op "\<lambda>v. ''c''" "\<lambda>p. None"] tidy applied unfolding rd by fastforce
  have head: "read_head rd ''u'' = PStr ''c''" using advanced_head [OF adv] by (simp add: commit_id_for_def)
  let ?d = "map_of (build_commit (\<lambda>v. ''c'') PNone ms r t)"
  have commits: "rd (commit_ref ''u'' c) = (if c = ''c'' then Some ?d else None)" for c
    using adv empty by (simp add: advanced_def Let_def commit_id_for_def)
  have "set [?d] = ran (\<lambda>c. rd (commit_ref ''u'' c))" by (auto simp: commits ran_def)
  then obtain ids where "\<forall>xs ys. ids = xs @ ys \<longrightarrow> diff_commits [?d] (cursor_of ys) ''c'' =
         Some (Inr (concat (map (node_mutations (\<lambda>c. rd (commit_ref ''u'' c))) (rev xs))))"
    using ledger_diff_returns [where fetch = mem_fetch and commit = mem_commit, OF mem.firestore_axioms empty tidy rd_def [symmetric] head] by blast
  then have "\<exists>ms. diff_commits [?d] (cursor_of []) ''c'' = Some (Inr ms)" by (metis append_Nil2)
  then show ?thesis by (intro exI [of _ "[?d]"]) (simp add: cursor_of_def)
qed

subsection \<open>Retraction\<close>

definition gone :: "pyval \<Rightarrow> facts \<Rightarrow> bool" where
  "gone m facts \<longleftrightarrow> (\<forall>f. map_of facts m = Some f \<longrightarrow> \<not> currently_valid f)"

text \<open>A mutation that brings the fact into being anew.\<close>

definition adds :: "pyval \<Rightarrow> pyval \<Rightarrow> bool" where
  "adds m v \<longleftrightarrow> (\<exists>item f. v = PDict item \<and> dict_get item ''type'' = PStr ''add_fact''
     \<and> py_or (dict_get item ''fact'') (PDict []) = PDict f \<and> dict_get f ''id'' = m)"

lemma map_of_dict_setdefault: "map_of (dict_setdefault d k v) k' = (if k' = k \<and> map_of d k = None then Some v else map_of d k')"
  by (auto simp: dict_setdefault_def map_add_def split: option.split)

lemma dict_get_setdefault_other [simp]: "k' \<noteq> k \<Longrightarrow> dict_get (dict_setdefault d k v) k' = dict_get d k'"
  by (simp add: dict_get_def map_of_dict_setdefault)

lemma dict_get_update_other [simp]: "k \<notin> fst ` set e \<Longrightarrow> dict_get (dict_update d e) k = dict_get d k"
  by (simp add: dict_get_def map_of_eq_None_iff [THEN iffD2])

lemma arg_changes_invalid_at:
  "arg_changes_loop f arguments changes = Inr (g, arguments') \<Longrightarrow> dict_get g ''invalid_at'' = dict_get f ''invalid_at''"
  by (induction f arguments changes rule: arg_changes_loop.induct) (auto split: if_split_asm)

lemma change_fact_stays_invalid:
  assumes "change_fact ty f item (PTime t) = Inr g" "\<not> currently_valid f"
  shows "\<not> currently_valid g"
proof -
  have sup: "dict_get g ''invalid_at'' \<noteq> PNone" if "apply_supersede f item (PTime t) = Inr g"
    using that by (auto simp: apply_supersede_def Let_def py_or_def split: if_split_asm)
  have args: "dict_get g ''invalid_at'' = dict_get f ''invalid_at''" if "apply_arg_changes f changes = Inr g" for changes
    using that by (auto simp: apply_arg_changes_def Let_def dest: arg_changes_invalid_at)
  have ev: "dict_get g ''invalid_at'' = dict_get f ''invalid_at''" if "apply_add_evidence f item = Inr g"
    using that by (auto simp: apply_add_evidence_def Let_def split: if_split_asm pyval.split_asm)
  have tomb: "dict_get g ''invalid_at'' = dict_get f ''invalid_at''" if "apply_tombstone_evidence f item (PTime t) = Inr g"
    using that by (auto simp: apply_tombstone_evidence_def Let_def confidence_fields_for_evidence_def)
  have retr: "dict_get (apply_retract f item (PTime t)) ''invalid_at'' = PTime t"
    by (simp add: apply_retract_def dict_get_def)
  have rem: "dict_get g ''invalid_at'' = dict_get f ''invalid_at''" if "apply_remove_evidence f item = Inr g"
    using that by (auto simp: apply_remove_evidence_def)
  show ?thesis
    using assms sup args ev tomb rem retr
    by (auto simp: change_fact_def currently_valid_def split: if_split_asm pyval.split_asm)
qed

lemma apply_mutation_gone:
  assumes "apply_mutation facts item (PTime t) = Inr facts'" "gone m facts" "\<not> adds m (PDict item)"
  shows "gone m facts'"
  using assms
  by (auto simp: apply_mutation_def Let_def gone_def adds_def update_conv' change_fact_stays_invalid
      split: if_split_asm pyval.split_asm option.split_asm)

lemma apply_all_gone:
  "apply_all (PTime t) facts items = Inr facts' \<Longrightarrow> gone m facts \<Longrightarrow> \<forall>v \<in> set items. \<not> adds m v \<Longrightarrow> gone m facts'"
  by (induction "PTime t" facts items rule: apply_all.induct) (auto split: pyval.split_asm dest: apply_mutation_gone)

definition timed_without :: "pyval \<Rightarrow> doc \<Rightarrow> bool" where
  "timed_without m c \<longleftrightarrow> (\<exists>t. dget c ''commit_time'' = PTime t) \<and> (\<forall>items. mutation_values c = Inr items \<longrightarrow> (\<forall>v \<in> set items. \<not> adds m v))"

lemma apply_commits_gone:
  "apply_commits facts cs = Inr facts' \<Longrightarrow> gone m facts \<Longrightarrow> \<forall>c \<in> set cs. timed_without m c \<Longrightarrow> gone m facts'"
  by (induction facts cs rule: apply_commits.induct) (auto simp: timed_without_def dest!: apply_all_gone)

lemma apply_commits_append:
  "apply_commits facts (cs @ ds) = res_bind (apply_commits facts cs) (\<lambda>facts'. apply_commits facts' ds)"
  by (induction facts cs rule: apply_commits.induct) (auto simp: res_bind_def split: sum.split)

lemma apply_mutation_distinct:
  "apply_mutation facts item t = Inr facts' \<Longrightarrow> distinct (map fst facts) \<Longrightarrow> distinct (map fst facts')"
  by (auto simp: apply_mutation_def Let_def distinct_update split: if_split_asm pyval.split_asm option.split_asm)

lemma apply_all_distinct: "apply_all t facts items = Inr facts' \<Longrightarrow> distinct (map fst facts) \<Longrightarrow> distinct (map fst facts')"
  by (induction t facts items rule: apply_all.induct) (auto split: pyval.split_asm dest: apply_mutation_distinct)

lemma apply_commits_distinct: "apply_commits facts cs = Inr facts' \<Longrightarrow> distinct (map fst facts) \<Longrightarrow> distinct (map fst facts')"
  by (induction facts cs rule: apply_commits.induct) (auto dest: apply_all_distinct)

text \<open>
  A retraction lasts: in a replay, once a commit retracts a memory, the facts current at the
  end do not contain it, whatever later commits refine, supersede, re-attribute or add evidence
  to it, unless one of them adds the fact anew.
\<close>

lemma retraction_lasts:
  assumes "apply_commits [] (cs1 @ c # cs2) = Inr facts" "select_facts None facts = Inr current"
    and "m \<noteq> []" "mutation_values c = Inr [PDict (retract_fact m reason)]" "dget c ''commit_time'' = PTime t"
    and "\<forall>d \<in> set cs2. timed_without (PStr m) d"
  shows "PStr m \<notin> fst ` set current"
proof -
  obtain f1 f2 where f: "apply_commits [] cs1 = Inr f1" "apply_mutation f1 (retract_fact m reason) (PTime t) = Inr f2"
      "apply_commits f2 cs2 = Inr facts"
    using assms(1,4,5) by (auto simp: apply_commits_append)
  have "gone (PStr m) f2"
    using f(2) assms(3)
    by (auto simp: apply_mutation_def retract_fact_def mutation_def dict_get_def hashable_def change_fact_def Let_def gone_def
        update_conv' currently_valid_def apply_retract_def split: option.split_asm)
  then have "gone (PStr m) facts" using apply_commits_gone [OF f(3)] assms(6) by blast
  moreover have "distinct (map fst facts)" using apply_commits_distinct [OF assms(1)] by simp
  moreover have "current = filter (\<lambda>(fact_id, f). currently_valid f) facts" using assms(2) by (simp add: select_facts_def)
  ultimately show ?thesis by (auto simp: gone_def)
qed

text \<open>
  The view at a valid time is weaker: a retraction sets \<open>invalid_at\<close> but leaves the qualifier
  \<open>valid_to\<close>, which is read first. A fact that carried an end of validity is still reported, with
  its content gone, at every time up to that end, after the retraction too.
\<close>

lemma retracted_until_valid_to:
  assumes "f = [(''id'', PStr m), (''content'', PStr text), (''qualifiers'', PDict [(''valid_to'', PTime u)])]" "v \<le> u"
  shows "fact_valid_at (apply_retract f (retract_fact m reason) (PTime t)) v = Inr True"
    and "\<not> currently_valid (apply_retract f (retract_fact m reason) (PTime t))"
  using assms by (simp_all add: fact_valid_at_def apply_retract_def dict_get_def py_or_def get_in_dict_def currently_valid_def
      retract_fact_def mutation_def Let_def)

end
