(* ===== verification/Memory_Purge.thy ===== *)
theory Memory_Purge
  imports Memory_Fold "HOL-Library.List_Lexorder"
begin

text \<open>
  The privacy side of \<^verbatim>\<open>database/memory_ledger.py\<close>: removing every stored trace of deleted
  memories. A collection is its documents in the order of their names, which is the order the
  queries ask for; a purge reads it page by page, each page as the collection is at that moment,
  and deletes documents of a page while it goes over the page. The last step removes tombstoned
  items with their evidence and assertions in one transaction.
\<close>

type_synonym collection = "(string \<times> doc) list"

subsection \<open>References to a memory\<close>

fun value_references_memory_id :: "string set \<Rightarrow> pyval \<Rightarrow> bool"
  and list_references :: "string set \<Rightarrow> pyval list \<Rightarrow> bool"
  and dict_references :: "string set \<Rightarrow> (string \<times> pyval) list \<Rightarrow> bool" where
  "value_references_memory_id ids (PStr s) = (s \<in> ids)"
| "value_references_memory_id ids (PDict kvs) = dict_references ids kvs"
| "value_references_memory_id ids (PList xs) = list_references ids xs"
| "value_references_memory_id ids _ = False"
| "list_references ids [] = False"
| "list_references ids (x # xs) = (value_references_memory_id ids x \<or> list_references ids xs)"
| "dict_references ids [] = False"
| "dict_references ids ((k, v) # kvs) = (value_references_memory_id ids v \<or> dict_references ids kvs)"

text \<open>The same for a stored document, whose fields are a finite map.\<close>

definition doc_references :: "string set \<Rightarrow> doc \<Rightarrow> bool" where
  "doc_references ids d \<longleftrightarrow> (\<exists>v \<in> ran d. value_references_memory_id ids v)"

lemma list_references_iff: "list_references ids xs \<longleftrightarrow> (\<exists>x \<in> set xs. value_references_memory_id ids x)"
  by (induction xs) auto

lemma dict_references_iff: "dict_references ids kvs \<longleftrightarrow> (\<exists>(k, v) \<in> set kvs. value_references_memory_id ids v)"
  by (induction kvs) auto

subsection \<open>Paging through a collection\<close>

definition MEMORY_COMMIT_PRIVACY_PURGE_PAGE_SIZE :: nat where
  "MEMORY_COMMIT_PRIVACY_PURGE_PAGE_SIZE = 100"

definition after_cursor :: "string option \<Rightarrow> collection \<Rightarrow> collection" where
  "after_cursor cursor rows = (case cursor of None \<Rightarrow> rows | Some c \<Rightarrow> filter (\<lambda>(k, d). c < k) rows)"

definition drop_row :: "string \<Rightarrow> collection \<Rightarrow> collection" where
  "drop_row k rows = filter (\<lambda>(k', d). k' \<noteq> k) rows"

text \<open>One page: the test may raise, and what was deleted before stays deleted.\<close>

fun purge_page :: "(string \<times> doc \<Rightarrow> bool res) \<Rightarrow> collection \<Rightarrow> collection \<Rightarrow> string list \<Rightarrow> string list res \<times> collection" where
  "purge_page P [] rows purged = (Inr purged, rows)"
| "purge_page P (r # page) rows purged =
     (case P r of
        Inl e \<Rightarrow> (Inl e, rows)
      | Inr b \<Rightarrow> if b then purge_page P page (drop_row (fst r) rows) (purged @ [fst r]) else purge_page P page rows purged)"

lemma purge_page_rows:
  "\<exists>Q. snd (purge_page P page rows purged) = filter Q rows"
proof (induction P page rows purged rule: purge_page.induct)
  case (1 P rows purged)
  show ?case by (intro exI [of _ "\<lambda>_. True"]) simp
next
  case (2 P r page rows purged)
  show ?case
  proof (cases "P r")
    case (Inl e)
    then show ?thesis by (intro exI [of _ "\<lambda>_. True"]) simp
  next
    case (Inr b)
    with 2 show ?thesis by (cases b) (auto simp: drop_row_def intro: exI [of _ "\<lambda>x. _ x \<and> _ x"])
  qed
qed

lemma after_cursor_shrinks:
  assumes "r \<in> set (after_cursor cursor rows)"
  shows "length (after_cursor (Some (fst r)) (filter Q rows)) < length (after_cursor cursor rows)"
proof -
  let ?beyond = "filter (\<lambda>(k, d). fst r < k) (after_cursor cursor rows)"
  have "filter (\<lambda>(k, d). fst r < k) rows = ?beyond"
    using assms by (cases cursor) (auto simp: after_cursor_def intro!: filter_cong)
  moreover have "after_cursor (Some (fst r)) (filter Q rows) = filter Q (filter (\<lambda>(k, d). fst r < k) rows)"
    by (simp add: after_cursor_def conj_commute)
  ultimately have "length (after_cursor (Some (fst r)) (filter Q rows)) \<le> length ?beyond"
    by (simp only: length_filter_le)
  also have "\<dots> < length (after_cursor cursor rows)"
    by (rule length_filter_less [OF assms]) auto
  finally show ?thesis .
qed

function purge_pages ::
  "(string \<times> doc \<Rightarrow> bool res) \<Rightarrow> string option \<Rightarrow> collection \<Rightarrow> string list \<Rightarrow> string list res \<times> collection" where
  "purge_pages P cursor rows purged =
     (let page = take MEMORY_COMMIT_PRIVACY_PURGE_PAGE_SIZE (after_cursor cursor rows) in
      if page = [] then (Inr purged, rows)
      else case purge_page P page rows purged of
        (Inl e, rows') \<Rightarrow> (Inl e, rows')
      | (Inr purged', rows') \<Rightarrow>
          if length page < MEMORY_COMMIT_PRIVACY_PURGE_PAGE_SIZE then (Inr purged', rows')
          else purge_pages P (Some (fst (last page))) rows' purged')"
  by pat_completeness auto
termination
proof (relation "measure (\<lambda>(P, cursor, rows, purged). length (after_cursor cursor rows))", simp)
  fix P and cursor :: "string option" and rows purged page r and rows' :: collection and purged'
  assume page: "page = take MEMORY_COMMIT_PRIVACY_PURGE_PAGE_SIZE (after_cursor cursor rows)" "page \<noteq> []"
    and res: "(r, rows') = purge_page P page rows purged" "r = Inr purged'"
  obtain Q where rows': "rows' = filter Q rows" using purge_page_rows [of P page rows purged] res by (metis snd_conv)
  have last: "last page \<in> set (after_cursor cursor rows)"
    using page by (metis in_set_takeD last_in_set)
  have "length (after_cursor (Some (fst (last page))) rows') < length (after_cursor cursor rows)"
    unfolding rows' by (rule after_cursor_shrinks [OF last])
  then show "((P, Some (fst (last page)), rows', purged'), (P, cursor, rows, purged))
      \<in> measure (\<lambda>(P, cursor, rows, purged). length (after_cursor cursor rows))"
    by simp
qed

declare purge_pages.simps [simp del]

text \<open>
  On a collection with its documents in the order of their names, the paged purge is a filter:
  no document is missed because earlier ones were deleted under the cursor, none is seen twice.
\<close>

lemma purge_page_filter:
  assumes "\<And>r. r \<in> set page \<Longrightarrow> P r = Inr (p r)"
  shows "purge_page P page rows purged =
    (Inr (purged @ map fst (filter p page)), filter (\<lambda>r. \<not> (fst r \<in> fst ` set (filter p page))) rows)"
  using assms
proof (induction page arbitrary: rows purged)
  case (Cons r page)
  then show ?case by (auto simp: drop_row_def case_prod_beta intro!: filter_cong)
qed simp

definition name_ordered :: "collection \<Rightarrow> bool" where
  "name_ordered rows \<longleftrightarrow> sorted_wrt (<) (map fst rows)"

lemma name_ordered_last:
  assumes "name_ordered (xs @ ys)" "xs \<noteq> []"
  shows "r \<in> set xs \<Longrightarrow> \<not> fst (last xs) < fst r" and "r \<in> set ys \<Longrightarrow> fst (last xs) < fst r"
proof -
  have "sorted_wrt (<) (map fst xs)" using assms(1) by (simp add: name_ordered_def sorted_wrt_append)
  then show "\<not> fst (last xs) < fst r" if "r \<in> set xs"
    using that assms(2) by (induction xs rule: rev_induct) (auto simp: sorted_wrt_append dest: less_asym)
  have "last xs \<in> set xs" using assms(2) by simp
  with assms(1) show "fst (last xs) < fst r" if "r \<in> set ys"
    using that by (force simp: name_ordered_def sorted_wrt_append)
qed

lemma name_ordered_filter: "name_ordered (xs @ page @ rest) \<Longrightarrow> name_ordered ((xs @ filter q page) @ rest)"
  unfolding name_ordered_def sorted_wrt_map by (simp add: sorted_wrt_append sorted_wrt_filter) blast

lemma drop_page:
  assumes "name_ordered (seen @ page @ rest)"
  shows "filter (\<lambda>r. \<not> (fst r \<in> fst ` set (filter p page))) (seen @ page @ rest) = seen @ filter (\<lambda>r. \<not> p r) page @ rest"
proof -
  have "distinct (map fst (seen @ page @ rest))"
    using assms by (simp only: name_ordered_def strict_sorted_iff)
  then have inj: "inj_on fst (set (seen @ page @ rest))" and dist: "distinct (seen @ page @ rest)" by (simp_all only: distinct_map)
  have mem: "fst r \<in> fst ` set (filter p page) \<longleftrightarrow> r \<in> set page \<and> p r" if "r \<in> set (seen @ page @ rest)" for r
    using inj that by (auto simp: inj_on_def)
  have "filter (\<lambda>r. \<not> (fst r \<in> fst ` set (filter p page))) (seen @ page @ rest) = filter (\<lambda>r. \<not> (r \<in> set page \<and> p r)) (seen @ page @ rest)"
    by (rule filter_cong [OF refl]) (simp only: mem)
  also have "\<dots> = seen @ filter (\<lambda>r. \<not> p r) page @ rest"
  proof -
    have "filter (\<lambda>r. \<not> (r \<in> set page \<and> p r)) seen = seen" "filter (\<lambda>r. \<not> (r \<in> set page \<and> p r)) rest = rest"
      using dist by (auto simp: filter_id_conv)
    moreover have "filter (\<lambda>r. \<not> (r \<in> set page \<and> p r)) page = filter (\<lambda>r. \<not> p r) page" by (rule filter_cong) auto
    ultimately show ?thesis by (simp only: filter_append)
  qed
  finally show ?thesis .
qed

lemma purge_pages_filter:
  assumes "name_ordered (seen @ todo)" "after_cursor cursor (seen @ todo) = todo" "\<And>r. r \<in> set todo \<Longrightarrow> P r = Inr (p r)"
  shows "purge_pages P cursor (seen @ todo) purged =
    (Inr (purged @ map fst (filter p todo)), seen @ filter (\<lambda>r. \<not> p r) todo)"
  using assms
proof (induction "length todo" arbitrary: seen todo cursor purged rule: less_induct)
  case less
  let ?n = MEMORY_COMMIT_PRIVACY_PURGE_PAGE_SIZE
  define page where "page = take ?n todo"
  define rest where "rest = drop ?n todo"
  have n: "0 < ?n" by (simp add: MEMORY_COMMIT_PRIVACY_PURGE_PAGE_SIZE_def)
  have todo: "todo = page @ rest" by (simp add: page_def rest_def)
  have ord: "name_ordered (seen @ page @ rest)" using less.prems(1) todo by simp
  have pp: "purge_page P page (seen @ todo) purged = (Inr (purged @ map fst (filter p page)), seen @ filter (\<lambda>r. \<not> p r) page @ rest)"
    using purge_page_filter [of page P p] less.prems(3) drop_page [OF ord, of p] by (simp add: todo)
  have step: "purge_pages P cursor (seen @ todo) purged =
      (if page = [] then (Inr purged, seen @ todo)
       else if length page < ?n then (Inr (purged @ map fst (filter p page)), seen @ filter (\<lambda>r. \<not> p r) page @ rest)
       else purge_pages P (Some (fst (last page))) (seen @ filter (\<lambda>r. \<not> p r) page @ rest) (purged @ map fst (filter p page)))"
    by (subst purge_pages.simps) (simp only: less.prems(2) page_def [symmetric] Let_def pp sum.case prod.case)
  show ?case
  proof (cases "length page < ?n")
    case True
    then have "rest = []" by (simp add: page_def rest_def)
    with True show ?thesis unfolding step by (auto simp: todo)
  next
    case False
    then have page: "page \<noteq> []" using n by auto
    let ?seen = "seen @ filter (\<lambda>r. \<not> p r) page"
    have bounds: "\<forall>r \<in> set (seen @ page). \<not> fst (last page) < fst r" "\<forall>r \<in> set rest. fst (last page) < fst r"
      using name_ordered_last [of "seen @ page" rest] ord page by auto
    have cur: "after_cursor (Some (fst (last page))) (?seen @ rest) = rest"
    proof -
      have "filter (\<lambda>(k, d). fst (last page) < k) ?seen = []"
        using bounds(1) by (simp add: filter_empty_conv case_prod_beta)
      moreover have "filter (\<lambda>(k, d). fst (last page) < k) rest = rest"
        using bounds(2) by (simp add: filter_id_conv case_prod_beta)
      ultimately show ?thesis by (simp only: after_cursor_def option.case filter_append append_Nil)
    qed
    have "purge_pages P (Some (fst (last page))) (?seen @ rest) (purged @ map fst (filter p page)) =
        (Inr ((purged @ map fst (filter p page)) @ map fst (filter p rest)), ?seen @ filter (\<lambda>r. \<not> p r) rest)"
      by (rule less.hyps) (use page cur name_ordered_filter [OF ord] less.prems(3) in \<open>auto simp: todo\<close>)
    with False page show ?thesis unfolding step by (simp add: todo)
  qed
qed

corollary purge_all:
  assumes "name_ordered rows" "\<And>r. r \<in> set rows \<Longrightarrow> P r = Inr (p r)"
  shows "purge_pages P None rows [] = (Inr (map fst (filter p rows)), filter (\<lambda>r. \<not> p r) rows)"
  using purge_pages_filter [of "[]" rows None P p "[]"] assms by (simp add: after_cursor_def)

subsection \<open>The purges\<close>

definition target_ids :: "string list \<Rightarrow> string set" where
  "target_ids memory_ids = set (filter (\<lambda>m. m \<noteq> []) memory_ids)"

text \<open>A legacy commit is content-bearing when its mutations are a list.\<close>

definition legacy_commit_references :: "string set \<Rightarrow> string \<times> doc \<Rightarrow> bool" where
  "legacy_commit_references ids r =
     (case dget (snd r) ''mutations'' of PList xs \<Rightarrow> list_references ids xs | _ \<Rightarrow> False)"

definition purge_legacy_memory_commits_for_memories :: "string list \<Rightarrow> collection \<Rightarrow> string list res \<times> collection" where
  "purge_legacy_memory_commits_for_memories memory_ids rows =
     (if target_ids memory_ids = {} then (Inr [], rows)
      else purge_pages (\<lambda>r. Inr (legacy_commit_references (target_ids memory_ids) r)) None rows [])"

text \<open>The collections of a user that hold derived history.\<close>

record privacy_history =
  memory_operations :: collection
  memory_commits :: collection
  memory_outbox :: collection
  memory_ledger_reopens :: collection
  jit_trigger_feedback :: collection
  jit_proactivity_events :: collection
  jit_proactivity_daily_budgets :: collection
  memory_source_replacements :: collection

definition mentions :: "string set \<Rightarrow> string \<times> doc \<Rightarrow> bool res" where
  "mentions ids r = Inr (doc_references ids (snd r))"

text \<open>A document of a deleted operation, or one that mentions a target.\<close>

definition mentions_or_of :: "string set \<Rightarrow> string list \<Rightarrow> string \<times> doc \<Rightarrow> bool res" where
  "mentions_or_of ids operations r =
     res_bind (in_names operations (dget (snd r) ''operation_id'')) (\<lambda>b. Inr (b \<or> doc_references ids (snd r)))"

definition purge_source_replacement_receipts_for_memories :: "string list \<Rightarrow> collection \<Rightarrow> string list res \<times> collection" where
  "purge_source_replacement_receipts_for_memories memory_ids rows =
     (if target_ids memory_ids = {} then (Inr [], rows)
      else case purge_pages (mentions (target_ids memory_ids)) None rows [] of
        (r, rows') \<Rightarrow> (res_bind r (\<lambda>removed. Inr (sort removed)), rows'))"

text \<open>The triggers of a deleted memory are dropped from the plan of a budget.\<close>

definition trim_budget :: "string set \<Rightarrow> string \<times> doc \<Rightarrow> string \<times> doc" where
  "trim_budget ids r =
     (case dget (snd r) ''planned_by_trigger'' of
        PDict planned \<Rightarrow>
          if ids \<inter> fst ` set planned = {} then r
          else (fst r, (snd r)(''planned_by_trigger'' \<mapsto> PDict (filter (\<lambda>(k, v). k \<notin> ids) planned)))
      | _ \<Rightarrow> r)"

text \<open>
  The steps in the order of the source; an exception of one leaves the collections as they are
  at that point. The removed ids are returned by collection, without those where none was.
\<close>

definition purge_canonical_privacy_history_for_memories ::
  "string list \<Rightarrow> bool \<Rightarrow> privacy_history \<Rightarrow> (string \<times> string list) list res \<times> privacy_history" where
  "purge_canonical_privacy_history_for_memories memory_ids preserve_source_replacement_receipts h =
     (let ids = target_ids memory_ids in
      if ids = {} then (Inr [], h)
      else case purge_pages (mentions ids) None (memory_operations h) [] of
        (Inl e, c) \<Rightarrow> (Inl e, h\<lparr>memory_operations := c\<rparr>)
      | (Inr operations, c) \<Rightarrow>
        (let h = h\<lparr>memory_operations := c\<rparr> in
         case purge_pages (mentions_or_of ids operations) None (memory_commits h) [] of
           (Inl e, c) \<Rightarrow> (Inl e, h\<lparr>memory_commits := c\<rparr>)
         | (Inr commits, c) \<Rightarrow>
           (let h = h\<lparr>memory_commits := c\<rparr> in
            case purge_pages (mentions_or_of ids operations) None (memory_outbox h) [] of
              (Inl e, c) \<Rightarrow> (Inl e, h\<lparr>memory_outbox := c\<rparr>)
            | (Inr outbox, c) \<Rightarrow>
              (let h = h\<lparr>memory_outbox := c\<rparr>;
                   (r1, c1) = purge_pages (mentions ids) None (memory_ledger_reopens h) [];
                   (r2, c2) = purge_pages (mentions ids) None (jit_trigger_feedback h) [];
                   (r3, c3) = purge_pages (mentions ids) None (jit_proactivity_events h) [];
                   (r4, c4) = (if preserve_source_replacement_receipts then (Inr [], memory_source_replacements h)
                               else purge_source_replacement_receipts_for_memories memory_ids (memory_source_replacements h));
                   h = h\<lparr>memory_ledger_reopens := c1, jit_trigger_feedback := c2, jit_proactivity_events := c3,
                         jit_proactivity_daily_budgets := map (trim_budget ids) (jit_proactivity_daily_budgets h),
                         memory_source_replacements := c4\<rparr>
               in (res_bind r1 (\<lambda>reopens. res_bind r2 (\<lambda>feedback. res_bind r3 (\<lambda>events. res_bind r4 (\<lambda>replacements.
                    Inr (filter (\<lambda>(k, xs). xs \<noteq> [])
                      [(''memory_operations'', sort operations), (''memory_commits'', sort commits), (''memory_outbox'', sort outbox),
                       (''memory_ledger_reopens'', sort reopens), (''jit_trigger_feedback'', sort feedback),
                       (''jit_proactivity_events'', sort events), (''memory_source_replacements'', replacements)]))))), h)))))"

subsection \<open>What a purge leaves\<close>

text \<open>The purge without pages: what each collection is to keep.\<close>

definition kept_rows :: "string set \<Rightarrow> collection \<Rightarrow> collection" where
  "kept_rows ids rows = filter (\<lambda>r. \<not> doc_references ids (snd r)) rows"

definition deleted_operations :: "string set \<Rightarrow> privacy_history \<Rightarrow> string list" where
  "deleted_operations ids h = map fst (filter (\<lambda>r. doc_references ids (snd r)) (memory_operations h))"

definition kept_unless_of :: "string set \<Rightarrow> string list \<Rightarrow> collection \<Rightarrow> collection" where
  "kept_unless_of ids operations rows =
     filter (\<lambda>r. \<not> (dget (snd r) ''operation_id'' \<in> PStr ` set operations \<or> doc_references ids (snd r))) rows"

definition purged_history :: "string set \<Rightarrow> bool \<Rightarrow> privacy_history \<Rightarrow> privacy_history" where
  "purged_history ids preserve h =
     h\<lparr>memory_operations := kept_rows ids (memory_operations h),
      memory_commits := kept_unless_of ids (deleted_operations ids h) (memory_commits h),
      memory_outbox := kept_unless_of ids (deleted_operations ids h) (memory_outbox h),
      memory_ledger_reopens := kept_rows ids (memory_ledger_reopens h),
      jit_trigger_feedback := kept_rows ids (jit_trigger_feedback h),
      jit_proactivity_events := kept_rows ids (jit_proactivity_events h),
      jit_proactivity_daily_budgets := map (trim_budget ids) (jit_proactivity_daily_budgets h),
      memory_source_replacements := (if preserve then memory_source_replacements h else kept_rows ids (memory_source_replacements h))\<rparr>"

definition history_ordered :: "privacy_history \<Rightarrow> bool" where
  "history_ordered h \<longleftrightarrow> list_all name_ordered [memory_operations h, memory_commits h, memory_outbox h, memory_ledger_reopens h,
     jit_trigger_feedback h, jit_proactivity_events h, jit_proactivity_daily_budgets h, memory_source_replacements h]"

definition operation_ids_hashable :: "privacy_history \<Rightarrow> bool" where
  "operation_ids_hashable h \<longleftrightarrow> (\<forall>r \<in> set (memory_commits h) \<union> set (memory_outbox h). hashable (dget (snd r) ''operation_id''))"

lemma mentions_purge:
  assumes "name_ordered rows"
  shows "purge_pages (mentions ids) None rows [] =
    (Inr (map fst (filter (\<lambda>r. doc_references ids (snd r)) rows)), kept_rows ids rows)"
  using purge_all [OF assms, of "mentions ids" "\<lambda>r. doc_references ids (snd r)"] by (simp add: mentions_def kept_rows_def)

lemma in_names_hashable: "hashable v \<Longrightarrow> in_names names v = Inr (v \<in> PStr ` set names)"
  by (cases v) (auto simp: in_names_def hashable_def)

lemma mentions_or_of_purge:
  assumes "name_ordered rows" "\<forall>r \<in> set rows. hashable (dget (snd r) ''operation_id'')"
  shows "\<exists>removed. purge_pages (mentions_or_of ids ops) None rows [] = (Inr removed, kept_unless_of ids ops rows)"
  using purge_all [OF assms(1), of "mentions_or_of ids ops"
      "\<lambda>r. dget (snd r) ''operation_id'' \<in> PStr ` set ops \<or> doc_references ids (snd r)"] assms(2)
  by (simp add: mentions_or_of_def in_names_hashable kept_unless_of_def)

lemma purge_source_kept:
  assumes "name_ordered rows"
  shows "\<exists>removed. purge_source_replacement_receipts_for_memories memory_ids rows = (Inr removed, kept_rows (target_ids memory_ids) rows)"
proof (cases "target_ids memory_ids = {}")
  case True
  have "\<not> value_references_memory_id {} v" "\<not> list_references {} xs" "\<not> dict_references {} kvs" for v xs kvs
    by (induction "{} :: string set" v and "{} :: string set" xs and "{} :: string set" kvs
        rule: value_references_memory_id_list_references_dict_references.induct) auto
  then have "kept_rows {} rows = rows" by (simp add: kept_rows_def doc_references_def)
  with True show ?thesis by (simp add: purge_source_replacement_receipts_for_memories_def)
qed (simp add: purge_source_replacement_receipts_for_memories_def mentions_purge [OF assms])

text \<open>
  C16. The privacy purge is complete and takes no more than it should: paging and deleting as it
  goes, over collections of any size, it leaves in the history collections exactly the documents
  that neither mention a deleted memory anywhere in their values nor belong to an operation that
  did (replacement receipts stay when they are to be preserved, a budget only loses the planned
  triggers of the memory), and no operation, commit, outbox row, reopening, feedback or event it
  leaves mentions one.
\<close>

theorem purge_complete:
  assumes "target_ids memory_ids \<noteq> {}" "history_ordered h" "operation_ids_hashable h"
  shows "\<exists>removed h'. purge_canonical_privacy_history_for_memories memory_ids preserve h = (Inr removed, h')
    \<and> h' = purged_history (target_ids memory_ids) preserve h
    \<and> (\<forall>rows \<in> {memory_operations h', memory_commits h', memory_outbox h', memory_ledger_reopens h', jit_trigger_feedback h',
          jit_proactivity_events h'}. \<forall>r \<in> set rows. \<not> doc_references (target_ids memory_ids) (snd r))"
proof -
  let ?ids = "target_ids memory_ids" and ?ops = "deleted_operations (target_ids memory_ids) h"
  have ord: "name_ordered (memory_operations h)" "name_ordered (memory_commits h)" "name_ordered (memory_outbox h)"
    "name_ordered (memory_ledger_reopens h)" "name_ordered (jit_trigger_feedback h)" "name_ordered (jit_proactivity_events h)"
    "name_ordered (memory_source_replacements h)"
    using assms(2) by (simp_all add: history_ordered_def)
  have "\<forall>r \<in> set (memory_commits h). hashable (dget (snd r) ''operation_id'')" "\<forall>r \<in> set (memory_outbox h). hashable (dget (snd r) ''operation_id'')"
    using assms(3) by (simp_all add: operation_ids_hashable_def)
  then obtain c x where c: "purge_pages (mentions_or_of ?ids ?ops) None (memory_commits h) [] = (Inr c, kept_unless_of ?ids ?ops (memory_commits h))"
    and x: "purge_pages (mentions_or_of ?ids ?ops) None (memory_outbox h) [] = (Inr x, kept_unless_of ?ids ?ops (memory_outbox h))"
    using mentions_or_of_purge [OF ord(2), of ?ids ?ops] mentions_or_of_purge [OF ord(3), of ?ids ?ops] by blast
  obtain y where y: "purge_source_replacement_receipts_for_memories memory_ids (memory_source_replacements h) =
      (Inr y, kept_rows ?ids (memory_source_replacements h))"
    using purge_source_kept [OF ord(7)] by blast
  have "\<exists>removed. purge_canonical_privacy_history_for_memories memory_ids preserve h = (Inr removed, purged_history ?ids preserve h)"
    using assms(1) c x y
    by (cases preserve) (simp_all add: purge_canonical_privacy_history_for_memories_def mentions_purge ord deleted_operations_def
        purged_history_def Let_def)
  then show ?thesis by (auto simp: purged_history_def kept_rows_def kept_unless_of_def)
qed

text \<open>Two small collections, the second document of an operation that the first one names.\<close>

definition ex_history :: privacy_history where
  "ex_history = \<lparr>memory_operations = [(''op'', [''target'' \<mapsto> PStr ''m''])],
     memory_commits = [(''c1'', [''operation_id'' \<mapsto> PStr ''op'']), (''c2'', [''operation_id'' \<mapsto> PStr ''other''])],
     memory_outbox = [], memory_ledger_reopens = [], jit_trigger_feedback = [], jit_proactivity_events = [],
     jit_proactivity_daily_budgets = [], memory_source_replacements = []\<rparr>"

theorem purge_complete_witness:
  "\<exists>removed h'. purge_canonical_privacy_history_for_memories [''m''] False ex_history = (Inr removed, h')
    \<and> map fst (memory_commits h') = [''c2''] \<and> memory_operations h' = []"
proof -
  have "target_ids [''m''] \<noteq> {}" "history_ordered ex_history" "operation_ids_hashable ex_history"
    by (simp_all add: target_ids_def ex_history_def history_ordered_def name_ordered_def operation_ids_hashable_def hashable_def dget_def)
  from purge_complete [OF this, of False] show ?thesis
    by (auto simp: purged_history_def ex_history_def kept_rows_def kept_unless_of_def deleted_operations_def doc_references_def
        target_ids_def dget_def)
qed

lemma purge_legacy_complete:
  assumes "name_ordered rows" "target_ids memory_ids \<noteq> {}"
  shows "purge_legacy_memory_commits_for_memories memory_ids rows =
    (Inr (map fst (filter (legacy_commit_references (target_ids memory_ids)) rows)),
     filter (\<lambda>r. \<not> legacy_commit_references (target_ids memory_ids) r) rows)"
  using assms purge_all [OF assms(1), of "\<lambda>r. Inr (legacy_commit_references (target_ids memory_ids) r)"]
  by (simp add: purge_legacy_memory_commits_for_memories_def)

text \<open>
  The fence of the append transaction looks at fewer places than the purge: a mutation that
  embeds the id of a retired memory in an argument is not refused, although the purge would
  remove the commit for that mention.
\<close>

lemma fence_narrower_than_purge:
  assumes "m \<noteq> a" "a \<noteq> []"
  shows "m \<notin> set (mutation_memory_ids [refine_fact a [(''spouse'', PStr m)]])
    \<and> list_references {m} (map PDict [refine_fact a [(''spouse'', PStr m)]])"
  using assms by (simp add: mutation_memory_ids_def entry_memory_ids_def refine_fact_def mutation_def dict_get_def)

subsection \<open>Removing tombstoned items\<close>

definition evidence_ref :: "string \<Rightarrow> string \<Rightarrow> path" where
  "evidence_ref uid evidence_id = [''users'', uid, ''memory_evidence'', evidence_id]"

definition assertion_ref :: "string \<Rightarrow> string \<Rightarrow> path" where
  "assertion_ref uid memory_id = [''users'', uid, ''memory_graph_assertions'', memory_id]"

text \<open>The tombstoned evidence documents an item names, in order, each once.\<close>

definition note_evidence :: "string \<Rightarrow> (path \<Rightarrow> doc option) \<Rightarrow> string list \<Rightarrow> pyval \<Rightarrow> string list" where
  "note_evidence uid rd found e =
     (case e of
        PDict d \<Rightarrow>
          (case dict_get d ''evidence_id'' of
             PStr evidence_id \<Rightarrow>
               if evidence_id \<noteq> [] \<and> evidence_id \<notin> set found
                  \<and> (case rd (evidence_ref uid evidence_id) of None \<Rightarrow> False | Some ed \<Rightarrow> dget ed ''source_state'' = PStr ''tombstoned'')
               then found @ [evidence_id] else found
           | _ \<Rightarrow> found)
      | _ \<Rightarrow> found)"

definition collect_evidence :: "string \<Rightarrow> (path \<Rightarrow> doc option) \<Rightarrow> pyval list \<Rightarrow> string list \<Rightarrow> string list" where
  "collect_evidence uid rd es found = foldl (note_evidence uid rd) found es"

fun scan_lineage :: "string \<Rightarrow> (path \<Rightarrow> doc option) \<Rightarrow> string list \<Rightarrow> string list \<Rightarrow> string list \<Rightarrow> (string list \<times> string list) res" where
  "scan_lineage uid rd [] items evidence = Inr (items, evidence)"
| "scan_lineage uid rd (m # ms) items evidence =
     (case rd (item_ref uid m) of
        None \<Rightarrow> scan_lineage uid rd ms items evidence
      | Some payload \<Rightarrow>
          if dget payload ''status'' \<noteq> PStr ''tombstoned'' then Inl RuntimeError
          else scan_lineage uid rd ms (items @ [m])
            (case dget payload ''evidence'' of PList es \<Rightarrow> collect_evidence uid rd es evidence | _ \<Rightarrow> evidence))"

definition finalize_canonical_privacy_tombstones_transaction ::
  "string \<Rightarrow> string list \<Rightarrow> (path \<Rightarrow> doc option) \<Rightarrow> (unit \<times> write list) res" where
  "finalize_canonical_privacy_tombstones_transaction uid targets rd =
     res_bind (scan_lineage uid rd targets [] []) (\<lambda>(items, evidence).
     Inr ((), map (\<lambda>e. Delete (evidence_ref uid e)) evidence @ map (\<lambda>m. Delete (assertion_ref uid m)) items
              @ map (\<lambda>m. Delete (item_ref uid m)) items))"

text \<open>\<open>list(dict.fromkeys(ids))\<close>: the first occurrences.\<close>

definition first_occurrences :: "string list \<Rightarrow> string list" where
  "first_occurrences xs = rev (remdups (rev xs))"

definition finalize_canonical_privacy_tombstones where
  "finalize_canonical_privacy_tombstones fetch commit uid memory_ids preserve_source_replacement_receipts h st =
     (let targets = first_occurrences (filter (\<lambda>m. m \<noteq> []) memory_ids) in
      if targets = [] then (Inr (), h, st)
      else case purge_canonical_privacy_history_for_memories targets preserve_source_replacement_receipts h of
        (Inl e, h') \<Rightarrow> (Inl e, h', st)
      | (Inr _, h') \<Rightarrow>
          (case run_txn fetch commit (finalize_canonical_privacy_tombstones_transaction uid targets) st of
             (r, st') \<Rightarrow> (r, h', st')))"

definition evidence_tombstoned :: "(path \<Rightarrow> doc option) \<Rightarrow> string \<Rightarrow> string \<Rightarrow> bool" where
  "evidence_tombstoned rd uid e \<longleftrightarrow>
     (case rd (evidence_ref uid e) of None \<Rightarrow> False | Some d \<Rightarrow> dget d ''source_state'' = PStr ''tombstoned'')"

lemma collect_evidence_sound:
  "distinct found \<and> (\<forall>e \<in> set found. evidence_tombstoned rd uid e) \<Longrightarrow>
   distinct (collect_evidence uid rd es found) \<and> (\<forall>e \<in> set (collect_evidence uid rd es found). evidence_tombstoned rd uid e)"
proof (induction es arbitrary: found)
  case (Cons e es)
  have "distinct (note_evidence uid rd found e) \<and> (\<forall>x \<in> set (note_evidence uid rd found e). evidence_tombstoned rd uid x)"
    using Cons.prems by (simp add: note_evidence_def evidence_tombstoned_def split: pyval.split option.split)
  from Cons.IH [OF this] show ?case by (simp add: collect_evidence_def)
qed (simp add: collect_evidence_def)

lemma scan_lineage_Inr:
  "scan_lineage uid rd ms items evidence = Inr (items', evidence') \<Longrightarrow>
   distinct evidence \<and> (\<forall>e \<in> set evidence. evidence_tombstoned rd uid e) \<Longrightarrow>
   items' = items @ filter (\<lambda>m. rd (item_ref uid m) \<noteq> None) ms
   \<and> distinct evidence' \<and> (\<forall>e \<in> set evidence'. evidence_tombstoned rd uid e)"
proof (induction uid rd ms items evidence rule: scan_lineage.induct)
  case (2 uid rd m ms items evidence)
  show ?case
  proof (cases "rd (item_ref uid m)")
    case None
    with 2 show ?thesis by simp
  next
    case (Some d)
    have "distinct (case dget d ''evidence'' of PList es \<Rightarrow> collect_evidence uid rd es evidence | _ \<Rightarrow> evidence) \<and>
        (\<forall>e \<in> set (case dget d ''evidence'' of PList es \<Rightarrow> collect_evidence uid rd es evidence | _ \<Rightarrow> evidence). evidence_tombstoned rd uid e)"
      using collect_evidence_sound [of evidence rd uid] 2(4) by (simp split: pyval.split)
    with 2(2) [OF Some] 2(3) Some show ?thesis by (simp split: if_split_asm)
  qed
qed simp

lemma scan_lineage_Inl:
  "scan_lineage uid rd ms items evidence = Inl e \<Longrightarrow>
   \<exists>m \<in> set ms. \<exists>d. rd (item_ref uid m) = Some d \<and> dget d ''status'' \<noteq> PStr ''tombstoned''"
  by (induction uid rd ms items evidence rule: scan_lineage.induct) (auto split: option.split_asm if_split_asm)

lemma deletes_after:
  "(\<forall>w \<in> set ws. \<exists>p. w = Delete p) \<Longrightarrow> after ws p old = (if p \<in> wpath ` set ws then None else old)"
  by (induction ws) auto

text \<open>
  The final removal is all or nothing. If it raises, some target is still live and nothing was
  touched; otherwise every target's item is gone, and the only other documents that went are the
  targets' assertions and evidence that was itself tombstoned.
\<close>

lemma finalize_all_or_nothing:
  assumes "firestore fetch commit" "distinct targets"
    and "run_txn fetch commit (finalize_canonical_privacy_tombstones_transaction uid targets) st = (r, st')"
  shows "case r of
      Inl e \<Rightarrow> st' = st \<and> (\<exists>m \<in> set targets. \<exists>d. fetch st (item_ref uid m) = Some d \<and> dget d ''status'' \<noteq> PStr ''tombstoned'')
    | Inr u \<Rightarrow> (\<forall>m \<in> set targets. fetch st' (item_ref uid m) = None)
        \<and> (\<forall>p. fetch st' p = fetch st p \<or> fetch st' p = None \<and>
             ((\<exists>m \<in> set targets. p = item_ref uid m \<or> p = assertion_ref uid m) \<or> (\<exists>e. p = evidence_ref uid e \<and> evidence_tombstoned (fetch st) uid e)))"
proof (cases "scan_lineage uid (fetch st) targets [] []")
  case (Inl e)
  with assms(3) show ?thesis
    by (auto simp: run_txn_def finalize_canonical_privacy_tombstones_transaction_def dest: scan_lineage_Inl)
next
  case (Inr ie)
  obtain items evidence where ie: "ie = (items, evidence)" by (cases ie)
  have scan: "items = filter (\<lambda>m. fetch st (item_ref uid m) \<noteq> None) targets" "distinct evidence" "\<forall>e \<in> set evidence. evidence_tombstoned (fetch st) uid e"
    using scan_lineage_Inr [of uid "fetch st" targets "[]" "[]" items evidence] Inr ie by simp_all
  define ws where "ws = map (\<lambda>e. Delete (evidence_ref uid e)) evidence @ map (\<lambda>m. Delete (assertion_ref uid m)) items
              @ map (\<lambda>m. Delete (item_ref uid m)) items"
  have st': "r = Inr ()" "st' = commit st ws"
    using assms(3) Inr by (simp_all add: run_txn_def finalize_canonical_privacy_tombstones_transaction_def ie ws_def)
  have paths: "wpath ` set ws = evidence_ref uid ` set evidence \<union> assertion_ref uid ` set items \<union> item_ref uid ` set items"
    by (simp add: ws_def image_Un image_image Un_assoc)
  have refs: "evidence_ref uid a = evidence_ref uid b \<longleftrightarrow> a = b" "assertion_ref uid a = assertion_ref uid b \<longleftrightarrow> a = b"
    "item_ref uid a = item_ref uid b \<longleftrightarrow> a = b" "evidence_ref uid a \<noteq> assertion_ref uid b" "evidence_ref uid a \<noteq> item_ref uid b"
    "assertion_ref uid a \<noteq> item_ref uid b" for a b
    by (simp_all add: evidence_ref_def assertion_ref_def item_ref_def)
  have "distinct items" using scan(1) assms(2) by simp
  then have ok: "writes_ok (fetch st) ws"
    using scan(2) refs by (auto simp: ws_def writes_ok_def comp_def distinct_map inj_on_def)
  have deletes: "\<forall>w \<in> set ws. \<exists>p. w = Delete p" by (auto simp: ws_def)
  have del: "fetch st' p = (if p \<in> wpath ` set ws then None else fetch st p)" for p
    using firestore.fetch_commit [OF assms(1) ok, of p] deletes_after [OF deletes, of p "fetch st p"] by (simp only: st'(2))
  show ?thesis
    using scan(1,3) by (auto simp: st'(1) del paths)
qed

end
