(* ===== verification/Durable_Queue.thy ===== *)
theory Durable_Queue
  imports Op_Runs Py_Value
begin

text \<open>
  \<^verbatim>\<open>utils/durable_queue_policy.py\<close>, the policy the durable queues of the backend share: what the
  processing of an item can come to, when a failed item is retried and when it is dead-lettered,
  how a queue is drained so that one item cannot stop the others, and the age of the oldest item;
  with \<open>redrive_patch\<close> of \<^verbatim>\<open>database/durable_queue.py\<close>. Seconds are reals, instants microseconds.
\<close>

subsection \<open>Outcomes\<close>

datatype outcome_kind = ACK | RETRY | REJECT

record process_outcome =
  outcome_kind :: outcome_kind
  outcome_error_text :: "string option"
  outcome_reason :: "string option"

definition MAX_ERROR_TEXT :: nat where
  "MAX_ERROR_TEXT = 2000"

definition bound_error :: "string \<Rightarrow> string" where
  "bound_error text = take MAX_ERROR_TEXT text"

definition ack :: process_outcome where
  "ack = \<lparr>outcome_kind = ACK, outcome_error_text = None, outcome_reason = None\<rparr>"

definition retry :: "string \<Rightarrow> string \<Rightarrow> process_outcome" where
  "retry error_text reason = \<lparr>outcome_kind = RETRY, outcome_error_text = Some (bound_error error_text), outcome_reason = Some reason\<rparr>"

definition reject :: "string \<Rightarrow> string \<Rightarrow> process_outcome" where
  "reject error_text reason = \<lparr>outcome_kind = REJECT, outcome_error_text = Some (bound_error error_text), outcome_reason = Some reason\<rparr>"

lemma outcome_reads [simp]:
  "outcome_kind ack = ACK" "outcome_kind (retry s r) = RETRY" "outcome_kind (reject s r) = REJECT"
  "outcome_error_text (retry s r) = Some (bound_error s)" "outcome_error_text (reject s r) = Some (bound_error s)"
  "outcome_reason (retry s r) = Some r" "outcome_reason (reject s r) = Some r"
  by (simp_all add: ack_def retry_def reject_def)

subsection \<open>The attempt budget\<close>

record queue_policy =
  max_attempts :: int
  base_backoff_seconds :: real
  max_backoff_seconds :: real

definition default_policy :: queue_policy where
  "default_policy = \<lparr>max_attempts = 5, base_backoff_seconds = 1, max_backoff_seconds = 1800\<rparr>"

definition MAX_BACKOFF_EXPONENT :: int where
  "MAX_BACKOFF_EXPONENT = 30"

definition backoff_seconds :: "queue_policy \<Rightarrow> int \<Rightarrow> real" where
  "backoff_seconds policy attempt_count =
     (let exponent = min (max (attempt_count - 1) 0) MAX_BACKOFF_EXPONENT
      in min (max_backoff_seconds policy) (base_backoff_seconds policy * 2 ^ nat exponent))"

record attempt_decision =
  decision_terminal :: bool
  decision_attempt_count :: int
  decision_available_at :: "int option"
  decision_error_text :: string
  decision_reason :: string
  decision_status :: string

text \<open>\<open>outcome.reason or 'unspecified'\<close>: an empty text counts as absent.\<close>

definition text_or :: "string option \<Rightarrow> string \<Rightarrow> string" where
  "text_or s d = (case s of None \<Rightarrow> d | Some t \<Rightarrow> if t = [] then d else t)"

definition decide_attempt :: "int \<Rightarrow> process_outcome \<Rightarrow> queue_policy \<Rightarrow> int \<Rightarrow> attempt_decision res" where
  "decide_attempt attempt_count outcome policy now =
     (if outcome_kind outcome = ACK then Inl ValueError
      else if attempt_count < 1 then Inl ValueError
      else let error_text = bound_error (text_or (outcome_error_text outcome) []);
               reason = text_or (outcome_reason outcome) ''unspecified'';
               terminal = (outcome_kind outcome = REJECT \<or> attempt_count \<ge> max_attempts policy)
           in if terminal
              then Inr \<lparr>decision_terminal = True, decision_attempt_count = attempt_count, decision_available_at = None,
                        decision_error_text = error_text, decision_reason = reason, decision_status = ''dead_letter''\<rparr>
              else Inr \<lparr>decision_terminal = False, decision_attempt_count = attempt_count,
                        decision_available_at = Some (now + round_half_even (backoff_seconds policy attempt_count * 1000000)),
                        decision_error_text = error_text, decision_reason = reason, decision_status = ''retrying''\<rparr>)"

text \<open>The backoff doubles from the base until it meets the cap, and never falls.\<close>

lemma backoff_doubles:
  assumes "1 \<le> n" "n \<le> MAX_BACKOFF_EXPONENT" "base_backoff_seconds policy * 2 ^ nat n \<le> max_backoff_seconds policy"
    and "0 \<le> base_backoff_seconds policy"
  shows "backoff_seconds policy (n + 1) = 2 * backoff_seconds policy n"
proof -
  obtain k where k: "nat n = Suc k" "nat (n - 1) = k" using assms(1) by (cases "nat n") auto
  have le: "base_backoff_seconds policy * 2 ^ k \<le> base_backoff_seconds policy * 2 ^ Suc k"
    using assms(4) by (intro mult_left_mono) auto
  have "base_backoff_seconds policy * 2 ^ Suc k \<le> max_backoff_seconds policy" using assms(3) k(1) by (simp only:)
  then have "backoff_seconds policy n = base_backoff_seconds policy * 2 ^ k" "backoff_seconds policy (n + 1) = base_backoff_seconds policy * 2 ^ Suc k"
    using le assms(1,2) k by (simp_all add: backoff_seconds_def Let_def)
  then show ?thesis by simp
qed

lemma backoff_mono:
  assumes "m \<le> n" "0 \<le> base_backoff_seconds policy"
  shows "backoff_seconds policy m \<le> backoff_seconds policy n"
proof -
  have "(2 :: real) ^ nat (min (max (m - 1) 0) MAX_BACKOFF_EXPONENT) \<le> 2 ^ nat (min (max (n - 1) 0) MAX_BACKOFF_EXPONENT)"
    using assms(1) by (intro power_increasing nat_mono) auto
  then have "base_backoff_seconds policy * 2 ^ nat (min (max (m - 1) 0) MAX_BACKOFF_EXPONENT)
      \<le> base_backoff_seconds policy * 2 ^ nat (min (max (n - 1) 0) MAX_BACKOFF_EXPONENT)"
    using assms(2) by (rule mult_left_mono)
  then show ?thesis by (simp add: backoff_seconds_def Let_def min.coboundedI2)
qed

lemma rounded_within: "0 \<le> x \<Longrightarrow> x \<le> of_int n \<Longrightarrow> 0 \<le> round_half_even x \<and> round_half_even x \<le> n"
proof -
  assume x: "0 \<le> x" "x \<le> of_int n"
  then have f: "0 \<le> \<lfloor>x\<rfloor>" "\<lfloor>x\<rfloor> \<le> n" by (simp_all add: floor_le_iff le_floor_iff)
  have "\<lfloor>x\<rfloor> = n \<Longrightarrow> x - of_int \<lfloor>x\<rfloor> < 1 / 2" using x(2) by simp
  then have "\<lfloor>x\<rfloor> + 1 \<le> n" if "\<not> x - of_int \<lfloor>x\<rfloor> < 1 / 2" using that f(2) by linarith
  with f show ?thesis by (simp add: round_half_even_def Let_def)
qed

text \<open>
  A decision is terminal exactly for a rejected item or a spent budget. An item to be retried
  becomes available again no earlier than now and at most the cap later; its error text is
  bounded.
\<close>

lemma decide_attempt_bounds:
  assumes "decide_attempt n outcome policy now = Inr d" "0 \<le> base_backoff_seconds policy" "max_backoff_seconds policy = of_int cap" "0 \<le> cap"
  shows "(decision_terminal d \<longleftrightarrow> outcome_kind outcome = REJECT \<or> max_attempts policy \<le> n)
    \<and> decision_attempt_count d = n \<and> length (decision_error_text d) \<le> MAX_ERROR_TEXT
    \<and> (if decision_terminal d then decision_available_at d = None
       else \<exists>t. decision_available_at d = Some t \<and> now \<le> t \<and> t \<le> now + cap * 1000000)"
proof -
  have "0 \<le> backoff_seconds policy n" "backoff_seconds policy n \<le> of_int cap"
    using assms(2-4) by (simp_all add: backoff_seconds_def Let_def)
  then have "0 \<le> round_half_even (backoff_seconds policy n * 1000000) \<and> round_half_even (backoff_seconds policy n * 1000000) \<le> cap * 1000000"
    by (intro rounded_within) simp_all
  with assms(1) show ?thesis
    by (auto simp: decide_attempt_def Let_def bound_error_def split: if_split_asm)
qed

lemma decide_attempt_total:
  assumes "outcome_kind outcome \<noteq> ACK" "1 \<le> n"
  shows "\<exists>d. decide_attempt n outcome policy now = Inr d \<and> decision_attempt_count d = n
    \<and> (decision_terminal d \<longleftrightarrow> outcome_kind outcome = REJECT \<or> max_attempts policy \<le> n)"
  using assms by (auto simp: decide_attempt_def Let_def)

subsection \<open>Identity, order and age\<close>

definition adopt_on_identity :: "string option \<Rightarrow> string \<Rightarrow> bool res" where
  "adopt_on_identity existing_id item_id =
     (if item_id = [] then Inl ValueError
      else case existing_id of
        None \<Rightarrow> Inr False
      | Some e \<Rightarrow> if e \<noteq> item_id then Inl ValueError else Inr True)"

definition ready_sort_key :: "int \<Rightarrow> pyval \<Rightarrow> pyval \<Rightarrow> string \<Rightarrow> bool \<Rightarrow> pyval list" where
  "ready_sort_key priority available_at created_at item_id enable_priority =
     (if enable_priority then [PInt priority, available_at, created_at, PStr item_id] else [available_at, created_at, PStr item_id])"

definition oldest_ready_age_seconds :: "int option list \<Rightarrow> int \<Rightarrow> real option" where
  "oldest_ready_age_seconds created_ats now =
     (let ready = concat (map (\<lambda>c. case c of None \<Rightarrow> [] | Some t \<Rightarrow> [t]) created_ats) in
      if ready = [] then None
      else Some (max 0 (of_int (now - Min (set ready)) / 1000000)))"

definition redrive_patch :: "int \<Rightarrow> (string \<times> pyval) list" where
  "redrive_patch now =
     [(''status'', PStr ''pending''), (''attempt_count'', PInt 0), (''available_at'', PTime now), (''dead_letter_reason'', PNone),
      (''last_error_text'', PNone), (''updated_at'', PTime now)]"

text \<open>The age is that of the oldest item, and no item is older.\<close>

lemma oldest_ready_age:
  assumes "Some t \<in> set created_ats"
  shows "\<exists>age. oldest_ready_age_seconds created_ats now = Some age \<and> of_int (now - t) / 1000000 \<le> age \<and> 0 \<le> age"
proof -
  define ready where "ready = concat (map (\<lambda>c. case c of None \<Rightarrow> [] | Some t \<Rightarrow> [t]) created_ats)"
  have t: "t \<in> set ready" unfolding ready_def using assms by (force split: option.split)
  then have "Min (set ready) \<le> t" by (rule Min_le [OF finite_set])
  then have le: "real_of_int (now - t) / 1000000 \<le> real_of_int (now - Min (set ready)) / 1000000" by simp
  have age: "oldest_ready_age_seconds created_ats now = Some (max 0 (of_int (now - Min (set ready)) / 1000000))"
    using t unfolding oldest_ready_age_seconds_def Let_def ready_def [symmetric] by (cases ready) simp_all
  show ?thesis by (intro exI conjI, rule age, rule max.coboundedI2, rule le, rule max.cobounded1)
qed

subsection \<open>Draining\<close>

text \<open>
  A processor works on the state and returns an outcome, returns something that is not an
  outcome (\<open>None\<close>), or raises an exception, of which its text matters.
\<close>

type_synonym ('i, 's) processor = "'i \<Rightarrow> 's \<Rightarrow> (string + process_outcome option) \<times> 's"

record 'i isolated_result =
  isolated_item :: 'i
  isolated_outcome :: process_outcome
  isolated_raised :: bool

definition isolate :: "'i \<Rightarrow> string + process_outcome option \<Rightarrow> 'i isolated_result" where
  "isolate i r =
     (case r of
        Inl exc \<Rightarrow> \<lparr>isolated_item = i, isolated_outcome = reject exc ''processor_exception'', isolated_raised = True\<rparr>
      | Inr None \<Rightarrow> \<lparr>isolated_item = i, isolated_outcome = reject ''processor returned a non-outcome'' ''invalid_outcome'', isolated_raised = True\<rparr>
      | Inr (Some outcome) \<Rightarrow> \<lparr>isolated_item = i, isolated_outcome = outcome, isolated_raised = False\<rparr>)"

fun drain_isolated :: "'i list \<Rightarrow> ('i, 's) processor \<Rightarrow> 's \<Rightarrow> 'i isolated_result list \<times> 's" where
  "drain_isolated [] process_one s = ([], s)"
| "drain_isolated (i # is) process_one s =
     (let (r, s') = process_one i s; (results, s'') = drain_isolated is process_one s'
      in (isolate i r # results, s''))"

text \<open>The asynchronous version gives other tasks a turn before each item; \<open>others\<close> is what they do.\<close>

definition drain_isolated_async :: "'i list \<Rightarrow> ('s \<Rightarrow> 's) \<Rightarrow> ('i, 's) processor \<Rightarrow> 's \<Rightarrow> 'i isolated_result list \<times> 's" where
  "drain_isolated_async items others process_one s = drain_isolated items (\<lambda>i s. process_one i (others s)) s"

text \<open>
  Draining is a run of the processor over every item, in order, whatever the outcomes: the
  state afterwards is that of the run, and there is one result per item.
\<close>

lemma drain_is_run:
  "drain_isolated items process_one s =
     (map (\<lambda>(i, r). isolate i r) (fst (run_ops process_one items s)), snd (run_ops process_one items s))"
  by (induction items arbitrary: s) (simp_all add: Let_def case_prod_beta)

lemma isolated_item_isolate [simp]: "isolated_item (isolate i r) = i"
  by (simp add: isolate_def split: sum.split option.split)

lemma run_ops_items: "map fst (fst (run_ops f items s)) = items"
  by (induction items arbitrary: s) (simp_all add: Let_def case_prod_beta)

lemma drain_items: "map isolated_item (fst (drain_isolated items process_one s)) = items"
  using run_ops_items [of process_one items s] by (simp add: drain_is_run comp_def case_prod_beta)

end
