(* ===== verification/Memory_Repair.thy ===== *)
theory Memory_Repair
  imports Memory_Fold Durable_Queue Txn_Retry "HOL-Library.List_Lexorder"
begin

text \<open>
  The public appends of \<^verbatim>\<open>database/memory_ledger.py\<close>, which run an append transaction under the
  contention retry and then queue repairs of the search projection, and
  \<^verbatim>\<open>database/projection_repair.py\<close>: which facts a commit affects, the queued repair documents, the
  worker that processes them under the durable-queue policy, and the reconciliation of the vector
  index. Which attempts the service aborts, which writes outside transactions fail and with what
  message, the answers of queries and the two callbacks of the worker are arguments. Document
  ids contain no slash.
\<close>

definition repair_ref :: "string \<Rightarrow> string \<Rightarrow> path" where
  "repair_ref uid repair_id = [''users'', uid, ''projection_repairs'', repair_id]"

lemma repair_refs [simp]:
  "repair_ref u r = repair_ref v s \<longleftrightarrow> u = v \<and> r = s"
  "repair_ref u r \<noteq> commit_ref v c" "commit_ref v c \<noteq> repair_ref u r" "repair_ref u r \<noteq> state_ref v" "state_ref v \<noteq> repair_ref u r"
  by (simp_all add: repair_ref_def commit_ref_def state_ref_def)

definition PROJECTION_VERSION :: int where
  "PROJECTION_VERSION = 1"

definition DANGEROUS_REASONS :: "string list" where
  "DANGEROUS_REASONS = [''retract_fact'', ''tombstone_evidence'', ''source_tombstoned'']"

definition PROCESSABLE_REPAIR_STATUSES :: "string list" where
  "PROCESSABLE_REPAIR_STATUSES = [''queued'', ''failed'']"

definition TERMINAL_REPAIR_STATUSES :: "string list" where
  "TERMINAL_REPAIR_STATUSES = [''repaired'', ''dead_letter'']"

subsection \<open>The facts a commit affects\<close>

definition mutation_fact_id :: "dict \<Rightarrow> pyval" where
  "mutation_fact_id m =
     (let fact_id = dict_get m ''fact_id'' in
      if truthy fact_id then fact_id
      else case dict_get m ''fact'' of PDict known \<Rightarrow> dict_get known ''id'' | _ \<Rightarrow> fact_id)"

text \<open>\<open>v in xs\<close> for a list compares with \<open>==\<close>.\<close>

definition py_in :: "pyval \<Rightarrow> pyval list \<Rightarrow> bool" where
  "py_in v xs = list_ex (deep_eq v) xs"

definition note_fact_id :: "pyval list \<Rightarrow> dict \<Rightarrow> pyval list" where
  "note_fact_id ids m = (let fact_id = mutation_fact_id m in if truthy fact_id \<and> \<not> py_in fact_id ids then ids @ [fact_id] else ids)"

definition affected_fact_ids :: "dict list \<Rightarrow> pyval list" where
  "affected_fact_ids mutations = foldl note_fact_id [] mutations"

definition repair_reason :: "dict \<Rightarrow> pyval" where
  "repair_reason m =
     (let mutation_type = (case map_of m ''type'' of None \<Rightarrow> PStr ''unknown'' | Some t \<Rightarrow> t) in
      if mutation_type = PStr ''retract_fact'' \<and> dict_get m ''reason'' = PStr ''source_tombstoned'' then PStr ''source_tombstoned''
      else mutation_type)"

text \<open>A dictionary keyed by fact ids, in insertion order; an id that cannot be hashed raises.\<close>

type_synonym reasons = "(pyval \<times> pyval list) list"

definition reasons_get :: "reasons \<Rightarrow> pyval \<Rightarrow> pyval list option" where
  "reasons_get reasons fact_id = map_option snd (List.find (\<lambda>(k, rs). py_eq k fact_id) reasons)"

definition add_reason :: "dict \<Rightarrow> reasons \<Rightarrow> reasons res" where
  "add_reason m reasons =
     (let fact_id = mutation_fact_id m in
      if \<not> truthy fact_id then Inr reasons
      else if \<not> hashable fact_id then Inl TypeError
      else let known = (if reasons_get reasons fact_id = None then reasons @ [(fact_id, [])] else reasons);
               reason = repair_reason m
           in Inr (map (\<lambda>(k, rs). if py_eq k fact_id \<and> \<not> py_in reason rs then (k, rs @ [reason]) else (k, rs)) known))"

fun reasons_by_fact :: "dict list \<Rightarrow> reasons \<Rightarrow> reasons res" where
  "reasons_by_fact [] reasons = Inr reasons"
| "reasons_by_fact (m # ms) reasons = res_bind (add_reason m reasons) (\<lambda>reasons'. reasons_by_fact ms reasons')"

fun any_dangerous :: "pyval list \<Rightarrow> bool res" where
  "any_dangerous [] = Inr False"
| "any_dangerous (r # rs) = res_bind (in_names DANGEROUS_REASONS r) (\<lambda>b. if b then Inr True else any_dangerous rs)"

subsection \<open>Queueing repairs\<close>

definition repair_id_for :: "pyval \<Rightarrow> pyval \<Rightarrow> string" where
  "repair_id_for commit_id fact_id = py_str commit_id @ '':'' @ py_str fact_id"

definition queued_repair :: "string \<Rightarrow> pyval \<Rightarrow> pyval \<Rightarrow> pyval list \<Rightarrow> bool \<Rightarrow> int \<Rightarrow> dict" where
  "queued_repair repair_id fact_id commit_id reasons dangerous now =
     [(''repair_id'', PStr repair_id), (''fact_id'', fact_id), (''source_commit_id'', commit_id),
      (''projection_version'', PInt PROJECTION_VERSION), (''reasons'', PList reasons), (''dangerous'', PBool dangerous),
      (''status'', PStr ''queued''), (''created_at'', PTime now), (''updated_at'', PTime now)]"

fun enqueue_loop ::
  "string \<Rightarrow> pyval \<Rightarrow> int \<Rightarrow> reasons \<Rightarrow> (path \<Rightarrow> doc option) \<Rightarrow> pyval list \<Rightarrow> (string list \<times> write list) res" where
  "enqueue_loop uid commit_id now reasons rd [] = Inr ([], [])"
| "enqueue_loop uid commit_id now reasons rd (fact_id # ids) =
     (let rs = (case reasons_get reasons fact_id of None \<Rightarrow> [PStr ''unknown''] | Some rs \<Rightarrow> rs);
          repair_id = repair_id_for commit_id fact_id in
      res_bind (if rd (repair_ref uid repair_id) \<noteq> None then Inr []
                else res_bind (any_dangerous rs) (\<lambda>dangerous.
                  Inr [SetDoc (repair_ref uid repair_id) (put_all (queued_repair repair_id fact_id commit_id rs dangerous now))])) (\<lambda>ws.
      res_bind (enqueue_loop uid commit_id now reasons rd ids) (\<lambda>(repair_ids, ws').
      Inr (repair_id # repair_ids, ws @ ws'))))"

text \<open>The elements of the list are used as dictionaries.\<close>

fun as_dicts :: "pyval list \<Rightarrow> dict list res" where
  "as_dicts [] = Inr []"
| "as_dicts (x # xs) = (case x of PDict d \<Rightarrow> res_bind (as_dicts xs) (\<lambda>ds. Inr (d # ds)) | _ \<Rightarrow> Inl AttributeError)"

text \<open>The batch is committed as a whole; \<open>batch_fault\<close> is the error if it does not get through.\<close>

definition enqueue_projection_repairs ::
  "('s \<Rightarrow> path \<Rightarrow> doc option) \<Rightarrow> ('s \<Rightarrow> write list \<Rightarrow> 's) \<Rightarrow> pyerr option \<Rightarrow> int \<Rightarrow> string \<Rightarrow> doc option \<Rightarrow> 's \<Rightarrow> string list res \<times> 's" where
  "enqueue_projection_repairs fetch commit batch_fault now uid appended st =
     (case appended of
        None \<Rightarrow> (Inr [], st)
      | Some c \<Rightarrow>
          (case res_bind (mutation_values c) as_dicts of
             Inl e \<Rightarrow> (Inl e, st)
           | Inr mutations \<Rightarrow>
               let fact_ids = affected_fact_ids mutations in
               if fact_ids = [] then (Inr [], st)
               else (case res_bind (reasons_by_fact mutations []) (\<lambda>reasons.
                              enqueue_loop uid (dget c ''commit_id'') now reasons (fetch st) fact_ids) of
                       Inl e \<Rightarrow> (Inl e, st)
                     | Inr (repair_ids, ws) \<Rightarrow>
                         (case batch_fault of Some e \<Rightarrow> (Inl e, st) | None \<Rightarrow> (Inr repair_ids, commit st ws)))))"

subsection \<open>The public appends\<close>

text \<open>One attempt of the transaction; \<open>op\<close> gives the append with the clock of each attempt.\<close>

definition append_in_transaction ::
  "('s \<Rightarrow> path \<Rightarrow> doc option) \<Rightarrow> ('s \<Rightarrow> write list \<Rightarrow> 's) \<Rightarrow> (pyval \<Rightarrow> string) \<Rightarrow> (nat \<Rightarrow> bool) \<Rightarrow> string \<Rightarrow> (nat \<Rightarrow> ledger_append) \<Rightarrow>
   nat \<Rightarrow> 's \<Rightarrow> (exn + append_result) \<times> 's" where
  "append_in_transaction fetch commit digest aborts uid op attempt st =
     (if aborts attempt then (Inl ([(0, Aborted, None)], 0), st)
      else (case append_step fetch commit digest uid (op attempt) st of
              (Inl e, st') \<Rightarrow> (Inl ([(0, e, None)], 0), st')
            | (Inr result, st') \<Rightarrow> (Inr result, st')))"

text \<open>What both public functions do: the transaction under the retry, then the repairs if it applied.\<close>

definition append_and_enqueue ::
  "('s \<Rightarrow> path \<Rightarrow> doc option) \<Rightarrow> ('s \<Rightarrow> write list \<Rightarrow> 's) \<Rightarrow> (pyval \<Rightarrow> string) \<Rightarrow> (nat \<Rightarrow> bool) \<Rightarrow> (nat \<Rightarrow> real) \<Rightarrow> pyerr option \<Rightarrow> int \<Rightarrow>
   string \<Rightarrow> (nat \<Rightarrow> ledger_append) \<Rightarrow> 's \<Rightarrow> append_result retry_result \<times> 's" where
  "append_and_enqueue fetch commit digest aborts rnd batch_fault enqueued_at uid op st =
     (case run_with_transaction_contention_retry DEFAULT_MAX_ATTEMPTS (append_in_transaction fetch commit digest aborts uid op) rnd st of
        (Returned (c, applied), st', delays) \<Rightarrow>
          if applied
          then (case enqueue_projection_repairs fetch commit batch_fault enqueued_at uid (Some c) st' of
                  (Inl e, st'') \<Rightarrow> (Raised ([(0, e, None)], 0), st'')
                | (Inr repair_ids, st'') \<Rightarrow> (Returned (c, applied), st''))
          else (Returned (c, applied), st')
      | (r, st', delays) \<Rightarrow> (r, st'))"

definition append_commit where
  "append_commit fetch commit digest aborts rnd batch_fault enqueued_at uid parent_commit_id mutations run_id commit_time
     projection_writer use_current_head now st =
     append_and_enqueue fetch commit digest aborts rnd batch_fault enqueued_at uid
       (\<lambda>attempt. Append parent_commit_id mutations run_id (commit_time attempt) projection_writer use_current_head (now attempt)) st"

definition append_commit_with_builder where
  "append_commit_with_builder fetch commit digest aborts rnd batch_fault enqueued_at uid parent_commit_id mutation_builder run_id commit_time
     use_current_head now st =
     append_and_enqueue fetch commit digest aborts rnd batch_fault enqueued_at uid
       (\<lambda>attempt. Append_Built parent_commit_id mutation_builder run_id (commit_time attempt) use_current_head (now attempt)) st"

subsection \<open>What is queued\<close>

text \<open>
  Every constructor of mutations makes plain ones: the fact is named by a text or not at all, and
  the type is a text.
\<close>

definition plain_mutation :: "dict \<Rightarrow> bool" where
  "plain_mutation m \<longleftrightarrow> (truthy (mutation_fact_id m) \<longrightarrow> (\<exists>f. mutation_fact_id m = PStr f)) \<and> (\<exists>r. repair_reason m = PStr r)"

lemma constructed_plain:
  "plain_mutation (supersede_fact f by' kind iv)" "plain_mutation (refine_fact f ch)" "plain_mutation (retract_fact f r)"
  "plain_mutation (add_evidence f ev)" "plain_mutation (remove_evidence f e)" "plain_mutation (tombstone_evidence f e t r)"
  "plain_mutation (reassign_fact_subject f old new)" "plain_mutation (merge_entities a b ev conf)" "plain_mutation (split_entity a into r)"
  by (simp_all add: plain_mutation_def mutation_fact_id_def repair_reason_def dict_get_def mutation_def supersede_fact_def refine_fact_def
      retract_fact_def add_evidence_def remove_evidence_def tombstone_evidence_def reassign_fact_subject_def merge_entities_def split_entity_def Let_def)

lemma py_eq_PStr_left [simp]: "py_eq (PStr s) v \<longleftrightarrow> v = PStr s"
  by (cases v) (auto simp: py_eq_def)

lemma py_in_PStr [simp]: "py_in (PStr s) xs \<longleftrightarrow> PStr s \<in> set xs"
  by (auto simp: py_in_def list_ex_iff)

definition names_fact :: "dict list \<Rightarrow> string \<Rightarrow> bool" where
  "names_fact ms f \<longleftrightarrow> f \<noteq> [] \<and> (\<exists>m \<in> set ms. mutation_fact_id m = PStr f)"

lemma affected_plain:
  assumes "\<forall>m \<in> set ms. plain_mutation m"
  shows "distinct (affected_fact_ids ms) \<and> set (affected_fact_ids ms) = PStr ` {f. names_fact ms f}"
  using assms
proof (induction ms rule: rev_induct)
  case (snoc m ms)
  then have IH: "distinct (affected_fact_ids ms)" "set (affected_fact_ids ms) = PStr ` {f. names_fact ms f}" by simp_all
  have step: "affected_fact_ids (ms @ [m]) = note_fact_id (affected_fact_ids ms) m" by (simp add: affected_fact_ids_def)
  show ?case
  proof (cases "truthy (mutation_fact_id m)")
    case True
    then obtain f where f: "mutation_fact_id m = PStr f" "f \<noteq> []" using snoc.prems by (auto simp: plain_mutation_def)
    then have "{g. names_fact (ms @ [m]) g} = insert f {g. names_fact ms g}" by (auto simp: names_fact_def)
    with f IH show ?thesis by (auto simp: step note_fact_id_def Let_def)
  next
    case False
    then have "{g. names_fact (ms @ [m]) g} = {g. names_fact ms g}" by (auto simp: names_fact_def)
    with False IH show ?thesis by (simp add: step note_fact_id_def)
  qed
qed (simp add: affected_fact_ids_def names_fact_def)

lemma reasons_get_map:
  "reasons_get (map (\<lambda>(k, rs). (k, g k rs)) R) (PStr s) = map_option (g (PStr s)) (reasons_get R (PStr s))"
  by (induction R) (auto simp: reasons_get_def)

lemma reasons_get_snoc:
  "reasons_get (R @ [(k, rs)]) (PStr s) = (case reasons_get R (PStr s) of None \<Rightarrow> if k = PStr s then Some rs else None | Some r \<Rightarrow> Some r)"
  by (induction R) (auto simp: reasons_get_def)

definition reason_set :: "reasons \<Rightarrow> string \<Rightarrow> pyval set" where
  "reason_set R f = (case reasons_get R (PStr f) of None \<Rightarrow> {} | Some rs \<Rightarrow> set rs)"

lemma add_reason_plain:
  assumes "plain_mutation m"
  obtains R' where "add_reason m R = Inr R'"
    "\<And>f. reasons_get R' (PStr f) \<noteq> None \<longleftrightarrow> reasons_get R (PStr f) \<noteq> None \<or> names_fact [m] f"
    "\<And>f. f \<noteq> [] \<Longrightarrow> reason_set R' f = reason_set R f \<union> (if mutation_fact_id m = PStr f then {repair_reason m} else {})"
proof (cases "truthy (mutation_fact_id m)")
  case False
  then have "mutation_fact_id m \<noteq> PStr f" if "f \<noteq> []" for f using that by auto
  with False show thesis by (intro that [of R]) (auto simp: add_reason_def names_fact_def)
next
  case True
  with assms obtain g r where m: "mutation_fact_id m = PStr g" "g \<noteq> []" "repair_reason m = PStr r" by (auto simp: plain_mutation_def)
  define known where "known = (if reasons_get R (PStr g) = None then R @ [(PStr g, [])] else R)"
  define upd where "upd k rs = (if k = PStr g \<and> PStr r \<notin> set rs then rs @ [PStr r] else rs)" for k :: pyval and rs
  have upd: "(if k = PStr g \<and> PStr r \<notin> set rs then (k, rs @ [PStr r]) else (k, rs)) = (k, upd k rs)" for k rs by (simp add: upd_def)
  have R': "add_reason m R = Inr (map (\<lambda>(k, rs). (k, upd k rs)) known)"
    using m(1,2) by (simp only: add_reason_def Let_def m(3) py_eq_PStr py_in_PStr upd known_def hashable_def truthy.simps pyval.case not_True_eq_False
        not_False_eq_True if_False refl simp_thms)
  have known: "reasons_get known (PStr f) = (if f = g \<and> reasons_get R (PStr g) = None then Some [] else reasons_get R (PStr f))" for f
    by (auto simp: known_def reasons_get_snoc split: option.split)
  show thesis
  proof (rule that [OF R'])
    show "reasons_get (map (\<lambda>(k, rs). (k, upd k rs)) known) (PStr f) \<noteq> None \<longleftrightarrow> reasons_get R (PStr f) \<noteq> None \<or> names_fact [m] f" for f
      using m by (auto simp: reasons_get_map known names_fact_def)
    show "reason_set (map (\<lambda>(k, rs). (k, upd k rs)) known) f = reason_set R f \<union> (if mutation_fact_id m = PStr f then {repair_reason m} else {})" for f
      using m by (auto simp: reason_set_def reasons_get_map known upd_def split: option.split)
  qed
qed

lemma reasons_plain:
  assumes "\<forall>m \<in> set ms. plain_mutation m"
  shows "\<exists>R'. reasons_by_fact ms R = Inr R' \<and> (\<forall>f. f \<noteq> [] \<longrightarrow>
    (reasons_get R' (PStr f) \<noteq> None \<longleftrightarrow> reasons_get R (PStr f) \<noteq> None \<or> names_fact ms f)
    \<and> reason_set R' f = reason_set R f \<union> repair_reason ` {m \<in> set ms. mutation_fact_id m = PStr f})"
  using assms
proof (induction ms arbitrary: R)
  case (Cons m ms)
  obtain R1 where R1: "add_reason m R = Inr R1"
    "\<And>f. reasons_get R1 (PStr f) \<noteq> None \<longleftrightarrow> reasons_get R (PStr f) \<noteq> None \<or> names_fact [m] f"
    "\<And>f. f \<noteq> [] \<Longrightarrow> reason_set R1 f = reason_set R f \<union> (if mutation_fact_id m = PStr f then {repair_reason m} else {})"
    using Cons.prems by (auto elim: add_reason_plain [of m R])
  obtain R2 where R2: "reasons_by_fact ms R1 = Inr R2" "\<forall>f. f \<noteq> [] \<longrightarrow>
      (reasons_get R2 (PStr f) \<noteq> None \<longleftrightarrow> reasons_get R1 (PStr f) \<noteq> None \<or> names_fact ms f)
      \<and> reason_set R2 f = reason_set R1 f \<union> repair_reason ` {m \<in> set ms. mutation_fact_id m = PStr f}"
    using Cons.IH [of R1] Cons.prems by auto
  have names: "names_fact (m # ms) f \<longleftrightarrow> names_fact [m] f \<or> names_fact ms f" for f by (auto simp: names_fact_def)
  show ?case
  proof (intro exI conjI allI impI)
    show "reasons_by_fact (m # ms) R = Inr R2" by (simp add: R1(1) R2(1))
  next
    fix f :: string
    assume f: "f \<noteq> []"
    show "reasons_get R2 (PStr f) \<noteq> None \<longleftrightarrow> reasons_get R (PStr f) \<noteq> None \<or> names_fact (m # ms) f"
      using R2(2) f R1(2) [of f] by (simp add: names)
    show "reason_set R2 f = reason_set R f \<union> repair_reason ` {n \<in> set (m # ms). mutation_fact_id n = PStr f}"
      using R2(2) f R1(3) [OF f] by auto
  qed
qed (simp add: names_fact_def)

lemma any_dangerous_plain:
  "\<forall>r \<in> set rs. \<exists>s. r = PStr s \<Longrightarrow> any_dangerous rs = Inr (\<exists>r \<in> set rs. r \<in> PStr ` set DANGEROUS_REASONS)"
  by (induction rs) (auto simp: in_names_def image_iff)

definition repair_write :: "string \<Rightarrow> pyval \<Rightarrow> int \<Rightarrow> (string \<Rightarrow> pyval list) \<Rightarrow> string \<Rightarrow> write" where
  "repair_write uid commit_id now rs f =
     SetDoc (repair_ref uid (repair_id_for commit_id (PStr f)))
       (put_all (queued_repair (repair_id_for commit_id (PStr f)) (PStr f) commit_id (rs f)
          (\<exists>r \<in> set (rs f). r \<in> PStr ` set DANGEROUS_REASONS) now))"

lemma enqueue_loop_plain:
  assumes "\<forall>f \<in> set fs. reasons_get R (PStr f) = Some (rs f) \<and> (\<forall>r \<in> set (rs f). \<exists>s. r = PStr s)"
  shows "enqueue_loop uid cid now R rd (map PStr fs) =
    Inr (map (\<lambda>f. repair_id_for cid (PStr f)) fs,
         map (repair_write uid cid now rs) (filter (\<lambda>f. rd (repair_ref uid (repair_id_for cid (PStr f))) = None) fs))"
  using assms by (induction fs) (auto simp: Let_def any_dangerous_plain repair_write_def)

lemma repair_write_path [simp]: "wpath (repair_write uid cid now rs f) = repair_ref uid (repair_id_for cid (PStr f))"
  by (simp add: repair_write_def)

lemma repair_id_inj [simp]: "repair_id_for cid (PStr f) = repair_id_for cid (PStr g) \<longleftrightarrow> f = g"
  by (simp add: repair_id_for_def)

lemma after_repair_writes:
  "after (map (repair_write uid cid now rs) fs) (repair_ref uid (repair_id_for cid (PStr f))) old =
     (if f \<in> set fs then Some (map_of (queued_repair (repair_id_for cid (PStr f)) (PStr f) cid (rs f)
          (\<exists>r \<in> set (rs f). r \<in> PStr ` set DANGEROUS_REASONS) now)) else old)"
  by (induction fs) (auto simp: repair_write_def fun_eq_iff split: option.split)

text \<open>
  Enqueueing never fails on plain mutations: it commits one write per fact the commit names and
  for which there is no repair of this commit yet.
\<close>

lemma as_dicts_map [simp]: "as_dicts (map PDict ms) = Inr ms"
  by (induction ms) simp_all

lemma enqueue_plain:
  assumes "dget c ''mutations'' = PList (map PDict ms)" "\<forall>m \<in> set ms. plain_mutation m"
  obtains fs rs where "set fs = {f. names_fact ms f}" "distinct fs"
    "\<And>f. f \<in> set fs \<Longrightarrow> set (rs f) = repair_reason ` {m \<in> set ms. mutation_fact_id m = PStr f}"
    "\<And>fault. enqueue_projection_repairs fetch commit fault now uid (Some c) st =
       (if fs = [] then (Inr [], st)
        else case fault of Some e \<Rightarrow> (Inl e, st)
          | None \<Rightarrow> (Inr (map (\<lambda>f. repair_id_for (dget c ''commit_id'') (PStr f)) fs),
              commit st (map (repair_write uid (dget c ''commit_id'') now rs)
                (filter (\<lambda>f. fetch st (repair_ref uid (repair_id_for (dget c ''commit_id'') (PStr f))) = None) fs))))"
proof -
  note ids = affected_plain [OF assms(2)]
  have "\<forall>v \<in> set (affected_fact_ids ms). \<exists>f. v = PStr f" using ids by auto
  then obtain fs where fs: "affected_fact_ids ms = map PStr fs" by (metis ex_map_conv)
  have set_fs: "set fs = {f. names_fact ms f}" and dist: "distinct fs" using ids by (auto simp: fs distinct_map)
  obtain R where R: "reasons_by_fact ms [] = Inr R" "\<forall>f. f \<noteq> [] \<longrightarrow>
      (reasons_get R (PStr f) \<noteq> None \<longleftrightarrow> names_fact ms f) \<and> reason_set R f = repair_reason ` {m \<in> set ms. mutation_fact_id m = PStr f}"
    using reasons_plain [OF assms(2), of "[]"] by (auto simp: reasons_get_def reason_set_def)
  define rs where "rs f = the (reasons_get R (PStr f))" for f
  have named: "reasons_get R (PStr f) = Some (rs f)" "set (rs f) = repair_reason ` {m \<in> set ms. mutation_fact_id m = PStr f}" if "f \<in> set fs" for f
  proof -
    have f: "f \<noteq> []" "names_fact ms f" using that set_fs by (auto simp: names_fact_def)
    then show g: "reasons_get R (PStr f) = Some (rs f)" using R(2) by (auto simp: rs_def)
    then show "set (rs f) = repair_reason ` {m \<in> set ms. mutation_fact_id m = PStr f}"
      using R(2) [rule_format, OF f(1)] by (simp add: reason_set_def)
  qed
  have "\<exists>s. r = PStr s" if "f \<in> set fs" "r \<in> set (rs f)" for f r
    using named(2) [OF that(1)] that(2) assms(2) by (auto simp: plain_mutation_def)
  then have loop: "enqueue_loop uid cid now R rd (map PStr fs) =
    Inr (map (\<lambda>f. repair_id_for cid (PStr f)) fs,
         map (repair_write uid cid now rs) (filter (\<lambda>f. rd (repair_ref uid (repair_id_for cid (PStr f))) = None) fs))" for cid rd
    using named(1) by (intro enqueue_loop_plain) blast
  have muts: "res_bind (mutation_values c) as_dicts = Inr ms"
    using assms(1) by (cases ms) (simp_all add: mutation_values_def py_or_def)
  show thesis
    by (rule that [OF set_fs dist named(2)])
      (simp_all add: enqueue_projection_repairs_def muts fs R(1) loop Let_def split: option.split)
qed

text \<open>What a returned append was: a transaction that took effect, and then the repairs.\<close>

lemma append_retry_effect:
  assumes "run_with_transaction_contention_retry DEFAULT_MAX_ATTEMPTS (append_in_transaction fetch commit digest aborts uid op) rnd st = (r, st', ds)"
  shows "(r, st') = attempt_result (append_in_transaction fetch commit digest aborts uid op (1 + length ds) st)"
proof -
  have atomic: "s' = s" if "append_in_transaction fetch commit digest aborts uid op n s = (Inl e, s')" for n s e s'
    using that by (auto simp: append_in_transaction_def append_step_def run_txn_def split: if_split_asm sum.split_asm prod.split_asm)
  have "retry_loop DEFAULT_MAX_ATTEMPTS (append_in_transaction fetch commit digest aborts uid op) rnd 1 st = (r, st', ds)"
    using assms by (simp add: run_with_transaction_contention_retry_def DEFAULT_MAX_ATTEMPTS_def)
  from retry_loop_shape [OF atomic _ _ this] show ?thesis by (simp add: DEFAULT_MAX_ATTEMPTS_def)
qed

lemma append_returned:
  assumes "append_and_enqueue fetch commit digest aborts rnd fault at' uid op st = (Returned (c, True), st')"
  obtains k st1 ids where "append_step fetch commit digest uid (op k) st = (Inr (c, True), st1)"
    "enqueue_projection_repairs fetch commit fault at' uid (Some c) st1 = (Inr ids, st')"
proof -
  obtain r st1 ds where run: "run_with_transaction_contention_retry DEFAULT_MAX_ATTEMPTS (append_in_transaction fetch commit digest aborts uid op) rnd st = (r, st1, ds)"
    by (metis prod_cases3)
  have r: "r = Returned (c, True)" and enq: "\<exists>ids. enqueue_projection_repairs fetch commit fault at' uid (Some c) st1 = (Inr ids, st')"
    using assms by (auto simp: append_and_enqueue_def run split: retry_result.split_asm if_split_asm prod.split_asm sum.split_asm)
  have "append_in_transaction fetch commit digest aborts uid op (1 + length ds) st = (Inr (c, True), st1)"
    using append_retry_effect [OF run] r
    by (cases "append_in_transaction fetch commit digest aborts uid op (1 + length ds) st" rule: attempt_result.cases) (auto split: if_split_asm)
  then have "append_step fetch commit digest uid (op (1 + length ds)) st = (Inr (c, True), st1)"
    by (auto simp: append_in_transaction_def split: if_split_asm prod.split_asm sum.split_asm)
  with enq show thesis using that by blast
qed

lemma append_first_attempt:
  assumes "\<not> aborts 1" "append_step fetch commit digest uid (op 1) st = (Inr r, st1)"
  shows "run_with_transaction_contention_retry DEFAULT_MAX_ATTEMPTS (append_in_transaction fetch commit digest aborts uid op) rnd st = (Returned r, st1, [])"
  using assms by (simp add: run_with_transaction_contention_retry_def DEFAULT_MAX_ATTEMPTS_def retry_loop.simps append_in_transaction_def)

lemma append_step_head:
  assumes "firestore fetch commit" "op_tidy uid op" "append_step fetch commit digest uid op st = (Inr (c, True), st1)"
    and "dget c ''commit_id'' = PStr cid"
  shows "read_head (fetch st1) uid = PStr cid" "fetch st1 (commit_ref uid cid) = Some c"
proof -
  have "read_head (fetch st1) uid = PStr cid \<and> fetch st1 (commit_ref uid cid) = Some c"
  proof (cases rule: firestore.append_step_cases [OF assms(1,2), of digest st, case_names quiet advanced])
    case quiet
    from quiet(2) [of c] assms(3) show ?thesis by simp
  next
    case (advanced ms r t)
    from advanced(1) assms(3) have c: "c = map_of (build_commit digest (read_head (fetch st) uid) ms r t)" by simp
    then have cid: "cid = commit_id_for digest (read_head (fetch st) uid) ms" using assms(4) by (simp add: dget_def)
    have adv: "advanced digest uid (append_clock op) (fetch st) (fetch st1) ms r t" using advanced(2) assms(3) by simp
    then have "fetch st1 (commit_ref uid cid) = Some c" unfolding advanced_def Let_def cid c by simp
    with advanced_head [OF adv] show ?thesis by (simp add: cid)
  qed
  then show "read_head (fetch st1) uid = PStr cid" "fetch st1 (commit_ref uid cid) = Some c" by simp_all
qed

text \<open>
  C19. An append that answers as applied has made its commit the head and has queued the repairs
  of the projection: for every fact its mutations name, the repair of this commit is stored in the
  same call, queued, and marked dangerous exactly when one of the mutations retracts the fact or
  tombstones its evidence.
\<close>

theorem applied_append_queues_repairs:
  assumes "firestore fetch commit"
    and "append_commit fetch commit digest aborts rnd fault enqueued_at uid parent mutations run_id t writer use_head now st = (Returned (c, True), st')"
    and "sidelined uid writer" "\<forall>m \<in> set mutations. plain_mutation m" "names_fact mutations f"
    and "dget c ''commit_id'' = PStr cid" "repair = repair_ref uid (cid @ '':'' @ f)" "fetch st repair = None" "spares {repair} writer"
  shows "\<exists>d. fetch st' repair = Some d \<and> read_head (fetch st') uid = PStr cid \<and> fetch st' (commit_ref uid cid) = Some c
    \<and> dget d ''status'' = PStr ''queued'' \<and> dget d ''fact_id'' = PStr f \<and> dget d ''source_commit_id'' = PStr cid
    \<and> dget d ''dangerous'' = PBool (\<exists>m \<in> set mutations. mutation_fact_id m = PStr f \<and> repair_reason m \<in> PStr ` set DANGEROUS_REASONS)"
proof -
  let ?op = "\<lambda>k. Append parent mutations run_id (t k) writer use_head (now k)"
  obtain k st1 ids where step: "append_step fetch commit digest uid (?op k) st = (Inr (c, True), st1)"
    and enq: "enqueue_projection_repairs fetch commit fault enqueued_at uid (Some c) st1 = (Inr ids, st')"
    using assms(2) unfolding append_commit_def by (rule append_returned)
  have tidy: "op_tidy uid (?op k)" using assms(3) by simp
  have c: "c = map_of (build_commit digest (read_head (fetch st) uid) mutations run_id (t k))"
    using step by (auto simp: append_step_def run_txn_def append_commit_transaction_def head_stored Let_def
        split: sum.split_asm option.split_asm if_split_asm)
  then have cid: "cid = commit_id_for digest (read_head (fetch st) uid) mutations" and ms: "dget c ''mutations'' = PList (map PDict mutations)"
    using assms(6) by (simp_all add: dget_def)
  note at1 = append_step_head [OF assms(1) tidy step assms(6)]
  have "fetch (snd (append_step fetch commit digest uid (?op k) st)) repair = fetch st repair"
    using firestore.append_step_other [OF assms(1) tidy, of "{repair}" repair digest st] assms(7,9) by simp
  then have new: "fetch st1 repair = None" using step assms(8) by simp
  obtain fs rs where fs: "set fs = {f. names_fact mutations f}" "distinct fs"
    "\<And>f. f \<in> set fs \<Longrightarrow> set (rs f) = repair_reason ` {m \<in> set mutations. mutation_fact_id m = PStr f}"
    "\<And>fault. enqueue_projection_repairs fetch commit fault enqueued_at uid (Some c) st1 =
       (if fs = [] then (Inr [], st1)
        else case fault of Some e \<Rightarrow> (Inl e, st1)
          | None \<Rightarrow> (Inr (map (\<lambda>f. repair_id_for (dget c ''commit_id'') (PStr f)) fs),
              commit st1 (map (repair_write uid (dget c ''commit_id'') enqueued_at rs)
                (filter (\<lambda>f. fetch st1 (repair_ref uid (repair_id_for (dget c ''commit_id'') (PStr f))) = None) fs))))"
    by (rule enqueue_plain [OF ms assms(4), of fetch commit enqueued_at uid st1]) (rule that)
  define todo where "todo = filter (\<lambda>f. fetch st1 (repair_ref uid (repair_id_for (PStr cid) (PStr f))) = None) fs"
  define ws where "ws = map (repair_write uid (PStr cid) enqueued_at rs) todo"
  have f: "f \<in> set fs" using assms(5) fs(1) by simp
  have ref: "repair = repair_ref uid (repair_id_for (PStr cid) (PStr f))" using assms(7) by (simp add: repair_id_for_def)
  have todo: "f \<in> set todo" using f new by (simp add: todo_def ref)
  have st': "st' = commit st1 ws"
    using enq fs(4) [of fault] f by (auto simp: assms(6) ws_def todo_def split: if_split_asm option.split_asm)
  have ok: "writes_ok (fetch st1) ws"
    using fs(2) by (auto simp: ws_def writes_ok_def comp_def distinct_map inj_on_def todo_def repair_write_def)
  have paths: "commit_ref uid cid \<notin> wpath ` set ws" "state_ref uid \<notin> wpath ` set ws" by (auto simp: ws_def)
  have kept: "fetch st' p = fetch st1 p" if "p \<notin> wpath ` set ws" for p
    unfolding st' by (rule firestore.fetch_commit_other [OF assms(1) ok that])
  have made: "fetch st' repair = Some (map_of (queued_repair (repair_id_for (PStr cid) (PStr f)) (PStr f) (PStr cid) (rs f)
      (\<exists>r \<in> set (rs f). r \<in> PStr ` set DANGEROUS_REASONS) enqueued_at))"
    using firestore.fetch_commit [OF assms(1) ok, of repair] todo by (simp add: st' ref ws_def after_repair_writes)
  have danger: "(\<exists>r \<in> set (rs f). r \<in> PStr ` set DANGEROUS_REASONS) \<longleftrightarrow>
      (\<exists>m \<in> set mutations. mutation_fact_id m = PStr f \<and> repair_reason m \<in> PStr ` set DANGEROUS_REASONS)"
    by (auto simp: fs(3) [OF f])
  have "read_head (fetch st') uid = PStr cid" "fetch st' (commit_ref uid cid) = Some c"
    using at1 kept [OF paths(1)] kept [OF paths(2)] by (simp_all add: read_head_def)
  with made show ?thesis unfolding danger by (simp add: queued_repair_def dget_def)
qed

lemmas append_commit_eval = append_commit_def append_and_enqueue_def run_with_transaction_contention_retry_def DEFAULT_MAX_ATTEMPTS_def
  retry_loop.simps append_in_transaction_def

text \<open>A first commit that retracts a fact, on a store with nothing in it.\<close>

lemma ex_retraction:
  "\<forall>m \<in> set [retract_fact ''f'' []]. plain_mutation m" "names_fact [retract_fact ''f'' []] ''f''"
  "\<exists>st1. append_step mem_fetch mem_commit (\<lambda>v. ''c'') ''u'' (Append PNone [retract_fact ''f'' []] PNone 3 None False 4) (\<lambda>p. None) =
     (Inr (map_of (build_commit (\<lambda>v. ''c'') PNone [retract_fact ''f'' []] PNone 3), True), st1)"
  by (simp add: constructed_plain,
      simp_all add: names_fact_def retract_fact_def mutation_def mutation_fact_id_def dict_get_def append_eval
        entry_memory_ids_def privacy_deleted_def)

theorem applied_append_queues_repairs_witness:
  "\<exists>c st' d. append_commit mem_fetch mem_commit (\<lambda>v. ''c'') (\<lambda>n. False) (\<lambda>n. 0) None 7 ''u'' PNone [retract_fact ''f'' []] PNone (\<lambda>n. 3) None False
      (\<lambda>n. 4) (\<lambda>p. None) = (Returned (c, True), st')
    \<and> mem_fetch st' (repair_ref ''u'' ''c:f'') = Some d \<and> dget d ''dangerous'' = PBool True"
proof -
  let ?ms = "[retract_fact ''f'' []]"
  let ?c = "map_of (build_commit (\<lambda>v. ''c'') PNone ?ms PNone 3)"
  note plain = ex_retraction(1) and named = ex_retraction(2)
  obtain st1 where step: "append_step mem_fetch mem_commit (\<lambda>v. ''c'') ''u'' (Append PNone ?ms PNone 3 None False 4) (\<lambda>p. None) = (Inr (?c, True), st1)"
    using ex_retraction(3) by blast
  have muts: "dget ?c ''mutations'' = PList (map PDict ?ms)" by (simp add: dget_def)
  have "\<exists>ids st'. enqueue_projection_repairs mem_fetch mem_commit None 7 ''u'' (Some ?c) st1 = (Inr ids, st')"
    by (rule enqueue_plain [OF muts plain, of mem_fetch mem_commit 7 "''u''" st1]) simp
  then obtain ids st' where "enqueue_projection_repairs mem_fetch mem_commit None 7 ''u'' (Some ?c) st1 = (Inr ids, st')" by blast
  then have run: "append_commit mem_fetch mem_commit (\<lambda>v. ''c'') (\<lambda>n. False) (\<lambda>n. 0) None 7 ''u'' PNone ?ms PNone (\<lambda>n. 3) None False (\<lambda>n. 4) (\<lambda>p. None)
      = (Returned (?c, True), st')"
    by (simp add: append_commit_eval step)
  have "\<exists>d. mem_fetch st' (repair_ref ''u'' ''c:f'') = Some d \<and> dget d ''dangerous'' = PBool True"
    using applied_append_queues_repairs [OF mem.firestore_axioms run _ plain named, of "''c''" "repair_ref ''u'' ''c:f''"]
    by (auto simp: sidelined_def spares_def project_def dget_def commit_id_for_def mem_fetch_def retract_fact_def mutation_def mutation_fact_id_def
        repair_reason_def dict_get_def DANGEROUS_REASONS_def)
  with run show ?thesis by blast
qed

subsection \<open>Repairs that were not queued\<close>

text \<open>A later call of one of the two public functions: the aborted attempts, the delays, the fault of the batch, the time and the append.\<close>

type_synonym public_append = "(nat \<Rightarrow> bool) \<times> (nat \<Rightarrow> real) \<times> pyerr option \<times> int \<times> (nat \<Rightarrow> ledger_append)"

definition public_append where
  "public_append fetch commit digest uid call st =
     (case call of (aborts, rnd, fault, enqueued_at, op) \<Rightarrow> append_and_enqueue fetch commit digest aborts rnd fault enqueued_at uid op st)"

fun op_mutations :: "(dict list \<Rightarrow> bool) \<Rightarrow> ledger_append \<Rightarrow> bool" where
  "op_mutations Q (Append parent mutations run_id commit_time writer use_current_head now) = Q mutations"
| "op_mutations Q (Append_Built parent builder run_id commit_time use_current_head now) =
     (\<forall>rd mutations writer. builder rd = Inr (mutations, writer) \<longrightarrow> Q mutations)"

text \<open>The calls of a history: plain mutations, and projection writers that leave the ledger and one repair document alone.\<close>

definition decent_call :: "string \<Rightarrow> path \<Rightarrow> public_append \<Rightarrow> bool" where
  "decent_call uid repair call \<longleftrightarrow> (case call of (aborts, rnd, fault, enqueued_at, op) \<Rightarrow>
     \<forall>k. op_tidy uid (op k) \<and> op_writers (spares {repair}) (op k) \<and> op_mutations (\<lambda>ms. \<forall>m \<in> set ms. plain_mutation m) (op k))"

lemma applied_mutations:
  assumes "append_step fetch commit digest uid op st = (Inr (c, True), st1)" "op_mutations Q op"
  shows "\<exists>parent ms run_id t. c = map_of (build_commit digest parent ms run_id t) \<and> Q ms
    \<and> fetch st (commit_ref uid (commit_id_for digest parent ms)) = None"
proof -
  let ?head = "read_head (fetch st) uid"
  obtain ws where body: "append_body digest uid op (fetch st) = Inr ((c, True), ws)"
    using assms(1) by (auto simp: append_step_def run_txn_def split: sum.split_asm)
  show ?thesis
  proof (cases op)
    case (Append parent ms run_id t writer use now)
    have "c = map_of (build_commit digest ?head ms run_id t) \<and> fetch st (commit_ref uid (commit_id_for digest ?head ms)) = None"
      using body by (auto simp: Append append_commit_transaction_def head_stored Let_def split: option.split_asm if_split_asm)
    moreover have "Q ms" using assms(2) by (simp add: Append)
    ultimately show ?thesis by blast
  next
    case (Append_Built parent builder run_id t use now)
    obtain ms writer where built: "builder (fetch st) = Inr (ms, writer)"
      using body by (auto simp: Append_Built append_commit_with_builder_transaction_def Let_def split: if_split_asm)
    have "c = map_of (build_commit digest ?head ms run_id t) \<and> fetch st (commit_ref uid (commit_id_for digest ?head ms)) = None"
      using body unfolding Append_Built append_body.simps append_commit_with_builder_transaction_def head_stored Let_def built res_bind_simps prod.case
      by (auto split: option.split_asm if_split_asm)
    moreover have "Q ms" using assms(2) built by (auto simp: Append_Built)
    ultimately show ?thesis by blast
  qed
qed

lemma public_append_effect:
  assumes "append_and_enqueue fetch commit digest aborts rnd fault at' uid op st = (r, st')"
  obtains (kept) "st' = st"
  | (stepped) k where "st' = snd (append_step fetch commit digest uid (op k) st)"
  | (queued) k c st1 where "append_step fetch commit digest uid (op k) st = (Inr (c, True), st1)"
      "st' = snd (enqueue_projection_repairs fetch commit fault at' uid (Some c) st1)"
proof -
  obtain q st1 ds where run: "run_with_transaction_contention_retry DEFAULT_MAX_ATTEMPTS (append_in_transaction fetch commit digest aborts uid op) rnd st = (q, st1, ds)"
    by (metis prod_cases3)
  let ?attempt = "append_in_transaction fetch commit digest aborts uid op (1 + length ds) st"
  have q: "(q, st1) = attempt_result ?attempt" by (rule append_retry_effect [OF run])
  have st1: "st1 = snd ?attempt" using q by (cases ?attempt rule: attempt_result.cases) auto
  have snd: "snd ?attempt = st \<or> snd ?attempt = snd (append_step fetch commit digest uid (op (1 + length ds)) st)"
    by (auto simp: append_in_transaction_def split: prod.split sum.split)
  show thesis
  proof (cases "\<exists>c. q = Returned (c, True)")
    case True
    then obtain c where c: "q = Returned (c, True)" by blast
    then have "?attempt = (Inr (c, True), st1)" using q by (cases ?attempt rule: attempt_result.cases) (auto split: if_split_asm)
    then have step: "append_step fetch commit digest uid (op (1 + length ds)) st = (Inr (c, True), st1)"
      by (auto simp: append_in_transaction_def split: if_split_asm prod.split_asm sum.split_asm)
    have "st' = snd (enqueue_projection_repairs fetch commit fault at' uid (Some c) st1)"
      using assms by (auto simp: append_and_enqueue_def run c split: prod.split_asm sum.split_asm)
    with step show thesis by (rule queued)
  next
    case False
    then have "st' = st1"
      using assms by (auto simp: append_and_enqueue_def run split: retry_result.split_asm if_split_asm prod.split_asm)
    with snd st1 kept stepped show thesis by blast
  qed
qed

lemma repair_id_commit:
  assumes "CHR '':'' \<notin> set cid" "CHR '':'' \<notin> set cid'" "repair_id_for (PStr cid') (PStr g) = cid @ '':'' @ f"
  shows "cid' = cid"
  using assms append_Cons_eq_iff [of "CHR '':''" cid' g cid f]
  by (auto simp: repair_id_for_def append_eq_append_conv2 append_eq_Cons_conv Cons_eq_append_conv)

text \<open>A public append leaves a stored commit and an absent repair of it as they are.\<close>

lemma public_append_spares:
  assumes "firestore fetch commit" "\<forall>v. CHR '':'' \<notin> set (digest v)" "CHR '':'' \<notin> set cid"
    and "decent_call uid (repair_ref uid (cid @ '':'' @ f)) call"
    and "fetch st (commit_ref uid cid) = Some c \<and> fetch st (repair_ref uid (cid @ '':'' @ f)) = None"
  defines "st' \<equiv> snd (public_append fetch commit digest uid call st)"
  shows "fetch st' (commit_ref uid cid) = Some c \<and> fetch st' (repair_ref uid (cid @ '':'' @ f)) = None"
proof -
  let ?repair = "repair_ref uid (cid @ '':'' @ f)"
  obtain aborts rnd fault at' op where call: "call = (aborts, rnd, fault, at', op)" by (rule prod_cases5)
  have ok: "op_tidy uid (op k)" "op_writers (spares {?repair}) (op k)" "op_mutations (\<lambda>ms. \<forall>m \<in> set ms. plain_mutation m) (op k)" for k
    using assms(4) by (simp_all add: call decent_call_def)
  have step: "fetch (snd (append_step fetch commit digest uid (op k) st)) (commit_ref uid cid) = Some c"
    "fetch (snd (append_step fetch commit digest uid (op k) st)) ?repair = None" for k
    using firestore.commit_kept [OF assms(1) ok(1)] firestore.append_step_other [OF assms(1) ok(1) [of k] ok(2) [of k], of ?repair digest st] assms(5) by simp_all
  have "append_and_enqueue fetch commit digest aborts rnd fault at' uid op st =
      (fst (append_and_enqueue fetch commit digest aborts rnd fault at' uid op st), st')"
    by (simp add: st'_def public_append_def call)
  then show ?thesis
  proof (cases rule: public_append_effect)
    case (queued k c' st1)
    obtain parent ms run_id t where c': "c' = map_of (build_commit digest parent ms run_id t)" "\<forall>m \<in> set ms. plain_mutation m"
      "fetch st (commit_ref uid (commit_id_for digest parent ms)) = None"
      using applied_mutations [OF queued(1) ok(3)] by blast
    define cid' where "cid' = commit_id_for digest parent ms"
    have id': "dget c' ''commit_id'' = PStr cid'" "dget c' ''mutations'' = PList (map PDict ms)"
      by (simp_all add: c'(1) cid'_def dget_def)
    have other: "cid' \<noteq> cid" using c'(3) assms(5) by (auto simp: cid'_def)
    have colon: "CHR '':'' \<notin> set cid'" using assms(2) by (simp add: cid'_def commit_id_for_def)
    have at1: "fetch st1 (commit_ref uid cid) = Some c" "fetch st1 ?repair = None" using step [of k] queued(1) by simp_all
    obtain fs rs where fs: "set fs = {f. names_fact ms f}" "distinct fs"
      "\<And>fault. enqueue_projection_repairs fetch commit fault at' uid (Some c') st1 =
         (if fs = [] then (Inr [], st1)
          else case fault of Some e \<Rightarrow> (Inl e, st1)
            | None \<Rightarrow> (Inr (map (\<lambda>f. repair_id_for (dget c' ''commit_id'') (PStr f)) fs),
                commit st1 (map (repair_write uid (dget c' ''commit_id'') at' rs)
                  (filter (\<lambda>f. fetch st1 (repair_ref uid (repair_id_for (dget c' ''commit_id'') (PStr f))) = None) fs))))"
      by (rule enqueue_plain [OF id'(2) c'(2), of fetch commit at' uid st1]) (rule that)
    define ws where "ws = map (repair_write uid (PStr cid') at' rs) (filter (\<lambda>f. fetch st1 (repair_ref uid (repair_id_for (PStr cid') (PStr f))) = None) fs)"
    have okw: "writes_ok (fetch st1) ws"
      using fs(2) by (auto simp: ws_def writes_ok_def comp_def distinct_map inj_on_def repair_write_def)
    have "repair_id_for (PStr cid') (PStr g) \<noteq> cid @ '':'' @ f" for g using repair_id_commit [OF assms(3) colon] other by blast
    then have away: "commit_ref uid cid \<notin> wpath ` set ws" "?repair \<notin> wpath ` set ws" by (auto simp: ws_def) metis
    have "st' = st1 \<or> st' = commit st1 ws"
      using queued(2) fs(3) [of fault] by (auto simp: id' ws_def split: if_split_asm option.split_asm)
    with at1 show ?thesis using firestore.fetch_commit_other [OF assms(1) okw] away by auto
  qed (use assms(5) step in simp_all)
qed

text \<open>
  C20. Repairs that were lost stay lost: when an append has taken effect and the batch that queues
  its repairs fails, the call raises, and over any later history of public appends, of both kinds,
  in both head modes, with any faults and retries, the repair of that commit is never stored. The
  same parent and mutations appended again answer with the stored commit as not applied and write
  nothing. (An append on the current head makes a new commit of the same mutations, and queues the
  repairs of that one.)
\<close>

theorem lost_repairs_stay_lost:
  assumes "firestore fetch commit" "\<forall>v. CHR '':'' \<notin> set (digest v)"
    and "sidelined uid writer" "\<forall>m \<in> set mutations. plain_mutation m" "names_fact mutations f" "\<not> aborts 1"
    and "append_step fetch commit digest uid (Append parent mutations run_id (t 1) writer use_head (now 1)) st = (Inr (c, True), st1)"
    and "dget c ''commit_id'' = PStr cid" "repair = repair_ref uid (cid @ '':'' @ f)" "fetch st repair = None" "spares {repair} writer"
    and "\<forall>call \<in> set calls. decent_call uid repair call" "st2 = snd (run_ops (public_append fetch commit digest uid) calls st1)"
    and "\<not> aborts' 1"
  shows "append_commit fetch commit digest aborts rnd (Some e) enqueued_at uid parent mutations run_id t writer use_head now st =
        (Raised ([(0, e, None)], 0), st1)
    \<and> fetch st2 repair = None \<and> fetch st2 (commit_ref uid cid) = Some c
    \<and> (\<exists>st3. append_commit fetch commit digest aborts' rnd' fault' enqueued_at' uid (read_head (fetch st) uid) mutations run_id' t' writer' False now' st2 =
          (Returned (c, False), st3) \<and> fetch st3 = fetch st2)"
proof (intro conjI)
  let ?op = "Append parent mutations run_id (t 1) writer use_head (now 1)"
  have tidy: "op_tidy uid ?op" using assms(3) by simp
  have c: "c = map_of (build_commit digest (read_head (fetch st) uid) mutations run_id (t 1))"
    using assms(7) by (auto simp: append_step_def run_txn_def append_commit_transaction_def head_stored Let_def
        split: sum.split_asm option.split_asm if_split_asm)
  then have cid: "cid = commit_id_for digest (read_head (fetch st) uid) mutations" and ms: "dget c ''mutations'' = PList (map PDict mutations)"
    using assms(8) by (simp_all add: dget_def)
  have colon: "CHR '':'' \<notin> set cid" using assms(2) by (simp add: cid commit_id_for_def)
  have "enqueue_projection_repairs fetch commit (Some e) enqueued_at uid (Some c) st1 = (Inl e, st1)"
    by (rule enqueue_plain [OF ms assms(4), of fetch commit enqueued_at uid st1]) (use assms(5) in auto)
  then show "append_commit fetch commit digest aborts rnd (Some e) enqueued_at uid parent mutations run_id t writer use_head now st =
      (Raised ([(0, e, None)], 0), st1)"
    unfolding append_commit_def append_and_enqueue_def
    by (subst append_first_attempt [of aborts fetch commit digest uid _ st "(c, True)" st1]) (use assms(6,7) in simp_all)
  have "fetch (snd (append_step fetch commit digest uid ?op st)) repair = fetch st repair"
    using firestore.append_step_other [OF assms(1) tidy, of "{repair}" repair digest st] assms(9,11) by simp
  then have "fetch st1 (commit_ref uid cid) = Some c \<and> fetch st1 repair = None"
    using append_step_head(2) [OF assms(1) tidy assms(7,8)] assms(7,10) by simp
  then have later: "fetch st2 (commit_ref uid cid) = Some c \<and> fetch st2 repair = None"
    using assms(12) unfolding assms(9,13)
    by (intro run_ops_invariant [where I = "\<lambda>s. fetch s (commit_ref uid cid) = Some c \<and> fetch s (repair_ref uid (cid @ '':'' @ f)) = None"
          and P = "decent_call uid (repair_ref uid (cid @ '':'' @ f))"] public_append_spares [OF assms(1,2) colon])
  then show "fetch st2 repair = None" "fetch st2 (commit_ref uid cid) = Some c" by simp_all
  have "append_step fetch commit digest uid (Append (read_head (fetch st) uid) mutations run_id' (t' 1) writer' False (now' 1)) st2 =
      (Inr (c, False), commit st2 [])"
    using later by (simp add: cid append_step_def append_commit_transaction_def Let_def)
  then show "\<exists>st3. append_commit fetch commit digest aborts' rnd' fault' enqueued_at' uid (read_head (fetch st) uid) mutations run_id' t' writer' False now' st2 =
      (Returned (c, False), st3) \<and> fetch st3 = fetch st2"
    using firestore.fetch_commit [OF assms(1), of st2 "[]"] assms(14)
    unfolding append_commit_def append_and_enqueue_def
    by (subst append_first_attempt [of aborts' fetch commit digest uid _ st2 "(c, False)" "commit st2 []"]) (simp_all add: fun_eq_iff)
qed

theorem lost_repairs_stay_lost_witness:
  "\<exists>st1. append_commit mem_fetch mem_commit (\<lambda>v. ''c'') (\<lambda>n. False) (\<lambda>n. 0) (Some RuntimeError) 7 ''u'' PNone [retract_fact ''f'' []] PNone (\<lambda>n. 3)
      None False (\<lambda>n. 4) (\<lambda>p. None) = (Raised ([(0, RuntimeError, None)], 0), st1)
    \<and> mem_fetch (snd (run_ops (public_append mem_fetch mem_commit (\<lambda>v. ''c'') ''u'')
        [(\<lambda>n. False, \<lambda>n. 0, None, 9, \<lambda>n. Append PNone [retract_fact ''f'' []] PNone 8 None True 9)] st1)) (repair_ref ''u'' ''c:f'') = None"
proof -
  let ?calls = "[(\<lambda>n. False, \<lambda>n. 0, None, 9, \<lambda>n. Append PNone [retract_fact ''f'' []] PNone 8 None True 9)]"
  let ?c = "map_of (build_commit (\<lambda>v. ''c'') PNone [retract_fact ''f'' []] PNone 3)"
  obtain st1 where step: "append_step mem_fetch mem_commit (\<lambda>v. ''c'') ''u'' (Append PNone [retract_fact ''f'' []] PNone 3 None False 4) (\<lambda>p. None) =
      (Inr (?c, True), st1)"
    using ex_retraction(3) by blast
  have id: "dget ?c ''commit_id'' = PStr ''c''" by (simp add: dget_def commit_id_for_def)
  have calls: "\<forall>call \<in> set ?calls. decent_call ''u'' (repair_ref ''u'' (''c'' @ '':'' @ ''f'')) call"
    using ex_retraction(1) by (simp add: decent_call_def sidelined_def spares_def project_def)
  show ?thesis
    using lost_repairs_stay_lost [where t = "\<lambda>n. 3" and now = "\<lambda>n. 4" and aborts = "\<lambda>n. False" and aborts' = "\<lambda>n. False" and e = RuntimeError
        and rnd = "\<lambda>n. 0" and enqueued_at = 7, OF mem.firestore_axioms _ _ ex_retraction(1,2) _ step id refl _ _ calls refl]
    by (simp add: sidelined_def spares_def project_def mem_fetch_def)
qed

end
