(* ===== verification/Repair_Worker.thy ===== *)
theory Repair_Worker
  imports Memory_Repair
begin

text \<open>
  The second half of \<^verbatim>\<open>database/projection_repair.py\<close>: the worker that processes queued repairs
  under the durable-queue policy, the projection of a fact and the reconciliation of the vector
  index with the facts. A run reads the open repairs by query, gives each to the callbacks
  (\<open>fact_loader\<close>, \<open>repair_func\<close>; an exception is its text) and records what came of it on the
  repair's document. \<open>ack_fault\<close> and \<open>mark_fault\<close> say which of those updates fail at the service,
  and with what text. Runs are taken one after the other.
\<close>

type_synonym repair_row = "string \<times> doc"

type_synonym 's repair_query = "'s \<Rightarrow> string \<Rightarrow> nat \<Rightarrow> repair_row list"

subsection \<open>Selecting repairs\<close>

fun collect_status :: "nat \<Rightarrow> repair_row list \<Rightarrow> repair_row list \<Rightarrow> repair_row list" where
  "collect_status limit [] docs = docs"
| "collect_status limit (r # rows) docs =
     (if fst r \<in> fst ` set docs then collect_status limit rows docs
      else if length (docs @ [r]) \<ge> limit then docs @ [r]
      else collect_status limit rows (docs @ [r]))"

fun collect_repairs :: "nat \<Rightarrow> (string \<Rightarrow> repair_row list) \<Rightarrow> string list \<Rightarrow> repair_row list \<Rightarrow> repair_row list" where
  "collect_repairs limit answers [] docs = docs"
| "collect_repairs limit answers (status # statuses) docs =
     (let docs' = collect_status limit (answers status) docs in
      if length docs' \<ge> limit then docs' else collect_repairs limit answers statuses docs')"

definition selected_repairs :: "'s repair_query \<Rightarrow> nat \<Rightarrow> 's \<Rightarrow> repair_row list" where
  "selected_repairs query limit st = collect_repairs limit (\<lambda>status. query st status limit) PROCESSABLE_REPAIR_STATUSES []"

subsection \<open>Processing\<close>

text \<open>An update of a missing document raises.\<close>

definition update_document ::
  "('s \<Rightarrow> path \<Rightarrow> doc option) \<Rightarrow> ('s \<Rightarrow> write list \<Rightarrow> 's) \<Rightarrow> string option \<Rightarrow> path \<Rightarrow> dict \<Rightarrow> 's \<Rightarrow> (string + unit) \<times> 's" where
  "update_document fetch commit fault ref kvs st =
     (case fault of
        Some exc \<Rightarrow> (Inl exc, st)
      | None \<Rightarrow> if fetch st ref = None then (Inl ''NotFound'', st) else (Inr (), commit st [Update ref (put_all kvs)]))"

record 's repair_calls =
  fact_loader :: "pyval \<Rightarrow> 's \<Rightarrow> (string + pyval) \<times> 's"
  repair_func :: "string \<Rightarrow> pyval \<Rightarrow> 's \<Rightarrow> (string + pyval) \<times> 's"
  ack_fault :: "string \<Rightarrow> string option"
  mark_fault :: "string \<Rightarrow> string option"

definition load_and_repair :: "'s repair_calls \<Rightarrow> string \<Rightarrow> pyval \<Rightarrow> 's \<Rightarrow> (string + pyval) \<times> 's" where
  "load_and_repair calls uid fact_id st =
     (case fact_loader calls fact_id st of
        (Inl exc, st') \<Rightarrow> (Inl exc, st')
      | (Inr known, st') \<Rightarrow> repair_func calls uid known st')"

definition row_name :: "repair_row \<Rightarrow> pyval" where
  "row_name r = py_or (dget (snd r) ''repair_id'') (PStr (fst r))"

definition repaired_fields :: "pyval \<Rightarrow> int \<Rightarrow> dict" where
  "repaired_fields action now = [(''status'', PStr ''repaired''), (''repair_action'', action), (''updated_at'', PTime now)]"

definition process_one ::
  "('s \<Rightarrow> path \<Rightarrow> doc option) \<Rightarrow> ('s \<Rightarrow> write list \<Rightarrow> 's) \<Rightarrow> 's repair_calls \<Rightarrow> string \<Rightarrow> int \<Rightarrow> (repair_row, 's \<times> pyval list) processor" where
  "process_one fetch commit calls uid now r s =
     (case load_and_repair calls uid (dget (snd r) ''fact_id'') (fst s) of
        (Inl exc, st') \<Rightarrow> (Inr (Some (retry exc ''projection_repair_failed'')), st', snd s)
      | (Inr action, st') \<Rightarrow>
          (case update_document fetch commit (ack_fault calls (fst r)) (repair_ref uid (fst r)) (repaired_fields action now) st' of
             (Inl exc, st'') \<Rightarrow> (Inl exc, st'', snd s)
           | (Inr u, st'') \<Rightarrow> (Inr (Some ack), st'', snd s @ [row_name r])))"

definition marked_fields :: "attempt_decision \<Rightarrow> int \<Rightarrow> dict" where
  "marked_fields decision now =
     [(''status'', PStr (if decision_terminal decision then ''dead_letter'' else ''failed'')),
      (''attempt_count'', PInt (decision_attempt_count decision)), (''error'', PStr (decision_error_text decision)),
      (''last_error_text'', PStr (decision_error_text decision)),
      (''dead_letter_reason'', if decision_terminal decision then PStr (decision_reason decision) else PNone),
      (''updated_at'', PTime now)]"

fun mark_failures ::
  "('s \<Rightarrow> path \<Rightarrow> doc option) \<Rightarrow> ('s \<Rightarrow> write list \<Rightarrow> 's) \<Rightarrow> 's repair_calls \<Rightarrow> string \<Rightarrow> queue_policy \<Rightarrow> int \<Rightarrow>
   repair_row isolated_result list \<Rightarrow> pyval list \<Rightarrow> 's \<Rightarrow> pyval list res \<times> 's" where
  "mark_failures fetch commit calls uid policy now [] failed st = (Inr failed, st)"
| "mark_failures fetch commit calls uid policy now (r # rs) failed st =
     (if outcome_kind (isolated_outcome r) = ACK then mark_failures fetch commit calls uid policy now rs failed st
      else let row = isolated_item r in
        case res_bind (int_or (snd row) ''attempt_count'' 0) (\<lambda>n. decide_attempt (n + 1) (isolated_outcome r) policy now) of
          Inl e \<Rightarrow> (Inl e, st)
        | Inr decision \<Rightarrow>
            (case update_document fetch commit (mark_fault calls (fst row)) (repair_ref uid (fst row)) (marked_fields decision now) st of
               (Inl exc, st') \<Rightarrow> (Inl (OtherError exc), st')
             | (Inr u, st') \<Rightarrow> mark_failures fetch commit calls uid policy now rs (failed @ [row_name row]) st'))"

record repair_report =
  report_repaired :: "pyval list"
  report_failed :: "pyval list"
  report_processed :: nat

definition process_projection_repairs ::
  "('s \<Rightarrow> path \<Rightarrow> doc option) \<Rightarrow> ('s \<Rightarrow> write list \<Rightarrow> 's) \<Rightarrow> 's repair_query \<Rightarrow> 's repair_calls \<Rightarrow> string \<Rightarrow> int \<Rightarrow> int \<Rightarrow> int \<Rightarrow>
   's \<Rightarrow> repair_report res \<times> 's" where
  "process_projection_repairs fetch commit query calls uid limit attempts now st =
     (if limit < 1 then (Inl ValueError, st)
      else if attempts < 1 then (Inl ValueError, st)
      else let docs = selected_repairs query (nat limit) st;
               policy = default_policy\<lparr>max_attempts := attempts\<rparr>;
               (results, st', repaired) = drain_isolated docs (process_one fetch commit calls uid now) (st, [])
           in case mark_failures fetch commit calls uid policy now results [] st' of
                (Inl e, st'') \<Rightarrow> (Inl e, st'')
              | (Inr failed, st'') \<Rightarrow>
                  (Inr \<lparr>report_repaired = repaired, report_failed = failed, report_processed = length repaired + length failed\<rparr>, st''))"

subsection \<open>The projection of a fact\<close>

definition qualifiers_of :: "dict \<Rightarrow> dict" where
  "qualifiers_of f = (case dict_get f ''qualifiers'' of PDict q \<Rightarrow> q | _ \<Rightarrow> [])"

definition note_entity :: "pyval list \<Rightarrow> pyval \<Rightarrow> pyval list" where
  "note_entity ids e = (if truthy e \<and> \<not> py_in e ids then ids @ [e] else ids)"

text \<open>Iterating over a value: a text gives its characters, a dictionary its keys.\<close>

definition py_iter :: "pyval \<Rightarrow> pyval list res" where
  "py_iter v =
     (case v of
        PList xs \<Rightarrow> Inr xs
      | PStr s \<Rightarrow> Inr (map (\<lambda>c. PStr [c]) s)
      | PDict kvs \<Rightarrow> Inr (map (\<lambda>(k, w). PStr k) kvs)
      | _ \<Rightarrow> Inl TypeError)"

definition entity_ids :: "dict \<Rightarrow> pyval list res" where
  "entity_ids f =
     (let subject = dict_get f ''subject_entity_id'' in
      res_bind (py_iter (py_or (dict_get f ''object_entity_ids'') (PList []))) (\<lambda>es.
      Inr (foldl note_entity (if truthy subject then [subject] else []) es)))"

definition projection_metadata_for_fact :: "dict \<Rightarrow> pyval \<Rightarrow> dict res" where
  "projection_metadata_for_fact f source_commit_id =
     (let qualifiers = qualifiers_of f in
      res_bind (entity_ids f) (\<lambda>entities.
      Inr [(''fact_id'', dict_get f ''id''), (''memory_id'', dict_get f ''id''), (''source_commit_id'', source_commit_id),
           (''projection_version'', PInt PROJECTION_VERSION), (''entity_ids'', PList entities),
           (''valid_time'', py_or (dict_get qualifiers ''valid_from'') (dict_get f ''valid_at'')),
           (''scope'', py_or (py_or (dict_get qualifiers ''scope'') (dict_get f ''scope'')) (PStr ''global'')),
           (''epistemic_status'', py_or (py_or (dict_get f ''status'') (dict_get qualifiers ''status'')) (PStr ''accepted'')),
           (''source_tombstone_state'', case map_of f ''redaction_status'' of None \<Rightarrow> PStr ''active'' | Some v \<Rightarrow> v)]))"

definition projection_action_for_fact :: "dict \<Rightarrow> string" where
  "projection_action_for_fact f =
     (let status = py_or (dict_get f ''status'') (dict_get (qualifiers_of f) ''status'') in
      if dict_get f ''invalid_at'' \<noteq> PNone then ''delete''
      else if dict_get f ''redaction_status'' \<in> {PStr ''payload_tombstoned'', PStr ''pending_tombstone''} then ''delete''
      else if status = PStr ''pending_review'' then ''upsert_pending''
      else ''upsert'')"

subsection \<open>Reconciliation\<close>

text \<open>
  The facts by id, a later fact with the same id in the place of an earlier one. Ids are texts, as
  the annotation says; an empty one is skipped.
\<close>

definition facts_by_id :: "dict list \<Rightarrow> string \<Rightarrow> dict option" where
  "facts_by_id known =
     foldl (\<lambda>m f. case dict_get f ''id'' of PStr i \<Rightarrow> if i = [] then m else m(i \<mapsto> f) | _ \<Rightarrow> m) Map.empty known"

definition expected_active :: "dict list \<Rightarrow> string set" where
  "expected_active known = {i. \<exists>f. facts_by_id known i = Some f \<and> take 6 (projection_action_for_fact f) = ''upsert''}"

record drift_report =
  missing_upserts :: "string list"
  stale_deletes :: "string list"
  drift_count :: nat
  projection_fail_count :: nat

definition reconcile_memory_projection :: "dict list \<Rightarrow> string list \<Rightarrow> drift_report" where
  "reconcile_memory_projection known vector_fact_ids =
     (let missing = sorted_list_of_set (expected_active known - set vector_fact_ids);
          stale = sorted_list_of_set (set vector_fact_ids - expected_active known)
      in \<lparr>missing_upserts = missing, stale_deletes = stale, drift_count = length missing + length stale,
          projection_fail_count = (if missing = [] \<and> stale = [] then 0 else length missing + length stale)\<rparr>)"

lemma facts_by_id_finite: "finite (dom (facts_by_id known))"
proof -
  have "finite (dom m) \<Longrightarrow> finite (dom (foldl (\<lambda>m f. case dict_get f ''id'' of PStr i \<Rightarrow> if i = [] then m else m(i \<mapsto> f) | _ \<Rightarrow> m) m known))" for m
    by (induction known arbitrary: m) (auto split: pyval.split)
  then show ?thesis by (simp add: facts_by_id_def)
qed

text \<open>
  The report is exact: applying it to the index, adding what is missing and deleting what is
  stale, gives the facts that are to be active, and it counts no drift exactly when the index
  already is that set.
\<close>

lemma reconcile_exact:
  assumes "r = reconcile_memory_projection known ids"
  shows "(set ids \<union> set (missing_upserts r)) - set (stale_deletes r) = expected_active known
    \<and> (drift_count r = 0 \<longleftrightarrow> set ids = expected_active known) \<and> projection_fail_count r = drift_count r
    \<and> distinct (missing_upserts r @ stale_deletes r)"
proof -
  have fin: "finite (expected_active known)"
    by (rule finite_subset [OF _ facts_by_id_finite [of known]]) (auto simp: expected_active_def)
  then show ?thesis unfolding assms reconcile_memory_projection_def Let_def
    by (auto simp: sorted_list_of_set_eq_Nil_iff)
qed

subsection \<open>What a run does\<close>

definition calls_spare :: "('s \<Rightarrow> path \<Rightarrow> doc option) \<Rightarrow> string \<Rightarrow> 's repair_calls \<Rightarrow> bool" where
  "calls_spare fetch uid calls \<longleftrightarrow>
     (\<forall>fact_id st rid. fetch (snd (load_and_repair calls uid fact_id st)) (repair_ref uid rid) = fetch st (repair_ref uid rid))"

definition calls_faultless :: "'s repair_calls \<Rightarrow> bool" where
  "calls_faultless calls \<longleftrightarrow> (\<forall>rid. ack_fault calls rid = None \<and> mark_fault calls rid = None)"

lemma put_all_keys [simp]: "fst ` set (put_all kvs) = fst ` set kvs"
  by (force simp: put_all_def)

definition attempts_of :: "doc \<Rightarrow> int" where
  "attempts_of d = fint d ''attempt_count'' 0"

text \<open>A repair document as the code writes it: a count of attempts that is absent or not negative.\<close>

definition repair_ok :: "doc \<Rightarrow> bool" where
  "repair_ok d \<longleftrightarrow> int_field d ''attempt_count'' \<and> 0 \<le> attempts_of d"

text \<open>What the documents say after the first pass, and after both.\<close>

definition first_pass :: "(string \<Rightarrow> doc option) \<Rightarrow> int \<Rightarrow> repair_row isolated_result \<Rightarrow> bool" where
  "first_pass view now r \<longleftrightarrow>
     (if outcome_kind (isolated_outcome r) = ACK
      then \<exists>action. view (fst (isolated_item r)) = Some (upd_fields (snd (isolated_item r)) (put_all (repaired_fields action now)))
      else outcome_kind (isolated_outcome r) = RETRY \<and> view (fst (isolated_item r)) = Some (snd (isolated_item r)))"

lemma first_pass_cong:
  "view (fst (isolated_item r)) = view' (fst (isolated_item r)) \<Longrightarrow> first_pass view now r \<longleftrightarrow> first_pass view' now r"
  unfolding first_pass_def by (simp only:)

definition attempted :: "int \<Rightarrow> doc \<Rightarrow> doc \<Rightarrow> bool" where
  "attempted attempts d d' \<longleftrightarrow>
     repair_ok d'
     \<and> (dget d' ''status'' = PStr ''repaired''
        \<or> attempts_of d' = attempts_of d + 1
          \<and> dget d' ''status'' = PStr (if attempts \<le> attempts_of d + 1 then ''dead_letter'' else ''failed''))"

context firestore
begin

lemma update_document_ok:
  assumes "fetch st ref = Some d" "\<forall>k \<in> fst ` set kvs. CHR ''.'' \<notin> set k"
  obtains st' where "update_document fetch commit None ref kvs st = (Inr (), st')"
    "fetch st' ref = Some (upd_fields d (put_all kvs))" "\<And>p. p \<noteq> ref \<Longrightarrow> fetch st' p = fetch st p"
proof -
  have ok: "writes_ok (fetch st) [Update ref (put_all kvs)]" using assms by simp
  show thesis
    by (rule that [of "commit st [Update ref (put_all kvs)]"]) (use assms fetch_commit [OF ok] in \<open>simp_all add: update_document_def\<close>)
qed

lemma process_one_effect:
  assumes "calls_spare fetch uid calls" "calls_faultless calls" "fetch st (repair_ref uid (fst r)) = Some (snd r)"
    and "process_one fetch commit calls uid now r (st, acc) = (res, st', acc')"
  shows "first_pass (\<lambda>rid. fetch st' (repair_ref uid rid)) now (isolate r res)
    \<and> length acc' = length acc + of_bool (outcome_kind (isolated_outcome (isolate r res)) = ACK)
    \<and> (\<forall>rid. rid \<noteq> fst r \<longrightarrow> fetch st' (repair_ref uid rid) = fetch st (repair_ref uid rid))"
proof -
  obtain x st1 where load: "load_and_repair calls uid (dget (snd r) ''fact_id'') st = (x, st1)" by fastforce
  then have same: "fetch st1 (repair_ref uid rid) = fetch st (repair_ref uid rid)" for rid
    using assms(1) by (metis calls_spare_def snd_conv)
  show ?thesis
  proof (cases x)
    case (Inl exc)
    with assms(4) load have "res = Inr (Some (retry exc ''projection_repair_failed''))" "st' = st1" "acc' = acc" by (simp_all add: process_one_def)
    with same assms(3) show ?thesis by (simp add: first_pass_def isolate_def)
  next
    case (Inr action)
    have "fetch st1 (repair_ref uid (fst r)) = Some (snd r)" using same assms(3) by simp
    then obtain st2 where st2: "update_document fetch commit None (repair_ref uid (fst r)) (repaired_fields action now) st1 = (Inr (), st2)"
      "fetch st2 (repair_ref uid (fst r)) = Some (upd_fields (snd r) (put_all (repaired_fields action now)))"
      "\<And>p. p \<noteq> repair_ref uid (fst r) \<Longrightarrow> fetch st2 p = fetch st1 p"
      by (rule update_document_ok) (auto simp: repaired_fields_def)
    have "ack_fault calls (fst r) = None" using assms(2) by (simp add: calls_faultless_def)
    with assms(4) load Inr st2(1) have "res = Inr (Some ack)" "st' = st2" "acc' = acc @ [row_name r]" by (simp_all add: process_one_def)
    with st2(2,3) same show ?thesis by (auto simp: first_pass_def isolate_def)
  qed
qed

lemma drain_effect:
  assumes "calls_spare fetch uid calls" "calls_faultless calls"
  shows "distinct (map fst docs) \<Longrightarrow> \<forall>r \<in> set docs. fetch st (repair_ref uid (fst r)) = Some (snd r) \<Longrightarrow>
    drain_isolated docs (process_one fetch commit calls uid now) (st, acc) = (results, st', acc') \<Longrightarrow>
    (\<forall>r \<in> set results. first_pass (\<lambda>rid. fetch st' (repair_ref uid rid)) now r)
    \<and> length acc' = length acc + length (filter (\<lambda>r. outcome_kind (isolated_outcome r) = ACK) results)
    \<and> (\<forall>rid. rid \<notin> fst ` set docs \<longrightarrow> fetch st' (repair_ref uid rid) = fetch st (repair_ref uid rid))"
proof (induction docs arbitrary: st acc results)
  case (Cons r docs)
  obtain res st1 acc1 where one: "process_one fetch commit calls uid now r (st, acc) = (res, st1, acc1)" by (metis prod_cases3)
  obtain results1 where rest: "drain_isolated docs (process_one fetch commit calls uid now) (st1, acc1) = (results1, st', acc')"
    "results = isolate r res # results1"
    using Cons.prems(3) by (auto simp: one Let_def split: prod.split_asm)
  have eff: "first_pass (\<lambda>rid. fetch st1 (repair_ref uid rid)) now (isolate r res)"
    "length acc1 = length acc + of_bool (outcome_kind (isolated_outcome (isolate r res)) = ACK)"
    "\<And>rid. rid \<noteq> fst r \<Longrightarrow> fetch st1 (repair_ref uid rid) = fetch st (repair_ref uid rid)"
    using process_one_effect [OF assms _ one] Cons.prems(2) by auto
  have "\<forall>q \<in> set docs. fetch st1 (repair_ref uid (fst q)) = Some (snd q)"
    using Cons.prems(1,2) eff(3) by (metis distinct.simps(2) image_eqI list.set_intros(2) list.simps(9) set_map)
  with Cons.IH [OF _ _ rest(1)] Cons.prems(1)
  have IH: "\<forall>q \<in> set results1. first_pass (\<lambda>rid. fetch st' (repair_ref uid rid)) now q"
    "length acc' = length acc1 + length (filter (\<lambda>r. outcome_kind (isolated_outcome r) = ACK) results1)"
    "\<And>rid. rid \<notin> fst ` set docs \<Longrightarrow> fetch st' (repair_ref uid rid) = fetch st1 (repair_ref uid rid)" by auto
  have "fetch st' (repair_ref uid (fst r)) = fetch st1 (repair_ref uid (fst r))" using IH(3) Cons.prems(1) by simp
  then have "first_pass (\<lambda>rid. fetch st' (repair_ref uid rid)) now (isolate r res)"
    using eff(1) first_pass_cong [of "\<lambda>rid. fetch st' (repair_ref uid rid)" "isolate r res" "\<lambda>rid. fetch st1 (repair_ref uid rid)"] by simp
  with IH eff(2,3) show ?case by (auto simp: rest(2))
qed simp

lemma mark_effect:
  assumes "calls_faultless calls" "attempts = max_attempts policy"
  shows "distinct (map (fst \<circ> isolated_item) rs) \<Longrightarrow>
    \<forall>r \<in> set rs. repair_ok (snd (isolated_item r)) \<and> first_pass (\<lambda>rid. fetch st (repair_ref uid rid)) now r \<Longrightarrow>
    \<exists>failed' st'. mark_failures fetch commit calls uid policy now rs failed st = (Inr failed', st')
      \<and> length failed' = length failed + length (filter (\<lambda>r. outcome_kind (isolated_outcome r) \<noteq> ACK) rs)
      \<and> (\<forall>rid. rid \<notin> fst ` isolated_item ` set rs \<longrightarrow> fetch st' (repair_ref uid rid) = fetch st (repair_ref uid rid))
      \<and> (\<forall>r \<in> set rs. \<exists>d'. fetch st' (repair_ref uid (fst (isolated_item r))) = Some d' \<and> attempted attempts (snd (isolated_item r)) d')"
proof (induction rs arbitrary: st failed)
  case (Cons r rs)
  let ?row = "isolated_item r"
  have ok: "repair_ok (snd ?row)" and pass: "first_pass (\<lambda>rid. fetch st (repair_ref uid rid)) now r" using Cons.prems(2) by simp_all
  have fresh: "fst ?row \<notin> fst ` isolated_item ` set rs" using Cons.prems(1) by (auto simp: comp_def)
  have "\<exists>st1 failed1 d'. mark_failures fetch commit calls uid policy now (r # rs) failed st =
        mark_failures fetch commit calls uid policy now rs failed1 st1
      \<and> length failed1 = length failed + of_bool (outcome_kind (isolated_outcome r) \<noteq> ACK)
      \<and> (\<forall>rid. rid \<noteq> fst ?row \<longrightarrow> fetch st1 (repair_ref uid rid) = fetch st (repair_ref uid rid))
      \<and> fetch st1 (repair_ref uid (fst ?row)) = Some d' \<and> attempted attempts (snd ?row) d'"
  proof (cases "outcome_kind (isolated_outcome r) = ACK")
    case True
    with pass obtain action where "fetch st (repair_ref uid (fst ?row)) = Some (upd_fields (snd ?row) (put_all (repaired_fields action now)))"
      by (auto simp: first_pass_def)
    moreover have "attempted attempts (snd ?row) (upd_fields (snd ?row) (put_all (repaired_fields action now)))"
      using ok by (simp add: attempted_def repaired_fields_def attempts_of_def fint_def dget_def repair_ok_def int_field_def)
    ultimately show ?thesis using True by auto
  next
    case False
    with pass have row: "fetch st (repair_ref uid (fst ?row)) = Some (snd ?row)" "outcome_kind (isolated_outcome r) = RETRY"
      by (auto simp: first_pass_def)
    have n: "int_or (snd ?row) ''attempt_count'' 0 = Inr (attempts_of (snd ?row))" "0 \<le> attempts_of (snd ?row)"
      using ok by (simp_all add: repair_ok_def attempts_of_def)
    obtain dec where dec: "decide_attempt (attempts_of (snd ?row) + 1) (isolated_outcome r) policy now = Inr dec"
      "decision_attempt_count dec = attempts_of (snd ?row) + 1" "decision_terminal dec \<longleftrightarrow> attempts \<le> attempts_of (snd ?row) + 1"
      using decide_attempt_total [of "isolated_outcome r" "attempts_of (snd ?row) + 1" policy now] n(2) row(2) assms(2) by auto
    obtain st1 where st1: "update_document fetch commit None (repair_ref uid (fst ?row)) (marked_fields dec now) st = (Inr (), st1)"
      "fetch st1 (repair_ref uid (fst ?row)) = Some (upd_fields (snd ?row) (put_all (marked_fields dec now)))"
      "\<And>p. p \<noteq> repair_ref uid (fst ?row) \<Longrightarrow> fetch st1 p = fetch st p"
      using row(1) by (rule update_document_ok) (auto simp: marked_fields_def)
    have "mark_fault calls (fst ?row) = None" using assms(1) by (simp add: calls_faultless_def)
    then have "mark_failures fetch commit calls uid policy now (r # rs) failed st =
        mark_failures fetch commit calls uid policy now rs (failed @ [row_name ?row]) st1"
      using False by (simp add: Let_def n(1) dec(1) st1(1))
    moreover have "attempted attempts (snd ?row) (upd_fields (snd ?row) (put_all (marked_fields dec now)))"
      using dec(2,3) n(2) by (simp add: attempted_def marked_fields_def attempts_of_def fint_def dget_def repair_ok_def int_field_def)
    ultimately show ?thesis using False st1(2,3)
      by (intro exI [of _ st1] exI [of _ "failed @ [row_name ?row]"] exI [of _ "upd_fields (snd ?row) (put_all (marked_fields dec now))"]) simp
  qed
  then obtain st1 failed1 d' where head: "mark_failures fetch commit calls uid policy now (r # rs) failed st =
        mark_failures fetch commit calls uid policy now rs failed1 st1"
      "length failed1 = length failed + of_bool (outcome_kind (isolated_outcome r) \<noteq> ACK)"
      "\<forall>rid. rid \<noteq> fst ?row \<longrightarrow> fetch st1 (repair_ref uid rid) = fetch st (repair_ref uid rid)"
      "fetch st1 (repair_ref uid (fst ?row)) = Some d'" "attempted attempts (snd ?row) d'" by blast
  have "repair_ok (snd (isolated_item q)) \<and> first_pass (\<lambda>rid. fetch st1 (repair_ref uid rid)) now q" if "q \<in> set rs" for q
  proof -
    have "fst (isolated_item q) \<noteq> fst ?row" using fresh that by (metis image_eqI)
    then have "fetch st1 (repair_ref uid (fst (isolated_item q))) = fetch st (repair_ref uid (fst (isolated_item q)))" using head(3) by blast
    then show ?thesis
      using Cons.prems(2) that first_pass_cong [of "\<lambda>rid. fetch st1 (repair_ref uid rid)" q "\<lambda>rid. fetch st (repair_ref uid rid)"] by simp
  qed
  with Cons.IH [of st1 failed1] Cons.prems(1) obtain failed' st' where
    IH: "mark_failures fetch commit calls uid policy now rs failed1 st1 = (Inr failed', st')"
      "length failed' = length failed1 + length (filter (\<lambda>r. outcome_kind (isolated_outcome r) \<noteq> ACK) rs)"
      "\<forall>rid. rid \<notin> fst ` isolated_item ` set rs \<longrightarrow> fetch st' (repair_ref uid rid) = fetch st1 (repair_ref uid rid)"
      "\<forall>r \<in> set rs. \<exists>d'. fetch st' (repair_ref uid (fst (isolated_item r))) = Some d' \<and> attempted attempts (snd (isolated_item r)) d'"
    by auto
  have "fetch st' (repair_ref uid (fst ?row)) = Some d'" using IH(3) fresh head(4) by simp
  with IH head show ?case by (intro exI [of _ failed'] exI [of _ st']) auto
qed simp

end

text \<open>
  What is relied on of a query by status: it gives stored documents with that status, each once.
\<close>

definition query_sound :: "('s \<Rightarrow> path \<Rightarrow> doc option) \<Rightarrow> string \<Rightarrow> 's repair_query \<Rightarrow> bool" where
  "query_sound fetch uid query \<longleftrightarrow> (\<forall>st status n. distinct (map fst (query st status n))
     \<and> (\<forall>r \<in> set (query st status n). fetch st (repair_ref uid (fst r)) = Some (snd r) \<and> dget (snd r) ''status'' = PStr status))"

lemma collect_status_sound:
  "distinct (map fst docs) \<Longrightarrow> distinct (map fst (collect_status n rows docs)) \<and> set (collect_status n rows docs) \<subseteq> set docs \<union> set rows"
  by (induction n rows docs rule: collect_status.induct) auto

lemma collect_repairs_sound:
  "distinct (map fst docs) \<Longrightarrow> distinct (map fst (collect_repairs n answers ss docs))
     \<and> set (collect_repairs n answers ss docs) \<subseteq> set docs \<union> (\<Union>s \<in> set ss. set (answers s))"
proof (induction n answers ss docs rule: collect_repairs.induct)
  case (2 n answers s ss docs)
  note one = collect_status_sound [OF "2.prems", of n "answers s"]
  with "2.IH" [OF refl] show ?case by (auto simp: Let_def)
qed simp

lemma selected_sound:
  assumes "query_sound fetch uid query"
  shows "distinct (map fst (selected_repairs query n st))"
    and "r \<in> set (selected_repairs query n st) \<Longrightarrow> fetch st (repair_ref uid (fst r)) = Some (snd r)
      \<and> dget (snd r) ''status'' \<in> PStr ` set PROCESSABLE_REPAIR_STATUSES"
proof -
  note sel = collect_repairs_sound [of "[]" n "\<lambda>status. query st status n" PROCESSABLE_REPAIR_STATUSES, folded selected_repairs_def]
  show "distinct (map fst (selected_repairs query n st))" using sel by simp
  assume "r \<in> set (selected_repairs query n st)"
  then obtain s where "s \<in> set PROCESSABLE_REPAIR_STATUSES" "r \<in> set (query st s n)" using sel by auto
  then show "fetch st (repair_ref uid (fst r)) = Some (snd r) \<and> dget (snd r) ''status'' \<in> PStr ` set PROCESSABLE_REPAIR_STATUSES"
    using assms by (auto simp: query_sound_def)
qed

definition repairs_ok :: "(path \<Rightarrow> doc option) \<Rightarrow> string \<Rightarrow> bool" where
  "repairs_ok rd uid \<longleftrightarrow> (\<forall>rid d. rd (repair_ref uid rid) = Some d \<longrightarrow> repair_ok d)"

text \<open>
  A run of the worker answers, accounts for every selected repair, takes one attempt on each of
  them and leaves every other repair alone.
\<close>

lemma process_effect:
  assumes "firestore fetch commit" "query_sound fetch uid query" "calls_spare fetch uid calls" "calls_faultless calls" "1 \<le> limit" "1 \<le> attempts"
    and "repairs_ok (fetch st) uid" "docs = selected_repairs query (nat limit) st"
  shows "\<exists>report st'. process_projection_repairs fetch commit query calls uid limit attempts now st = (Inr report, st')
    \<and> report_processed report = length docs
    \<and> (\<forall>rid. rid \<notin> fst ` set docs \<longrightarrow> fetch st' (repair_ref uid rid) = fetch st (repair_ref uid rid))
    \<and> (\<forall>r \<in> set docs. \<exists>d'. fetch st' (repair_ref uid (fst r)) = Some d' \<and> attempted attempts (snd r) d')"
proof -
  let ?policy = "default_policy\<lparr>max_attempts := attempts\<rparr>"
  have dist: "distinct (map fst docs)" and stored: "\<forall>r \<in> set docs. fetch st (repair_ref uid (fst r)) = Some (snd r)"
    using selected_sound(1) [OF assms(2)] selected_sound(2) [OF assms(2)] unfolding assms(8) by blast+
  obtain results st1 repaired where drain: "drain_isolated docs (process_one fetch commit calls uid now) (st, []) = (results, st1, repaired)"
    by (metis prod_cases3)
  have items: "map isolated_item results = docs" using drain_items [of docs "process_one fetch commit calls uid now" "(st, [])"] drain by simp
  note eff = firestore.drain_effect [OF assms(1,3,4) dist stored drain]
  have ok: "repair_ok (snd (isolated_item r))" if "r \<in> set results" for r
  proof -
    have "isolated_item r \<in> set docs" using that items by auto
    then show ?thesis using stored assms(7) by (auto simp: repairs_ok_def)
  qed
  have "distinct (map (fst \<circ> isolated_item) results)" using dist items by (metis map_map)
  moreover have "\<forall>r \<in> set results. repair_ok (snd (isolated_item r)) \<and> first_pass (\<lambda>rid. fetch st1 (repair_ref uid rid)) now r"
    using eff ok by blast
  ultimately obtain failed st2 where mark: "mark_failures fetch commit calls uid ?policy now results [] st1 = (Inr failed, st2)"
    "length failed = length (filter (\<lambda>r. outcome_kind (isolated_outcome r) \<noteq> ACK) results)"
    "\<forall>rid. rid \<notin> fst ` isolated_item ` set results \<longrightarrow> fetch st2 (repair_ref uid rid) = fetch st1 (repair_ref uid rid)"
    "\<forall>r \<in> set results. \<exists>d'. fetch st2 (repair_ref uid (fst (isolated_item r))) = Some d' \<and> attempted attempts (snd (isolated_item r)) d'"
    using firestore.mark_effect [OF assms(1,4), of attempts ?policy results st1 uid now "[]"] by auto
  have set_docs: "set docs = isolated_item ` set results" using items by auto
  have "length repaired + length failed = length results" using eff mark(2) sum_length_filter_compl [of "\<lambda>r. outcome_kind (isolated_outcome r) = ACK" results] by simp
  then have n: "length repaired + length failed = length docs" using items by auto
  have run: "process_projection_repairs fetch commit query calls uid limit attempts now st =
      (Inr \<lparr>report_repaired = repaired, report_failed = failed, report_processed = length repaired + length failed\<rparr>, st2)"
    using assms(5,6,8) drain mark(1) by (simp add: process_projection_repairs_def Let_def)
  show ?thesis
    unfolding run
    by (intro exI conjI, rule refl, simp add: n) (use eff mark(3,4) in \<open>auto simp: set_docs image_image\<close>)
qed

subsection \<open>The life of a repair\<close>

text \<open>A run of the worker, with its callbacks, its limit and its clock; it answers with the repairs it took on.\<close>

type_synonym 's worker_run = "'s repair_calls \<times> int \<times> int"

definition worker_step ::
  "('s \<Rightarrow> path \<Rightarrow> doc option) \<Rightarrow> ('s \<Rightarrow> write list \<Rightarrow> 's) \<Rightarrow> 's repair_query \<Rightarrow> string \<Rightarrow> int \<Rightarrow> 's worker_run \<Rightarrow> 's \<Rightarrow> string list \<times> 's" where
  "worker_step fetch commit query uid attempts run st =
     (let (calls, limit, now) = run in
      (map fst (selected_repairs query (nat limit) st), snd (process_projection_repairs fetch commit query calls uid limit attempts now st)))"

definition sound_run :: "('s \<Rightarrow> path \<Rightarrow> doc option) \<Rightarrow> string \<Rightarrow> 's worker_run \<Rightarrow> bool" where
  "sound_run fetch uid run \<longleftrightarrow> (case run of (calls, limit, now) \<Rightarrow> calls_spare fetch uid calls \<and> calls_faultless calls \<and> 1 \<le> limit)"

definition open_repair :: "doc \<Rightarrow> bool" where
  "open_repair d \<longleftrightarrow> dget d ''status'' \<in> PStr ` set PROCESSABLE_REPAIR_STATUSES"

lemma worker_step_effect:
  assumes "firestore fetch commit" "query_sound fetch uid query" "sound_run fetch uid run" "1 \<le> attempts" "repairs_ok (fetch st) uid"
    and "worker_step fetch commit query uid attempts run st = (ids, st')"
  shows "repairs_ok (fetch st') uid"
    and "fetch st (repair_ref uid rid) = Some d \<Longrightarrow> if rid \<in> set ids then open_repair d \<and> (\<exists>d'. fetch st' (repair_ref uid rid) = Some d' \<and> attempted attempts d d')
      else fetch st' (repair_ref uid rid) = Some d"
proof -
  obtain calls limit now where run: "run = (calls, limit, now)" by (cases run)
  let ?docs = "selected_repairs query (nat limit) st"
  have sound: "calls_spare fetch uid calls" "calls_faultless calls" "1 \<le> limit" using assms(3) by (simp_all add: sound_run_def run)
  have ids: "ids = map fst ?docs" and st': "st' = snd (process_projection_repairs fetch commit query calls uid limit attempts now st)"
    using assms(6) by (simp_all add: worker_step_def run)
  have eff: "\<forall>rid. rid \<notin> fst ` set ?docs \<longrightarrow> fetch st' (repair_ref uid rid) = fetch st (repair_ref uid rid)"
    "\<forall>r \<in> set ?docs. \<exists>d'. fetch st' (repair_ref uid (fst r)) = Some d' \<and> attempted attempts (snd r) d'"
    using process_effect [OF assms(1,2) sound assms(4,5) refl, of now] st' by auto
  have row: "fetch st (repair_ref uid (fst r)) = Some (snd r) \<and> open_repair (snd r)" if "r \<in> set ?docs" for r
    using selected_sound(2) [OF assms(2) that] by (simp add: open_repair_def)
  show "repairs_ok (fetch st') uid"
    unfolding repairs_ok_def
  proof (intro allI impI)
    fix rid d
    assume d: "fetch st' (repair_ref uid rid) = Some d"
    show "repair_ok d"
    proof (cases "rid \<in> fst ` set ?docs")
      case True
      with eff(2) d show ?thesis by (auto simp: attempted_def)
    next
      case False
      with eff(1) d have "fetch st (repair_ref uid rid) = Some d" by simp
      with assms(5) show ?thesis by (auto simp: repairs_ok_def)
    qed
  qed
  assume d: "fetch st (repair_ref uid rid) = Some d"
  show "if rid \<in> set ids then open_repair d \<and> (\<exists>d'. fetch st' (repair_ref uid rid) = Some d' \<and> attempted attempts d d')
      else fetch st' (repair_ref uid rid) = Some d"
  proof (cases "rid \<in> set ids")
    case True
    then obtain r where r: "r \<in> set ?docs" "rid = fst r" by (auto simp: ids)
    with row [OF r(1)] d have "d = snd r" "open_repair d" by auto
    with r eff(2) True show ?thesis by auto
  next
    case False
    with eff(1) d show ?thesis by (simp add: ids)
  qed
qed

definition times_taken :: "string \<Rightarrow> ('op \<times> string list) list \<Rightarrow> nat" where
  "times_taken rid answers = length (filter (\<lambda>(op, ids). rid \<in> set ids) answers)"

lemma times_taken_Cons: "times_taken rid ((op, ids) # answers) = of_bool (rid \<in> set ids) + times_taken rid answers"
  by (simp add: times_taken_def)

lemma settled_stays:
  assumes "firestore fetch commit" "query_sound fetch uid query" "1 \<le> attempts"
  shows "run_ops (worker_step fetch commit query uid attempts) runs st = (answers, st') \<Longrightarrow> \<forall>run \<in> set runs. sound_run fetch uid run \<Longrightarrow>
    repairs_ok (fetch st) uid \<Longrightarrow> fetch st (repair_ref uid rid) = Some d \<Longrightarrow> \<not> open_repair d \<Longrightarrow>
    fetch st' (repair_ref uid rid) = Some d \<and> times_taken rid answers = 0"
proof (induction runs arbitrary: st answers)
  case (Cons run runs)
  obtain ids st1 rest where e: "worker_step fetch commit query uid attempts run st = (ids, st1)"
    "run_ops (worker_step fetch commit query uid attempts) runs st1 = (rest, st')" "answers = (run, ids) # rest"
    using Cons.prems(1) by (rule run_ops_Cons)
  have run: "sound_run fetch uid run" using Cons.prems(2) by simp
  note eff = worker_step_effect [OF assms(1,2) run assms(3) Cons.prems(3) e(1)]
  have "rid \<notin> set ids" "fetch st1 (repair_ref uid rid) = Some d"
    using eff(2) [OF Cons.prems(4)] Cons.prems(5) by (auto split: if_split_asm)
  with Cons.IH [OF e(2) _ eff(1)] Cons.prems(2,5) show ?case by (simp add: e(3) times_taken_Cons)
qed (simp add: times_taken_def)

text \<open>How a repair that had \<open>d\<close> stands after \<open>k\<close> runs took it on.\<close>

definition repair_fate :: "int \<Rightarrow> doc \<Rightarrow> nat \<Rightarrow> doc \<Rightarrow> bool" where
  "repair_fate attempts d k d' \<longleftrightarrow> attempts_of d + int k \<le> attempts
     \<and> (dget d' ''status'' = PStr ''repaired''
        \<or> dget d' ''status'' = PStr ''dead_letter'' \<and> attempts_of d + int k = attempts
        \<or> open_repair d' \<and> attempts_of d' = attempts_of d + int k \<and> attempts_of d' < attempts)"

lemma repair_life:
  assumes "firestore fetch commit" "query_sound fetch uid query" "1 \<le> attempts"
  shows "run_ops (worker_step fetch commit query uid attempts) runs st = (answers, st') \<Longrightarrow> \<forall>run \<in> set runs. sound_run fetch uid run \<Longrightarrow>
    repairs_ok (fetch st) uid \<Longrightarrow> fetch st (repair_ref uid rid) = Some d \<Longrightarrow> open_repair d \<Longrightarrow> attempts_of d < attempts \<Longrightarrow>
    \<exists>d'. fetch st' (repair_ref uid rid) = Some d' \<and> repair_fate attempts d (times_taken rid answers) d'"
proof (induction runs arbitrary: st answers d)
  case Nil
  then show ?case by (simp add: repair_fate_def times_taken_def)
next
  case (Cons run runs)
  obtain ids st1 rest where e: "worker_step fetch commit query uid attempts run st = (ids, st1)"
    "run_ops (worker_step fetch commit query uid attempts) runs st1 = (rest, st')" "answers = (run, ids) # rest"
    using Cons.prems(1) by (rule run_ops_Cons)
  have run: "sound_run fetch uid run" and runs: "\<forall>run \<in> set runs. sound_run fetch uid run" using Cons.prems(2) by simp_all
  note eff = worker_step_effect [OF assms(1,2) run assms(3) Cons.prems(3) e(1)]
  show ?case
  proof (cases "rid \<in> set ids")
    case False
    with eff(2) [OF Cons.prems(4)] have "fetch st1 (repair_ref uid rid) = Some d" by simp
    from Cons.IH [OF e(2) runs eff(1) this Cons.prems(5,6)] False show ?thesis by (simp add: e(3) times_taken_Cons)
  next
    case True
    with eff(2) [OF Cons.prems(4)] obtain d1 where d1: "fetch st1 (repair_ref uid rid) = Some d1" "attempted attempts d d1" by auto
    show ?thesis
    proof (cases "open_repair d1")
      case True
      then have more: "attempts_of d1 = attempts_of d + 1" "attempts_of d1 < attempts"
        using d1(2) by (auto simp: attempted_def open_repair_def PROCESSABLE_REPAIR_STATUSES_def split: if_split_asm)
      from Cons.IH [OF e(2) runs eff(1) d1(1) True more(2)] \<open>rid \<in> set ids\<close> more(1)
      show ?thesis by (auto simp: e(3) times_taken_Cons repair_fate_def)
    next
      case False
      with settled_stays [OF assms e(2) runs eff(1) d1(1)] have "fetch st' (repair_ref uid rid) = Some d1" "times_taken rid rest = 0" by auto
      then show ?thesis using d1(2) False Cons.prems(6) True
        by (auto simp: e(3) times_taken_Cons repair_fate_def attempted_def open_repair_def PROCESSABLE_REPAIR_STATUSES_def split: if_split_asm)
    qed
  qed
qed

lemma runs_keep_ok:
  assumes "firestore fetch commit" "query_sound fetch uid query" "1 \<le> attempts" "repairs_ok (fetch st) uid" "\<forall>run \<in> set runs. sound_run fetch uid run"
  shows "repairs_ok (fetch (snd (run_ops (worker_step fetch commit query uid attempts) runs st))) uid"
  by (rule run_ops_invariant [where I = "\<lambda>s. repairs_ok (fetch s) uid" and P = "sound_run fetch uid", OF _ assms(4,5)])
    (metis worker_step_effect(1) [OF assms(1,2) _ assms(3)] prod.collapse)

text \<open>
  C21. A repair is settled within its budget, provided the worker's own status updates get
  through: over any sequence of its runs, whatever the callbacks do, it is taken on at most as
  often as attempts are left; it is dead-lettered only when they are used up, and while it is open
  its stored count is the number of runs that took it on. Once it is repaired or dead-lettered, no
  later run takes it on again and its document stays as it is.
\<close>

theorem repair_attempts_bounded:
  assumes "firestore fetch commit" "query_sound fetch uid query" "1 \<le> attempts" "repairs_ok (fetch st) uid"
    and "run_ops (worker_step fetch commit query uid attempts) runs st = (answers, st')" "\<forall>run \<in> set runs. sound_run fetch uid run"
    and "run_ops (worker_step fetch commit query uid attempts) later st' = (answers', st'')" "\<forall>run \<in> set later. sound_run fetch uid run"
    and "fetch st (repair_ref uid rid) = Some d" "open_repair d" "attempts_of d < attempts" "k = times_taken rid answers"
  shows "\<exists>d'. fetch st' (repair_ref uid rid) = Some d' \<and> attempts_of d + int k \<le> attempts
    \<and> (dget d' ''status'' = PStr ''repaired''
       \<or> dget d' ''status'' = PStr ''dead_letter'' \<and> attempts_of d + int k = attempts
       \<or> open_repair d' \<and> attempts_of d' = attempts_of d + int k \<and> attempts_of d' < attempts)
    \<and> (\<not> open_repair d' \<longrightarrow> fetch st'' (repair_ref uid rid) = Some d' \<and> times_taken rid answers' = 0)"
proof -
  obtain d' where d': "fetch st' (repair_ref uid rid) = Some d'" "repair_fate attempts d k d'"
    using repair_life [OF assms(1-3,5,6,4,9-11)] assms(12) by blast
  have "repairs_ok (fetch st') uid" using runs_keep_ok [OF assms(1-4,6)] assms(5) by simp
  from settled_stays [OF assms(1-3,7,8) this d'(1)] d' show ?thesis by (auto simp: repair_fate_def)
qed

text \<open>One queued repair, a query that finds it while it is open, and callbacks that always fail.\<close>

definition ex_repair_store :: mem_store where
  "ex_repair_store = [repair_ref ''u'' ''r'' \<mapsto> [''status'' \<mapsto> PStr ''queued'', ''fact_id'' \<mapsto> PStr ''f'']]"

definition ex_repair_query :: "mem_store repair_query" where
  "ex_repair_query st status n =
     (case mem_fetch st (repair_ref ''u'' ''r'') of
        None \<Rightarrow> []
      | Some d \<Rightarrow> if dget d ''status'' = PStr status then [(''r'', d)] else [])"

definition ex_repair_calls :: "mem_store repair_calls" where
  "ex_repair_calls = \<lparr>fact_loader = \<lambda>fact_id st. (Inl ''down'', st), repair_func = \<lambda>uid known st. (Inr PNone, st),
     ack_fault = \<lambda>rid. None, mark_fault = \<lambda>rid. None\<rparr>"

theorem repair_attempts_bounded_witness:
  "\<exists>answers st' d'. run_ops (worker_step mem_fetch mem_commit ex_repair_query ''u'' 2) [(ex_repair_calls, 1, 5), (ex_repair_calls, 1, 6)] ex_repair_store =
      (answers, st') \<and> mem_fetch st' (repair_ref ''u'' ''r'') = Some d' \<and> times_taken ''r'' answers \<le> 2"
proof -
  let ?runs = "[(ex_repair_calls, 1, 5), (ex_repair_calls, 1, 6)]"
  obtain answers st' where run: "run_ops (worker_step mem_fetch mem_commit ex_repair_query ''u'' 2) ?runs ex_repair_store = (answers, st')"
    by (metis surj_pair)
  have query: "query_sound mem_fetch ''u'' ex_repair_query" by (auto simp: query_sound_def ex_repair_query_def split: option.split_asm if_split_asm option.split)
  have calls: "\<forall>run \<in> set ?runs. sound_run mem_fetch ''u'' run"
    by (simp add: sound_run_def calls_spare_def calls_faultless_def ex_repair_calls_def load_and_repair_def)
  have stored: "mem_fetch ex_repair_store (repair_ref ''u'' ''r'') = Some [''status'' \<mapsto> PStr ''queued'', ''fact_id'' \<mapsto> PStr ''f'']"
    by (simp add: mem_fetch_def ex_repair_store_def)
  have ok: "repairs_ok (mem_fetch ex_repair_store) ''u''"
    by (auto simp: repairs_ok_def mem_fetch_def ex_repair_store_def repair_ok_def int_field_def attempts_of_def fint_def split: if_split_asm)
  from repair_attempts_bounded [where fetch = mem_fetch and commit = mem_commit and st = ex_repair_store and later = "[]" and answers' = "[]" and st'' = st',
      OF mem.firestore_axioms query _ ok run calls _ _ stored _ _ refl] run show ?thesis
    by (auto simp: open_repair_def PROCESSABLE_REPAIR_STATUSES_def dget_def attempts_of_def fint_def)
qed

text \<open>
  The isolation of the drain turns an exception of the processor into a rejection, and the write
  that acknowledges a repair is part of the processor: when that write fails, a repair that
  succeeded is dead-lettered at once, with all but one of its attempts unused.
\<close>

lemma ack_failure_dead_letters:
  assumes "firestore fetch commit" "query st ''queued'' 1 = [(rid, d)]" "fetch st (repair_ref uid rid) = Some d"
    and "load_and_repair calls uid (dget d ''fact_id'') st = (Inr action, st)" "ack_fault calls rid = Some exc" "mark_fault calls rid = None"
    and "repair_ok d" "attempts_of d = 0" "1 < attempts"
  shows "\<exists>report st' d'. process_projection_repairs fetch commit query calls uid 1 attempts now st = (Inr report, st')
    \<and> fetch st' (repair_ref uid rid) = Some d' \<and> dget d' ''status'' = PStr ''dead_letter'' \<and> attempts_of d' = 1"
proof -
  let ?policy = "default_policy\<lparr>max_attempts := attempts\<rparr>"
  have sel: "selected_repairs query (nat 1) st = [(rid, d)]"
    using assms(2) by (simp add: selected_repairs_def PROCESSABLE_REPAIR_STATUSES_def Let_def)
  have drain: "drain_isolated [(rid, d)] (process_one fetch commit calls uid now) (st, []) =
      ([isolate (rid, d) (Inl exc)], st, [])"
    by (simp add: process_one_def assms(4,5) update_document_def)
  obtain dec where dec: "decide_attempt 1 (reject exc ''processor_exception'') ?policy now = Inr dec" "decision_terminal dec" "decision_attempt_count dec = 1"
    using decide_attempt_total [of "reject exc ''processor_exception''" 1 ?policy now] by auto
  have n: "int_or d ''attempt_count'' 0 = Inr 0" using assms(7,8) by (simp add: repair_ok_def attempts_of_def)
  obtain st1 where st1: "update_document fetch commit None (repair_ref uid rid) (marked_fields dec now) st = (Inr (), st1)"
    "fetch st1 (repair_ref uid rid) = Some (upd_fields d (put_all (marked_fields dec now)))"
    using assms(3) by (rule firestore.update_document_ok [OF assms(1)]) (auto simp: marked_fields_def)
  have mark: "mark_failures fetch commit calls uid ?policy now [isolate (rid, d) (Inl exc)] [] st = (Inr [row_name (rid, d)], st1)"
    by (simp add: isolate_def n dec(1) assms(6) st1(1))
  have "process_projection_repairs fetch commit query calls uid 1 attempts now st =
      (Inr \<lparr>report_repaired = [], report_failed = [row_name (rid, d)], report_processed = 1\<rparr>, st1)"
    unfolding process_projection_repairs_def Let_def sel drain using assms(9) mark by simp
  then show ?thesis
    using st1(2) dec(2,3) by (simp add: marked_fields_def dget_def attempts_of_def fint_def)
qed

end
