(* ===== verification/Candidate_Outbox.thy ===== *)
theory Candidate_Outbox
  imports Legal_Holds Durable_Queue
begin

text \<open>
  \<^verbatim>\<open>database/candidate_integration_outbox.py\<close>: the outbox of integration side effects of accepted
  task suggestions, a client of the durable-queue policy with leases. A row is claimed under a
  lease token, its delivery is completed or fails under that token, a failed row is retried or
  dead-lettered, a dead letter can be redriven, and a row of another account generation is
  suppressed. The tokens, the validation of the control document (\<open>parse\<close>, which gives its account
  generation) and the clock are arguments.
\<close>

definition integration_outbox_ref :: "string \<Rightarrow> string \<Rightarrow> path" where
  "integration_outbox_ref uid candidate_id = [''users'', uid, ''candidate_integration_outbox'', candidate_id]"

definition task_control_ref :: "string \<Rightarrow> path" where
  "task_control_ref uid = [''users'', uid, ''task_intelligence_control'', ''state'']"

definition CANDIDATE_INTEGRATION_POLICY :: queue_policy where
  "CANDIDATE_INTEGRATION_POLICY = \<lparr>max_attempts = 5, base_backoff_seconds = 30, max_backoff_seconds = 1800\<rparr>"

subsection \<open>Operations\<close>

text \<open>The generation of the control document; a control that was never stored is the default one.\<close>

definition control_generation :: "(doc \<Rightarrow> int res) \<Rightarrow> string \<Rightarrow> (path \<Rightarrow> doc option) \<Rightarrow> int res" where
  "control_generation parse uid rd = (case rd (task_control_ref uid) of None \<Rightarrow> Inr 0 | Some d \<Rightarrow> parse d)"

definition wrong_generation :: "doc \<Rightarrow> int \<Rightarrow> bool" where
  "wrong_generation payload account_generation = (\<not> py_eq (dget payload ''account_generation'') (PInt account_generation))"

definition suppressed_row :: "int \<Rightarrow> (string \<times> fval) list" where
  "suppressed_row now = [(''status'', Put (PStr ''suppressed'')), (''resolution_reason'', Put (PStr ''account_generation_mismatch'')),
     (''updated_at'', Put (PTime now))]"

definition processing_row :: "int \<Rightarrow> string \<Rightarrow> int \<Rightarrow> (string \<times> fval) list" where
  "processing_row n token now = [(''status'', Put (PStr ''processing'')), (''attempt_count'', Put (PInt n)), (''lease_token'', Put (PStr token)),
     (''claimed_at'', Put (PTime now)), (''updated_at'', Put (PTime now))]"

definition lease_live :: "doc \<Rightarrow> int \<Rightarrow> int \<Rightarrow> bool" where
  "lease_live payload lease_seconds now =
     (dget payload ''status'' = PStr ''processing''
      \<and> (case dget payload ''claimed_at'' of PTime claimed_at \<Rightarrow> claimed_at + td_seconds lease_seconds > now | _ \<Rightarrow> False))"

definition claim_candidate_integration_dispatch_txn ::
  "(doc \<Rightarrow> int res) \<Rightarrow> string \<Rightarrow> string \<Rightarrow> int \<Rightarrow> int \<Rightarrow> int \<Rightarrow> string \<Rightarrow> (path \<Rightarrow> doc option) \<Rightarrow> (string option \<times> write list) res" where
  "claim_candidate_integration_dispatch_txn parse uid candidate_id account_generation lease_seconds now lease_token rd =
     (let outbox_ref = integration_outbox_ref uid candidate_id in
      case rd outbox_ref of
        None \<Rightarrow> Inr (None, [])
      | Some payload \<Rightarrow>
          res_bind (control_generation parse uid rd) (\<lambda>control.
          if wrong_generation payload account_generation \<or> control \<noteq> account_generation
          then Inr (None, [Update outbox_ref (suppressed_row now)])
          else res_bind (in_names [''completed'', ''suppressed'', ''dead_letter''] (dget payload ''status'')) (\<lambda>settled.
          if settled then Inr (None, [])
          else if lease_live payload lease_seconds now then Inr (None, [])
          else res_bind (py_int (case payload ''attempt_count'' of None \<Rightarrow> PInt 0 | Some v \<Rightarrow> v)) (\<lambda>n.
          Inr (Some lease_token, [Update outbox_ref (processing_row (n + 1) lease_token now)])))))"

definition completed_row :: "int \<Rightarrow> (string \<times> fval) list" where
  "completed_row now = [(''status'', Put (PStr ''completed'')), (''completed_at'', Put (PTime now)), (''lease_token'', Put PNone),
     (''updated_at'', Put (PTime now)), (''last_error_text'', Put PNone), (''dead_letter_reason'', Put PNone)]"

definition failed_row :: "attempt_decision \<Rightarrow> int \<Rightarrow> (string \<times> fval) list" where
  "failed_row decision now =
     [(''status'', Put (PStr (if decision_terminal decision then ''dead_letter'' else ''failed''))), (''completed_at'', Put PNone),
      (''lease_token'', Put PNone), (''updated_at'', Put (PTime now)), (''last_error_text'', Put (PStr (decision_error_text decision))),
      (''dead_letter_reason'', Put (if decision_terminal decision then PStr (decision_reason decision) else PNone))]
     @ (case decision_available_at decision of None \<Rightarrow> [] | Some t \<Rightarrow> [(''available_at'', Put (PTime t))])"

definition complete_candidate_integration_dispatch_txn ::
  "(doc \<Rightarrow> int res) \<Rightarrow> string \<Rightarrow> string \<Rightarrow> int \<Rightarrow> string \<Rightarrow> bool \<Rightarrow> int \<Rightarrow> string option \<Rightarrow> (path \<Rightarrow> doc option) \<Rightarrow> (bool \<times> write list) res" where
  "complete_candidate_integration_dispatch_txn parse uid candidate_id account_generation lease_token succeeded now error_text rd =
     (let outbox_ref = integration_outbox_ref uid candidate_id in
      case rd outbox_ref of
        None \<Rightarrow> Inr (False, [])
      | Some payload \<Rightarrow>
          res_bind (control_generation parse uid rd) (\<lambda>control.
          if wrong_generation payload account_generation \<or> control \<noteq> account_generation
          then Inr (False, [Update outbox_ref (suppressed_row now)])
          else if dget payload ''status'' \<noteq> PStr ''processing'' \<or> dget payload ''lease_token'' \<noteq> PStr lease_token then Inr (False, [])
          else if succeeded then Inr (True, [Update outbox_ref (completed_row now)])
          else res_bind (int_or payload ''attempt_count'' 0) (\<lambda>n.
               res_bind (decide_attempt (max n 1) (retry (text_or error_text ''integration_failed'') ''integration_failed'')
                           CANDIDATE_INTEGRATION_POLICY now) (\<lambda>decision.
               Inr (True, [Update outbox_ref (failed_row decision now)])))))"

definition redrive_candidate_integration_dead_letter_txn ::
  "string \<Rightarrow> string \<Rightarrow> int \<Rightarrow> int \<Rightarrow> (path \<Rightarrow> doc option) \<Rightarrow> (bool \<times> write list) res" where
  "redrive_candidate_integration_dead_letter_txn uid candidate_id account_generation now rd =
     (let outbox_ref = integration_outbox_ref uid candidate_id in
      case rd outbox_ref of
        None \<Rightarrow> Inr (False, [])
      | Some payload \<Rightarrow>
          if wrong_generation payload account_generation then Inr (False, [])
          else if dget payload ''status'' \<noteq> PStr ''dead_letter'' then Inr (False, [])
          else Inr (True, [Update outbox_ref (put_all (redrive_patch now))]))"

definition malformed_row :: "string \<Rightarrow> int \<Rightarrow> (string \<times> fval) list" where
  "malformed_row error_text now =
     [(''status'', Put (PStr ''dead_letter'')), (''lease_token'', Put PNone), (''updated_at'', Put (PTime now)),
      (''last_error_text'', Put (PStr (take 2000 error_text))), (''dead_letter_reason'', Put (PStr ''malformed''))]"

definition dead_letter_malformed_candidate_integration_txn ::
  "string \<Rightarrow> string \<Rightarrow> int \<Rightarrow> string \<Rightarrow> int \<Rightarrow> (path \<Rightarrow> doc option) \<Rightarrow> (bool \<times> write list) res" where
  "dead_letter_malformed_candidate_integration_txn uid candidate_id account_generation error_text now rd =
     (let outbox_ref = integration_outbox_ref uid candidate_id in
      case rd outbox_ref of
        None \<Rightarrow> Inr (False, [])
      | Some payload \<Rightarrow>
          if wrong_generation payload account_generation then Inr (False, [])
          else res_bind (in_names [''completed'', ''suppressed'', ''dead_letter''] (dget payload ''status'')) (\<lambda>settled.
          if settled then Inr (False, [])
          else Inr (True, [Update outbox_ref (malformed_row error_text now)])))"

text \<open>The ready rows of the answer of the query: those not held back until later.\<close>

definition list_candidate_integration_dispatches :: "doc list \<Rightarrow> int \<Rightarrow> doc list" where
  "list_candidate_integration_dispatches rows now =
     filter (\<lambda>row. \<not> (case dget row ''available_at'' of PTime t \<Rightarrow> t > now | _ \<Rightarrow> False)) rows"

definition claim_candidate_integration_dispatch where
  "claim_candidate_integration_dispatch fetch commit parse uid candidate_id account_generation lease_seconds now lease_token st =
     run_txn fetch commit (claim_candidate_integration_dispatch_txn parse uid candidate_id account_generation lease_seconds now lease_token) st"

definition complete_candidate_integration_dispatch where
  "complete_candidate_integration_dispatch fetch commit parse uid candidate_id account_generation lease_token succeeded now error_text st =
     run_txn fetch commit (complete_candidate_integration_dispatch_txn parse uid candidate_id account_generation lease_token succeeded now error_text) st"

definition redrive_candidate_integration_dead_letter where
  "redrive_candidate_integration_dead_letter fetch commit uid candidate_id account_generation now st =
     run_txn fetch commit (redrive_candidate_integration_dead_letter_txn uid candidate_id account_generation now) st"

definition dead_letter_malformed_candidate_integration where
  "dead_letter_malformed_candidate_integration fetch commit uid candidate_id account_generation error_text now st =
     run_txn fetch commit (dead_letter_malformed_candidate_integration_txn uid candidate_id account_generation error_text now) st"

subsection \<open>Runs\<close>

datatype outbox_call =
    Claim int int int string
  | Complete int string bool int "string option"
  | Redrive int int
  | Malformed int string int

definition answered :: "'a res \<times> 's \<Rightarrow> ('a \<Rightarrow> bool) \<Rightarrow> bool \<times> 's" where
  "answered r yes = (case fst r of Inl e \<Rightarrow> False | Inr x \<Rightarrow> yes x, snd r)"

text \<open>A call on one row, with whether it was answered positively.\<close>

fun outbox_exec where
  "outbox_exec fetch commit parse uid cid (Claim generation lease_seconds now token) st =
     answered (claim_candidate_integration_dispatch fetch commit parse uid cid generation lease_seconds now token st) (\<lambda>t. t \<noteq> None)"
| "outbox_exec fetch commit parse uid cid (Complete generation token succeeded now error_text) st =
     answered (complete_candidate_integration_dispatch fetch commit parse uid cid generation token succeeded now error_text st) (\<lambda>b. b)"
| "outbox_exec fetch commit parse uid cid (Redrive generation now) st =
     answered (redrive_candidate_integration_dead_letter fetch commit uid cid generation now st) (\<lambda>b. b)"
| "outbox_exec fetch commit parse uid cid (Malformed generation error_text now) st =
     answered (dead_letter_malformed_candidate_integration fetch commit uid cid generation error_text now st) (\<lambda>b. b)"

text \<open>
  What any call can do to the row: nothing, or one of the changes below. Everything about runs
  follows from this.
\<close>

inductive row_step :: "outbox_call \<Rightarrow> doc \<Rightarrow> bool \<Rightarrow> doc \<Rightarrow> bool" where
  idle: "row_step op d False d"
| suppress: "row_step op d False (upd_fields d (suppressed_row now))"
| claim: "\<not> lease_live d lease now \<Longrightarrow> dget d ''status'' \<notin> PStr ` {''completed'', ''suppressed'', ''dead_letter''} \<Longrightarrow>
    py_int (case d ''attempt_count'' of None \<Rightarrow> PInt 0 | Some v \<Rightarrow> v) = Inr n \<Longrightarrow>
    row_step (Claim g lease now token) d True (upd_fields d (processing_row (n + 1) token now))"
| complete: "dget d ''status'' = PStr ''processing'' \<Longrightarrow> dget d ''lease_token'' = PStr token \<Longrightarrow>
    row_step (Complete g token True now e) d True (upd_fields d (completed_row now))"
| fail: "dget d ''status'' = PStr ''processing'' \<Longrightarrow> dget d ''lease_token'' = PStr token \<Longrightarrow> int_or d ''attempt_count'' 0 = Inr n \<Longrightarrow>
    decision_terminal dec \<longleftrightarrow> 5 \<le> max n 1 \<Longrightarrow> row_step (Complete g token False now e) d True (upd_fields d (failed_row dec now))"
| redrive: "dget d ''status'' = PStr ''dead_letter'' \<Longrightarrow> row_step (Redrive g now) d True (upd_fields d (put_all (redrive_patch now)))"
| malformed: "dget d ''status'' \<notin> PStr ` {''completed'', ''suppressed'', ''dead_letter''} \<Longrightarrow>
    row_step (Malformed g e now) d True (upd_fields d (malformed_row e now))"

inductive_cases row_stepE: "row_step op d b d'"

lemma in_names_Inr: "in_names names v = Inr b \<Longrightarrow> b \<longleftrightarrow> v \<in> PStr ` set names"
  by (cases v) (auto simp: in_names_def)

context firestore
begin

lemma row_update:
  assumes "fetch st ref = Some d" "\<forall>k \<in> fst ` set fs. CHR ''.'' \<notin> set k"
  shows "fetch (commit st [Update ref fs]) ref = Some (upd_fields d fs)"
  using fetch_commit [of st "[Update ref fs]" ref] assms by simp

lemma row_idle: "fetch (commit st []) p = fetch st p"
  using fetch_commit [of st "[]"] by simp

lemma dotless [simp]:
  "\<forall>k \<in> fst ` set (suppressed_row now). CHR ''.'' \<notin> set k" "\<forall>k \<in> fst ` set (processing_row n token now). CHR ''.'' \<notin> set k"
  "\<forall>k \<in> fst ` set (completed_row now). CHR ''.'' \<notin> set k" "\<forall>k \<in> fst ` set (put_all (redrive_patch now)). CHR ''.'' \<notin> set k"
  "\<forall>k \<in> fst ` set (failed_row dec now). CHR ''.'' \<notin> set k" "\<forall>k \<in> fst ` set (malformed_row e now). CHR ''.'' \<notin> set k"
  by (auto simp: suppressed_row_def processing_row_def completed_row_def redrive_patch_def put_all_def failed_row_def malformed_row_def split: option.split)

lemma exec_row_step:
  assumes "fetch st (integration_outbox_ref uid cid) = Some d" "outbox_exec fetch commit parse uid cid op st = (b, st')"
  shows "\<exists>d'. fetch st' (integration_outbox_ref uid cid) = Some d' \<and> row_step op d b d'"
proof (cases op)
  case (Claim g lease now token)
  with assms show ?thesis
    by (auto simp: answered_def claim_candidate_integration_dispatch_def run_txn_def claim_candidate_integration_dispatch_txn_def Let_def
        row_idle row_update
        split: sum.split_asm if_split_asm dest!: in_names_Inr intro!: row_step.idle row_step.suppress row_step.claim)
next
  case (Complete g token succeeded now e)
  have "decision_terminal dec \<longleftrightarrow> 5 \<le> max n 1"
    if "decide_attempt (max n 1) (retry t r) CANDIDATE_INTEGRATION_POLICY now = Inr dec" for n t r dec
    using decide_attempt_total [of "retry t r" "max n 1" CANDIDATE_INTEGRATION_POLICY now] that by (simp add: CANDIDATE_INTEGRATION_POLICY_def)
  with Complete assms show ?thesis
    by (auto simp: answered_def complete_candidate_integration_dispatch_def run_txn_def complete_candidate_integration_dispatch_txn_def Let_def
        row_idle row_update split: sum.split_asm if_split_asm intro!: row_step.idle row_step.suppress row_step.complete row_step.fail) simp
next
  case (Redrive g now)
  with assms show ?thesis
    by (auto simp: answered_def redrive_candidate_integration_dead_letter_def run_txn_def redrive_candidate_integration_dead_letter_txn_def Let_def
        row_idle row_update split: if_split_asm intro!: row_step.idle row_step.redrive)
next
  case (Malformed g e now)
  with assms show ?thesis
    by (auto simp: answered_def dead_letter_malformed_candidate_integration_def run_txn_def dead_letter_malformed_candidate_integration_txn_def
        Let_def row_idle row_update split: sum.split_asm if_split_asm dest!: in_names_Inr intro!: row_step.malformed row_step.idle)
qed

lemma exec_no_row:
  assumes "fetch st (integration_outbox_ref uid cid) = None" "outbox_exec fetch commit parse uid cid op st = (b, st')"
  shows "\<not> b \<and> fetch st' (integration_outbox_ref uid cid) = None"
  using assms
  by (cases op) (auto simp: answered_def claim_candidate_integration_dispatch_def claim_candidate_integration_dispatch_txn_def
      complete_candidate_integration_dispatch_def complete_candidate_integration_dispatch_txn_def redrive_candidate_integration_dead_letter_def
      redrive_candidate_integration_dead_letter_txn_def dead_letter_malformed_candidate_integration_def
      dead_letter_malformed_candidate_integration_txn_def run_txn_def Let_def row_idle)

end

text \<open>The row is over: its delivery was acknowledged, or it belongs to another generation.\<close>

definition row_over :: "doc option \<Rightarrow> bool" where
  "row_over row = (case row of None \<Rightarrow> False | Some d \<Rightarrow> dget d ''status'' \<in> {PStr ''completed'', PStr ''suppressed''})"

fun acknowledges :: "outbox_call \<Rightarrow> bool" where
  "acknowledges (Complete generation token succeeded now error_text) = succeeded"
| "acknowledges _ = False"

lemma row_step_over: "row_step op d b d' \<Longrightarrow> row_over (Some d) \<Longrightarrow> row_over (Some d')"
  by (auto elim!: row_stepE simp: row_over_def suppressed_row_def dget_def)

lemma row_step_acknowledges: "row_step op d True d' \<Longrightarrow> acknowledges op \<Longrightarrow> \<not> row_over (Some d) \<and> row_over (Some d')"
  by (auto elim!: row_stepE simp: row_over_def completed_row_def dget_def)

sublocale firestore \<subseteq> outbox_once: once_only "outbox_exec fetch commit parse uid cid" "\<lambda>op. True" "\<lambda>st. True" acknowledges
    "\<lambda>st. row_over (fetch st (integration_outbox_ref uid cid))" for parse uid cid
proof
  fix st op
  obtain b st' where e: "outbox_exec fetch commit parse uid cid op st = (b, st')" by fastforce
  show "row_over (fetch (snd (outbox_exec fetch commit parse uid cid op st)) (integration_outbox_ref uid cid))"
    if "row_over (fetch st (integration_outbox_ref uid cid))"
    using that exec_row_step [OF _ e] row_step_over e by (cases "fetch st (integration_outbox_ref uid cid)") (fastforce simp: row_over_def)+
  show "\<not> row_over (fetch st (integration_outbox_ref uid cid)) \<and>
      row_over (fetch (snd (outbox_exec fetch commit parse uid cid op st)) (integration_outbox_ref uid cid))"
    if "acknowledges op" "fst (outbox_exec fetch commit parse uid cid op st)"
    using that e exec_no_row [OF _ e] exec_row_step [OF _ e] row_step_acknowledges
    by (cases "fetch st (integration_outbox_ref uid cid)") fastforce+
qed auto

context firestore
begin

lemma acknowledged_at_most_once:
  "run_ops (outbox_exec fetch commit parse uid cid) ops st = (answers, st') \<Longrightarrow> length (filter (\<lambda>(op, b). acknowledges op \<and> b) answers) \<le> 1"
  using outbox_once.at_most_once [of parse uid cid ops st answers st'] by (simp add: outbox_once.hits_def)

lemma acknowledged_over:
  "outbox_exec fetch commit parse uid cid op st = (True, st') \<Longrightarrow> acknowledges op \<Longrightarrow> row_over (fetch st' (integration_outbox_ref uid cid))"
  using outbox_once.hit_step [of op parse uid cid st] by simp

end

subsection \<open>Properties\<close>

lemma run_ops_later:
  "run_ops exec ops s = (pre @ (op, b) # post, s') \<Longrightarrow> \<exists>ops2 s1 s2. exec op s1 = (b, s2) \<and> run_ops exec ops2 s2 = (post, s')"
proof (induction pre arbitrary: ops s)
  case Nil
  then obtain o1 ops1 where ops: "ops = o1 # ops1" by (cases ops) auto
  with Nil show ?case by (auto simp: Let_def split: prod.split_asm)
next
  case (Cons a pre)
  then obtain o1 ops1 where ops: "ops = o1 # ops1" by (cases ops) auto
  from Cons.prems have run: "run_ops exec (o1 # ops1) s = (a # (pre @ (op, b) # post), s')" by (simp add: ops)
  then obtain s1 where "run_ops exec ops1 s1 = (pre @ (op, b) # post, s')" by (rule run_ops_Cons) auto
  then show ?case by (rule Cons.IH)
qed

lemma row_step_over_quiet: "row_step op d b d' \<Longrightarrow> row_over (Some d) \<Longrightarrow> \<not> b"
  by (auto elim!: row_stepE simp: row_over_def)

text \<open>
  C22. The delivery of an integration side effect is acknowledged at most once: over any history of
  claims, completions, redrives and malformed rows, from any number of workers, at most one
  completion is accepted as successful, and after it no call on the row is accepted at all.
\<close>

theorem outbox_acknowledged_once:
  assumes "firestore fetch commit" "run_ops (outbox_exec fetch commit parse uid cid) ops st = (pre @ (op, True) # post, st')" "acknowledges op"
  shows "length (filter (\<lambda>(op, b). acknowledges op \<and> b) (pre @ (op, True) # post)) = 1 \<and> (\<forall>(op', b') \<in> set post. \<not> b')"
proof
  let ?ref = "integration_outbox_ref uid cid"
  have "length (filter (\<lambda>(op, b). acknowledges op \<and> b) (pre @ (op, True) # post)) \<le> 1"
    by (rule firestore.acknowledged_at_most_once [OF assms(1,2)])
  moreover have "(op, True) \<in> set (filter (\<lambda>(op, b). acknowledges op \<and> b) (pre @ (op, True) # post))" using assms(3) by simp
  then have "0 < length (filter (\<lambda>(op, b). acknowledges op \<and> b) (pre @ (op, True) # post))" by (metis length_pos_if_in_set)
  ultimately show "length (filter (\<lambda>(op, b). acknowledges op \<and> b) (pre @ (op, True) # post)) = 1" by linarith
  obtain ops2 s1 s2 where s: "outbox_exec fetch commit parse uid cid op s1 = (True, s2)"
    "run_ops (outbox_exec fetch commit parse uid cid) ops2 s2 = (post, st')"
    using run_ops_later [OF assms(2)] by blast
  have over: "row_over (fetch s2 ?ref)"
    by (rule firestore.acknowledged_over [OF assms(1) s(1) assms(3)])
  have "row_over (fetch (snd (outbox_exec fetch commit parse uid cid op' s)) ?ref) \<and> \<not> fst (outbox_exec fetch commit parse uid cid op' s)"
    if over_s: "row_over (fetch s ?ref)" for op' s
  proof -
    obtain b s' where e: "outbox_exec fetch commit parse uid cid op' s = (b, s')" by fastforce
    obtain d where d: "fetch s ?ref = Some d" using over_s by (auto simp: row_over_def split: option.split_asm)
    obtain d' where d': "fetch s' ?ref = Some d'" "row_step op' d b d'" using firestore.exec_row_step [OF assms(1) d e] by blast
    have "row_over (Some d)" using over_s d by simp
    from row_step_over [OF d'(2) this] row_step_over_quiet [OF d'(2) this] show ?thesis by (simp add: e d'(1))
  qed
  then show "\<forall>(op', b') \<in> set post. \<not> b'"
    using run_ops_answers [where I = "\<lambda>s. row_over (fetch s ?ref)" and P = "\<lambda>op. True" and Q = "\<lambda>op b. \<not> b", OF _ s(2) over] by blast
qed

text \<open>A pending row that is claimed, delivered and claimed again.\<close>

definition ex_outbox :: mem_store where
  "ex_outbox = [integration_outbox_ref ''u'' ''c'' \<mapsto> [''status'' \<mapsto> PStr ''pending'', ''account_generation'' \<mapsto> PInt 0, ''attempt_count'' \<mapsto> PInt 0]]"

lemmas outbox_eval = answered_def run_txn_def claim_candidate_integration_dispatch_def claim_candidate_integration_dispatch_txn_def
  complete_candidate_integration_dispatch_def complete_candidate_integration_dispatch_txn_def control_generation_def task_control_ref_def
  integration_outbox_ref_def wrong_generation_def in_names_def lease_live_def processing_row_def completed_row_def dget_def Let_def
  mem_fetch_def mem_commit_def

theorem outbox_acknowledged_once_witness:
  "fst (run_ops (outbox_exec mem_fetch mem_commit (\<lambda>d. Inr 0) ''u'' ''c'')
      [Claim 0 300 5 ''t'', Complete 0 ''t'' True 6 None, Claim 0 300 900000000 ''s''] ex_outbox) =
    [(Claim 0 300 5 ''t'', True), (Complete 0 ''t'' True 6 None, True), (Claim 0 300 900000000 ''s'', False)]"
proof -
  let ?exec = "outbox_exec mem_fetch mem_commit (\<lambda>d. Inr 0) ''u'' ''c''"
  let ?ops = "[Claim 0 300 5 ''t'', Complete 0 ''t'' True 6 None, Claim 0 300 900000000 ''s'']"
  have "fst (?exec (Claim 0 300 5 ''t'') ex_outbox)" by (simp add: outbox_eval ex_outbox_def)
  moreover have "fst (?exec (Complete 0 ''t'' True 6 None) (snd (?exec (Claim 0 300 5 ''t'') ex_outbox)))"
    by (simp add: outbox_eval ex_outbox_def)
  ultimately obtain b st' where run: "run_ops ?exec ?ops ex_outbox =
      ([(Claim 0 300 5 ''t'', True)] @ (Complete 0 ''t'' True 6 None, True) # [(Claim 0 300 900000000 ''s'', b)], st')"
    by (simp add: Let_def case_prod_beta del: outbox_exec.simps)
  have "\<not> b" using outbox_acknowledged_once [OF mem.firestore_axioms run] by simp
  with run show ?thesis by (simp del: outbox_exec.simps)
qed

text \<open>A live lease keeps every other claim out, and a token that is not the current one completes nothing.\<close>

lemma outbox_lease_exclusive:
  assumes "firestore fetch commit" "fetch st (integration_outbox_ref uid cid) = Some d" "lease_live d lease now"
    and "outbox_exec fetch commit parse uid cid (Claim g lease now token) st = (b, st')"
  shows "\<not> b"
  using firestore.exec_row_step [OF assms(1,2,4)] assms(3) by (auto elim!: row_stepE)

lemma outbox_token_fenced:
  assumes "firestore fetch commit" "fetch st (integration_outbox_ref uid cid) = Some d" "dget d ''lease_token'' \<noteq> PStr token"
    and "outbox_exec fetch commit parse uid cid (Complete g token succeeded now e) st = (b, st')"
  shows "\<not> b"
  using firestore.exec_row_step [OF assms(1,2,4)] assms(3) by (auto elim!: row_stepE)

text \<open>
  The budget of attempts is only looked at when a failure is reported: a row whose workers never
  report back is claimed again after every lease, any number of times, and its count goes past
  the maximum without its ever being dead-lettered.
\<close>

definition abandoned_claims :: "int \<Rightarrow> int \<Rightarrow> int \<Rightarrow> nat \<Rightarrow> outbox_call list" where
  "abandoned_claims g lease start n = map (\<lambda>i. Claim g lease (start + int i * td_seconds lease) ''t'') [0..<n]"

definition claimed_row :: "doc option \<Rightarrow> int \<Rightarrow> int \<Rightarrow> int \<Rightarrow> bool" where
  "claimed_row row g n t \<longleftrightarrow> (\<exists>d. row = Some d \<and> dget d ''account_generation'' = PInt g \<and> dget d ''status'' = PStr ''processing''
     \<and> d ''attempt_count'' = Some (PInt n) \<and> dget d ''claimed_at'' = PTime t)"

lemma expired_claim_granted:
  assumes "firestore fetch commit" "fetch st (task_control_ref uid) = None" "claimed_row (fetch st (integration_outbox_ref uid cid)) 0 n t"
    and "t + td_seconds lease \<le> now" "outbox_exec fetch commit parse uid cid (Claim 0 lease now token) st = (b, st')"
  shows "b \<and> fetch st' (task_control_ref uid) = None \<and> claimed_row (fetch st' (integration_outbox_ref uid cid)) 0 (n + 1) now"
proof -
  let ?ref = "integration_outbox_ref uid cid"
  obtain d where d: "fetch st ?ref = Some d" "dget d ''account_generation'' = PInt 0" "dget d ''status'' = PStr ''processing''"
    "d ''attempt_count'' = Some (PInt n)" "dget d ''claimed_at'' = PTime t"
    using assms(3) by (auto simp: claimed_row_def)
  have run: "outbox_exec fetch commit parse uid cid (Claim 0 lease now token) st = (True, commit st [Update ?ref (processing_row (n + 1) token now)])"
    using d assms(2,4)
    by (simp add: answered_def claim_candidate_integration_dispatch_def run_txn_def claim_candidate_integration_dispatch_txn_def Let_def
        control_generation_def wrong_generation_def in_names_def lease_live_def)
  have ok: "writes_ok (fetch st) [Update ?ref (processing_row (n + 1) token now)]"
    using d(1) firestore.dotless(2) [OF assms(1)] by simp
  have "?ref \<noteq> task_control_ref uid" by (simp add: integration_outbox_ref_def task_control_ref_def)
  then show ?thesis
    using run assms(2,5) d(1,2) firestore.fetch_commit [OF assms(1) ok]
    by (auto simp: claimed_row_def processing_row_def dget_def)
qed

lemma crashed_attempts_unbounded:
  assumes "firestore fetch commit" "0 \<le> lease" "fetch st (task_control_ref uid) = None"
    and "claimed_row (fetch st (integration_outbox_ref uid cid)) 0 k (start - td_seconds lease)"
    and "run_ops (outbox_exec fetch commit parse uid cid) (abandoned_claims 0 lease start n) st = (answers, st')"
  shows "(\<forall>(op, b) \<in> set answers. b) \<and> claimed_row (fetch st' (integration_outbox_ref uid cid)) 0 (k + int n) (start + (int n - 1) * td_seconds lease)"
  using assms(3-)
proof (induction n arbitrary: st k start answers)
  case 0
  then show ?case by (simp add: abandoned_claims_def algebra_simps)
next
  case (Suc n)
  have claims: "abandoned_claims 0 lease start (Suc n) = Claim 0 lease start ''t'' # abandoned_claims 0 lease (start + td_seconds lease) n"
    by (simp add: abandoned_claims_def map_upt_Suc algebra_simps del: upt_Suc)
  obtain b st1 rest where e: "outbox_exec fetch commit parse uid cid (Claim 0 lease start ''t'') st = (b, st1)"
    "run_ops (outbox_exec fetch commit parse uid cid) (abandoned_claims 0 lease (start + td_seconds lease) n) st1 = (rest, st')"
    "answers = (Claim 0 lease start ''t'', b) # rest"
    using Suc.prems(3) unfolding claims by (rule run_ops_Cons)
  have step: "b" "fetch st1 (task_control_ref uid) = None" "claimed_row (fetch st1 (integration_outbox_ref uid cid)) 0 (k + 1) start"
    using expired_claim_granted [OF assms(1) Suc.prems(1,2) _ e(1)] by simp_all
  have "claimed_row (fetch st1 (integration_outbox_ref uid cid)) 0 (k + 1) (start + td_seconds lease - td_seconds lease)" using step(3) by simp
  from Suc.IH [OF step(2) this e(2)] step(1) show ?case by (simp add: e(3) algebra_simps)
qed

end
