(* ===== verification/Receipt_History.thy ===== *)
theory Receipt_History
  imports Meeting_Receipt
begin

text \<open>
  Histories of the receipt calls of \<open>Meeting_Receipt\<close>: a verdict that was recorded stands while
  the three functions are called on any conversations and jobs and others change the rest of the
  documents.
\<close>

subsection \<open>Later calls\<close>

text \<open>
  The fields of a receipt that make up the verdict; the markers only touch the others. A verdict
  stands while the conversation names the job and the job carries its fields.
\<close>

definition verdict_keys :: "string list" where
  "verdict_keys =
     [''meeting_receipt_schema_version'', ''meeting_treatment_eligible'', ''meeting_treatment_reason'',
      ''meeting_duration_s'', ''meeting_dedup_speech_s'', ''meeting_receipt_created_at'', ''meeting_receipt_reconcile_after_at'']"

definition measured_keys :: "string set" where
  "measured_keys = {''meeting_treatment_eligible'', ''meeting_treatment_reason'', ''meeting_duration_s'', ''meeting_dedup_speech_s''}"

definition full_verdict :: "(string \<Rightarrow> pyval option) \<Rightarrow> bool" where
  "full_verdict f \<longleftrightarrow> (\<exists>v. f ''meeting_receipt_schema_version'' = Some v \<and> py_eq v (PInt MEETING_RECEIPT_SCHEMA_VERSION))
     \<and> (\<forall>k \<in> measured_keys. f k \<noteq> None)"

definition verdict_stands :: "string \<Rightarrow> string \<Rightarrow> string \<Rightarrow> (string \<Rightarrow> pyval option) \<Rightarrow> (path \<Rightarrow> doc option) \<Rightarrow> bool" where
  "verdict_stands uid cid j f rd \<longleftrightarrow>
     (\<exists>c job. rd (conversation_ref uid cid) = Some c \<and> c ''finalization_job_id'' = Some (PStr j)
        \<and> rd (job_ref j) = Some job \<and> job ''uid'' = Some (PStr uid) \<and> job ''conversation_id'' = Some (PStr cid)
        \<and> (\<forall>k \<in> set verdict_keys. job k = f k))"

text \<open>Any calls of the three functions, on any conversations and jobs, and changes by others.\<close>

datatype 's receipt_op =
    Record string string "string option" bool string real real int
  | Mark_Intent string string int
  | Mark_Materialized string string string int
  | Other "'s \<Rightarrow> 's"

fun receipt_exec where
  "receipt_exec fetch commit ie (Record uid cid jid eligible reason duration speech now) st =
     snd (record_meeting_receipt fetch commit ie st uid cid jid eligible reason duration speech now)"
| "receipt_exec fetch commit ie (Mark_Intent job_id intent_id now) st =
     snd (mark_meeting_receipt_intent_persisted fetch commit st job_id intent_id now)"
| "receipt_exec fetch commit ie (Mark_Materialized uid cid intent_id now) st =
     snd (mark_meeting_receipt_materialized fetch commit st uid cid intent_id now)"
| "receipt_exec fetch commit ie (Other change) st = change st"

definition kept_fields :: "string set \<Rightarrow> doc option \<Rightarrow> doc option \<Rightarrow> bool" where
  "kept_fields ks old new \<longleftrightarrow> (\<forall>d. old = Some d \<longrightarrow> (\<exists>d'. new = Some d' \<and> (\<forall>k \<in> ks. d' k = d k)))"

text \<open>
  What is asked of them: a call for the same conversation does not name another job, and others
  leave the binding of the conversation and the identity and verdict of the job alone.
\<close>

definition job_keys :: "string set" where
  "job_keys = insert ''uid'' (insert ''conversation_id'' (set verdict_keys))"

fun receipt_op_ok :: "('s \<Rightarrow> path \<Rightarrow> doc option) \<Rightarrow> string \<Rightarrow> string \<Rightarrow> string \<Rightarrow> 's receipt_op \<Rightarrow> bool" where
  "receipt_op_ok fetch uid cid j (Record u c jid eligible reason duration speech now) \<longleftrightarrow>
     (u = uid \<and> c = cid \<longrightarrow> jid \<in> {None, Some [], Some j})"
| "receipt_op_ok fetch uid cid j (Other change) \<longleftrightarrow>
     (\<forall>s. kept_fields {''finalization_job_id''} (fetch s (conversation_ref uid cid)) (fetch (change s) (conversation_ref uid cid))
        \<and> kept_fields job_keys (fetch s (job_ref j)) (fetch (change s) (job_ref j)))"
| "receipt_op_ok fetch uid cid j op \<longleftrightarrow> True"

lemma receipt_paths [simp]: "job_ref i \<noteq> conversation_ref u c" "conversation_ref u c \<noteq> job_ref i"
  "job_ref i = job_ref i' \<longleftrightarrow> i = i'" "conversation_ref u c = conversation_ref u' c' \<longleftrightarrow> u = u' \<and> c = c'"
  by (simp_all add: job_ref_def conversation_ref_def)

lemma map_of_stored_receipt: "k \<in> set receipt_keys \<Longrightarrow> map_of (stored_receipt job) k = job k"
proof -
  assume k: "k \<in> set receipt_keys"
  have "map_of (map (\<lambda>k. (k, the (job k))) ks) k = (if k \<in> set ks then Some (the (job k)) else None)" for ks
    by (simp add: map_of_map_restrict restrict_map_def)
  with k show ?thesis by (auto simp: stored_receipt_def)
qed

lemma verdict_keys_receipt: "set verdict_keys \<subseteq> set receipt_keys"
  by (simp add: verdict_keys_def receipt_keys_def)

lemma settled_stands:
  assumes "receipt_settled uid cid j receipt rd"
  shows "verdict_stands uid cid j (map_of receipt) rd \<and> full_verdict (map_of receipt)"
proof -
  obtain c job us where h: "rd (conversation_ref uid cid) = Some c" "c ''finalization_job_id'' = Some (PStr j)" "rd (job_ref j) = Some job"
    "dget job ''uid'' = PStr uid" "dget job ''conversation_id'' = PStr cid"
    "py_eq (dget job ''meeting_receipt_schema_version'') (PInt MEETING_RECEIPT_SCHEMA_VERSION)"
    "stored_receipt job = receipt" "receipt_conversation_updates c j receipt = Inr us"
    using assms unfolding receipt_settled_def by blast
  have same: "map_of receipt k = job k" if "k \<in> set verdict_keys" for k
    using that verdict_keys_receipt h(7) map_of_stored_receipt by blast
  have "job ''uid'' = Some (PStr uid)" "job ''conversation_id'' = Some (PStr cid)"
    using h(4,5) by (auto simp: dget_def split: option.split_asm)
  moreover have "\<exists>v. job ''meeting_receipt_schema_version'' = Some v \<and> py_eq v (PInt MEETING_RECEIPT_SCHEMA_VERSION)"
    using h(6) by (auto simp: dget_def py_eq_def split: option.split_asm)
  moreover have "\<exists>v. receipt_get receipt k = Inr v" if "k \<in> measured_keys" for k
    using that h(8) unfolding measured_keys_def by (elim insertE) (auto simp: receipt_conversation_updates_def)
  then have "map_of receipt k \<noteq> None" if "k \<in> measured_keys" for k
    using that by (fastforce simp: receipt_get_def split: option.split_asm)
  moreover have "''meeting_receipt_schema_version'' \<in> set verdict_keys" by (simp add: verdict_keys_def)
  ultimately show ?thesis using h(1-3) same by (simp add: verdict_stands_def full_verdict_def)
qed

lemma verdict_again:
  assumes "verdict_stands uid cid j f rd" "full_verdict f" "j \<noteq> []" "jid \<in> {None, Some [], Some j}"
  shows "\<exists>r us. record_meeting_receipt_txn ie uid cid jid eligible reason duration speech now rd = Inr (r, [Update (conversation_ref uid cid) us])
    \<and> receipt_status r = ''recorded'' \<and> receipt_job_id r = Some j \<and> (\<forall>k \<in> set verdict_keys. map_of (receipt_fields r) k = f k)
    \<and> (\<forall>c. upd_fields c us ''finalization_job_id'' = Some (PStr j))"
proof -
  obtain c job where h: "rd (conversation_ref uid cid) = Some c" "c ''finalization_job_id'' = Some (PStr j)" "rd (job_ref j) = Some job"
    "job ''uid'' = Some (PStr uid)" "job ''conversation_id'' = Some (PStr cid)" "\<forall>k \<in> set verdict_keys. job k = f k"
    using assms(1) unfolding verdict_stands_def by blast
  have same: "map_of (stored_receipt job) k = f k" if "k \<in> set verdict_keys" for k
    using that verdict_keys_receipt h(6) map_of_stored_receipt by (metis subsetD)
  have "measured_keys \<subseteq> set verdict_keys" by (simp add: measured_keys_def verdict_keys_def)
  then have got: "receipt_get (stored_receipt job) k = Inr (the (f k))" if "k \<in> measured_keys" for k
    using that assms(2) same [of k] subsetD by (fastforce simp: full_verdict_def receipt_get_def)
  let ?us = "[(''finalization_job_id'', Put (PStr j)),
        (''meeting_treatment_eligible'', Put (PBool (truthy (the (f ''meeting_treatment_eligible''))))),
        (''meeting_treatment_reason'', Put (the (f ''meeting_treatment_reason''))),
        (''meeting_duration_s'', Put (the (f ''meeting_duration_s''))),
        (''meeting_dedup_speech_s'', Put (the (f ''meeting_dedup_speech_s'')))]"
  have "receipt_job_id_for ie uid cid jid c = Inr j"
    using assms(3,4) h(2) by (auto simp: receipt_job_id_for_def dget_def neq_Nil_conv)
  moreover have "py_eq (dget job ''meeting_receipt_schema_version'') (PInt MEETING_RECEIPT_SCHEMA_VERSION)"
    using assms(2) h(6) [rule_format, of "''meeting_receipt_schema_version''"] by (auto simp: full_verdict_def dget_def verdict_keys_def)
  moreover have "receipt_conversation_updates c j (stored_receipt job) = Inr ?us"
    using assms(3) h(2) got [unfolded measured_keys_def] by (simp add: receipt_conversation_updates_def dget_def)
  ultimately have "record_meeting_receipt_txn ie uid cid jid eligible reason duration speech now rd =
      Inr (\<lparr>receipt_status = ''recorded'', receipt_job_id = Some j, receipt_fields = stored_receipt job\<rparr>, [Update (conversation_ref uid cid) ?us])"
    using h(1,3-5) by (simp add: record_meeting_receipt_txn_def Let_def dget_def)
  then show ?thesis using same by simp
qed

lemma verdict_stands_kept:
  assumes "verdict_stands uid cid j f rd"
    and "kept_fields {''finalization_job_id''} (rd (conversation_ref uid cid)) (rd' (conversation_ref uid cid))"
    and "kept_fields job_keys (rd (job_ref j)) (rd' (job_ref j))"
  shows "verdict_stands uid cid j f rd'"
  using assms by (fastforce simp: verdict_stands_def kept_fields_def job_keys_def)

lemma kept_fields_same [simp]: "kept_fields ks old old"
  by (simp add: kept_fields_def)

lemma kept_fields_update: "ks \<inter> fst ` set fs = {} \<Longrightarrow> kept_fields ks old (wdoc (Update p fs) old)"
  by (cases old) (auto simp: kept_fields_def intro!: upd_fields_other)

context firestore
begin

lemma txn_after:
  assumes "\<And>r ws. body (fetch st) = Inr (r, ws) \<Longrightarrow> writes_ok (fetch st) ws"
  obtains "fetch (snd (run_txn fetch commit body st)) = fetch st"
  | r ws where "body (fetch st) = Inr (r, ws)" "fetch (snd (run_txn fetch commit body st)) = after_view ws (fetch st)"
proof (cases "body (fetch st)")
  case (Inr x)
  then have body: "body (fetch st) = Inr (fst x, snd x)" by simp
  from assms [OF this] have "fetch (commit st (snd x)) = after_view (snd x) (fetch st)" by (simp add: fun_eq_iff after_view_def fetch_commit)
  with body show thesis by (intro that(2) [OF body]) (auto simp: run_txn_def split: prod.split)
qed (use that(1) in \<open>simp add: run_txn_def\<close>)

text \<open>A call for another conversation does not reach the job: it belongs to this one.\<close>

lemma updates_plain:
  "receipt_conversation_updates c j receipt = Inr us \<Longrightarrow>
   (\<forall>k \<in> fst ` set us. CHR ''.'' \<notin> set k) \<and> upd_fields c' us ''finalization_job_id'' = Some (PStr j)"
  by (auto simp: receipt_conversation_updates_def Let_def split: if_split_asm)

lemma new_receipt_plain: "k \<in> fst ` set (map (\<lambda>(k, v). (k, Put v)) (new_receipt eligible reason duration speech now)) \<Longrightarrow> CHR ''.'' \<notin> set k"
  unfolding put_keys new_receipt_keys by (auto simp: receipt_keys_def)

lemma record_writes_ok:
  assumes "record_meeting_receipt_txn ie u c jid eligible reason duration speech now rd = Inr (r, ws)"
  shows "writes_ok rd ws"
proof (cases "receipt_status r = ''recorded''")
  case True
  from assms this show ?thesis
  proof (cases rule: record_receipt_cases)
    case (stored c' j' job' us)
    then show ?thesis using updates_plain [OF stored(6)] by simp
  next
    case (updated c' j' job' us)
    then show ?thesis using updates_plain [OF updated(5)] new_receipt_plain by simp
  next
    case (created c' j' revision us)
    then show ?thesis using updates_plain [OF created(2)] by simp
  qed
next
  case False
  then have "ws = []" using assms by (fastforce simp: record_meeting_receipt_txn_def Let_def split: option.split_asm if_split_asm)
  then show ?thesis by simp
qed

lemma record_writes:
  assumes "record_meeting_receipt_txn ie u c jid eligible reason duration speech now rd = Inr (r, ws)"
    and "verdict_stands uid cid j f rd" "full_verdict f" "j \<noteq> []" "u = uid \<and> c = cid \<longrightarrow> jid \<in> {None, Some [], Some j}"
  shows "writes_ok rd ws \<and> verdict_stands uid cid j f (after_view ws rd)"
proof (rule conjI [OF record_writes_ok [OF assms(1)]], cases "u = uid \<and> c = cid")
  case True
  with assms(5) have "jid \<in> {None, Some [], Some j}" by simp
  from verdict_again [OF assms(2-4) this, of ie eligible reason duration speech now] assms(1) True
  obtain us where us: "ws = [Update (conversation_ref uid cid) us]" "\<forall>c. upd_fields c us ''finalization_job_id'' = Some (PStr j)" by auto
  then show "verdict_stands uid cid j f (after_view ws rd)" using assms(2) by (auto simp: verdict_stands_def after_view_def)
next
  case False
  obtain cv job where st: "rd (conversation_ref uid cid) = Some cv" "rd (job_ref j) = Some job" "job ''uid'' = Some (PStr uid)"
    "job ''conversation_id'' = Some (PStr cid)" using assms(2) by (auto simp: verdict_stands_def)
  have keep: "verdict_stands uid cid j f (after_view ws rd)" if "job_ref j \<notin> wpath ` set ws" "conversation_ref uid cid \<notin> wpath ` set ws"
    using that by (intro verdict_stands_kept [OF assms(2)]) (simp_all add: after_view_def after_untouched)
  show "verdict_stands uid cid j f (after_view ws rd)"
  proof (cases "receipt_status r = ''recorded''")
    case recorded: True
    from assms(1) this show ?thesis
    proof (cases rule: record_receipt_cases)
      case (stored c' j' job' us)
      then show ?thesis using False keep by auto
    next
      case (updated c' j' job' us)
      have "j' \<noteq> j" using updated(2-4) st False by (auto simp: dget_def)
      then show ?thesis using False keep updated(8) by auto
    next
      case (created c' j' revision us)
      have "j' \<noteq> j" using created(6) st by auto
      then show ?thesis using False keep created(5) by auto
    qed
  next
    case unrecorded: False
    then have "ws = []" using assms(1) by (fastforce simp: record_meeting_receipt_txn_def Let_def split: option.split_asm if_split_asm)
    with assms(2) show ?thesis by simp
  qed
qed

text \<open>The markers write fields that are not part of the verdict.\<close>

lemma marks_plain:
  assumes "body (fetch st) = Inr (r, ws)" "\<forall>w \<in> set ws. \<exists>i fs. w = Update (job_ref i) fs \<and> fetch st (job_ref i) \<noteq> None
      \<and> (\<forall>k \<in> fst ` set fs. k \<notin> job_keys \<and> CHR ''.'' \<notin> set k)" "length ws \<le> 1"
    and "verdict_stands uid cid j f (fetch st)"
  shows "writes_ok (fetch st) ws \<and> verdict_stands uid cid j f (after_view ws (fetch st))"
proof (cases ws)
  case (Cons w rest)
  then have "rest = []" using assms(3) by simp
  with Cons assms(2) obtain i fs where w: "ws = [Update (job_ref i) fs]" "fetch st (job_ref i) \<noteq> None"
    "\<forall>k \<in> fst ` set fs. k \<notin> job_keys \<and> CHR ''.'' \<notin> set k" by auto
  then have "kept_fields job_keys (fetch st (job_ref j)) (after_view ws (fetch st) (job_ref j))"
    using kept_fields_update [of job_keys fs "fetch st (job_ref j)" "job_ref j"] by (auto simp: after_view_def)
  with w verdict_stands_kept [OF assms(4), of "after_view ws (fetch st)"] show ?thesis by (auto simp: after_view_def)
qed (use assms(4) in simp)

lemma receipt_op_stands:
  assumes "verdict_stands uid cid j f (fetch st)" "full_verdict f" "j \<noteq> []" "receipt_op_ok fetch uid cid j op"
  shows "verdict_stands uid cid j f (fetch (receipt_exec fetch commit ie op st))"
proof (cases op)
  case (Record u c jid eligible reason duration speech now)
  note w = record_writes [OF _ assms(1-3), of ie u c jid eligible reason duration speech now]
  have ok: "u = uid \<and> c = cid \<longrightarrow> jid \<in> {None, Some [], Some j}" using assms(4) by (simp add: Record)
  show ?thesis unfolding Record receipt_exec.simps record_meeting_receipt_def
    by (rule txn_after [of "record_meeting_receipt_txn ie u c jid eligible reason duration speech now" st]) (use w ok assms(1) in auto)
next
  case (Mark_Intent i intent now)
  let ?body = "mark_meeting_receipt_intent_persisted_txn i intent now"
  have w: "writes_ok (fetch st) ws \<and> verdict_stands uid cid j f (after_view ws (fetch st))" if "?body (fetch st) = Inr (r, ws)" for r ws
    by (rule marks_plain [of ?body, OF that _ _ assms(1)])
      (use that in \<open>auto simp: mark_meeting_receipt_intent_persisted_txn_def job_keys_def verdict_keys_def split: option.split_asm\<close>)
  show ?thesis unfolding Mark_Intent receipt_exec.simps mark_meeting_receipt_intent_persisted_def
    by (rule txn_after [of ?body st]) (use w assms(1) in auto)
next
  case (Mark_Materialized u c intent now)
  let ?body = "mark_meeting_receipt_materialized_txn u c intent now"
  have w: "writes_ok (fetch st) ws \<and> verdict_stands uid cid j f (after_view ws (fetch st))" if "?body (fetch st) = Inr (r, ws)" for r ws
    by (rule marks_plain [of ?body, OF that _ _ assms(1)])
      (use that in \<open>auto simp: mark_meeting_receipt_materialized_txn_def job_keys_def verdict_keys_def
        split: option.split_asm list.split_asm if_split_asm\<close>)
  show ?thesis unfolding Mark_Materialized receipt_exec.simps mark_meeting_receipt_materialized_def
    by (rule txn_after [of ?body st]) (use w assms(1) in auto)
next
  case (Other change)
  with assms(4) show ?thesis by (auto intro: verdict_stands_kept [OF assms(1)])
qed

lemma receipt_run_stands:
  "verdict_stands uid cid j f (fetch st) \<Longrightarrow> full_verdict f \<Longrightarrow> j \<noteq> [] \<Longrightarrow> \<forall>op \<in> set ops. receipt_op_ok fetch uid cid j op \<Longrightarrow>
   verdict_stands uid cid j f (fetch (foldl (\<lambda>st op. receipt_exec fetch commit ie op st) st ops))"
  by (induction ops arbitrary: st) (simp_all add: receipt_op_stands)

end

subsection \<open>Properties\<close>

text \<open>
  C40. The verdict on a meeting is recorded once. After a call has recorded it on a job, take any
  later calls of the three receipt functions, on any conversations and jobs, as long as those for
  this conversation name this job or none, and any changes by others that leave the conversation's
  binding and the job's identity and verdict alone. Then a further call for the conversation that
  names this job or none, whatever it measured, answers with the same job and the recorded
  verdict, and writes to the conversation only.
\<close>

theorem receipt_recorded_once:
  assumes "firestore fetch commit"
    and "record_meeting_receipt fetch commit ie st uid cid jid eligible reason duration speech now = (Inr r, st1)"
    and "receipt_status r = ''recorded''" "receipt_job_id r = Some j" "j \<noteq> []"
    and "\<forall>op \<in> set ops. receipt_op_ok fetch uid cid j op" "st2 = foldl (\<lambda>st op. receipt_exec fetch commit ie' op st) st1 ops"
    and "jid' \<in> {None, Some [], Some j}"
  shows "\<exists>r' us. record_meeting_receipt_txn ie' uid cid jid' eligible' reason' duration' speech' now' (fetch st2) =
        Inr (r', [Update (conversation_ref uid cid) us])
    \<and> receipt_status r' = ''recorded'' \<and> receipt_job_id r' = Some j
    \<and> (\<forall>k \<in> set verdict_keys. map_of (receipt_fields r') k = map_of (receipt_fields r) k)"
proof -
  obtain ws where ws: "record_meeting_receipt_txn ie uid cid jid eligible reason duration speech now (fetch st) = Inr (r, ws)" "st1 = commit st ws"
    using assms(2) by (auto simp: record_meeting_receipt_def run_txn_def split: sum.split_asm)
  have "fetch st1 = after_view ws (fetch st)"
    by (simp add: ws(2) fun_eq_iff after_view_def firestore.fetch_commit [OF assms(1) firestore.record_writes_ok [OF assms(1) ws(1)]])
  with recorded_settles [OF ws(1) assms(3-5)] settled_stands
  have v: "verdict_stands uid cid j (map_of (receipt_fields r)) (fetch st1)" "full_verdict (map_of (receipt_fields r))" by metis+
  have "verdict_stands uid cid j (map_of (receipt_fields r)) (fetch st2)"
    unfolding assms(7) by (rule firestore.receipt_run_stands [OF assms(1) v assms(5,6)])
  from verdict_again [OF this v(2) assms(5,8)] show ?thesis by blast
qed

text \<open>The examples run on a conversation that has no job yet.\<close>

definition ex_receipt_env :: intent_env where
  "ex_receipt_env = \<lparr>ie_env = (\<lambda>k. None), ie_transcripts = plain_transcripts, document_id_from_seed = (\<lambda>seed. ''J''),
     ie_sha256 = (\<lambda>s. [0, 0, 0, 3]), photos_exist = (\<lambda>p. False)\<rparr>"

theorem receipt_recorded_once_witness:
  "\<exists>st1 r us. record_meeting_receipt mem_fetch mem_commit ex_receipt_env [conversation_ref ''U'' ''C'' \<mapsto> [''status'' \<mapsto> PStr ''completed'']]
       ''U'' ''C'' (Some ''J'') True ''ok'' 60 50 1 =
       (Inr \<lparr>receipt_status = ''recorded'', receipt_job_id = Some ''J'', receipt_fields = new_receipt True ''ok'' 60 50 1\<rparr>, st1)
     \<and> record_meeting_receipt_txn ex_receipt_env ''U'' ''C'' None False ''short'' 1 0 2
         (mem_fetch (receipt_exec mem_fetch mem_commit ex_receipt_env (Mark_Intent ''J'' ''I'' 4) st1)) = Inr (r, us)
     \<and> map_of (receipt_fields r) ''meeting_treatment_reason'' = Some (PStr ''ok'')"
proof -
  let ?st = "[conversation_ref ''U'' ''C'' \<mapsto> [''status'' \<mapsto> PStr ''completed'']]"
  let ?receipt = "new_receipt True ''ok'' 60 50 1"
  let ?ops = "[Mark_Intent ''J'' ''I'' 4] :: mem_store receipt_op list"
  have "\<exists>st1. record_meeting_receipt mem_fetch mem_commit ex_receipt_env ?st ''U'' ''C'' (Some ''J'') True ''ok'' 60 50 1 =
       (Inr \<lparr>receipt_status = ''recorded'', receipt_job_id = Some ''J'', receipt_fields = ?receipt\<rparr>, st1)"
    by (simp add: record_meeting_receipt_def run_txn_def record_meeting_receipt_txn_def receipt_job_id_for_def Let_def dget_def py_eq_def
        int_or_def py_or_def receipt_conversation_updates_def receipt_get_def new_receipt_def mem_fetch_def)
  then obtain st1 where rec: "record_meeting_receipt mem_fetch mem_commit ex_receipt_env ?st ''U'' ''C'' (Some ''J'') True ''ok'' 60 50 1 =
       (Inr \<lparr>receipt_status = ''recorded'', receipt_job_id = Some ''J'', receipt_fields = ?receipt\<rparr>, st1)" by blast
  have "\<exists>r' us. record_meeting_receipt_txn ex_receipt_env ''U'' ''C'' None False ''short'' 1 0 2
        (mem_fetch (receipt_exec mem_fetch mem_commit ex_receipt_env (Mark_Intent ''J'' ''I'' 4) st1)) =
        Inr (r', [Update (conversation_ref ''U'' ''C'') us])
    \<and> receipt_status r' = ''recorded'' \<and> receipt_job_id r' = Some ''J''
    \<and> (\<forall>k \<in> set verdict_keys. map_of (receipt_fields r') k =
         map_of (receipt_fields \<lparr>receipt_status = ''recorded'', receipt_job_id = Some ''J'', receipt_fields = ?receipt\<rparr>) k)"
    by (rule receipt_recorded_once [where ops = ?ops, OF mem.firestore_axioms rec]) simp_all
  then obtain r us where r: "record_meeting_receipt_txn ex_receipt_env ''U'' ''C'' None False ''short'' 1 0 2
        (mem_fetch (receipt_exec mem_fetch mem_commit ex_receipt_env (Mark_Intent ''J'' ''I'' 4) st1)) = Inr (r, us)"
    "\<forall>k \<in> set verdict_keys. map_of (receipt_fields r) k = map_of ?receipt k" by auto
  from r(2) have "map_of (receipt_fields r) ''meeting_treatment_reason'' = Some (PStr ''ok'')" by (simp add: verdict_keys_def new_receipt_def)
  with r(1) rec show ?thesis by blast
qed

end
