(* ===== verification/Spec2Isabelle.thy ===== *)
theory Spec2Isabelle
  imports Finalization_Calls Finalization_Service Sync_Task Sync_Segments Sync_Lanes Memory_Purge Repair_Worker Candidate_Outbox
    Receipt_History
begin

text \<open>
  The conversation life cycle, the ingestion of recordings and the memory ledger of the Remi
  backend.

  \<^bold>\<open>The program.\<close> The backend records conversations, and when a recording ends it processes
  each conversation once and hands the result to external integrations. A crash can strike at
  any point and several instances work on one document database, so the durable state is
  guarded by transactions: a finalization job per conversation and generation (an outbox row),
  leases with epochs on the job, a fanout marker that records the delivery, counters that
  project the jobs into shards, sweeps that recover what a crash left behind, and
  compare-and-swap updates of the conversation's status. Recordings made offline are uploaded
  later; each upload becomes a short-lived job in a key-value service, is run by one worker at a
  time under a lock with epochs, and has a durable entry in a ledger that makes the work on one
  content happen once across jobs, retries and re-uploads. What the system remembers of a user is
  a ledger of commits, a chain with one head: facts are added, superseded, retracted and lose
  evidence by appending mutations, a replay gives the facts of a moment, and repairs of the search
  projection are queued per commit. Erasure works against all of this: legal holds and a gate
  decide whether an irreversible operation may run, the gate keeps writers out while it runs,
  tombstones keep erased memories out of new commits while they stand, and purges remove what still
  mentions them. The parts and their theories:

  \<^item> Foundations. \<open>Remi_Prelude\<close> (errors, results, text, lemma collections), \<open>Py_Value\<close> (dynamic
    values, truth, \<open>int()\<close>, \<open>str()\<close>, the reading of document fields with defaults), \<open>Firestore\<close>
    (write sets, their documented effect, transactions). A transaction body is a function from
    the snapshot to an error or a result with its writes; \<open>run_txn\<close> commits them.
  \<^item> \<^verbatim>\<open>database/firestore_transaction_retry.py\<close>: \<open>Txn_Retry\<close>. Exceptions are nodes of a heap with
    cause and context links, so that cyclic chains are expressible.
  \<^item> \<^verbatim>\<open>database/conversation_finalization_jobs.py\<close>: \<open>Finalization_Job\<close> (the transactions on a
    job), \<open>Finalization_Intent\<close> (admission: creation of the job together with the life-cycle
    fields), \<open>Meeting_Receipt\<close> with \<open>Receipt_History\<close> (histories of its calls), \<open>Paged_Sweep\<close> and \<open>Finalization_Sweep\<close> (the three sweeps, their
    cursors, the summary), \<open>Orphan_Recovery\<close> (recovery of conversations without a job).
  \<^item> \<^verbatim>\<open>database/conversations.py\<close>, life-cycle part: \<open>Projection_Binding\<close> (client projections bound
    to the transcript) and \<open>Conversation_Status\<close> (status changes, discard and restore, the merge
    of a processing result).
  \<^item> \<^verbatim>\<open>database/recording_sessions.py\<close>: \<open>Recording_Session\<close>.
  \<^item> \<^verbatim>\<open>utils/conversations/processing_trigger.py\<close> and \<^verbatim>\<open>finalization_decision.py\<close>:
    \<open>Processing_Trigger\<close> and \<open>Finalization_Decision\<close>.
  \<^item> \<^verbatim>\<open>utils/conversations/lifecycle.py\<close>: \<open>Lifecycle\<close> (the transitions, creation, the admission
    lease, recording sessions) and \<open>Finalization_Request\<close> (requests, routes, status report).
  \<^item> \<^verbatim>\<open>services/conversation_finalization.py\<close>: \<open>Finalization_Service\<close> (the reconcilers).
  \<^item> \<^verbatim>\<open>database/sync_ledger.py\<close>: \<open>Sync_Ledger\<close>; \<^verbatim>\<open>database/sync_jobs.py\<close>: \<open>Sync_Job\<close> over
    \<open>Redis_Store\<close> (the key-value service), with \<open>Sync_Clients\<close> for histories of all clients.
  \<^item> \<^verbatim>\<open>utils/sync/pipeline.py\<close>: \<open>Sync_Run\<close> (how a worker reports on both stores), \<open>Sync_Segments\<close>
    (voice activity and the turnstile; also \<^verbatim>\<open>utils/sync/merge_dedupe.py\<close> and the merge of a
    batch into its recording from \<^verbatim>\<open>utils/sync/assignment.py\<close>).
  \<^item> \<^verbatim>\<open>routers/sync.py\<close>: \<open>Sync_Poll\<close> (the status poll) and \<open>Sync_Task\<close> (the handler of a queued
    job). \<^verbatim>\<open>utils/sync/lanes.py\<close>: \<open>Sync_Lanes\<close>.
  \<^item> \<^verbatim>\<open>database/legal_holds.py\<close> and \<^verbatim>\<open>database/account_deletion_policy.py\<close>: \<open>Legal_Holds\<close> (holds, the gate of
    destructive operations, the checks inside transactions).
  \<^item> \<^verbatim>\<open>database/memory_ledger.py\<close>: \<open>Memory_Ledger\<close> (commits, the append transactions, fences, the
    head document with the trusted fields of \<^verbatim>\<open>models/memory_state_head.py\<close>), \<open>Memory_Fold\<close> (mutations,
    replay, diffs), \<open>Memory_Purge\<close> (privacy purges and the final removal), \<open>Memory_Repair\<close> (the
    public appends, with the queueing of \<^verbatim>\<open>database/projection_repair.py\<close>); \<open>Memory_Confidence\<close> has the
    confidence and the evidence of \<^verbatim>\<open>models/memories.py\<close> and \<^verbatim>\<open>config/memory_confidence.py\<close> that a replay uses.
  \<^item> \<^verbatim>\<open>utils/durable_queue_policy.py\<close>: \<open>Durable_Queue\<close>; the worker of \<^verbatim>\<open>database/projection_repair.py\<close>
    and the reconciliation of the index: \<open>Repair_Worker\<close>; the outbox of integration side effects,
    \<^verbatim>\<open>database/candidate_integration_outbox.py\<close>: \<open>Candidate_Outbox\<close>.

  Definitions keep the names of the source; \<open>f_txn\<close> or \<open>f_transaction\<close> is the transaction body of \<open>f\<close>, and fields
  of a document are reached under the keys the source uses. Times of documents are microseconds,
  those of sync jobs seconds as reals.

  \<^bold>\<open>The abstract life cycle.\<close> \<open>Finalization_Machine\<close> gives the machine of a job (\<open>ajob_step\<close>) and
  the abstraction of a document (\<open>abs_job\<close>). \<open>Job_Moves\<close> and \<open>Job_Effects\<close> show for each
  transaction which abstract step it takes, \<open>Job_Census\<close> that its counter writes match that
  step, and \<open>Finalization_System\<close> composes all calls, in any order and from any number of
  workers, into a step relation on the store (\<open>sys_step\<close>), with other code free to write any
  other document. \<open>Lease_Fencing\<close> proves once for every call that takes a lease what a stale
  lease can do, and \<open>Finalization_Calls\<close> and \<open>Admission\<close> lift the results to the public calls.

  \<^bold>\<open>Interfaces.\<close> The database service is not part of the repository. Its documented
  behaviour is the locale \<open>firestore\<close>: a commit of an acceptable write set has the documented
  effect on each document and touches no other. Properties of runs take it as their
  hypothesis, and the in-memory store shows that it can hold; the model's transactions are
  the clients. \<open>lease_op\<close> is the contract of a call under a lease (six interpretations),
  \<open>cas_cursor\<close> that of a sweep cursor (three), \<open>doc_cas\<close> that of a compare-and-swap on one
  document (six). The key-value service is the locale \<open>redis\<close>: scripts run atomically with the
  documented effect of their commands; what other clients do between two calls of one function
  is an argument, as is which calls get through. \<open>ledger_write\<close> is the contract of a write of
  the ledger's owner (five), \<open>once_only\<close> that of a marker that lets one kind of call succeed once
  (three), \<open>reply_promise\<close> that of a promise about the replies of the task handler (two),
  \<open>fenced_writer\<close> that of a transaction that asks for the gate of the account before it writes (the
  two appends). Hash functions, among them the digest that names a commit, the decoding of
  transcripts, document ids, the task queue and the encoder of a conversation are arguments
  (\<open>intent_env\<close>, \<open>transcript_env\<close>, \<open>request_env\<close>), as are projection writers, the callbacks of the
  repair worker, the answers of queries, the clock and the random delays.

  \<^bold>\<open>What is shown.\<close> Over all runs: the job invariant, the refinement of the machine, fencing of
  superseded leases, finality of finished jobs, exactness of the counters and of the summary
  (below); no grant of a delivered fanout, no lease without the user keys a job needs,
  exclusiveness of live leases, and that an unfinished job whose lease has lapsed and whose
  conversation admits the fanout can be completed (\<open>Finalization_Calls\<close>); idempotent
  and atomic admission (\<open>Admission\<close>). Per component: the reducer emits one key and absorbs in
  terminal states; the retry ends within its budget and recognises contention exactly; sweeps
  are sound, rotate over a collection at rest, and their cursors have one winner; recovery calls act at
  most once; session envelopes are ordered; deletions and merges respect the user's data; the
  delays read from the environment are bounded; the reconcilers account for each candidate.
  For recordings: a ledger entry that is completed is final and valid, side effects are granted
  once, lock epochs grow and the lock has one holder, updates with their retries refine atomic
  actions that never overwrite a finished job, only the lock's holder publishes, a later run
  shuts out an earlier one on both stores, completed work converges instead of failing, a task
  that is delivered again keeps its audio, a reported failure is recoverable; speech is cut without
  loss, in order, on the right lane, and merging a batch again keeps what the first merge stored; a
  meeting verdict is recorded once.
  For memory: a live gate excludes rivals, holds and fenced writers, a hold bars deletion; the
  applied appends form one line whatever other writers do to the commits, an append refines the in-memory reference, is idempotent, is not
  applied when it carries a tombstoned memory and writes nothing while a deletion owns the gate; a replay
  follows the chain when the commit times do, and a diff returns what lies between; the paged
  purge equals its specification without pages; an applied append has queued its repairs, and a
  repair is settled within its budget if the status updates get through; an integration side effect is acknowledged at most once.
  Further theorems show where the code departs from its own description: the partial last page of
  a sweep, the admission of a merging conversation, the fanout of an abandoned job, the
  transition of a discarded conversation, the rollback of a newer generation, the failing of a
  stale job by a mere read, the tolerance for fast clocks, a cap that is not positive, an
  invalidation dated before its fact, a retraction that a later end of validity overrides, a hold
  placed on a stale gate, a fence that looks at less than the purge, repairs lost between the
  append and their queueing, a head pointer that the canonical apply stream erases, a retried batch whose
  repeated lines are added after all, a repair dead-lettered because its acknowledgement failed, and an
  outbox row whose crashed attempts are never counted against its budget.

  \<^bold>\<open>Bounds and termination.\<close> No fuel is used. The retry loop decreases the attempts left, a
  sweep the rows it may still scan, the walk over causes the nodes not yet seen, the updates of
  a job the three tries they have. The cutting of a voice segment is a partial function, shown
  to return for every positive cap; so is the walk of a diff, shown to return on every ledger. A
  paged purge decreases the documents after its cursor.

  \<^bold>\<open>Not modelled.\<close> Metrics, logs and search indexing, which fail open; the streaming and
  request handlers except the two above; the processing pipeline and the sync coordinator, which
  call speech recognition and language models; the search for the conversation a batch is assigned to and the speakers in it;
  queries of \<^verbatim>\<open>conversations.py\<close> that do not concern the life cycle; of the memory system what lies
  beyond the ledger (the canonical apply stream but for the head document it writes, sweeps, consolidation and promotion, which
  language models drive over a store of their own); the other workers of durable queues and the
  resolution of task suggestions; payments, and the clients. Calls of the repair
  worker and of the purges run one after the other. Stored values are ASCII text, unbounded integers, reals, instants,
  lists and maps; a float is a real, so infinities and rounding are outside the model.
\<close>

section \<open>Properties of whole runs\<close>

text \<open>
  C1. In every state a run can reach, by any interleaving of the calls of the component, every
  stored job is well typed and satisfies the job invariant: an outcome is recorded exactly when
  the job is finished and agrees with its status and its fanout, a blocked job needs user keys,
  and the job is due for reconciliation exactly when it is unfinished and needs no user keys.
\<close>

theorem reachable_jobs_invariant:
  assumes "firestore fetch commit" "sys_reach fetch commit ie (C, st)" "fetch st (job_ref j) = Some d"
  shows "wf_job d \<and> ajob_inv (abs_job d)"
  using firestore.sys_reach_inv [OF assms(1,2)] assms(3) by (simp add: sys_ok_def jobs_ok_def)

theorem reachable_jobs_invariant_witness:
  "wf_job (upd_fields Map.empty (ex_new_job False)) \<and> ajob_inv (abs_job (upd_fields Map.empty (ex_new_job False)))"
  by (rule reachable_jobs_invariant [OF mem.firestore_axioms, OF ex_created_reach ex_created_reads(1)])

text \<open>
  C2. Every step of the system refines the abstract life cycle of a job: each job document is
  kept, keeps its identity, and either stays in its abstract state or takes one step of the job
  machine; a document that appears is a job in an initial state.
\<close>

theorem steps_refine_job_machine:
  assumes "firestore fetch commit" "sys_reach fetch commit ie x" "sys_step fetch commit ie x y"
  shows "job_evolves (fetch (snd x) (job_ref i)) (fetch (snd y) (job_ref i))"
  using firestore.sys_step_evolves [OF assms(1) _ assms(3)] firestore.sys_reach_inv [OF assms(1,2)] by blast

theorem steps_refine_job_machine_witness:
  "job_evolves (mem_fetch (ex_created False) (job_ref ''J'')) (mem_fetch ex_leased (job_ref ''J''))"
  using steps_refine_job_machine [OF mem.firestore_axioms ex_created_reach ex_claim_step] by simp

text \<open>
  C3. A worker whose lease was superseded can do no harm: once the job has moved to a later
  generation or epoch, or has ended, no call made under the old lease changes any document,
  in this or in any later state of the run.
\<close>

theorem superseded_lease_is_fenced:
  assumes "firestore fetch commit" "sys_reach fetch commit ie x" "fetch (snd x) (job_ref j) = Some d" "superseded d g e"
    and "(sys_step fetch commit ie)\<^sup>*\<^sup>* x y" "lease_call j g e op"
  shows "fetch (fin_exec fetch commit ie op (snd y)) = fetch (snd y)"
  using lease_call_superseded [OF assms(1) _ assms(3-6)] firestore.sys_reach_inv [OF assms(1,2)] by blast

theorem superseded_lease_is_fenced_witness:
  "mem_fetch (fin_exec mem_fetch mem_commit ex_env (Op_Complete ''J'' 1 0 8) ex_leased) = mem_fetch ex_leased"
  using superseded_lease_is_fenced [OF mem.firestore_axioms ex_leased_reach, of "''J''" ex_leased_job 1 0
      "({}, ex_leased)" "Op_Complete ''J'' 1 0 8"]
  by (simp add: ex_leased_reads superseded_def ex_leased_abs ajob_init_def)

text \<open>
  C4. A finished job is final: whatever the system does afterwards, its status, outcome,
  generation, epoch and fanout stay as they are.
\<close>

theorem finished_job_is_final:
  assumes "firestore fetch commit" "sys_reach fetch commit ie x" "fetch (snd x) (job_ref j) = Some d"
    and "a_status (abs_job d) \<in> {Completed, Dead_Letter}" "(sys_step fetch commit ie)\<^sup>*\<^sup>* x y"
  shows "\<exists>d'. fetch (snd y) (job_ref j) = Some d' \<and> abs_job d' = abs_job d \<and> same_identity d d'"
proof -
  have "sys_ok fetch x" using firestore.sys_reach_inv [OF assms(1,2)] by simp
  from firestore.sys_steps_job [OF assms(1,5) this assms(3)] ajob_run_terminal [OF _ assms(4)] show ?thesis by blast
qed

text \<open>The delivered job, completed.\<close>

definition ex_finished :: mem_store where
  "ex_finished = fin_exec mem_fetch mem_commit ex_env (Op_Complete ''J'' 1 1 8) ex_delivered"

theorem finished_job_is_final_witness:
  "\<exists>d d'. mem_fetch ex_finished (job_ref ''J'') = Some d \<and> a_status (abs_job d) = Completed
    \<and> mem_fetch (fin_exec mem_fetch mem_commit ex_env (Op_Dead ''J'' 1 1 5 9) ex_finished) (job_ref ''J'') = Some d'
    \<and> abs_job d' = abs_job d"
proof -
  have "sys_ok mem_fetch ({}, ex_delivered)" using firestore.sys_reach_inv [OF mem.firestore_axioms ex_delivered_reach] by simp
  then obtain d where d: "mem_fetch ex_finished (job_ref ''J'') = Some d" "a_status (abs_job d) = Completed"
    using ex_delivered_job complete_call [OF mem.firestore_axioms, of "{}" ex_delivered "''J''" _ 1 1 ex_env 8]
    unfolding ex_finished_def by blast
  have r: "sys_reach mem_fetch mem_commit ex_env ({}, ex_finished)"
    unfolding ex_finished_def by (rule sys_reach.step [OF ex_delivered_reach sys_step.call]) simp
  have "(sys_step mem_fetch mem_commit ex_env)\<^sup>*\<^sup>* ({}, ex_finished)
      ({}, fin_exec mem_fetch mem_commit ex_env (Op_Dead ''J'' 1 1 5 9) ex_finished)"
    by (rule r_into_rtranclp, rule sys_step.call) simp
  from finished_job_is_final [OF mem.firestore_axioms r _ _ this, of "''J''" d] d show ?thesis by auto
qed

text \<open>
  C5. The projection counters are exact in every reachable state: each counter of each shard
  is the number of jobs of the shard that it is meant to count.
\<close>

theorem projection_counters_exact:
  assumes "firestore fetch commit" "sys_reach fetch commit ie (C, st)"
  shows "shard_count (fetch st (shard_path k)) c = int (card {j. \<exists>d. fetch st (job_ref j) = Some d
    \<and> projection_ref_for_job d = Some (shard_path k) \<and> counted c (abs_job d)})"
proof -
  have "{j. counts_job (fetch st) (shard_path k) c j} = {j. \<exists>d. fetch st (job_ref j) = Some d
    \<and> projection_ref_for_job d = Some (shard_path k) \<and> counted c (abs_job d)}"
    by (auto simp: counts_job_def split: option.splits)
  then show ?thesis
    using firestore.sys_reach_inv [OF assms] by (simp add: sys_counts_def projection_exact_def job_census_def)
qed

theorem projection_counters_exact_witness:
  "shard_count (mem_fetch (ex_created False) (shard_path ''K'')) C_Queued = int (card {j. \<exists>d.
     mem_fetch (ex_created False) (job_ref j) = Some d \<and> projection_ref_for_job d = Some (shard_path ''K'')
     \<and> counted C_Queued (abs_job d)})"
  by (rule projection_counters_exact [OF mem.firestore_axioms ex_created_reach])

lemma finished_outcomes:
  assumes "ajob_inv a"
  shows "of_bool (counted C_Success a) + of_bool (counted C_Failure a) + of_bool (counted C_Stale a) =
    of_bool (counted C_Completed a) + (of_bool (counted C_Dead a) :: nat)"
proof (cases "a_outcome a")
  case None
  with assms show ?thesis by (auto simp: ajob_inv_def)
next
  case (Some x)
  with assms show ?thesis by (cases x) (simp_all add: ajob_inv_def)
qed

text \<open>Counting the jobs the projection is about, one status or one outcome at a time.\<close>

lemma projected_census_sum:
  assumes "finite (job_ids rd)" "jobs_ok rd"
  shows "projected_census rd C_Accepted = projected_census rd C_Queued + projected_census rd C_Leased
      + projected_census rd C_Blocked + projected_census rd C_Completed + projected_census rd C_Dead"
    and "projected_census rd C_Success + projected_census rd C_Failure + projected_census rd C_Stale =
      projected_census rd C_Completed + projected_census rd C_Dead"
proof -
  define S where "S = {j. \<exists>d. rd (job_ref j) = Some d \<and> projection_ref_for_job d \<noteq> None}"
  define a where "a j = abs_job (the (rd (job_ref j)))" for j
  have fin: "finite S" by (rule finite_subset [OF _ assms(1)]) (auto simp: S_def job_ids_def)
  have inv: "ajob_inv (a j)" if "j \<in> S" for j using that assms(2) by (auto simp: S_def a_def jobs_ok_def)
  have c: "projected_census rd c = (\<Sum>j \<in> S. of_bool (counted c (a j)))" for c
  proof -
    have "{j. \<exists>d. rd (job_ref j) = Some d \<and> projection_ref_for_job d \<noteq> None \<and> counted c (abs_job d)} = S \<inter> {j. counted c (a j)}"
      by (auto simp: S_def a_def)
    moreover have "(\<Sum>j \<in> S. of_bool (counted c (a j))) = card (S \<inter> {j. counted c (a j)})"
      using fin by (induction rule: finite_induct) auto
    ultimately show ?thesis unfolding projected_census_def by (simp only:)
  qed
  show "projected_census rd C_Accepted = projected_census rd C_Queued + projected_census rd C_Leased
      + projected_census rd C_Blocked + projected_census rd C_Completed + projected_census rd C_Dead"
    unfolding c sum.distrib [symmetric]
  proof (rule sum.cong)
    fix j show "of_bool (counted C_Accepted (a j)) = of_bool (counted C_Queued (a j)) + of_bool (counted C_Leased (a j))
      + of_bool (counted C_Blocked (a j)) + of_bool (counted C_Completed (a j)) + (of_bool (counted C_Dead (a j)) :: nat)"
      by (cases "a_status (a j)") simp_all
  qed simp
  show "projected_census rd C_Success + projected_census rd C_Failure + projected_census rd C_Stale =
      projected_census rd C_Completed + projected_census rd C_Dead"
    unfolding c sum.distrib [symmetric]
  proof (rule sum.cong)
    fix j assume "j \<in> S"
    from inv [OF this] show "of_bool (counted C_Success (a j)) + of_bool (counted C_Failure (a j)) + of_bool (counted C_Stale (a j)) =
        of_bool (counted C_Completed (a j)) + (of_bool (counted C_Dead (a j)) :: nat)" by (rule finished_outcomes)
  qed simp
qed

text \<open>
  C6. The published summary accounts for every projected job: the accepted total is their
  number, every one of them is queued, leased, blocked, completed or dead-lettered, and the
  three outcomes add up to the finished ones.
\<close>

theorem summary_accounts_for_every_job:
  assumes "firestore fetch commit" "sys_reach fetch commit ie (C, st)"
    and "s = get_finalization_job_summary (fetch st) oldest now"
  shows "summary_accepted s = int (card {j. \<exists>d. fetch st (job_ref j) = Some d \<and> projection_ref_for_job d \<noteq> None})
    \<and> summary_accepted s = summary_nonterminal s + summary_blocked_byok s + summary_completed s + summary_dead_letter s
    \<and> summary_success s + summary_failure s + summary_stale s = summary_completed s + summary_dead_letter s"
proof -
  have inv: "finite (job_ids (fetch st))" "projection_exact (fetch st)" "shards_labelled (fetch st)"
    "jobs_ok (fetch st)"
    using firestore.sys_reach_inv [OF assms(1,2)] by (simp_all add: sys_ok_def sys_counts_def)
  note t = summary_total_exact [OF inv(2,3,1)]
  have "summary_total (fetch st) (counter_name c) = int (projected_census (fetch st) c)" for c by (rule t)
  note n = this [of C_Accepted] this [of C_Queued] this [of C_Leased] this [of C_Blocked] this [of C_Completed]
    this [of C_Dead] this [of C_Success] this [of C_Failure] this [of C_Stale]
  have "{j. \<exists>d. fetch st (job_ref j) = Some d \<and> projection_ref_for_job d \<noteq> None \<and> counted C_Accepted (abs_job d)} =
      {j. \<exists>d. fetch st (job_ref j) = Some d \<and> projection_ref_for_job d \<noteq> None}" by simp
  then have "int (projected_census (fetch st) C_Accepted) =
      int (card {j. \<exists>d. fetch st (job_ref j) = Some d \<and> projection_ref_for_job d \<noteq> None})"
    unfolding projected_census_def by (rule arg_cong)
  with n [unfolded counter_name.simps] projected_census_sum [OF inv(1,4)] show ?thesis
    unfolding assms(3) get_finalization_job_summary_def job_summary.simps by linarith
qed

theorem summary_accounts_for_every_job_witness:
  "summary_accepted (get_finalization_job_summary (mem_fetch (ex_created False)) (\<lambda>s. None) 5) =
   int (card {j. \<exists>d. mem_fetch (ex_created False) (job_ref j) = Some d \<and> projection_ref_for_job d \<noteq> None})"
  using summary_accounts_for_every_job [OF mem.firestore_axioms ex_created_reach refl] by blast

end
